(* ===== verification/Prelude.thy ===== *)
theory Prelude
  imports Complex_Main "HOL-Library.Word" "HOL-Library.Sublist"
begin

text \<open>
  Shared vocabulary of the development: machine integers, identifiers and times of the Go
  code, the outcome type of a Go call (a value, an error or a panic), sequencing of such
  calls, decimal printing, and generic lemmas on lists, maps and words that the components
  use.

  \<^item> A Go \<^verbatim>\<open>int\<close> is a 64-bit word: \<open>+\<close> and \<open>-\<close> wrap around, comparisons are signed.
  \<^item> A \<^verbatim>\<open>uuid.UUID\<close> is an array of 16 bytes, here a 128-bit word; \<^verbatim>\<open>uuid.Nil\<close> is 0.
  \<^item> A \<^verbatim>\<open>time.Time\<close> is the number of nanoseconds since the zero time, so \<^verbatim>\<open>IsZero\<close> is
    \<open>t = 0\<close>; a \<^verbatim>\<open>time.Duration\<close> is a number of nanoseconds.
  \<^item> A Go map is a HOL map; a map that may be nil is an option of one.
\<close>

section \<open>Types\<close>

type_synonym gint = "64 word"
type_synonym UUID = "128 word"
type_synonym time = int
type_synonym duration = int

abbreviation uuid_Nil :: UUID where "uuid_Nil \<equiv> 0"

abbreviation time_IsZero :: "time \<Rightarrow> bool" where "time_IsZero t \<equiv> t = 0"

named_theorems outcome_simps \<open>rewriting of outcomes and their sequencing\<close>
named_theorems event_simps \<open>event construction and access\<close>
named_theorems error_simps \<open>error values and errors.Is\<close>

section \<open>Outcomes\<close>

text \<open>
  What a Go call does: it returns a value, returns an error, or panics. The panic carries a
  description of its cause.
\<close>

datatype ('e, 'a) outcome = Ret 'a | Fail 'e | Panic string

abbreviation nilDeref :: "('e, 'a) outcome" where
  "nilDeref \<equiv> Panic ''nil pointer dereference''"

fun obind :: "('e, 'a) outcome \<Rightarrow> ('a \<Rightarrow> ('e, 'b) outcome) \<Rightarrow> ('e, 'b) outcome" where
  "obind (Ret a) f = f a"
| "obind (Fail e) f = Fail e"
| "obind (Panic p) f = Panic p"

text \<open>A method call on an interface value that may be nil.\<close>

fun deref :: "'a option \<Rightarrow> ('e, 'a) outcome" where
  "deref None = nilDeref"
| "deref (Some a) = Ret a"

text \<open>\<^verbatim>\<open>if err != nil { return wrap(err) }\<close> after a call.\<close>

fun mapErr :: "('e \<Rightarrow> 'f) \<Rightarrow> ('e, 'a) outcome \<Rightarrow> ('f, 'a) outcome" where
  "mapErr w (Ret a) = Ret a"
| "mapErr w (Fail e) = Fail (w e)"
| "mapErr w (Panic p) = Panic p"

text \<open>A loop that calls \<open>f\<close> on each element in order and stops at the first error or panic.\<close>

fun otraverse :: "('a \<Rightarrow> ('e, 'b) outcome) \<Rightarrow> 'a list \<Rightarrow> ('e, 'b list) outcome" where
  "otraverse f [] = Ret []"
| "otraverse f (x # xs) = obind (f x) (\<lambda>y. obind (otraverse f xs) (\<lambda>ys. Ret (y # ys)))"

fun is_Ret :: "('e, 'a) outcome \<Rightarrow> bool" where
  "is_Ret (Ret _) = True"
| "is_Ret _ = False"

lemma is_Ret_iff: "is_Ret m \<longleftrightarrow> (\<exists>a. m = Ret a)"
  by (cases m) auto

lemma obind_assoc [outcome_simps]: "obind (obind m f) g = obind m (\<lambda>x. obind (f x) g)"
  by (cases m) auto

lemma obind_Ret_right [simp]: "obind m Ret = m"
  by (cases m) auto

lemma obind_eq_Ret [outcome_simps]:
  "obind m f = Ret b \<longleftrightarrow> (\<exists>a. m = Ret a \<and> f a = Ret b)"
  by (cases m) auto

lemma deref_eq_Ret [simp]: "deref x = Ret a \<longleftrightarrow> x = Some a"
  by (cases x) auto

lemma mapErr_eq_Ret [simp]: "mapErr w m = Ret a \<longleftrightarrow> m = Ret a"
  by (cases m) auto

lemma mapErr_eq_Fail [simp]: "mapErr w m = Fail e \<longleftrightarrow> (\<exists>e'. m = Fail e' \<and> e = w e')"
  by (cases m) auto

lemma otraverse_Ret_length: "otraverse f xs = Ret ys \<Longrightarrow> length ys = length xs"
  by (induction xs arbitrary: ys) (auto simp: outcome_simps)

lemma otraverse_Ret_iff:
  "otraverse f xs = Ret ys \<longleftrightarrow> list_all2 (\<lambda>x y. f x = Ret y) xs ys"
  by (induction xs arbitrary: ys) (auto simp: outcome_simps list_all2_Cons1)

lemma otraverse_map_Ret:
  "(\<And>x. x \<in> set xs \<Longrightarrow> f x = Ret (g x)) \<Longrightarrow> otraverse f xs = Ret (map g xs)"
  by (induction xs) auto

section \<open>Decimal printing\<close>

text \<open>The \<^verbatim>\<open>%d\<close> verb on a Go \<^verbatim>\<open>int\<close>.\<close>

definition digit :: "nat \<Rightarrow> char" where
  "digit n = char_of (48 + n)"

fun show_nat :: "nat \<Rightarrow> string" where
  "show_nat n = (if n < 10 then [digit n] else show_nat (n div 10) @ [digit (n mod 10)])"

declare show_nat.simps [simp del]

definition show_gint :: "gint \<Rightarrow> string" where
  "show_gint w = (if sint w < 0 then ''-'' @ show_nat (nat (- sint w)) else show_nat (nat (sint w)))"

lemma show_nat_nonempty [simp]: "show_nat n \<noteq> []"
  by (subst show_nat.simps) simp

section \<open>Strings\<close>

text \<open>\<^verbatim>\<open>strings.Join\<close>.\<close>

fun strings_Join :: "string list \<Rightarrow> string \<Rightarrow> string" where
  "strings_Join [] sep = []"
| "strings_Join [x] sep = x"
| "strings_Join (x # y # xs) sep = x @ sep @ strings_Join (y # xs) sep"

lemma sublist_mid [simp, intro]: "sublist x (a @ x @ b)"
  unfolding sublist_def by blast

lemma sublist_left_app: "sublist x y \<Longrightarrow> sublist x (a @ y)"
  by (simp add: sublist_append)

lemma sublist_right_app: "sublist x y \<Longrightarrow> sublist x (y @ b)"
  by (simp add: sublist_append)

lemma sublist_Cons_app: "sublist x y \<Longrightarrow> sublist x (c # y)"
  by (simp add: sublist_Cons_right)

lemmas sublist_intros = sublist_left_app sublist_right_app sublist_Cons_app sublist_order.order_refl

section \<open>Words\<close>

lemma gint_of_nat_inj:
  "i < 2 ^ 64 \<Longrightarrow> j < 2 ^ 64 \<Longrightarrow> (of_nat i :: gint) = of_nat j \<longleftrightarrow> i = j"
  by (simp add: word_of_nat_eq_iff take_bit_nat_eq_self)

lemma sint_of_nat_gint: "n < 2 ^ 63 \<Longrightarrow> sint (of_nat n :: gint) = int n"
  by (simp add: signed_of_nat signed_take_bit_int_eq_self)

lemma gint_sless_of_nat:
  "i < 2 ^ 63 \<Longrightarrow> j < 2 ^ 63 \<Longrightarrow> (of_nat i :: gint) <s of_nat j \<longleftrightarrow> i < j"
  by (simp add: word_sless_alt sint_of_nat_gint)

lemma not_sless_one: "0 < n \<Longrightarrow> n < 2 ^ 63 \<Longrightarrow> \<not> (of_nat n :: gint) <s 1"
  using gint_sless_of_nat [of n 1] by simp

section \<open>Lists and maps\<close>

lemma list_update_map_Some: "(map Some xs)[i := Some x] = map Some (xs[i := x])"
  by (simp add: map_update)

lemma map_Some_eq_iff [simp]: "map Some xs = map Some ys \<longleftrightarrow> xs = ys"
  by (simp add: inj_map_eq_map)

lemma list_all_nth_append:
  "(\<forall>i < length (xs @ ys). P i ((xs @ ys) ! i)) \<longleftrightarrow>
   (\<forall>i < length xs. P i (xs ! i)) \<and> (\<forall>i < length ys. P (length xs + i) (ys ! i))"
proof (intro iffI conjI allI impI)
  fix i assume "\<forall>i < length (xs @ ys). P i ((xs @ ys) ! i)" and "i < length xs"
  then show "P i (xs ! i)" by (metis length_append nth_append trans_less_add1)
next
  fix i assume "\<forall>i < length (xs @ ys). P i ((xs @ ys) ! i)" and "i < length ys"
  then show "P (length xs + i) (ys ! i)"
    by (metis length_append nat_add_left_cancel_less nth_append_length_plus)
next
  fix i
  assume *: "(\<forall>i < length xs. P i (xs ! i)) \<and> (\<forall>i < length ys. P (length xs + i) (ys ! i))"
    and i: "i < length (xs @ ys)"
  show "P i ((xs @ ys) ! i)"
  proof (cases "i < length xs")
    case True
    with * show ?thesis by (simp add: nth_append)
  next
    case False
    then have "i - length xs < length ys" using i by simp
    with * have "P (length xs + (i - length xs)) (ys ! (i - length xs))" by blast
    with False show ?thesis by (simp add: nth_append)
  qed
qed

end
