(* ===== verification/Values.thy ===== *)
theory Values
  imports Prelude
begin

text \<open>
  The data the components exchange: dynamic Go values (\<^verbatim>\<open>any\<close>, as the reflect package sees
  them), events (\<^verbatim>\<open>event.go\<close>), commands (\<^verbatim>\<open>command.go\<close>), entities (\<^verbatim>\<open>entity.go\<close>), snapshots
  (\<^verbatim>\<open>snapshot.go\<close>) and contexts.
\<close>

section \<open>Dynamic values\<close>

text \<open>
  One constructor per kind of \<^verbatim>\<open>reflect\<close> that the code distinguishes. Slices, maps, pointers
  and interfaces can be nil. A \<^verbatim>\<open>uuid.UUID\<close> is an array and a \<^verbatim>\<open>time.Time\<close> a struct for
  reflect, and both are recognised by their type. A struct carries its type name and its
  fields; a field carries its name, whether it is exported (\<^verbatim>\<open>PkgPath\<close> is empty), its \<^verbatim>\<open>eh\<close>
  tag, the answer of its value's own \<^verbatim>\<open>IsZero\<close> method where the type has one, and its value.
\<close>

datatype gvalue =
    GBool bool
  | GInt gint
  | GFloat rat
  | GString string
  | GUUID UUID
  | GTime time
  | GSlice "gvalue list option"
  | GMap "(string \<times> gvalue) list option"
  | GArray "gvalue list"
  | GInterface "gvalue option"
  | GStruct string "gfield list"
  | GPtr "gvalue option"
  | GFunc
  | GChan
  | GUnsafePointer
and gfield =
    GField (fieldName: string) (fieldExported: bool) (fieldTag: string)
      (fieldIsZeroer: "bool option") (fieldValue: gvalue)

text \<open>A struct field with no tag and no \<^verbatim>\<open>IsZero\<close> method.\<close>

abbreviation pubField :: "string \<Rightarrow> gvalue \<Rightarrow> gfield" where
  "pubField n v \<equiv> GField n True '''' None v"

text \<open>A pointer to a struct of a given type, as event data and commands usually are.\<close>

abbreviation gstructPtr :: "string \<Rightarrow> gfield list \<Rightarrow> gvalue" where
  "gstructPtr t fs \<equiv> GPtr (Some (GStruct t fs))"

text \<open>Type assertions \<^verbatim>\<open>v.(T)\<close> on a possibly nil interface value.\<close>

fun asString :: "gvalue option \<Rightarrow> string option" where
  "asString (Some (GString s)) = Some s"
| "asString _ = None"

fun asUUID :: "gvalue option \<Rightarrow> UUID option" where
  "asUUID (Some (GUUID u)) = Some u"
| "asUUID _ = None"

fun asInt :: "gvalue option \<Rightarrow> gint option" where
  "asInt (Some (GInt i)) = Some i"
| "asInt _ = None"

fun asFloat :: "gvalue option \<Rightarrow> rat option" where
  "asFloat (Some (GFloat r)) = Some r"
| "asFloat _ = None"

text \<open>\<^verbatim>\<open>v.(*T)\<close> for a struct type named \<open>t\<close>: the fields of the struct.\<close>

fun asStructPtr :: "string \<Rightarrow> gvalue option \<Rightarrow> gfield list option" where
  "asStructPtr t (Some (GPtr (Some (GStruct t' fs)))) = (if t = t' then Some fs else None)"
| "asStructPtr t _ = None"

text \<open>A struct field read through its name; a struct of the type has all its fields.\<close>

definition structField :: "string \<Rightarrow> gfield list \<Rightarrow> gvalue option" where
  "structField n fs = map_option fieldValue (find (\<lambda>f. fieldName f = n) fs)"

definition stringField :: "string \<Rightarrow> gfield list \<Rightarrow> string" where
  "stringField n fs = (case asString (structField n fs) of Some s \<Rightarrow> s | None \<Rightarrow> '''')"

definition intField :: "string \<Rightarrow> gfield list \<Rightarrow> gint" where
  "intField n fs = (case asInt (structField n fs) of Some i \<Rightarrow> i | None \<Rightarrow> 0)"

definition boolField :: "string \<Rightarrow> gfield list \<Rightarrow> bool" where
  "boolField n fs = (case structField n fs of Some (GBool b) \<Rightarrow> b | _ \<Rightarrow> False)"

section \<open>Events\<close>

type_synonym EventData = "gvalue option"
type_synonym Metadata = "(string \<rightharpoonup> gvalue) option"

text \<open>\<^verbatim>\<open>type event struct\<close>; nil data and a nil metadata map are \<^const>\<open>None\<close>.\<close>

record event =
  eventType :: string
  data :: EventData
  timestamp :: time
  aggregateType :: string
  aggregateID :: UUID
  version :: gint
  metadata :: Metadata

section \<open>Commands\<close>

text \<open>
  What the code observes of an \<^verbatim>\<open>eh.Command\<close>: the three methods of the interface, the ID of
  a command that implements \<^verbatim>\<open>CommandIDer\<close>, and the value behind the interface.
\<close>

record command =
  cmdAggregateID :: UUID
  cmdAggregateType :: string
  cmdType :: string
  cmdID :: "UUID option"
  cmdValue :: gvalue

text \<open>Whether a command is a pointer to a struct of the given type.\<close>

definition isCmd :: "string \<Rightarrow> command \<Rightarrow> bool" where
  "isCmd t cmd \<longleftrightarrow> asStructPtr t (Some (cmdValue cmd)) \<noteq> None"

section \<open>Entities and snapshots\<close>

text \<open>
  What the code observes of an \<^verbatim>\<open>eh.Entity\<close>: its ID, its version where it is an
  \<^verbatim>\<open>eh.Versionable\<close>, and the value behind the interface.
\<close>

record entity =
  entityID :: UUID
  entityVersion :: "gint option"
  entityBody :: gvalue

record Snapshot =
  snapVersion :: gint
  snapAggregateType :: string
  snapTimestamp :: time
  snapState :: EventData

section \<open>Contexts\<close>

text \<open>
  A \<^verbatim>\<open>context.Context\<close>: its values by key, its deadline and, once it is done, the error it
  is done with. The keys are private to the packages that define them, so values stored under
  one key always have that key's type.
\<close>

datatype ctxKey =
    AggregateIDKey | AggregateTypeKey | CommandTypeKey
  | MinVersionKey | NamespaceKey | OtherKey string

datatype ctxDone = Canceled | DeadlineExceeded

record ctx =
  ctxValue :: "ctxKey \<rightharpoonup> gvalue"
  ctxDeadline :: "time option"
  ctxDone :: "ctxDone option"

definition context_Background :: ctx where
  "context_Background = \<lparr>ctxValue = Map.empty, ctxDeadline = None, ctxDone = None\<rparr>"

definition context_WithValue :: "ctx \<Rightarrow> ctxKey \<Rightarrow> gvalue \<Rightarrow> ctx" where
  "context_WithValue c k v = c\<lparr>ctxValue := (ctxValue c)(k \<mapsto> v)\<rparr>"

lemma ctxValue_WithValue [simp]:
  "ctxValue (context_WithValue c k v) = (ctxValue c)(k \<mapsto> v)"
  by (simp add: context_WithValue_def)

end
