(* ===== verification/Errors.thy ===== *)
theory Errors
  imports Values
begin

text \<open>
  Errors as values: the sentinel errors of the packages, the error structs that wrap them,
  the \<^verbatim>\<open>Unwrap\<close> and \<^verbatim>\<open>Error\<close> methods of those structs and \<^verbatim>\<open>errors.Is\<close>.
\<close>

section \<open>Error values\<close>

datatype sentinel =
    \<comment> \<open>\<^verbatim>\<open>aggregate.go\<close>, \<^verbatim>\<open>command.go\<close>, \<^verbatim>\<open>command_check.go\<close>, \<^verbatim>\<open>event.go\<close>, \<^verbatim>\<open>snapshot.go\<close>\<close>
    ErrAggregateNotFound | ErrAggregateNotRegistered | ErrCommandNotRegistered
  | ErrMissingCommand | ErrMissingAggregateID | ErrEventDataNotRegistered
  | ErrSnapshotDataNotRegistered
    \<comment> \<open>\<^verbatim>\<open>eventstore.go\<close>\<close>
  | ErrMissingEvents | ErrMismatchedEventAggregateIDs | ErrMismatchedEventAggregateTypes
  | ErrIncorrectEventVersion | ErrEventConflictFromOtherSave | ErrEventNotFound
    \<comment> \<open>\<^verbatim>\<open>eventbus.go\<close>, \<^verbatim>\<open>eventhandler.go\<close>, \<^verbatim>\<open>repo.go\<close>\<close>
  | ErrMissingMatcher | ErrMissingHandler | ErrHandlerAlreadyAdded | ErrMissingEvent
  | ErrEntityNotFound | ErrEntityHasNoVersion | ErrIncorrectEntityVersion
    \<comment> \<open>the aggregate stores and the command handlers\<close>
  | ErrInvalidEventStore | ErrAggregateNotVersioned | ErrMismatchedEventType
  | ErrInvalidRepo | ErrInvalidAggregate
  | ErrNilAggregateStore | ErrHandlerAlreadySet | ErrHandlerNotFound
    \<comment> \<open>the projector, the memory repo, the locks and the command scheduler\<close>
  | ErrModelNotSet | ErrModelRemoved | ErrIncorrectProjectedEntityVersion
  | ErrRepoModelNotSet | ErrLockExists | ErrNoLockExists | ErrCanceled
    \<comment> \<open>the collection name checks and the MongoDB driver\<close>
  | ErrMissingCollectionName | ErrInvalidCharInCollectionName | MongoErrNoDocuments | ErrNoCursor
    \<comment> \<open>the context package\<close>
  | ErrContextCanceled | ErrContextDeadlineExceeded

text \<open>
  \<open>NewError\<close> is an error made on the spot by \<^verbatim>\<open>errors.New\<close> or by \<^verbatim>\<open>fmt.Errorf\<close> without a
  \<^verbatim>\<open>%w\<close> verb; \<open>Wrapf p e\<close> is \<^verbatim>\<open>fmt.Errorf\<close> with prefix \<open>p\<close> and \<open>e\<close> under \<^verbatim>\<open>%w\<close>. The other
  constructors are the error structs of the packages; a field that can be nil is an option.
\<close>

datatype err =
    Sentinel sentinel
  | NewError string
  | Wrapf string err
  | EventStoreError "err option" string string UUID gint "event option list"
  | AggregateStoreError "err option" string string UUID
  | AggregateError err
  | CommandFieldError string
  | EventHandlerError "err option" "event option"
  | EventBusError "err option" ctx "event option"
  | OutboxError "err option" ctx "event option"
  | RepoError "err option" string UUID
  | ProjectorError "err option" string "event option" UUID gint
  | SagaError err string
  | CommandError err ctx command
  | ValidateError err
  | NamespaceError err string

type_synonym 'a go = "(err, 'a) outcome"

section \<open>Unwrap and errors.Is\<close>

fun unwrap :: "err \<Rightarrow> err option" where
  "unwrap (Sentinel s) = None"
| "unwrap (NewError m) = None"
| "unwrap (Wrapf p e) = Some e"
| "unwrap (EventStoreError e _ _ _ _ _) = e"
| "unwrap (AggregateStoreError e _ _ _) = e"
| "unwrap (AggregateError e) = Some e"
| "unwrap (CommandFieldError f) = None"
| "unwrap (EventHandlerError e _) = e"
| "unwrap (EventBusError e _ _) = e"
| "unwrap (OutboxError e _ _) = e"
| "unwrap (RepoError e _ _) = e"
| "unwrap (ProjectorError e _ _ _ _) = e"
| "unwrap (SagaError e _) = Some e"
| "unwrap (CommandError e _ _) = Some e"
| "unwrap (ValidateError e) = Some e"
| "unwrap (NamespaceError e _) = Some e"

lemma unwrap_size [termination_simp]: "unwrap e = Some e' \<Longrightarrow> size e' < size e"
  by (cases e) auto

text \<open>\<^verbatim>\<open>errors.Is\<close> against a sentinel error: the chain of unwrapped errors meets it.\<close>

fun errors_Is :: "err \<Rightarrow> sentinel \<Rightarrow> bool" where
  "errors_Is e s = (e = Sentinel s \<or> (case unwrap e of None \<Rightarrow> False | Some e' \<Rightarrow> errors_Is e' s))"

declare errors_Is.simps [simp del]

lemma errors_Is_simps [simp, error_simps]:
  "errors_Is (Sentinel t) s \<longleftrightarrow> t = s"
  "errors_Is (NewError m) s \<longleftrightarrow> False"
  "errors_Is (Wrapf p e) s \<longleftrightarrow> errors_Is e s"
  "errors_Is (EventStoreError eo op a i v es) s \<longleftrightarrow> (\<exists>e. eo = Some e \<and> errors_Is e s)"
  "errors_Is (AggregateStoreError eo op a i) s \<longleftrightarrow> (\<exists>e. eo = Some e \<and> errors_Is e s)"
  "errors_Is (AggregateError e) s \<longleftrightarrow> errors_Is e s"
  "errors_Is (CommandFieldError f) s \<longleftrightarrow> False"
  "errors_Is (EventHandlerError eo ev) s \<longleftrightarrow> (\<exists>e. eo = Some e \<and> errors_Is e s)"
  "errors_Is (EventBusError eo c ev) s \<longleftrightarrow> (\<exists>e. eo = Some e \<and> errors_Is e s)"
  "errors_Is (OutboxError eo c ev) s \<longleftrightarrow> (\<exists>e. eo = Some e \<and> errors_Is e s)"
  "errors_Is (RepoError eo op i) s \<longleftrightarrow> (\<exists>e. eo = Some e \<and> errors_Is e s)"
  "errors_Is (ProjectorError eo p ev i v) s \<longleftrightarrow> (\<exists>e. eo = Some e \<and> errors_Is e s)"
  "errors_Is (SagaError e n) s \<longleftrightarrow> errors_Is e s"
  "errors_Is (CommandError e c cmd) s \<longleftrightarrow> errors_Is e s"
  "errors_Is (ValidateError e) s \<longleftrightarrow> errors_Is e s"
  "errors_Is (NamespaceError e n) s \<longleftrightarrow> errors_Is e s"
  by (subst errors_Is.simps; auto split: option.splits)+

section \<open>Error strings\<close>

text \<open>
  The \<^verbatim>\<open>Error\<close> methods. Printing a UUID is the UUID library's, so it is a parameter
  (\<open>us\<close>). \<^verbatim>\<open>event.String\<close> is part of the error texts.
\<close>

definition event_String :: "(UUID \<Rightarrow> string) \<Rightarrow> event \<Rightarrow> string" where
  "event_String us e = eventType e @
     (if aggregateID e \<noteq> uuid_Nil \<and> version e \<noteq> 0
      then ''('' @ us (aggregateID e) @ '', v'' @ show_gint (version e) @ '')'' else '''')"

fun sentinel_text :: "sentinel \<Rightarrow> string" where
  "sentinel_text ErrAggregateNotFound = ''aggregate not found''"
| "sentinel_text ErrAggregateNotRegistered = ''aggregate not registered''"
| "sentinel_text ErrCommandNotRegistered = ''command not registered''"
| "sentinel_text ErrMissingCommand = ''missing command''"
| "sentinel_text ErrMissingAggregateID = ''missing aggregate ID''"
| "sentinel_text ErrEventDataNotRegistered = ''event data not registered''"
| "sentinel_text ErrSnapshotDataNotRegistered = ''snapshot data not registered''"
| "sentinel_text ErrMissingEvents = ''missing events''"
| "sentinel_text ErrMismatchedEventAggregateIDs = ''mismatched event aggregate IDs''"
| "sentinel_text ErrMismatchedEventAggregateTypes = ''mismatched event aggregate types''"
| "sentinel_text ErrIncorrectEventVersion = ''incorrect event version''"
| "sentinel_text ErrEventConflictFromOtherSave = ''event conflict from other save''"
| "sentinel_text ErrEventNotFound = ''event not found''"
| "sentinel_text ErrMissingMatcher = ''missing matcher''"
| "sentinel_text ErrMissingHandler = ''missing handler''"
| "sentinel_text ErrHandlerAlreadyAdded = ''handler already added''"
| "sentinel_text ErrMissingEvent = ''missing event''"
| "sentinel_text ErrEntityNotFound = ''could not find entity''"
| "sentinel_text ErrEntityHasNoVersion = ''entity has no version''"
| "sentinel_text ErrIncorrectEntityVersion = ''incorrect entity version''"
| "sentinel_text ErrInvalidEventStore = ''invalid event store''"
| "sentinel_text ErrAggregateNotVersioned = ''aggregate is not versioned''"
| "sentinel_text ErrMismatchedEventType = ''mismatched event type and aggregate type''"
| "sentinel_text ErrInvalidRepo = ''invalid repo''"
| "sentinel_text ErrInvalidAggregate = ''invalid aggregate''"
| "sentinel_text ErrNilAggregateStore = ''aggregate store is nil''"
| "sentinel_text ErrHandlerAlreadySet = ''handler is already set''"
| "sentinel_text ErrHandlerNotFound = ''no handlers for command''"
| "sentinel_text ErrModelNotSet = ''model not set''"
| "sentinel_text ErrModelRemoved = ''model removed''"
| "sentinel_text ErrIncorrectProjectedEntityVersion = ''incorrect projected entity version''"
| "sentinel_text ErrRepoModelNotSet = ''model not set''"
| "sentinel_text ErrLockExists = ''lock exists''"
| "sentinel_text ErrNoLockExists = ''no lock exists''"
| "sentinel_text ErrCanceled = ''canceled''"
| "sentinel_text ErrMissingCollectionName = ''missing collection name''"
| "sentinel_text ErrInvalidCharInCollectionName = ''invalid char in collection name (space)''"
| "sentinel_text MongoErrNoDocuments = ''mongo: no documents in result''"
| "sentinel_text ErrNoCursor = ''no cursor''"
| "sentinel_text ErrContextCanceled = ''context canceled''"
| "sentinel_text ErrContextDeadlineExceeded = ''context deadline exceeded''"

text \<open>
  The \<^verbatim>\<open>Error\<close> method of each error type. The text of the wrapped error comes as an argument,
  \<^const>\<open>None\<close> where that error is nil.
\<close>

definition opPrefix :: "string \<Rightarrow> string" where
  "opPrefix op = (if op \<noteq> '''' then op @ '': '' else '''')"

definition orUnknown :: "string option \<Rightarrow> string" where
  "orUnknown et = (case et of None \<Rightarrow> ''unknown error'' | Some t \<Rightarrow> t)"

definition eventOrNil :: "(UUID \<Rightarrow> string) \<Rightarrow> event option \<Rightarrow> string" where
  "eventOrNil us ev = (case ev of None \<Rightarrow> ''nil event'' | Some e \<Rightarrow> event_String us e)"

definition eventSuffix :: "(UUID \<Rightarrow> string) \<Rightarrow> string \<Rightarrow> event option \<Rightarrow> string \<Rightarrow> string" where
  "eventSuffix us pre ev post = (case ev of None \<Rightarrow> '''' | Some e \<Rightarrow> pre @ event_String us e @ post)"

definition EventStoreError_Error ::
    "(UUID \<Rightarrow> string) \<Rightarrow> string option \<Rightarrow> string \<Rightarrow> string \<Rightarrow> UUID \<Rightarrow> gint \<Rightarrow> event option list \<Rightarrow> string" where
  "EventStoreError_Error us et op agt aid v es =
     ''event store: '' @ opPrefix op @ orUnknown et @
     (if aid \<noteq> uuid_Nil
      then '', '' @ (if agt \<noteq> '''' then agt else ''Aggregate'') @ ''('' @ us aid @ '', v'' @ show_gint v @ '')''
      else '''') @
     (if es \<noteq> [] then '' ['' @ strings_Join (map (eventOrNil us) es) '', '' @ '']'' else '''')"

definition AggregateStoreError_Error ::
    "(UUID \<Rightarrow> string) \<Rightarrow> string option \<Rightarrow> string \<Rightarrow> string \<Rightarrow> UUID \<Rightarrow> string" where
  "AggregateStoreError_Error us et op agt aid =
     ''aggregate store: '' @ opPrefix op @ orUnknown et @
     (if aid \<noteq> uuid_Nil then '', '' @ (if agt \<noteq> '''' then agt else ''Aggregate'') @ ''('' @ us aid @ '')'' else '''')"

definition EventHandlerError_Error :: "(UUID \<Rightarrow> string) \<Rightarrow> string option \<Rightarrow> event option \<Rightarrow> string" where
  "EventHandlerError_Error us et ev = ''could not handle event: '' @ orUnknown et @ eventSuffix us '', '' ev ''''"

definition EventBusError_Error :: "(UUID \<Rightarrow> string) \<Rightarrow> string option \<Rightarrow> event option \<Rightarrow> string" where
  "EventBusError_Error us et ev = ''event bus: '' @ orUnknown et @ eventSuffix us '' ['' ev '']''"

definition OutboxError_Error :: "(UUID \<Rightarrow> string) \<Rightarrow> string option \<Rightarrow> event option \<Rightarrow> string" where
  "OutboxError_Error us et ev = ''outbox: '' @ orUnknown et @ eventSuffix us '' ['' ev '']''"

definition RepoError_Error :: "(UUID \<Rightarrow> string) \<Rightarrow> string option \<Rightarrow> string \<Rightarrow> UUID \<Rightarrow> string" where
  "RepoError_Error us et op i =
     ''repo: '' @ opPrefix op @ orUnknown et @ (if i \<noteq> uuid_Nil then '' '' @ us i @ '' '' else '''')"

definition ProjectorError_Error ::
    "(UUID \<Rightarrow> string) \<Rightarrow> string option \<Rightarrow> string \<Rightarrow> event option \<Rightarrow> UUID \<Rightarrow> gint \<Rightarrow> string" where
  "ProjectorError_Error us et p ev i v =
     ''projector '' @ [CHR 0x27] @ p @ [CHR 0x27] @ '': '' @ orUnknown et @
     (if i \<noteq> uuid_Nil then '', Entity('' @ us i @ '', v'' @ show_gint v @ '')'' else '''') @
     eventSuffix us '', '' ev ''''"

fun error_string :: "(UUID \<Rightarrow> string) \<Rightarrow> err \<Rightarrow> string" where
  "error_string us (Sentinel s) = sentinel_text s"
| "error_string us (NewError m) = m"
| "error_string us (Wrapf p e) = p @ '': '' @ error_string us e"
| "error_string us (EventStoreError eo op a i v es) =
     EventStoreError_Error us (map_option (error_string us) eo) op a i v es"
| "error_string us (AggregateStoreError eo op a i) =
     AggregateStoreError_Error us (map_option (error_string us) eo) op a i"
| "error_string us (AggregateError e) = ''aggregate error: '' @ error_string us e"
| "error_string us (CommandFieldError f) = ''missing field: '' @ f"
| "error_string us (EventHandlerError eo ev) = EventHandlerError_Error us (map_option (error_string us) eo) ev"
| "error_string us (EventBusError eo c ev) = EventBusError_Error us (map_option (error_string us) eo) ev"
| "error_string us (OutboxError eo c ev) = OutboxError_Error us (map_option (error_string us) eo) ev"
| "error_string us (RepoError eo op i) = RepoError_Error us (map_option (error_string us) eo) op i"
| "error_string us (ProjectorError eo p ev i v) =
     ProjectorError_Error us (map_option (error_string us) eo) p ev i v"
| "error_string us (SagaError e n) = n @ '': '' @ error_string us e"
| "error_string us (CommandError e c cmd) =
     cmdType cmd @ '' ('' @ us (cmdAggregateID cmd) @ ''): '' @ error_string us e"
| "error_string us (ValidateError e) = ''invalid command: '' @ error_string us e"
| "error_string us (NamespaceError e n) = error_string us e @ '' ('' @ n @ '')''"

lemmas error_texts = EventStoreError_Error_def AggregateStoreError_Error_def EventHandlerError_Error_def
  EventBusError_Error_def OutboxError_Error_def RepoError_Error_def ProjectorError_Error_def orUnknown_def

section \<open>Properties\<close>

text \<open>
  an error that wraps another keeps its text: the text of whatever \<open>unwrap\<close> gives is a
  contiguous part of the wrapper's text.
\<close>

theorem unwrap_text_sublist:
  "unwrap e = Some c \<Longrightarrow> sublist (error_string us c) (error_string us e)"
  by (cases e) (auto simp: error_texts intro: sublist_intros intro!: sublist_Cons_app)

theorem unwrap_text_sublist_witness:
  "sublist ''missing events'' (error_string (\<lambda>_. ''id'')
     (EventStoreError (Some (Sentinel ErrMissingEvents)) ''save'' ''T'' 7 2 []))"
  using unwrap_text_sublist [of "EventStoreError (Some (Sentinel ErrMissingEvents)) ''save'' ''T'' 7 2 []"
      "Sentinel ErrMissingEvents" "\<lambda>_. ''id''"] by simp

end
