(* ===== verification/Registry.thy ===== *)
theory Registry
  imports Errors
begin

text \<open>
  The type registries (\<^verbatim>\<open>registry.go\<close>) and what is built on them: event data
  (\<^verbatim>\<open>event.go\<close>), aggregates (\<^verbatim>\<open>aggregate.go\<close>), commands (\<^verbatim>\<open>command.go\<close>) and snapshot data
  (\<^verbatim>\<open>snapshot.go\<close>). All keys are string types, whose zero value is the empty string. Every
  operation holds the registry's mutex, so an operation is one atomic step.
\<close>

section \<open>typeRegistry\<close>

record 'f typeRegistry =
  items :: "string \<rightharpoonup> 'f"
  regName :: string

definition newTypeRegistry :: "string \<Rightarrow> 'f typeRegistry" where
  "newTypeRegistry n = \<lparr>items = Map.empty, regName = n\<rparr>"

definition register :: "'f typeRegistry \<Rightarrow> string \<Rightarrow> 'f \<Rightarrow> 'f typeRegistry go" where
  "register r key factory =
     (if key = '''' then Panic (''eventhorizon: attempt to register empty '' @ regName r @ '' type'')
      else case items r key of
        Some _ \<Rightarrow> Panic (''eventhorizon: registering duplicate types for '' @ key)
      | None \<Rightarrow> Ret (r\<lparr>items := (items r)(key \<mapsto> factory)\<rparr>))"

definition unregister :: "'f typeRegistry \<Rightarrow> string \<Rightarrow> 'f typeRegistry go" where
  "unregister r key =
     (if key = '''' then Panic (''eventhorizon: attempt to unregister empty '' @ regName r @ '' type'')
      else case items r key of
        None \<Rightarrow> Panic (''eventhorizon: unregister of non-registered type '' @ key)
      | Some _ \<Rightarrow> Ret (r\<lparr>items := (items r)(key := None)\<rparr>))"

definition registry_get :: "'f typeRegistry \<Rightarrow> string \<Rightarrow> 'f option" where
  "registry_get r key = items r key"

definition registry_reset :: "'f typeRegistry \<Rightarrow> 'f typeRegistry" where
  "registry_reset r = r\<lparr>items := Map.empty\<rparr>"

definition registry_all :: "'f typeRegistry \<Rightarrow> (string \<rightharpoonup> 'f)" where
  "registry_all r = items r"

text \<open>No registry holds an entry under the empty type name.\<close>

definition registry_inv :: "'f typeRegistry \<Rightarrow> bool" where
  "registry_inv r \<longleftrightarrow> items r '''' = None"

datatype 'f regOp = Register string 'f | Unregister string | Reset

text \<open>One call, where a panic that is recovered leaves the registry as it was.\<close>

fun regStep :: "'f typeRegistry \<Rightarrow> 'f regOp \<Rightarrow> 'f typeRegistry" where
  "regStep r (Register k f) = (case register r k f of Ret r' \<Rightarrow> r' | _ \<Rightarrow> r)"
| "regStep r (Unregister k) = (case unregister r k of Ret r' \<Rightarrow> r' | _ \<Rightarrow> r)"
| "regStep r Reset = registry_reset r"

section \<open>Factories\<close>

text \<open>
  An event data factory is represented by the value it creates. \<open>CreateEventData\<close> fails when
  the type has no factory.
\<close>

definition RegisterEventData ::
    "EventData typeRegistry \<Rightarrow> string \<Rightarrow> EventData \<Rightarrow> EventData typeRegistry go" where
  "RegisterEventData r t factory = register r t factory"

definition UnregisterEventData ::
    "EventData typeRegistry \<Rightarrow> string \<Rightarrow> EventData typeRegistry go" where
  "UnregisterEventData r t = unregister r t"

definition CreateEventData :: "EventData typeRegistry \<Rightarrow> string \<Rightarrow> EventData go" where
  "CreateEventData r t =
     (case registry_get r t of
        Some factory \<Rightarrow> Ret factory
      | None \<Rightarrow> Fail (Sentinel ErrEventDataNotRegistered))"

text \<open>
  An aggregate factory maps an ID to an aggregate, which can be nil. Registering calls it
  once on a fresh ID to learn the aggregate's type.
\<close>

definition RegisterAggregate ::
    "('a \<Rightarrow> string) \<Rightarrow> (UUID \<Rightarrow> 'a option) typeRegistry \<Rightarrow> UUID \<Rightarrow> (UUID \<Rightarrow> 'a option) \<Rightarrow>
     (UUID \<Rightarrow> 'a option) typeRegistry go" where
  "RegisterAggregate typeOf r fresh factory =
     (case factory fresh of
        None \<Rightarrow> Panic ''eventhorizon: created aggregate is nil''
      | Some a \<Rightarrow> register r (typeOf a) factory)"

definition CreateAggregate ::
    "(UUID \<Rightarrow> 'a option) typeRegistry \<Rightarrow> string \<Rightarrow> UUID \<Rightarrow> 'a option go" where
  "CreateAggregate r t aid =
     (case registry_get r t of
        Some factory \<Rightarrow> Ret (factory aid)
      | None \<Rightarrow> Fail (Sentinel ErrAggregateNotRegistered))"

definition UnregisterAggregate ::
    "(UUID \<Rightarrow> 'a option) typeRegistry \<Rightarrow> string \<Rightarrow> (UUID \<Rightarrow> 'a option) typeRegistry go" where
  "UnregisterAggregate r t = unregister r t"

text \<open>A command factory is represented by the command it creates, which can be nil.\<close>

definition RegisterCommand ::
    "command option typeRegistry \<Rightarrow> command option \<Rightarrow> command option typeRegistry go" where
  "RegisterCommand r factory =
     (case factory of
        None \<Rightarrow> Panic ''eventhorizon: created command is nil''
      | Some c \<Rightarrow> register r (cmdType c) factory)"

definition UnregisterCommand ::
    "command option typeRegistry \<Rightarrow> string \<Rightarrow> command option typeRegistry go" where
  "UnregisterCommand r t = unregister r t"

definition CreateCommand :: "command option typeRegistry \<Rightarrow> string \<Rightarrow> command option go" where
  "CreateCommand r t =
     (case registry_get r t of
        Some factory \<Rightarrow> Ret factory
      | None \<Rightarrow> Fail (Sentinel ErrCommandNotRegistered))"

definition RegisteredCommands :: "command option typeRegistry \<Rightarrow> (string \<rightharpoonup> command option)" where
  "RegisteredCommands r = registry_all r"

definition RegisterSnapshotData ::
    "(UUID \<Rightarrow> EventData) typeRegistry \<Rightarrow> string \<Rightarrow> (UUID \<Rightarrow> EventData) \<Rightarrow>
     (UUID \<Rightarrow> EventData) typeRegistry go" where
  "RegisterSnapshotData r t factory = register r t factory"

definition CreateSnapshotData ::
    "(UUID \<Rightarrow> EventData) typeRegistry \<Rightarrow> UUID \<Rightarrow> string \<Rightarrow> EventData go" where
  "CreateSnapshotData r aid t =
     (case registry_get r t of
        Some factory \<Rightarrow> Ret (factory aid)
      | None \<Rightarrow> Fail (Sentinel ErrSnapshotDataNotRegistered))"

section \<open>The registry contract\<close>

text \<open>
  What the clients of a registry rely on: a registered type is found until it is
  unregistered, and operations on one type do not affect another.
\<close>

locale registry_spec =
  fixes reg :: "'r \<Rightarrow> string \<Rightarrow> 'f \<Rightarrow> 'r go"
    and unreg :: "'r \<Rightarrow> string \<Rightarrow> 'r go"
    and lookup :: "'r \<Rightarrow> string \<Rightarrow> 'f option"
    and invar :: "'r \<Rightarrow> bool"
  assumes reg_ok: "invar r \<Longrightarrow> (\<exists>r'. reg r k f = Ret r') \<longleftrightarrow> k \<noteq> '''' \<and> lookup r k = None"
    and reg_lookup: "invar r \<Longrightarrow> reg r k f = Ret r' \<Longrightarrow> lookup r' = (lookup r)(k \<mapsto> f) \<and> invar r'"
    and unreg_ok: "invar r \<Longrightarrow> (\<exists>r'. unreg r k = Ret r') \<longleftrightarrow> lookup r k \<noteq> None"
    and unreg_lookup: "invar r \<Longrightarrow> unreg r k = Ret r' \<Longrightarrow> lookup r' = (lookup r)(k := None) \<and> invar r'"
begin

lemma reg_unreg_roundtrip:
  assumes "invar r" and "reg r k f = Ret r'"
  shows "\<exists>r''. unreg r' k = Ret r'' \<and> lookup r'' = lookup r"
proof -
  from reg_lookup [OF assms] have l: "lookup r' = (lookup r)(k \<mapsto> f)" and i: "invar r'" by auto
  from l have "lookup r' k \<noteq> None" by simp
  with unreg_ok [OF i, of k] obtain r'' where u: "unreg r' k = Ret r''" by auto
  from reg_ok [OF assms(1), of k f] assms(2) have "lookup r k = None" by auto
  with unreg_lookup [OF i u] l have "lookup r'' = lookup r" by (auto simp: fun_eq_iff)
  with u show ?thesis by blast
qed

lemma reg_twice_fails: "invar r \<Longrightarrow> reg r k f = Ret r' \<Longrightarrow> \<not> (\<exists>r''. reg r' k g = Ret r'')"
  using reg_lookup reg_ok by (metis fun_upd_same option.distinct(1))

end

lemmas registry_defs = register_def unregister_def registry_get_def registry_inv_def

interpretation tr: registry_spec register unregister registry_get registry_inv
  by unfold_locales (auto simp: registry_defs fun_eq_iff split: option.splits if_splits)

section \<open>Properties\<close>

lemma regStep_inv: "registry_inv r \<Longrightarrow> registry_inv (regStep r op)"
  by (cases op) (auto simp: registry_defs registry_reset_def split: option.splits)

lemma regSteps_inv: "registry_inv r \<Longrightarrow> registry_inv (fold (\<lambda>op r. regStep r op) ops r)"
  by (induction ops arbitrary: r) (auto intro: regStep_inv)

lemma register_effect:
  assumes "registry_inv r" and "register r k f = Ret r'"
  shows "registry_get r' k = Some f \<and> (\<forall>k'. k' \<noteq> k \<longrightarrow> registry_get r' k' = registry_get r k') \<and>
    (\<forall>g. \<exists>p. register r' k g = Panic p) \<and> (\<exists>r''. unregister r' k = Ret r'' \<and> registry_get r'' = registry_get r)"
proof -
  have "\<exists>p. register r' k g = Panic p" for g
    using assms by (auto simp: registry_defs split: option.splits if_splits)
  then show ?thesis
    using tr.reg_lookup [OF assms] tr.reg_unreg_roundtrip [OF assms] by auto
qed

text \<open>Sequences of registrations and removals of commands; a panic that is recovered leaves the registry as it was.\<close>

datatype cmdRegOp = RegCmd "command option" | UnregCmd string

fun cmdRegStep :: "cmdRegOp \<Rightarrow> command option typeRegistry \<Rightarrow> command option typeRegistry" where
  "cmdRegStep (RegCmd f) r = (case RegisterCommand r f of Ret r' \<Rightarrow> r' | _ \<Rightarrow> r)"
| "cmdRegStep (UnregCmd t) r = (case UnregisterCommand r t of Ret r' \<Rightarrow> r' | _ \<Rightarrow> r)"

definition cmdTyped :: "command option typeRegistry \<Rightarrow> bool" where
  "cmdTyped r \<longleftrightarrow> registry_inv r \<and> (\<forall>t f. registry_get r t = Some f \<longrightarrow> (\<exists>c. f = Some c \<and> cmdType c = t))"

lemma cmdRegStep_typed: "cmdTyped r \<Longrightarrow> cmdTyped (cmdRegStep op r)"
proof (cases op)
  case (RegCmd f)
  assume r: "cmdTyped r"
  show ?thesis
  proof (cases f)
    case (Some c)
    show ?thesis
    proof (cases "register r (cmdType c) f")
      case (Ret r')
      from r have "registry_inv r" by (simp add: cmdTyped_def)
      from tr.reg_lookup [OF this Ret] r RegCmd Some Ret show ?thesis
        by (auto simp: cmdTyped_def RegisterCommand_def split: if_splits)
    qed (use r RegCmd Some in \<open>simp_all add: RegisterCommand_def\<close>)
  qed (use r RegCmd in \<open>simp add: RegisterCommand_def\<close>)
next
  case (UnregCmd t)
  assume "cmdTyped r"
  with UnregCmd show ?thesis
    by (cases "unregister r t") (auto simp: cmdTyped_def UnregisterCommand_def dest: tr.unreg_lookup split: if_splits)
qed

lemma cmdRegSteps_typed: "cmdTyped r \<Longrightarrow> cmdTyped (fold cmdRegStep ops r)"
  by (induction ops arbitrary: r) (auto intro: cmdRegStep_typed)

text \<open>
  The command registry is well typed: after any registrations and removals, creating a command of a
  type either fails, because the type is not registered, or gives a command that is not nil and reports exactly
  that type, which is not the empty string.
\<close>

theorem command_registry_typed:
  assumes "CreateCommand (fold cmdRegStep ops (newTypeRegistry ''command'')) t = r"
  shows "r = Fail (Sentinel ErrCommandNotRegistered) \<or> (\<exists>c. r = Ret (Some c) \<and> cmdType c = t \<and> t \<noteq> '''')"
proof -
  have "cmdTyped (newTypeRegistry ''command'')" by (simp add: cmdTyped_def registry_defs newTypeRegistry_def)
  from cmdRegSteps_typed [OF this, of ops] assms show ?thesis
    by (cases "t = ''''") (auto simp: CreateCommand_def cmdTyped_def registry_defs split: option.splits)
qed

theorem command_registry_typed_witness:
  "\<exists>c. CreateCommand (fold cmdRegStep [RegCmd (Some \<lparr>cmdAggregateID = 0, cmdAggregateType = ''T'', cmdType = ''Do'', cmdID = None,
       cmdValue = GBool True\<rparr>), RegCmd None] (newTypeRegistry ''command'')) ''Do'' = Ret (Some c) \<and> cmdType c = ''Do''"
proof -
  let ?c = "\<lparr>cmdAggregateID = 0, cmdAggregateType = ''T'', cmdType = ''Do'', cmdID = None, cmdValue = GBool True\<rparr>"
  let ?r = "CreateCommand (fold cmdRegStep [RegCmd (Some ?c), RegCmd None] (newTypeRegistry ''command'')) ''Do''"
  have "?r \<noteq> Fail (Sentinel ErrCommandNotRegistered)"
    by (simp add: RegisterCommand_def register_def newTypeRegistry_def CreateCommand_def registry_get_def)
  with command_registry_typed [OF refl, of "[RegCmd (Some ?c), RegCmd None]" "''Do''"] show ?thesis by auto
qed

end
