(* ===== verification/Context.thy ===== *)
theory Context
  imports Registry
begin

text \<open>
  Values carried by contexts and their marshalling (\<^verbatim>\<open>context.go\<close>, \<^verbatim>\<open>repo/version/context.go\<close>,
  \<^verbatim>\<open>namespace/context.go\<close>). Printing and parsing of UUIDs belong to the UUID library and are
  parameters: \<open>us\<close> is \<^verbatim>\<open>UUID.String\<close> and \<open>up\<close> is \<^verbatim>\<open>uuid.Parse\<close>.
\<close>

section \<open>Typed access\<close>

definition AggregateIDFromContext :: "ctx \<Rightarrow> UUID option" where
  "AggregateIDFromContext c = asUUID (ctxValue c AggregateIDKey)"

definition AggregateTypeFromContext :: "ctx \<Rightarrow> string option" where
  "AggregateTypeFromContext c = asString (ctxValue c AggregateTypeKey)"

definition CommandTypeFromContext :: "ctx \<Rightarrow> string option" where
  "CommandTypeFromContext c = asString (ctxValue c CommandTypeKey)"

definition NewContextWithAggregateID :: "ctx \<Rightarrow> UUID \<Rightarrow> ctx" where
  "NewContextWithAggregateID c u = context_WithValue c AggregateIDKey (GUUID u)"

definition NewContextWithAggregateType :: "ctx \<Rightarrow> string \<Rightarrow> ctx" where
  "NewContextWithAggregateType c s = context_WithValue c AggregateTypeKey (GString s)"

definition NewContextWithCommandType :: "ctx \<Rightarrow> string \<Rightarrow> ctx" where
  "NewContextWithCommandType c s = context_WithValue c CommandTypeKey (GString s)"

definition MinVersionFromContext :: "ctx \<Rightarrow> gint option" where
  "MinVersionFromContext c = asInt (ctxValue c MinVersionKey)"

definition NewContextWithMinVersion :: "ctx \<Rightarrow> gint \<Rightarrow> ctx" where
  "NewContextWithMinVersion c v = context_WithValue c MinVersionKey (GInt v)"

definition DefaultMinVersionDeadline :: duration where
  "DefaultMinVersionDeadline = 10 * 10 ^ 9"

text \<open>
  \<^verbatim>\<open>context.WithTimeout\<close> sets a deadline after \<open>now\<close> unless an earlier one is set.
\<close>

definition context_WithTimeout :: "ctx \<Rightarrow> time \<Rightarrow> duration \<Rightarrow> ctx" where
  "context_WithTimeout c now d =
     c\<lparr>ctxDeadline := Some (case ctxDeadline c of None \<Rightarrow> now + d | Some t \<Rightarrow> min t (now + d))\<rparr>"

definition NewContextWithMinVersionWait :: "ctx \<Rightarrow> gint \<Rightarrow> time \<Rightarrow> ctx" where
  "NewContextWithMinVersionWait c v now =
     context_WithTimeout (context_WithValue c MinVersionKey (GInt v)) now DefaultMinVersionDeadline"

definition DefaultNamespace :: string where
  "DefaultNamespace = ''default''"

definition FromContext :: "ctx \<Rightarrow> string" where
  "FromContext c =
     (case asString (ctxValue c NamespaceKey) of Some s \<Rightarrow> s | None \<Rightarrow> DefaultNamespace)"

definition NewContext :: "ctx \<Rightarrow> string \<Rightarrow> ctx" where
  "NewContext c s = context_WithValue c NamespaceKey (GString s)"

section \<open>Marshalling\<close>

text \<open>A marshalled context is a Go map with distinct keys, kept as an association list.\<close>

type_synonym ctxVals = "(string \<times> gvalue) list"
type_synonym ContextMarshalFunc = "ctx \<Rightarrow> ctxVals"
type_synonym ContextUnmarshalFunc = "ctx \<Rightarrow> ctxVals \<Rightarrow> ctx"

text \<open>The registered functions of both kinds, in order of registration.\<close>

record ctxCodecs =
  contextMarshalFuncs :: "ContextMarshalFunc list"
  contextUnmarshalFuncs :: "ContextUnmarshalFunc list"

definition RegisterContextMarshaler :: "ctxCodecs \<Rightarrow> ContextMarshalFunc \<Rightarrow> ctxCodecs" where
  "RegisterContextMarshaler k f = k\<lparr>contextMarshalFuncs := contextMarshalFuncs k @ [f]\<rparr>"

definition RegisterContextUnmarshaler :: "ctxCodecs \<Rightarrow> ContextUnmarshalFunc \<Rightarrow> ctxCodecs" where
  "RegisterContextUnmarshaler k f = k\<lparr>contextUnmarshalFuncs := contextUnmarshalFuncs k @ [f]\<rparr>"

text \<open>
  The entries a marshal function sets are added to those of the earlier functions; an entry
  that is already there is a panic.
\<close>

fun addVals :: "ctxVals \<Rightarrow> ctxVals \<Rightarrow> ctxVals go" where
  "addVals allVals [] = Ret allVals"
| "addVals allVals ((key, val) # vals) =
     (case map_of allVals key of
        Some _ \<Rightarrow> Panic (''duplicate context entry for: '' @ key)
      | None \<Rightarrow> addVals ((key, val) # allVals) vals)"

fun marshalLoop :: "ContextMarshalFunc list \<Rightarrow> ctx \<Rightarrow> ctxVals \<Rightarrow> ctxVals go" where
  "marshalLoop [] c allVals = Ret allVals"
| "marshalLoop (f # fs) c allVals = obind (addVals allVals (f c)) (marshalLoop fs c)"

definition MarshalContext :: "ctxCodecs \<Rightarrow> ctx \<Rightarrow> ctxVals go" where
  "MarshalContext k c = marshalLoop (contextMarshalFuncs k) c []"

fun unmarshalLoop :: "ContextUnmarshalFunc list \<Rightarrow> ctx \<Rightarrow> ctxVals \<Rightarrow> ctx" where
  "unmarshalLoop [] c vals = c"
| "unmarshalLoop (f # fs) c vals = unmarshalLoop fs (f c vals) vals"

definition UnmarshalContext :: "ctxCodecs \<Rightarrow> ctx \<Rightarrow> ctxVals option \<Rightarrow> ctx" where
  "UnmarshalContext k c vals =
     (case vals of None \<Rightarrow> c | Some vs \<Rightarrow> unmarshalLoop (contextUnmarshalFuncs k) c vs)"

definition CopyContext :: "ctxCodecs \<Rightarrow> ctx \<Rightarrow> ctx \<Rightarrow> ctx go" where
  "CopyContext k from to =
     obind (MarshalContext k from) (\<lambda>vals. Ret (UnmarshalContext k to (Some vals)))"

section \<open>The registered codecs\<close>

text \<open>\<^verbatim>\<open>if v, ok := x; ok { vals[key] = f(v) }\<close>.\<close>

definition entry :: "string \<Rightarrow> ('a \<Rightarrow> gvalue) \<Rightarrow> 'a option \<Rightarrow> ctxVals" where
  "entry key f x = (case x of None \<Rightarrow> [] | Some v \<Rightarrow> [(key, f v)])"

definition aggregateMarshal :: "(UUID \<Rightarrow> string) \<Rightarrow> ContextMarshalFunc" where
  "aggregateMarshal us c =
     entry ''eh_aggregate_id'' (\<lambda>u. GString (us u)) (AggregateIDFromContext c) @
     entry ''eh_aggregate_type'' GString (AggregateTypeFromContext c) @
     entry ''eh_command_type'' GString (CommandTypeFromContext c)"

definition aggregateUnmarshal :: "(string \<Rightarrow> UUID option) \<Rightarrow> ContextUnmarshalFunc" where
  "aggregateUnmarshal up c vals =
     (let c1 = (case asString (map_of vals ''eh_aggregate_id'') of
                  Some s \<Rightarrow> (case up s of Some u \<Rightarrow> NewContextWithAggregateID c u | None \<Rightarrow> c)
                | None \<Rightarrow> c);
          c2 = (case asString (map_of vals ''eh_aggregate_type'') of
                  Some s \<Rightarrow> NewContextWithAggregateType c1 s | None \<Rightarrow> c1)
      in case asString (map_of vals ''eh_command_type'') of
           Some s \<Rightarrow> NewContextWithCommandType c2 s | None \<Rightarrow> c2)"

definition versionMarshal :: ContextMarshalFunc where
  "versionMarshal c = entry ''eh_minversion'' GInt (MinVersionFromContext c)"

text \<open>Go's conversion of a float64 to an int truncates towards zero.\<close>

definition float_to_int :: "rat \<Rightarrow> gint" where
  "float_to_int r = word_of_int (if 0 \<le> r then \<lfloor>r\<rfloor> else \<lceil>r\<rceil>)"

definition versionUnmarshal :: ContextUnmarshalFunc where
  "versionUnmarshal c vals =
     (case asInt (map_of vals ''eh_minversion'') of
        Some v \<Rightarrow> NewContextWithMinVersion c v
      | None \<Rightarrow>
          (case asFloat (map_of vals ''eh_minversion'') of
             Some r \<Rightarrow> NewContextWithMinVersion c (float_to_int r)
           | None \<Rightarrow> c))"

definition namespaceMarshal :: ContextMarshalFunc where
  "namespaceMarshal c = entry ''eh_namespace'' GString (asString (ctxValue c NamespaceKey))"

definition namespaceUnmarshal :: ContextUnmarshalFunc where
  "namespaceUnmarshal c vals =
     (case asString (map_of vals ''eh_namespace'') of Some s \<Rightarrow> NewContext c s | None \<Rightarrow> c)"

text \<open>The state after the \<^verbatim>\<open>init\<close> functions of the three packages have run.\<close>

definition ehCodecs :: "(UUID \<Rightarrow> string) \<Rightarrow> (string \<Rightarrow> UUID option) \<Rightarrow> ctxCodecs" where
  "ehCodecs us up =
     (let k0 = \<lparr>contextMarshalFuncs = [], contextUnmarshalFuncs = []\<rparr>;
          k1 = RegisterContextUnmarshaler (RegisterContextMarshaler k0 (aggregateMarshal us))
                 (aggregateUnmarshal up);
          k2 = RegisterContextUnmarshaler (RegisterContextMarshaler k1 versionMarshal) versionUnmarshal
      in RegisterContextUnmarshaler (RegisterContextMarshaler k2 namespaceMarshal) namespaceUnmarshal)"

section \<open>Properties\<close>

lemmas ctx_access_defs =
  AggregateIDFromContext_def AggregateTypeFromContext_def CommandTypeFromContext_def
  MinVersionFromContext_def NewContextWithAggregateID_def NewContextWithAggregateType_def
  NewContextWithCommandType_def NewContextWithMinVersion_def FromContext_def NewContext_def

lemmas ctx_codec_defs =
  aggregateMarshal_def aggregateUnmarshal_def versionMarshal_def versionUnmarshal_def
  namespaceMarshal_def namespaceUnmarshal_def

definition orElse :: "'a option \<Rightarrow> 'a option \<Rightarrow> 'a option" where
  "orElse x y = (case x of None \<Rightarrow> y | Some _ \<Rightarrow> x)"

lemma ehCodecs_funcs:
  "contextMarshalFuncs (ehCodecs us up) = [aggregateMarshal us, versionMarshal, namespaceMarshal]"
  "contextUnmarshalFuncs (ehCodecs us up) = [aggregateUnmarshal up, versionUnmarshal, namespaceUnmarshal]"
  by (simp_all add: ehCodecs_def RegisterContextMarshaler_def RegisterContextUnmarshaler_def Let_def)

lemma unmarshalLoop_append: "unmarshalLoop (fs @ gs) c vals = unmarshalLoop gs (unmarshalLoop fs c vals) vals"
  by (induction fs c vals rule: unmarshalLoop.induct) auto

lemma marshalLoop_append: "marshalLoop (fs @ gs) c vals = obind (marshalLoop fs c vals) (marshalLoop gs c)"
  by (induction fs c vals rule: marshalLoop.induct) (auto simp: outcome_simps intro!: arg_cong [of _ _ "obind _"])

lemma addVals_distinct:
  "fst ` set vals \<inter> fst ` set allVals = {} \<Longrightarrow> distinct (map fst vals) \<Longrightarrow>
   addVals allVals vals = Ret (rev vals @ allVals)"
proof (induction vals arbitrary: allVals)
  case Nil
  then show ?case by simp
next
  case (Cons kv vals)
  obtain k v where "kv = (k, v)" by (cases kv)
  with Cons.prems have "map_of allVals k = None" by (auto simp: map_of_eq_None_iff)
  with Cons show ?case using \<open>kv = (k, v)\<close> by auto
qed

text \<open>Each key a registered function sets is set by that function alone, so marshalling never panics.\<close>

lemma MarshalContext_eh:
  "MarshalContext (ehCodecs us up) c =
     Ret (rev (namespaceMarshal c) @ rev (versionMarshal c) @ rev (aggregateMarshal us c))"
  by (simp add: MarshalContext_def ehCodecs_funcs ctx_codec_defs entry_def addVals_distinct
      split: option.split)

text \<open>The marshalled entries, by key.\<close>

lemma marshal_entries:
  fixes us c
  defines "m \<equiv> map_of (rev (namespaceMarshal c) @ rev (versionMarshal c) @ rev (aggregateMarshal us c))"
  shows "m ''eh_aggregate_id'' = map_option (\<lambda>u. GString (us u)) (AggregateIDFromContext c)"
    and "m ''eh_aggregate_type'' = map_option GString (AggregateTypeFromContext c)"
    and "m ''eh_command_type'' = map_option GString (CommandTypeFromContext c)"
    and "m ''eh_minversion'' = map_option GInt (MinVersionFromContext c)"
    and "m ''eh_namespace'' = map_option GString (asString (ctxValue c NamespaceKey))"
  by (simp_all add: m_def map_add_def ctx_codec_defs entry_def split: option.split)

text \<open>What each unmarshal function does to the values the accessors show.\<close>

lemma aggregateUnmarshal_view:
  "AggregateIDFromContext (aggregateUnmarshal up c vals) =
     orElse (Option.bind (asString (map_of vals ''eh_aggregate_id'')) up) (AggregateIDFromContext c)"
  "AggregateTypeFromContext (aggregateUnmarshal up c vals) =
     orElse (asString (map_of vals ''eh_aggregate_type'')) (AggregateTypeFromContext c)"
  "CommandTypeFromContext (aggregateUnmarshal up c vals) =
     orElse (asString (map_of vals ''eh_command_type'')) (CommandTypeFromContext c)"
  "MinVersionFromContext (aggregateUnmarshal up c vals) = MinVersionFromContext c"
  "FromContext (aggregateUnmarshal up c vals) = FromContext c"
  "ctxDeadline (aggregateUnmarshal up c vals) = ctxDeadline c"
  "ctxDone (aggregateUnmarshal up c vals) = ctxDone c"
  by (simp_all add: aggregateUnmarshal_def ctx_access_defs context_WithValue_def orElse_def Let_def
      split: option.split)

lemma versionUnmarshal_view:
  "MinVersionFromContext (versionUnmarshal c vals) =
     orElse (orElse (asInt (map_of vals ''eh_minversion''))
       (map_option float_to_int (asFloat (map_of vals ''eh_minversion'')))) (MinVersionFromContext c)"
  "AggregateIDFromContext (versionUnmarshal c vals) = AggregateIDFromContext c"
  "AggregateTypeFromContext (versionUnmarshal c vals) = AggregateTypeFromContext c"
  "CommandTypeFromContext (versionUnmarshal c vals) = CommandTypeFromContext c"
  "FromContext (versionUnmarshal c vals) = FromContext c"
  "ctxDeadline (versionUnmarshal c vals) = ctxDeadline c"
  "ctxDone (versionUnmarshal c vals) = ctxDone c"
  by (simp_all add: versionUnmarshal_def ctx_access_defs context_WithValue_def orElse_def
      split: option.split)

lemma namespaceUnmarshal_view:
  "FromContext (namespaceUnmarshal c vals) =
     (case asString (map_of vals ''eh_namespace'') of Some s \<Rightarrow> s | None \<Rightarrow> FromContext c)"
  "AggregateIDFromContext (namespaceUnmarshal c vals) = AggregateIDFromContext c"
  "AggregateTypeFromContext (namespaceUnmarshal c vals) = AggregateTypeFromContext c"
  "CommandTypeFromContext (namespaceUnmarshal c vals) = CommandTypeFromContext c"
  "MinVersionFromContext (namespaceUnmarshal c vals) = MinVersionFromContext c"
  "ctxDeadline (namespaceUnmarshal c vals) = ctxDeadline c"
  "ctxDone (namespaceUnmarshal c vals) = ctxDone c"
  by (simp_all add: namespaceUnmarshal_def ctx_access_defs context_WithValue_def
      split: option.split)

lemmas unmarshal_views = aggregateUnmarshal_view versionUnmarshal_view namespaceUnmarshal_view

lemma as_map_option [simp]:
  "asString (map_option GString x) = x"
  "asInt (map_option GInt y) = y"
  "asFloat (map_option GInt y) = None"
  "asString (map_option (\<lambda>u. GString (us u)) z) = map_option us z"
  by (cases x; cases y; cases z; simp)+

lemma orElse_None [simp]: "orElse x None = x" "orElse None x = x"
  by (simp_all add: orElse_def split: option.split)

text \<open>What the three packages' unmarshal functions give after marshalling \<open>from\<close>.\<close>

lemma CopyContext_result:
  "CopyContext (ehCodecs us up) from to = Ret (namespaceUnmarshal (versionUnmarshal
     (aggregateUnmarshal up to m) m) m)"
  if "m = rev (namespaceMarshal from) @ rev (versionMarshal from) @ rev (aggregateMarshal us from)"
  by (simp add: CopyContext_def MarshalContext_eh UnmarshalContext_def ehCodecs_funcs that)

lemma bind_parse_print:
  "(\<And>u. up (us u) = Some u) \<Longrightarrow> Option.bind (map_option us x) up = x"
  by (cases x) auto

lemma CopyContext_eh:
  assumes "\<And>u. up (us u) = Some u"
  shows "\<exists>c. CopyContext (ehCodecs us up) from to = Ret c \<and>
    AggregateIDFromContext c = orElse (AggregateIDFromContext from) (AggregateIDFromContext to) \<and>
    AggregateTypeFromContext c = orElse (AggregateTypeFromContext from) (AggregateTypeFromContext to) \<and>
    CommandTypeFromContext c = orElse (CommandTypeFromContext from) (CommandTypeFromContext to) \<and>
    MinVersionFromContext c = orElse (MinVersionFromContext from) (MinVersionFromContext to) \<and>
    FromContext c = (case asString (ctxValue from NamespaceKey) of Some s \<Rightarrow> s | None \<Rightarrow> FromContext to) \<and>
    ctxDeadline c = ctxDeadline to \<and> ctxDone c = ctxDone to"
  by (rule exI, rule conjI, rule CopyContext_result [OF refl])
    (simp only: unmarshal_views marshal_entries as_map_option orElse_None option.map option.map_ident
      bind_parse_print [of up us, OF assms] simp_thms)

end
