(* ===== verification/Events.thy ===== *)
theory Events
  imports Registry
begin

text \<open>
  Events: options and construction (\<^verbatim>\<open>event.go\<close>), comparison (\<^verbatim>\<open>compare.go\<close>) and matchers
  (\<^verbatim>\<open>matcher.go\<close>). An event option is a function on the event record, which Go code applies
  in place; a nil option is \<^const>\<open>None\<close>. Metadata maps are values here: that an event
  built \<^verbatim>\<open>WithMetadata(m)\<close> shares the map \<open>m\<close> with its creator is not modelled.
\<close>

section \<open>Options and construction\<close>

type_synonym EventOption = "(event \<Rightarrow> event) option"

definition ForAggregate :: "string \<Rightarrow> UUID \<Rightarrow> gint \<Rightarrow> EventOption" where
  "ForAggregate agt aid v =
     Some (\<lambda>e. e\<lparr>aggregateType := agt, aggregateID := aid, version := v\<rparr>)"

text \<open>\<^verbatim>\<open>maps.Copy\<close> of a nil map into a map changes nothing.\<close>

definition WithMetadata :: "Metadata \<Rightarrow> EventOption" where
  "WithMetadata md = Some (\<lambda>e.
     (case metadata e of
        None \<Rightarrow> e\<lparr>metadata := md\<rparr>
      | Some m \<Rightarrow> e\<lparr>metadata := Some (m ++ (case md of None \<Rightarrow> Map.empty | Some n \<Rightarrow> n))\<rparr>))"

definition WithGlobalPosition :: "gint \<Rightarrow> EventOption" where
  "WithGlobalPosition position = WithMetadata (Some [''position'' \<mapsto> GInt position])"

definition FromCommand :: "(UUID \<Rightarrow> string) \<Rightarrow> command \<Rightarrow> EventOption" where
  "FromCommand us cmd =
     (let md = [''command_type'' \<mapsto> GString (cmdType cmd)];
          md = (case cmdID cmd of None \<Rightarrow> md | Some i \<Rightarrow> md(''command_id'' \<mapsto> GString (us i)))
      in WithMetadata (Some md))"

fun applyOptions :: "EventOption list \<Rightarrow> event \<Rightarrow> event" where
  "applyOptions [] e = e"
| "applyOptions (None # os) e = applyOptions os e"
| "applyOptions (Some f # os) e = applyOptions os (f e)"

definition NewEvent :: "string \<Rightarrow> EventData \<Rightarrow> time \<Rightarrow> EventOption list \<Rightarrow> event" where
  "NewEvent et d ts options = applyOptions options
     \<lparr>eventType = et, data = d, timestamp = ts, aggregateType = '''', aggregateID = uuid_Nil,
      version = 0, metadata = None\<rparr>"

definition NewEventForAggregate ::
    "string \<Rightarrow> EventData \<Rightarrow> time \<Rightarrow> string \<Rightarrow> UUID \<Rightarrow> gint \<Rightarrow> EventOption list \<Rightarrow> event" where
  "NewEventForAggregate et d ts agt aid v options =
     NewEvent et d ts (options @ [ForAggregate agt aid v])"

lemma applyOptions_append: "applyOptions (os @ ps) e = applyOptions ps (applyOptions os e)"
  by (induction os e rule: applyOptions.induct) auto

lemma NewEventForAggregate_fields [event_simps]:
  "aggregateType (NewEventForAggregate et d ts agt aid v os) = agt"
  "aggregateID (NewEventForAggregate et d ts agt aid v os) = aid"
  "version (NewEventForAggregate et d ts agt aid v os) = v"
  by (simp_all add: NewEventForAggregate_def NewEvent_def applyOptions_append ForAggregate_def)

text \<open>The copy of an event that the stores and outboxes build from its accessors.\<close>

definition rebuildEvent :: "string \<Rightarrow> EventData \<Rightarrow> event \<Rightarrow> event" where
  "rebuildEvent et d e = NewEvent et d (timestamp e)
     [ForAggregate (aggregateType e) (aggregateID e) (version e), WithMetadata (metadata e)]"

lemma rebuildEvent_eq [event_simps]: "rebuildEvent et d e = e\<lparr>eventType := et, data := d\<rparr>"
  by (cases e) (simp add: rebuildEvent_def NewEvent_def ForAggregate_def WithMetadata_def)

section \<open>Comparison\<close>

record CompareConfig =
  ignoreTimestamp :: bool
  ignoreVersion :: bool
  ignorePosition :: bool

type_synonym CompareOption = "(CompareConfig \<Rightarrow> CompareConfig) option"

definition IgnoreTimestamp :: CompareOption where
  "IgnoreTimestamp = Some (\<lambda>o'. o'\<lparr>ignoreTimestamp := True\<rparr>)"

definition IgnoreVersion :: CompareOption where
  "IgnoreVersion = Some (\<lambda>o'. o'\<lparr>ignoreVersion := True\<rparr>)"

definition IgnorePositionMetadata :: CompareOption where
  "IgnorePositionMetadata = Some (\<lambda>o'. o'\<lparr>ignorePosition := True\<rparr>)"

fun compareConfig :: "CompareOption list \<Rightarrow> CompareConfig \<Rightarrow> CompareConfig" where
  "compareConfig [] c = c"
| "compareConfig (None # os) c = compareConfig os c"
| "compareConfig (Some f # os) c = compareConfig os (f c)"

definition defaultCompare :: CompareConfig where
  "defaultCompare = \<lparr>ignoreTimestamp = False, ignoreVersion = False, ignorePosition = False\<rparr>"

text \<open>The metadata without the global position: a fresh map, so never nil.\<close>

definition dropPosition :: "Metadata \<Rightarrow> Metadata" where
  "dropPosition md = Some ((case md of None \<Rightarrow> Map.empty | Some m \<Rightarrow> m)(''position'' := None))"

text \<open>
  \<^verbatim>\<open>reflect.DeepEqual\<close> is equality of values, which tells a nil map from an empty one. Of the
  error texts only the part that names the differing field is kept.
\<close>

definition CompareEvents :: "event \<Rightarrow> event \<Rightarrow> CompareOption list \<Rightarrow> unit go" where
  "CompareEvents e1 e2 options =
     (let opts = compareConfig options defaultCompare;
          m1 = (if ignorePosition opts then dropPosition (metadata e1) else metadata e1);
          m2 = (if ignorePosition opts then dropPosition (metadata e2) else metadata e2)
      in if eventType e1 \<noteq> eventType e2 then Fail (NewError ''incorrect event type'')
         else if data e1 \<noteq> data e2 then Fail (NewError ''incorrect event data'')
         else if \<not> ignoreTimestamp opts \<and> timestamp e1 \<noteq> timestamp e2
           then Fail (NewError ''incorrect timestamp'')
         else if aggregateType e1 \<noteq> aggregateType e2 then Fail (NewError ''incorrect aggregate type'')
         else if aggregateID e1 \<noteq> aggregateID e2 then Fail (NewError ''incorrect aggregate ID'')
         else if \<not> ignoreVersion opts \<and> version e1 \<noteq> version e2
           then Fail (NewError ''incorrect version'')
         else if m1 \<noteq> m2 then Fail (NewError ''incorrect event metadata'')
         else Ret ())"

fun compareAll :: "CompareOption list \<Rightarrow> event list \<Rightarrow> event list \<Rightarrow> bool" where
  "compareAll opts (e1 # es1) (e2 # es2) =
     (CompareEvents e1 e2 opts = Ret () \<and> compareAll opts es1 es2)"
| "compareAll opts _ _ = True"

definition CompareEventSlices :: "event list \<Rightarrow> event list \<Rightarrow> CompareOption list \<Rightarrow> bool" where
  "CompareEventSlices es1 es2 opts = (length es1 = length es2 \<and> compareAll opts es1 es2)"

lemma CompareEvents_default: "CompareEvents e1 e2 [] = Ret () \<longleftrightarrow> e1 = e2"
  by (auto simp: CompareEvents_def defaultCompare_def Let_def split: if_splits)

lemma compareAll_refl_iff:
  "length es1 = length es2 \<Longrightarrow> compareAll [] es1 es2 \<longleftrightarrow> es1 = es2"
  by (induction es1 es2 rule: list_induct2) (auto simp: CompareEvents_default)

lemma CompareEventSlices_default: "CompareEventSlices es1 es2 [] \<longleftrightarrow> es1 = es2"
  using compareAll_refl_iff [of es1 es2] by (auto simp: CompareEventSlices_def)

text \<open>With options, comparison is an equivalence relation.\<close>

lemma CompareEvents_sym: "CompareEvents e1 e2 os = Ret () \<Longrightarrow> CompareEvents e2 e1 os = Ret ()"
  by (auto simp: CompareEvents_def Let_def split: if_splits)

lemma CompareEvents_trans:
  "CompareEvents e1 e2 os = Ret () \<Longrightarrow> CompareEvents e2 e3 os = Ret () \<Longrightarrow>
   CompareEvents e1 e3 os = Ret ()"
  by (auto simp: CompareEvents_def Let_def split: if_splits)

section \<open>Matchers\<close>

text \<open>
  The matchers of the package; \<open>CustomMatcher\<close> is any other implementation of the
  interface. Nil matchers inside a list are not represented.
\<close>

datatype EventMatcher =
    MatchEvents "string list"
  | MatchAggregates "string list"
  | MatchAny "EventMatcher list"
  | MatchAll "EventMatcher list"
  | CustomMatcher "event option \<Rightarrow> bool"

fun matchTypes :: "(event \<Rightarrow> string) \<Rightarrow> string list \<Rightarrow> event option \<Rightarrow> bool" where
  "matchTypes f [] e = False"
| "matchTypes f (t # ts) e =
     (if e \<noteq> None \<and> f (the e) = t then True else matchTypes f ts e)"

fun Match :: "EventMatcher \<Rightarrow> event option \<Rightarrow> bool"
  and matchAnyLoop :: "EventMatcher list \<Rightarrow> event option \<Rightarrow> bool"
  and matchAllLoop :: "EventMatcher list \<Rightarrow> event option \<Rightarrow> bool" where
  "Match (MatchEvents types) e = matchTypes eventType types e"
| "Match (MatchAggregates types) e = matchTypes aggregateType types e"
| "Match (MatchAny ms) e = matchAnyLoop ms e"
| "Match (MatchAll ms) e = matchAllLoop ms e"
| "Match (CustomMatcher f) e = f e"
| "matchAnyLoop [] e = False"
| "matchAnyLoop (m # ms) e = (if Match m e then True else matchAnyLoop ms e)"
| "matchAllLoop [] e = True"
| "matchAllLoop (m # ms) e = (if \<not> Match m e then False else matchAllLoop ms e)"

lemma matchTypes_iff: "matchTypes f ts e \<longleftrightarrow> (\<exists>ev. e = Some ev \<and> f ev \<in> set ts)"
  by (induction ts) auto

lemma matchAnyLoop_iff: "matchAnyLoop ms e \<longleftrightarrow> (\<exists>m \<in> set ms. Match m e)"
  by (induction ms) auto

lemma matchAllLoop_iff: "matchAllLoop ms e \<longleftrightarrow> (\<forall>m \<in> set ms. Match m e)"
  by (induction ms) auto

lemma Match_characterisation:
  "Match (MatchEvents ts) e \<longleftrightarrow> (\<exists>ev. e = Some ev \<and> eventType ev \<in> set ts)"
  "Match (MatchAggregates as) e \<longleftrightarrow> (\<exists>ev. e = Some ev \<and> aggregateType ev \<in> set as)"
  "Match (MatchAny ms) e \<longleftrightarrow> (\<exists>m \<in> set ms. Match m e)"
  "Match (MatchAll ms) e \<longleftrightarrow> (\<forall>m \<in> set ms. Match m e)"
  by (simp_all add: matchTypes_iff matchAnyLoop_iff matchAllLoop_iff)

end
