(* ===== verification/EventStore_Spec.thy ===== *)
theory EventStore_Spec
  imports Events
begin

text \<open>
  The interfaces around event stores (\<^verbatim>\<open>eventstore.go\<close>, \<^verbatim>\<open>eventhandler.go\<close>): a Go interface value
  is a record of the functions a client can call, and the state behind it is passed
  explicitly. Also here: the validation loop that all event stores run over the events of a
  \<^verbatim>\<open>Save\<close>, and the contract of an event store as a locale.
\<close>

section \<open>Interfaces\<close>

text \<open>An event handler acts on a world of type \<open>'w\<close> of its own; the event can be nil.\<close>

type_synonym 'w HandleEventFn = "ctx \<Rightarrow> event option \<Rightarrow> 'w \<Rightarrow> 'w \<times> unit go"

record 'w EventHandler =
  HandlerType :: string
  HandleEvent :: "'w HandleEventFn"

record 's SnapshotStore =
  ssLoadSnapshot :: "ctx \<Rightarrow> UUID \<Rightarrow> 's \<Rightarrow> 's \<times> Snapshot option go"
  ssSaveSnapshot :: "ctx \<Rightarrow> UUID \<Rightarrow> Snapshot \<Rightarrow> 's \<Rightarrow> 's \<times> unit go"

record 's EventStore =
  esSave :: "ctx \<Rightarrow> event option list \<Rightarrow> gint \<Rightarrow> 's \<Rightarrow> 's \<times> unit go"
  esLoadFrom :: "ctx \<Rightarrow> UUID \<Rightarrow> gint \<Rightarrow> 's \<Rightarrow> 's \<times> event option list go"
  esSnapshots :: "'s SnapshotStore option"

text \<open>The operation names that errors carry.\<close>

abbreviation EventStoreOpLoad :: string where "EventStoreOpLoad \<equiv> ''load''"
abbreviation EventStoreOpSave :: string where "EventStoreOpSave \<equiv> ''save''"
abbreviation EventStoreOpReplace :: string where "EventStoreOpReplace \<equiv> ''replace''"
abbreviation EventStoreOpRename :: string where "EventStoreOpRename \<equiv> ''rename''"
abbreviation EventStoreOpLoadSnapshot :: string where "EventStoreOpLoadSnapshot \<equiv> ''load_snapshot''"
abbreviation EventStoreOpSaveSnapshot :: string where "EventStoreOpSaveSnapshot \<equiv> ''save_snapshot''"

section \<open>Handling the saved events\<close>

text \<open>
  The loop that hands each saved event to the store's handler, in order, and stops at the
  first error.
\<close>

fun handleAll :: "'w HandleEventFn \<Rightarrow> ctx \<Rightarrow> event option list \<Rightarrow> 'w \<Rightarrow> 'w \<times> unit go" where
  "handleAll h c [] w = (w, Ret ())"
| "handleAll h c (e # es) w =
     (case h c e w of
        (w', Ret _) \<Rightarrow> handleAll h c es w'
      | (w', Fail x) \<Rightarrow> (w', Fail (EventHandlerError (Some x) e))
      | (w', Panic p) \<Rightarrow> (w', Panic p))"

lemma handleAll_result:
  "handleAll h c evs w = (w', r) \<Longrightarrow>
   r = Ret () \<or> (\<exists>x ev. r = Fail (EventHandlerError x ev)) \<or> (\<exists>p. r = Panic p)"
proof (induction evs arbitrary: w)
  case Nil
  then show ?case by simp
next
  case (Cons e evs)
  obtain w1 r1 where h: "h c e w = (w1, r1)" by fastforce
  show ?case
  proof (cases r1)
    case (Ret u)
    with Cons.prems h have "handleAll h c evs w1 = (w', r)" by simp
    then show ?thesis by (rule Cons.IH)
  qed (use Cons.prems h in auto)
qed

section \<open>Validation of the events of a save\<close>

definition saveError :: "err \<Rightarrow> string \<Rightarrow> UUID \<Rightarrow> gint \<Rightarrow> event option list \<Rightarrow> err" where
  "saveError e agt aid ov events = EventStoreError (Some e) EventStoreOpSave agt aid ov events"

text \<open>
  The loop over the events: same aggregate ID and type as the first, versions counting up
  from the original version, and a record made of each by \<open>mk\<close>.
\<close>

fun buildRecords ::
    "(event \<Rightarrow> 'r go) \<Rightarrow> (err \<Rightarrow> err) \<Rightarrow> string \<Rightarrow> UUID \<Rightarrow> gint \<Rightarrow> nat \<Rightarrow> event option list \<Rightarrow> 'r list go"
where
  "buildRecords mk fail agt aid ov i [] = Ret []"
| "buildRecords mk fail agt aid ov i (ev # evs) =
     obind (deref ev) (\<lambda>e.
       if aggregateID e \<noteq> aid then Fail (fail (Sentinel ErrMismatchedEventAggregateIDs))
       else if aggregateType e \<noteq> agt then Fail (fail (Sentinel ErrMismatchedEventAggregateTypes))
       else if version e \<noteq> ov + of_nat i + 1 then Fail (fail (Sentinel ErrIncorrectEventVersion))
       else obind (mk e) (\<lambda>r.
         obind (buildRecords mk fail agt aid ov (Suc i) evs) (\<lambda>rs. Ret (r # rs))))"

text \<open>What the loop accepts.\<close>

definition serialFrom :: "string \<Rightarrow> UUID \<Rightarrow> gint \<Rightarrow> event list \<Rightarrow> bool" where
  "serialFrom agt aid ov es \<longleftrightarrow>
     (\<forall>i < length es. aggregateID (es ! i) = aid \<and> aggregateType (es ! i) = agt \<and>
        version (es ! i) = ov + of_nat (Suc i))"

lemma serialFrom_Nil [simp]: "serialFrom agt aid ov []"
  by (simp add: serialFrom_def)

lemma serialFrom_Cons:
  "serialFrom agt aid ov (e # es) \<longleftrightarrow>
     aggregateID e = aid \<and> aggregateType e = agt \<and> version e = ov + 1 \<and> serialFrom agt aid (ov + 1) es"
  by (auto simp: serialFrom_def nth_Cons less_Suc_eq_0_disj ac_simps split: nat.splits)

lemma buildRecords_shift:
  "buildRecords mk fail agt aid ov (i + j) evs = buildRecords mk fail agt aid (ov + of_nat i) j evs"
proof (induction evs arbitrary: j)
  case Nil
  then show ?case by simp
next
  case (Cons ev evs)
  from Cons [of "Suc j"] show ?case by (cases ev) (simp_all add: ac_simps)
qed

lemma buildRecords_Ret_iff:
  "buildRecords mk fail agt aid ov 0 evs = Ret rs \<longleftrightarrow>
     (\<exists>es. evs = map Some es \<and> serialFrom agt aid ov es \<and> list_all2 (\<lambda>e r. mk e = Ret r) es rs)"
proof (induction evs arbitrary: ov rs)
  case Nil
  then show ?case by auto
next
  case (Cons ev evs)
  have shift: "buildRecords mk fail agt aid ov (Suc 0) evs = buildRecords mk fail agt aid (ov + 1) 0 evs"
    using buildRecords_shift [of mk fail agt aid ov 1 0 evs] by simp
  show ?case
  proof (cases ev)
    case None
    then show ?thesis by (auto simp: Cons_eq_map_conv)
  next
    case (Some e)
    then show ?thesis
      by (auto simp: shift Cons outcome_simps serialFrom_Cons list_all2_Cons1 Cons_eq_map_conv)
  qed
qed

section \<open>The contract of an event store\<close>

text \<open>
  \<open>stream s aid\<close> is the history the store holds for an aggregate, oldest event first.
  \<open>storable\<close> says which events the store can hold without loss. A save that returns an error
  has stored all of its events or none.
\<close>

locale event_store =
  fixes save :: "ctx \<Rightarrow> event option list \<Rightarrow> gint \<Rightarrow> 's \<Rightarrow> 's \<times> unit go"
    and loadFrom :: "ctx \<Rightarrow> UUID \<Rightarrow> gint \<Rightarrow> 's \<Rightarrow> 's \<times> event option list go"
    and stream :: "'s \<Rightarrow> UUID \<Rightarrow> event list"
    and storable :: "event \<Rightarrow> bool"
    and invar :: "'s \<Rightarrow> bool"
  assumes stream_serial:
      "invar s \<Longrightarrow> i < length (stream s aid) \<Longrightarrow>
       version (stream s aid ! i) = of_nat (Suc i) \<and> aggregateID (stream s aid ! i) = aid"
    and load_stream:
      "invar s \<Longrightarrow> stream s aid \<noteq> [] \<Longrightarrow> length (stream s aid) < 2 ^ 63 \<Longrightarrow>
       loadFrom c aid 1 s = (s, Ret (map Some (stream s aid)))"
    and load_missing:
      "invar s \<Longrightarrow> stream s aid = [] \<Longrightarrow>
       \<exists>e. loadFrom c aid 1 s = (s, Fail e) \<and> errors_Is e ErrAggregateNotFound"
    and save_effect:
      "invar s \<Longrightarrow> es \<noteq> [] \<Longrightarrow> serialFrom agt aid (of_nat (length (stream s aid))) es \<Longrightarrow>
       length (stream s aid) < 2 ^ 63 \<Longrightarrow> (\<And>e. e \<in> set es \<Longrightarrow> storable e) \<Longrightarrow>
       save c (map Some es) (of_nat (length (stream s aid))) s = (s', r) \<Longrightarrow>
       invar s' \<and> (stream s' = (stream s)(aid := stream s aid @ es) \<or> stream s' = stream s \<and> r \<noteq> Ret ())"
begin

lemma save_appends:
  assumes "invar s" and "es \<noteq> []" and "serialFrom agt aid (of_nat (length (stream s aid))) es"
    and "length (stream s aid) < 2 ^ 63" and "\<And>e. e \<in> set es \<Longrightarrow> storable e"
    and "save c (map Some es) (of_nat (length (stream s aid))) s = (s', Ret ())"
  shows "invar s' \<and> stream s' = (stream s)(aid := stream s aid @ es)"
  using save_effect [OF assms] by simp

lemma load_after_save:
  assumes "invar s" and "es \<noteq> []" and "serialFrom agt aid (of_nat (length (stream s aid))) es"
    and "length (stream s aid @ es) < 2 ^ 63" and "\<And>e. e \<in> set es \<Longrightarrow> storable e"
    and "save c (map Some es) (of_nat (length (stream s aid))) s = (s', Ret ())"
  shows "loadFrom c' aid 1 s' = (s', Ret (map Some (stream s aid @ es)))"
proof -
  from assms(4) have "length (stream s aid) < 2 ^ 63" by simp
  from save_appends [OF assms(1-3) this assms(5,6)]
  have "invar s'" and eq: "stream s' = (stream s)(aid := stream s aid @ es)" by auto
  with assms(2,4) show ?thesis using load_stream [of s' aid c'] by simp
qed

end

text \<open>
  A store that never fails to store acceptable events, as one in memory: an error of a save
  comes from the event handler that runs after it.
\<close>

locale reliable_event_store = event_store +
  assumes save_reliable:
      "invar s \<Longrightarrow> es \<noteq> [] \<Longrightarrow> serialFrom agt aid (of_nat (length (stream s aid))) es \<Longrightarrow>
       length (stream s aid) < 2 ^ 63 \<Longrightarrow> (\<And>e. e \<in> set es \<Longrightarrow> storable e) \<Longrightarrow>
       save c (map Some es) (of_nat (length (stream s aid))) s = (s', r) \<Longrightarrow>
       stream s' = (stream s)(aid := stream s aid @ es) \<and>
       (r = Ret () \<or> (\<exists>x ev. r = Fail (EventHandlerError x ev)) \<or> (\<exists>p. r = Panic p))"
begin

lemma load_after_any_save:
  assumes "invar s" and "es \<noteq> []" and "serialFrom agt aid (of_nat (length (stream s aid))) es"
    and "length (stream s aid @ es) < 2 ^ 63" and "\<And>e. e \<in> set es \<Longrightarrow> storable e"
    and "save c (map Some es) (of_nat (length (stream s aid))) s = (s', r)"
  shows "loadFrom c' aid 1 s' = (s', Ret (map Some (stream s aid @ es)))"
proof -
  from assms(4) have len: "length (stream s aid) < 2 ^ 63" by simp
  from save_reliable [OF assms(1-3) len assms(5,6)] save_effect [OF assms(1-3) len assms(5,6)]
  have "invar s'" and eq: "stream s' = (stream s)(aid := stream s aid @ es)" by auto
  with assms(2,4) show ?thesis using load_stream [of s' aid c'] by simp
qed

end

end
