(* ===== verification/EventStore_Memory.thy ===== *)
theory EventStore_Memory
  imports EventStore_Spec "HOL-Library.AList"
begin

text \<open>
  The in-memory event store (\<^verbatim>\<open>eventstore/memory/eventstore.go\<close>) and its maintenance
  operations (\<^verbatim>\<open>eventstore/memory/eventmaintenance.go\<close>). The database is an association list
  from aggregate IDs to records. Each operation holds the store's mutex while it reads and
  writes the database, so it is one atomic step; the event handler runs after the mutex is
  released. Event data is copied by the \<^verbatim>\<open>copier\<close> library, a parameter of the model.
\<close>

section \<open>State\<close>

text \<open>What copying of events depends on: the registered factories and \<^verbatim>\<open>copier.Copy\<close>.\<close>

record copyEnv =
  eventDataFactories :: "EventData typeRegistry"
  copier_Copy :: "EventData \<Rightarrow> EventData \<Rightarrow> EventData go"

text \<open>\<^verbatim>\<open>aggregateRecord\<close>; the events are interface values, so an entry can be nil.\<close>

record aggregateRecord =
  arAggregateID :: UUID
  arVersion :: gint
  arEvents :: "event option list"

record 'w memStore =
  esDb :: "(UUID \<times> aggregateRecord) list"
  esEventHandler :: "'w HandleEventFn option"

type_synonym 'w memStoreOption = "'w memStore \<Rightarrow> 'w memStore go"

fun applyStoreOptions :: "'w memStoreOption list \<Rightarrow> 'w memStore \<Rightarrow> 'w memStore go" where
  "applyStoreOptions [] s = Ret s"
| "applyStoreOptions (opt # opts) s =
     obind (mapErr (Wrapf ''error while applying option'') (opt s)) (applyStoreOptions opts)"

definition NewMemEventStore :: "'w memStoreOption list \<Rightarrow> 'w memStore go" where
  "NewMemEventStore options = applyStoreOptions options \<lparr>esDb = [], esEventHandler = None\<rparr>"

definition WithMemEventHandler :: "'w HandleEventFn \<Rightarrow> 'w memStoreOption" where
  "WithMemEventHandler h s = Ret (s\<lparr>esEventHandler := Some h\<rparr>)"

section \<open>Copying events\<close>

definition copyEvent :: "copyEnv \<Rightarrow> event \<Rightarrow> event go" where
  "copyEvent env e =
     obind
       (if data e \<noteq> None then
          obind (mapErr (Wrapf ''could not create event data'')
                  (CreateEventData (eventDataFactories env) (eventType e)))
            (\<lambda>d. mapErr (Wrapf ''could not copy event data'') (copier_Copy env d (data e)))
        else Ret None)
       (\<lambda>d. Ret (rebuildEvent (eventType e) d e))"

section \<open>Saving\<close>

text \<open>
  \<^verbatim>\<open>save\<close>: the events are validated and copied, then either a new record is written or the
  events are appended to the existing record if its version is the original version.
\<close>

definition memSaveDb ::
    "copyEnv \<Rightarrow> event option list \<Rightarrow> gint \<Rightarrow> (UUID \<times> aggregateRecord) list \<Rightarrow>
     (UUID \<times> aggregateRecord) list \<times> unit go" where
  "memSaveDb env events originalVersion db =
     (if events = [] then
        (db, Fail (EventStoreError (Some (Sentinel ErrMissingEvents)) EventStoreOpSave '''' uuid_Nil 0 []))
      else case hd events of
        None \<Rightarrow> (db, nilDeref)
      | Some e0 \<Rightarrow>
          let aid = aggregateID e0;
              agt = aggregateType e0;
              fail = (\<lambda>e. saveError e agt aid originalVersion events);
              mk = (\<lambda>e. mapErr (\<lambda>x. fail (Wrapf ''could not copy event'' x)) (copyEvent env e))
          in case buildRecords mk fail agt aid originalVersion 0 events of
               Fail e \<Rightarrow> (db, Fail e)
             | Panic p \<Rightarrow> (db, Panic p)
             | Ret dbEvents \<Rightarrow>
                 if originalVersion = 0 then
                   (AList.update aid
                      \<lparr>arAggregateID = aid, arVersion = of_nat (length dbEvents),
                       arEvents = map Some dbEvents\<rparr> db, Ret ())
                 else case map_of db aid of
                   None \<Rightarrow> (db, Ret ())
                 | Some aggregate \<Rightarrow>
                     if arVersion aggregate \<noteq> originalVersion
                     then (db, Fail (fail (Sentinel ErrEventConflictFromOtherSave)))
                     else (AList.update aid
                             (aggregate\<lparr>arVersion := arVersion aggregate + of_nat (length dbEvents),
                               arEvents := arEvents aggregate @ map Some dbEvents\<rparr>) db, Ret ()))"

text \<open>\<^verbatim>\<open>Save\<close>: save, then let the optional event handler handle the events.\<close>

definition memSave ::
    "copyEnv \<Rightarrow> ctx \<Rightarrow> event option list \<Rightarrow> gint \<Rightarrow> 'w memStore \<times> 'w \<Rightarrow> ('w memStore \<times> 'w) \<times> unit go" where
  "memSave env c events originalVersion sw =
     (case sw of (s, w) \<Rightarrow>
        (case memSaveDb env events originalVersion (esDb s) of
           (db, Ret _) \<Rightarrow>
             (case esEventHandler s of
                None \<Rightarrow> ((s\<lparr>esDb := db\<rparr>, w), Ret ())
              | Some h \<Rightarrow> (case handleAll h c events w of (w', r) \<Rightarrow> ((s\<lparr>esDb := db\<rparr>, w'), r)))
         | (db, r) \<Rightarrow> ((s\<lparr>esDb := db\<rparr>, w), r)))"

section \<open>Loading\<close>

text \<open>
  The loop body of \<^verbatim>\<open>LoadFrom\<close>: the slot of an event below the requested version stays nil.
  When copying fails the code builds the error from the copy, which is nil, and panics.
\<close>

definition loadSlot :: "copyEnv \<Rightarrow> gint \<Rightarrow> event option \<Rightarrow> event option go" where
  "loadSlot env v ev =
     obind (deref ev) (\<lambda>e.
       if version e <s v then Ret None
       else case copyEvent env e of
              Ret e' \<Rightarrow> Ret (Some e')
            | Fail _ \<Rightarrow> nilDeref
            | Panic p \<Rightarrow> Panic p)"

definition memLoadFrom ::
    "copyEnv \<Rightarrow> ctx \<Rightarrow> UUID \<Rightarrow> gint \<Rightarrow> 'w memStore \<times> 'w \<Rightarrow> ('w memStore \<times> 'w) \<times> event option list go" where
  "memLoadFrom env c aid v sw =
     (sw, case map_of (esDb (fst sw)) aid of
            None \<Rightarrow> Fail (EventStoreError (Some (Sentinel ErrAggregateNotFound)) EventStoreOpLoad '''' aid 0 [])
          | Some aggregate \<Rightarrow> otraverse (loadSlot env v) (arEvents aggregate))"

definition memLoad ::
    "copyEnv \<Rightarrow> ctx \<Rightarrow> UUID \<Rightarrow> 'w memStore \<times> 'w \<Rightarrow> ('w memStore \<times> 'w) \<times> event option list go" where
  "memLoad env c aid sw = memLoadFrom env c aid 1 sw"

text \<open>The store as an \<^verbatim>\<open>eh.EventStore\<close>; it has no snapshots.\<close>

definition memEventStore :: "copyEnv \<Rightarrow> ('w memStore \<times> 'w) EventStore" where
  "memEventStore env =
     \<lparr>esSave = memSave env, esLoadFrom = memLoadFrom env, esSnapshots = None\<rparr>"

section \<open>Maintenance\<close>

fun findVersion :: "gint \<Rightarrow> nat \<Rightarrow> event option list \<Rightarrow> nat option go" where
  "findVersion v i [] = Ret None"
| "findVersion v i (ev # evs) =
     obind (deref ev) (\<lambda>e. if version e = v then Ret (Some i) else findVersion v (Suc i) evs)"

definition replaceError :: "err \<Rightarrow> event \<Rightarrow> err" where
  "replaceError x e =
     EventStoreError (Some x) EventStoreOpReplace '''' (aggregateID e) 0 [Some e]"

text \<open>
  \<^verbatim>\<open>Replace\<close>. The record read from the map shares its slice of events with the database, so
  writing the slot changes the database.
\<close>

definition memReplace ::
    "copyEnv \<Rightarrow> event option \<Rightarrow> (UUID \<times> aggregateRecord) list \<Rightarrow> (UUID \<times> aggregateRecord) list \<times> unit go"
where
  "memReplace env event db =
     (case event of
        None \<Rightarrow> (db, nilDeref)
      | Some e \<Rightarrow>
          (case map_of db (aggregateID e) of
             None \<Rightarrow> (db, Fail (replaceError (Sentinel ErrAggregateNotFound) e))
           | Some aggregate \<Rightarrow>
               (case mapErr (\<lambda>x. replaceError (Wrapf ''could not copy event'' x) e) (copyEvent env e) of
                  Fail x \<Rightarrow> (db, Fail x)
                | Panic p \<Rightarrow> (db, Panic p)
                | Ret e' \<Rightarrow>
                    (case findVersion (version e) 0 (arEvents aggregate) of
                       Fail x \<Rightarrow> (db, Fail x)
                     | Panic p \<Rightarrow> (db, Panic p)
                     | Ret None \<Rightarrow> (db, Fail (replaceError (Sentinel ErrEventNotFound) e))
                     | Ret (Some idx) \<Rightarrow>
                         (AList.update (aggregateID e)
                            (aggregate\<lparr>arEvents := (arEvents aggregate)[idx := Some e']\<rparr>) db, Ret ())))))"

text \<open>
  \<^verbatim>\<open>RenameEvent\<close>. The new slice of events starts with nil entries and only the entries of
  matching events are set.
\<close>

definition renameSlot :: "string \<Rightarrow> string \<Rightarrow> event option \<Rightarrow> event option go" where
  "renameSlot from to ev =
     obind (deref ev) (\<lambda>e.
       Ret (if eventType e = from then Some (rebuildEvent to (data e) e) else None))"

fun renameAll ::
    "string \<Rightarrow> string \<Rightarrow> (UUID \<times> aggregateRecord) list \<Rightarrow> (UUID \<times> aggregateRecord) list go" where
  "renameAll from to [] = Ret []"
| "renameAll from to ((aid, aggregate) # db) =
     obind (otraverse (renameSlot from to) (arEvents aggregate)) (\<lambda>events.
       obind (renameAll from to db) (\<lambda>updated.
         Ret ((aid, aggregate\<lparr>arEvents := events\<rparr>) # updated)))"

definition memRenameEvent ::
    "string \<Rightarrow> string \<Rightarrow> (UUID \<times> aggregateRecord) list \<Rightarrow> (UUID \<times> aggregateRecord) list \<times> unit go" where
  "memRenameEvent from to db =
     (case renameAll from to db of
        Ret updated \<Rightarrow> (updated, Ret ())
      | Fail e \<Rightarrow> (db, Fail e)
      | Panic p \<Rightarrow> (db, Panic p))"

section \<open>Invariant\<close>

text \<open>
  An event that copying keeps as it is: it has no data, or its data type is registered and
  \<^verbatim>\<open>copier.Copy\<close> copies the data onto a fresh value of that type without loss.
\<close>

definition faithful :: "copyEnv \<Rightarrow> event \<Rightarrow> bool" where
  "faithful env e \<longleftrightarrow>
     (case data e of
        None \<Rightarrow> True
      | Some d \<Rightarrow>
          (case registry_get (eventDataFactories env) (eventType e) of
             None \<Rightarrow> False
           | Some p \<Rightarrow> copier_Copy env p (Some d) = Ret (Some d)))"

text \<open>
  A record holds the whole history of its aggregate: no nil entries, the version of the i-th
  event is i + 1, and the record's version is the number of its events.
\<close>

definition recordInv :: "copyEnv \<Rightarrow> UUID \<Rightarrow> aggregateRecord \<Rightarrow> bool" where
  "recordInv env aid r \<longleftrightarrow>
     (\<exists>es. arEvents r = map Some es \<and> es \<noteq> [] \<and> arAggregateID r = aid \<and>
        arVersion r = of_nat (length es) \<and>
        (\<forall>i < length es. version (es ! i) = of_nat (Suc i) \<and> aggregateID (es ! i) = aid) \<and>
        (\<forall>e \<in> set es. faithful env e))"

definition memInv :: "copyEnv \<Rightarrow> (UUID \<times> aggregateRecord) list \<Rightarrow> bool" where
  "memInv env db \<longleftrightarrow> distinct (map fst db) \<and> (\<forall>(aid, r) \<in> set db. recordInv env aid r)"

definition memStream :: "(UUID \<times> aggregateRecord) list \<Rightarrow> UUID \<Rightarrow> event list" where
  "memStream db aid = (case map_of db aid of None \<Rightarrow> [] | Some r \<Rightarrow> map the (arEvents r))"

section \<open>Lemmas\<close>

lemma copyEvent_faithful: "faithful env e \<Longrightarrow> copyEvent env e = Ret e"
  by (cases e) (auto simp: faithful_def copyEvent_def CreateEventData_def event_simps
      split: option.splits)

lemma memInv_Nil [simp]: "memInv env []"
  by (simp add: memInv_def)

lemma memInv_lookup: "memInv env db \<Longrightarrow> map_of db aid = Some r \<Longrightarrow> recordInv env aid r"
  by (auto simp: memInv_def dest: map_of_SomeD)

lemma memInv_update:
  assumes "memInv env db" and "recordInv env aid r"
  shows "memInv env (AList.update aid r db)"
proof -
  have "set (AList.update aid r db) \<subseteq> insert (aid, r) (set db)"
    by (induction db) auto
  with assms show ?thesis by (auto simp: memInv_def intro: distinct_update)
qed

lemma memStream_Nil [simp]: "memStream [] aid = []"
  by (simp add: memStream_def)

lemma memStream_update:
  "memStream (AList.update aid r db) = (memStream db)(aid := map the (arEvents r))"
  by (simp add: memStream_def fun_eq_iff update_conv')

lemma recordInv_stream:
  assumes "memInv env db" and "map_of db aid = Some r"
  shows "arEvents r = map Some (memStream db aid)" and "memStream db aid \<noteq> []"
    and "arVersion r = of_nat (length (memStream db aid))"
    and "\<forall>e \<in> set (memStream db aid). faithful env e"
  using memInv_lookup [OF assms] assms(2) by (auto simp: recordInv_def memStream_def comp_def)

lemma memStream_serial:
  assumes "memInv env db" and "i < length (memStream db aid)"
  shows "version (memStream db aid ! i) = of_nat (Suc i) \<and> aggregateID (memStream db aid ! i) = aid"
proof -
  from assms(2) obtain r where r: "map_of db aid = Some r"
    by (auto simp: memStream_def split: option.splits)
  from memInv_lookup [OF assms(1) r] show ?thesis
    using assms(2) r by (auto simp: recordInv_def memStream_def comp_def)
qed

lemma memStream_empty_iff:
  "memInv env db \<Longrightarrow> memStream db aid = [] \<longleftrightarrow> map_of db aid = None"
  using recordInv_stream(2) [of env db aid] by (cases "map_of db aid") (auto simp: memStream_def)

text \<open>The validation loop on events that can be stored.\<close>

lemma buildRecords_faithful:
  assumes "serialFrom agt aid ov es" and "\<And>e. e \<in> set es \<Longrightarrow> faithful env e"
  shows "buildRecords (\<lambda>e. mapErr f (copyEvent env e)) fail agt aid ov 0 (map Some es) = Ret es"
  using assms by (auto simp: buildRecords_Ret_iff list_all2_conv_all_nth copyEvent_faithful)

lemma memSaveDb_valid:
  assumes "es \<noteq> []" and "serialFrom agt aid ov es" and "\<And>e. e \<in> set es \<Longrightarrow> faithful env e"
  shows "memSaveDb env (map Some es) ov db =
    (if ov = 0 then
       (AList.update aid \<lparr>arAggregateID = aid, arVersion = of_nat (length es), arEvents = map Some es\<rparr> db, Ret ())
     else case map_of db aid of
       None \<Rightarrow> (db, Ret ())
     | Some r \<Rightarrow>
         if arVersion r \<noteq> ov
         then (db, Fail (saveError (Sentinel ErrEventConflictFromOtherSave) agt aid ov (map Some es)))
         else (AList.update aid (r\<lparr>arVersion := arVersion r + of_nat (length es),
                 arEvents := arEvents r @ map Some es\<rparr>) db, Ret ()))"
proof -
  have "hd (map Some es) = Some (hd es)" using assms(1) by (simp add: hd_map)
  moreover have "aggregateID (hd es) = aid" and "aggregateType (hd es) = agt"
    using assms(1,2) by (cases es; simp add: serialFrom_Cons)+
  ultimately show ?thesis
    using assms(1) buildRecords_faithful [OF assms(2,3)]
    by (simp add: memSaveDb_def Let_def split: option.split)
qed

lemma memSaveDb_unchanged: "memSaveDb env evs ov db = (db', r) \<Longrightarrow> r \<noteq> Ret () \<Longrightarrow> db' = db"
  by (auto simp: memSaveDb_def Let_def split: if_splits option.splits outcome.splits)

text \<open>A record for a new aggregate, and a record after an append.\<close>

lemma recordInv_new:
  assumes "es \<noteq> []" and "serialFrom agt aid 0 es" and "\<And>e. e \<in> set es \<Longrightarrow> faithful env e"
  shows "recordInv env aid \<lparr>arAggregateID = aid, arVersion = of_nat (length es), arEvents = map Some es\<rparr>"
  using assms by (auto simp: recordInv_def serialFrom_def)

lemma recordInv_append:
  assumes "recordInv env aid r" and "serialFrom agt aid (arVersion r) es"
    and "\<And>e. e \<in> set es \<Longrightarrow> faithful env e"
  shows "recordInv env aid (r\<lparr>arVersion := arVersion r + of_nat (length es),
    arEvents := arEvents r @ map Some es\<rparr>)"
proof -
  from assms(1) obtain os where os: "arEvents r = map Some os" "os \<noteq> []" "arAggregateID r = aid"
    "arVersion r = of_nat (length os)" "\<forall>e \<in> set os. faithful env e"
    and serial: "\<forall>i < length os. version (os ! i) = of_nat (Suc i) \<and> aggregateID (os ! i) = aid"
    by (auto simp: recordInv_def)
  have "\<forall>i < length (os @ es). version ((os @ es) ! i) = of_nat (Suc i) \<and> aggregateID ((os @ es) ! i) = aid"
  proof (rule list_all_nth_append [where P = "\<lambda>i e. version e = of_nat (Suc i) \<and> aggregateID e = aid", THEN iffD2],
      intro conjI allI impI)
  qed (use serial assms(2) os(4) in \<open>auto simp: serialFrom_def ac_simps\<close>)
  with os assms(3) show ?thesis
    by (auto simp: recordInv_def intro!: exI [of _ "os @ es"])
qed

text \<open>What a valid save does to the history.\<close>

lemma memSaveDb_appends:
  assumes "memInv env db" and "es \<noteq> []" and "ov = of_nat (length (memStream db aid))"
    and "serialFrom agt aid ov es" and "length (memStream db aid) < 2 ^ 63"
    and "\<And>e. e \<in> set es \<Longrightarrow> faithful env e"
  shows "\<exists>db'. memSaveDb env (map Some es) ov db = (db', Ret ()) \<and> memInv env db' \<and>
    memStream db' = (memStream db)(aid := memStream db aid @ es)"
proof (cases "map_of db aid")
  case None
  then have st: "memStream db aid = []" by (simp add: memStream_def)
  with assms(3) have ov: "ov = 0" by simp
  with assms(4) have "serialFrom agt aid 0 es" by simp
  from memInv_update [OF assms(1) recordInv_new [OF assms(2) this assms(6)]]
  show ?thesis
    using memSaveDb_valid [OF assms(2,4,6), of db] ov st by (auto simp: memStream_update comp_def)
next
  case (Some r)
  note r = recordInv_stream [OF assms(1) Some]
  have "ov \<noteq> 0"
    using gint_of_nat_inj [of "length (memStream db aid)" 0] assms(5) r(2) by (simp add: assms(3))
  moreover have "serialFrom agt aid (arVersion r) es" using assms(3,4) r(3) by simp
  from memInv_update [OF assms(1) recordInv_append [OF memInv_lookup [OF assms(1) Some] this assms(6)]]
  have "memInv env (AList.update aid (r\<lparr>arVersion := arVersion r + of_nat (length es),
    arEvents := arEvents r @ map Some es\<rparr>) db)" .
  ultimately show ?thesis
    using memSaveDb_valid [OF assms(2,4,6), of db] Some r assms(3)
    by (auto simp: memStream_update comp_def)
qed

text \<open>Loading the whole history of an aggregate.\<close>

lemma loadSlot_stored:
  "faithful env e \<Longrightarrow> \<not> version e <s v \<Longrightarrow> loadSlot env v (Some e) = Ret (Some e)"
  by (simp add: loadSlot_def copyEvent_faithful)

lemma memLoadFrom_stream:
  assumes "memInv env (esDb s)" and "memStream (esDb s) aid \<noteq> []"
    and "length (memStream (esDb s) aid) < 2 ^ 63"
  shows "memLoadFrom env c aid 1 (s, w) = ((s, w), Ret (map Some (memStream (esDb s) aid)))"
proof -
  let ?es = "memStream (esDb s) aid"
  from assms(2) obtain r where some: "map_of (esDb s) aid = Some r"
    by (auto simp: memStream_def split: option.splits)
  note r = recordInv_stream [OF assms(1) some]
  have "loadSlot env 1 (Some e) = Ret (Some e)" if "e \<in> set ?es" for e
  proof (rule loadSlot_stored)
    from that show "faithful env e" using r(4) by blast
    from that obtain i where i: "i < length ?es" "?es ! i = e" by (auto simp: in_set_conv_nth)
    with memStream_serial [OF assms(1) i(1)] have v: "version e = of_nat (Suc i)" by simp
    have "\<not> (of_nat (Suc i) :: gint) <s 1" using i(1) assms(3) by (intro not_sless_one) auto
    then show "\<not> version e <s 1" by (simp add: v)
  qed
  then have "otraverse (loadSlot env 1) (map Some ?es) = Ret (map (\<lambda>x. x) (map Some ?es))"
    by (intro otraverse_map_Ret) auto
  then show ?thesis by (simp add: memLoadFrom_def some r(1))
qed

text \<open>What a save of acceptable events at the current version does.\<close>

lemma memSave_result:
  assumes "memInv env (esDb (fst sw))" and "es \<noteq> []"
    and "serialFrom agt aid (of_nat (length (memStream (esDb (fst sw)) aid))) es"
    and "length (memStream (esDb (fst sw)) aid) < 2 ^ 63" and "\<And>e. e \<in> set es \<Longrightarrow> faithful env e"
    and "memSave env c (map Some es) (of_nat (length (memStream (esDb (fst sw)) aid))) sw = (sw', r)"
  shows "memInv env (esDb (fst sw')) \<and>
    memStream (esDb (fst sw')) = (memStream (esDb (fst sw)))(aid := memStream (esDb (fst sw)) aid @ es) \<and>
    (r = Ret () \<or> (\<exists>x ev. r = Fail (EventHandlerError x ev)) \<or> (\<exists>p. r = Panic p))"
proof -
  obtain s w where sw: "sw = (s, w)" by (cases sw)
  note as = assms [unfolded sw fst_conv]
  obtain db' where save: "memSaveDb env (map Some es) (of_nat (length (memStream (esDb s) aid))) (esDb s) = (db', Ret ())"
    and db': "memInv env db'" "memStream db' = (memStream (esDb s))(aid := memStream (esDb s) aid @ es)"
    using memSaveDb_appends [OF as(1,2) refl as(3,4,5)] by metis
  show ?thesis
  proof (cases "esEventHandler s")
    case None
    with as(6) save db' show ?thesis by (auto simp: memSave_def sw)
  next
    case (Some h)
    obtain w' r' where h: "handleAll h c (map Some es) w = (w', r')" by fastforce
    with as(6) save Some have "sw' = (s\<lparr>esDb := db'\<rparr>, w')" "r = r'" by (auto simp: memSave_def sw)
    with db' handleAll_result [OF h] show ?thesis by (simp add: sw)
  qed
qed

interpretation mem: reliable_event_store "memSave env" "memLoadFrom env"
  "\<lambda>sw. memStream (esDb (fst sw))" "faithful env" "\<lambda>sw. memInv env (esDb (fst sw))"
  for env :: copyEnv
proof (unfold_locales, goal_cases)
  case (1 sw i aid)
  then show ?case by (rule memStream_serial)
next
  case (2 sw aid c)
  then show ?case using memLoadFrom_stream [of env "fst sw" aid c "snd sw"] by simp
next
  case (3 sw aid c)
  then show ?case by (auto simp: memLoadFrom_def memStream_empty_iff)
next
  case (4 sw es agt aid c sw' r)
  then show ?case using memSave_result [OF 4] by simp
next
  case (5 sw es agt aid c sw' r)
  then show ?case using memSave_result [OF 5] by simp
qed

section \<open>Reachable states\<close>

text \<open>The states a store reaches by saves and replacements of events that it can hold.\<close>

inductive memReach :: "copyEnv \<Rightarrow> (UUID \<times> aggregateRecord) list \<Rightarrow> bool" for env where
  memReach_New: "memReach env []"
| memReach_Save:
    "memReach env db \<Longrightarrow> \<forall>e. Some e \<in> set evs \<longrightarrow> faithful env e \<Longrightarrow>
     memSaveDb env evs ov db = (db', r) \<Longrightarrow> memReach env db'"
| memReach_Replace:
    "memReach env db \<Longrightarrow> (\<And>e. ev = Some e \<Longrightarrow> faithful env e) \<Longrightarrow>
     memReplace env ev db = (db', r) \<Longrightarrow> memReach env db'"

text \<open>A save that changes the database was given events that pass the validation.\<close>

lemma memSaveDb_cases:
  assumes "memSaveDb env evs ov db = (db', r)"
  obtains "db' = db"
  | es agt aid where "r = Ret ()" "evs = map Some es" "es \<noteq> []" "serialFrom agt aid ov es"
proof (cases "db' = db")
  case False
  with assms memSaveDb_unchanged [of env evs ov db db' r] have "r = Ret ()" by blast
  with assms False obtain e0 mk fail and rs :: "event list" where "hd evs = Some e0" "evs \<noteq> []"
    "buildRecords mk fail (aggregateType e0) (aggregateID e0) ov 0 evs = Ret rs"
    by (auto simp: memSaveDb_def Let_def split: if_splits option.splits outcome.splits)
  with that(2) \<open>r = Ret ()\<close> show ?thesis by (auto simp: buildRecords_Ret_iff)
qed

lemma memSaveDb_inv:
  assumes "memInv env db" and "\<forall>e. Some e \<in> set evs \<longrightarrow> faithful env e"
    and "memSaveDb env evs ov db = (db', r)"
  shows "memInv env db'"
  using assms(3)
proof (cases rule: memSaveDb_cases)
  case 1
  with assms(1) show ?thesis by simp
next
  case (2 es agt aid)
  with assms(2) have faith: "\<And>e. e \<in> set es \<Longrightarrow> faithful env e" by auto
  note save = memSaveDb_valid [OF 2(3,4) faith, of db, simplified]
  show ?thesis
  proof (cases "ov = 0")
    case True
    with 2 save assms(3)
    have "db' = AList.update aid \<lparr>arAggregateID = aid, arVersion = of_nat (length es), arEvents = map Some es\<rparr> db"
      by auto
    with memInv_update [OF assms(1) recordInv_new] 2 True faith show ?thesis by auto
  next
    case False
    show ?thesis
    proof (cases "\<exists>r. map_of db aid = Some r \<and> arVersion r = ov")
      case True
      then obtain r where r: "map_of db aid = Some r" "arVersion r = ov" by blast
      with 2 save assms(3) False have "db' = AList.update aid (r\<lparr>arVersion := arVersion r + of_nat (length es),
        arEvents := arEvents r @ map Some es\<rparr>) db" by auto
      with memInv_update [OF assms(1) recordInv_append [OF memInv_lookup [OF assms(1) r(1)]]] 2 r faith
      show ?thesis by auto
    next
      case no: False
      with 2 save assms(3) False have "db' = db" by (auto split: option.splits if_splits)
      with assms(1) show ?thesis by simp
    qed
  qed
qed

text \<open>Replacing an event of an aggregate's history.\<close>

lemma findVersion_first:
  "k < length es \<Longrightarrow> version (es ! k) = v \<Longrightarrow> (\<And>j. j < k \<Longrightarrow> version (es ! j) \<noteq> v) \<Longrightarrow>
   findVersion v i (map Some es) = Ret (Some (i + k))"
proof (induction es arbitrary: i k)
  case Nil
  then show ?case by simp
next
  case (Cons e es)
  show ?case
  proof (cases k)
    case 0
    with Cons.prems show ?thesis by simp
  next
    case (Suc k')
    have "version (es ! j) \<noteq> v" if "j < k'" for j
      using Cons.prems(3) [of "Suc j"] that Suc by simp
    with Cons.IH [of k' "Suc i"] Cons.prems Suc Cons.prems(3) [of 0] show ?thesis by simp
  qed
qed

lemma findVersion_Some:
  "findVersion v i (map Some es) = Ret (Some j) \<Longrightarrow>
   i \<le> j \<and> j - i < length es \<and> version (es ! (j - i)) = v"
  by (induction es arbitrary: i) (fastforce simp: nth_Cons' split: if_splits)+

lemma recordInv_replace:
  assumes "recordInv env aid r" and "aggregateID e = aid" and "faithful env e"
    and "findVersion (version e) 0 (arEvents r) = Ret (Some j)"
  shows "recordInv env aid (r\<lparr>arEvents := (arEvents r)[j := Some e]\<rparr>)"
proof -
  from assms(1) obtain es where es: "arEvents r = map Some es" "es \<noteq> []" "arAggregateID r = aid"
    "arVersion r = of_nat (length es)" "\<forall>e \<in> set es. faithful env e"
    "\<forall>i < length es. version (es ! i) = of_nat (Suc i) \<and> aggregateID (es ! i) = aid"
    by (auto simp: recordInv_def)
  with findVersion_Some [of "version e" 0 es j] assms(4)
  have j: "j < length es" "version e = version (es ! j)" by auto
  have "\<forall>i < length es. version (es[j := e] ! i) = of_nat (Suc i) \<and> aggregateID (es[j := e] ! i) = aid"
    using es(6) j assms(2) by (simp add: nth_list_update)
  moreover have "\<forall>x \<in> set (es[j := e]). faithful env x"
    using es(5) assms(3) set_update_subset_insert [of es j e] by blast
  ultimately show ?thesis
    using es by (auto simp: recordInv_def list_update_map_Some intro!: exI [of _ "es[j := e]"])
qed

lemma memReplace_inv:
  assumes "memInv env db" and "\<And>e. ev = Some e \<Longrightarrow> faithful env e" and "memReplace env ev db = (db', r)"
  shows "memInv env db'"
proof (cases "db' = db")
  case False
  with assms(3) obtain e where e: "ev = Some e" by (cases ev) (auto simp: memReplace_def)
  with assms False obtain a j where "map_of db (aggregateID e) = Some a"
    "findVersion (version e) 0 (arEvents a) = Ret (Some j)"
    "db' = AList.update (aggregateID e) (a\<lparr>arEvents := (arEvents a)[j := Some e]\<rparr>) db"
    by (auto simp: memReplace_def copyEvent_faithful split: option.splits outcome.splits)
  with assms e show ?thesis
    by (auto intro!: memInv_update recordInv_replace intro: memInv_lookup)
qed (use assms in simp)

lemma memReplace_effect:
  assumes "memInv env db" and "k < length (memStream db aid)" and "k < 2 ^ 63"
    and "aggregateID e = aid" and "version e = of_nat (Suc k)" and "faithful env e"
  shows "\<exists>db'. memReplace env (Some e) db = (db', Ret ()) \<and>
    memStream db' = (memStream db)(aid := (memStream db aid)[k := e])"
proof -
  let ?es = "memStream db aid"
  from assms(2) obtain r where some: "map_of db aid = Some r"
    by (auto simp: memStream_def split: option.splits)
  note r = recordInv_stream [OF assms(1) some]
  have ser: "version (?es ! j) = of_nat (Suc j)" if "j \<le> k" for j
    using memStream_serial [OF assms(1), of j aid] that assms(2) by simp
  have "version (?es ! j) \<noteq> version e" if "j < k" for j
    using ser [of j] that assms(3,5) gint_of_nat_inj [of "Suc j" "Suc k"] by simp
  with findVersion_first [OF assms(2), of "version e" 0] ser [of k] assms(5)
  have "findVersion (version e) 0 (map Some ?es) = Ret (Some k)" by simp
  with assms some r show ?thesis
    by (simp add: memReplace_def copyEvent_faithful memStream_update list_update_map_Some comp_def)
qed

text \<open>Loading from a version: the slots of earlier events are nil.\<close>

lemma loadSlot_stream:
  assumes "memInv env db" and "i < length (memStream db aid)"
    and "length (memStream db aid) < 2 ^ 63" and "n < 2 ^ 63"
  shows "loadSlot env (of_nat n) (Some (memStream db aid ! i)) =
    Ret (if Suc i < n then None else Some (memStream db aid ! i))"
proof -
  have "version (memStream db aid ! i) = of_nat (Suc i)" using memStream_serial [OF assms(1,2)] by simp
  moreover have "(of_nat (Suc i) :: gint) <s of_nat n \<longleftrightarrow> Suc i < n"
    using assms(2-4) by (intro gint_sless_of_nat) auto
  moreover have "faithful env (memStream db aid ! i)"
    using assms(2) recordInv_stream(4) [OF assms(1)] by (cases "map_of db aid") (auto simp: memStream_def)
  ultimately show ?thesis by (simp add: loadSlot_def copyEvent_faithful)
qed

text \<open>Renaming.\<close>

lemma otraverse_renameSlot:
  "otraverse (renameSlot from to) (map Some es) =
     Ret (map (\<lambda>e. if eventType e = from then Some (e\<lparr>eventType := to\<rparr>) else None) es)"
proof -
  have upd: "e\<lparr>eventType := to, data := data e\<rparr> = e\<lparr>eventType := to\<rparr>" for e :: event by (cases e) simp
  show ?thesis by (induction es) (auto simp: renameSlot_def event_simps upd)
qed

definition renamedRecord :: "string \<Rightarrow> string \<Rightarrow> aggregateRecord \<Rightarrow> aggregateRecord" where
  "renamedRecord from to r = r\<lparr>arEvents :=
     map (\<lambda>e. if eventType (the e) = from then Some ((the e)\<lparr>eventType := to\<rparr>) else None) (arEvents r)\<rparr>"

lemma memRenameEvent_effect:
  assumes "memInv env db"
  shows "memRenameEvent from to db = (map (map_prod id (renamedRecord from to)) db, Ret ())"
proof -
  have "renameAll from to db = Ret (map (map_prod id (renamedRecord from to)) db)"
    if "\<forall>(aid, r) \<in> set db. recordInv env aid r" for db
    using that by (induction db)
      (auto simp: recordInv_def otraverse_renameSlot renamedRecord_def comp_def)
  with assms show ?thesis by (simp add: memRenameEvent_def memInv_def)
qed

lemma map_of_renamed:
  "map_of (map (map_prod id f) db) = map_option f \<circ> map_of db"
  by (induction db) (auto simp: fun_eq_iff)

lemma loadSlot_not_Fail: "loadSlot env v ev \<noteq> Fail x"
  by (cases ev) (auto simp: loadSlot_def split: outcome.splits)

lemma otraverse_loadSlot_nil:
  "None \<in> set evs \<Longrightarrow> \<exists>p. otraverse (loadSlot env v) evs = Panic p"
proof (induction evs)
  case (Cons ev evs)
  show ?case
  proof (cases "loadSlot env v ev")
    case (Ret x)
    then have "ev \<noteq> None" by (cases ev) (auto simp: loadSlot_def)
    with Cons Ret show ?thesis by auto
  qed (use loadSlot_not_Fail in auto)
qed simp

text \<open>A store with one registered event type, and a history of one aggregate, for the examples.\<close>

definition demoEnv :: copyEnv where
  "demoEnv = \<lparr>eventDataFactories = \<lparr>items = [''Created'' \<mapsto> Some (GString '''')], regName = ''event''\<rparr>,
     copier_Copy = (\<lambda>to from. Ret from)\<rparr>"

definition demoEvent :: "string \<Rightarrow> nat \<Rightarrow> event" where
  "demoEvent et v = \<lparr>eventType = et, data = (if et = ''Created'' then Some (GString ''x'') else None),
     timestamp = 5, aggregateType = ''Demo'', aggregateID = 7, version = of_nat v, metadata = None\<rparr>"

definition demoRecord :: aggregateRecord where
  "demoRecord = \<lparr>arAggregateID = 7, arVersion = 2,
     arEvents = [Some (demoEvent ''Created'' 1), Some (demoEvent ''Closed'' 2)]\<rparr>"

definition demoStore :: "nat memStore" where
  "demoStore = \<lparr>esDb = [(7, demoRecord)], esEventHandler = Some (\<lambda>c ev n. (Suc n, Ret ()))\<rparr>"

lemma demoEvent_sel [simp]:
  "eventType (demoEvent et v) = et" "aggregateType (demoEvent et v) = ''Demo''"
  "aggregateID (demoEvent et v) = 7" "version (demoEvent et v) = of_nat v"
  by (simp_all add: demoEvent_def)

lemma faithful_demoEvent [simp]:
  "faithful demoEnv (demoEvent ''Created'' v)" "faithful demoEnv (demoEvent ''Closed'' v)"
  by (simp_all add: faithful_def demoEnv_def demoEvent_def registry_get_def)

lemma memInv_demoStore [simp]: "memInv demoEnv (esDb demoStore)"
  by (auto simp: memInv_def demoStore_def demoRecord_def recordInv_def less_Suc_eq nth_Cons'
      intro!: exI [of _ "[demoEvent ''Created'' 1, demoEvent ''Closed'' 2]"])

lemma memStream_demoStore [simp]:
  "memStream (esDb demoStore) 7 = [demoEvent ''Created'' 1, demoEvent ''Closed'' 2]"
  by (simp add: memStream_def demoStore_def demoRecord_def)

lemma map_of_demoStore [simp]: "map_of (esDb demoStore) 7 = Some demoRecord"
  by (simp add: demoStore_def)

section \<open>Properties\<close>

text \<open>
  C19: every state that saves and replacements of faithfully copied events reach satisfies the
  store's invariant: each record holds a gapless history without nil entries, whose i-th event
  has version i + 1, and the record's version counts its events.
\<close>

theorem memReach_memInv: "memReach env db \<Longrightarrow> memInv env db"
  by (induction rule: memReach.induct) (auto intro: memSaveDb_inv memReplace_inv)

theorem memReach_memInv_witness:
  "memInv demoEnv (fst (memSaveDb demoEnv [Some (demoEvent ''Created'' 1)] 0 []))"
  by (rule memReach_memInv, rule memReach_Save [OF memReach_New _ surjective_pairing]) simp

text \<open>
  a save that is rejected, whatever the events were, leaves the database exactly as it was
  and hands no event to the event handler.
\<close>

theorem memSave_failure_atomic:
  assumes "memSaveDb env evs ov (esDb s) = (db', r)" and "r \<noteq> Ret ()"
  shows "memSave env c evs ov (s, w) = ((s, w), r)"
proof -
  from memSaveDb_unchanged [OF assms] have "db' = esDb s" .
  with assms show ?thesis by (cases r) (auto simp: memSave_def)
qed

theorem memSave_failure_atomic_witness:
  "\<exists>x. memSave demoEnv context_Background [Some (demoEvent ''Closed'' 4)] 2 (demoStore, 0) =
     ((demoStore, 0), Fail x) \<and> errors_Is x ErrIncorrectEventVersion"
proof -
  let ?evs = "[Some (demoEvent ''Closed'' 4)]"
  have "memSaveDb demoEnv ?evs 2 (esDb demoStore) =
      (esDb demoStore, Fail (saveError (Sentinel ErrIncorrectEventVersion) ''Demo'' 7 2 ?evs))"
    by (simp add: memSaveDb_def)
  from memSave_failure_atomic [OF this] show ?thesis by (simp add: saveError_def)
qed

text \<open>
  C4: load after save. A save of valid events at the current version of an aggregate, whether
  or not the event handler then fails, keeps the invariant and changes the history of no other
  aggregate, and loading the aggregate gives its old events followed by the new ones.
\<close>

theorem memSave_then_load:
  assumes "memInv env (esDb s)" and "es \<noteq> []" and "\<forall>e \<in> set es. faithful env e"
    and "serialFrom agt aid (of_nat (length (memStream (esDb s) aid))) es"
    and "length (memStream (esDb s) aid @ es) < 2 ^ 63"
    and "memSave env c (map Some es) (of_nat (length (memStream (esDb s) aid))) (s, w) = ((s', w'), r)"
  shows "memInv env (esDb s') \<and>
    memStream (esDb s') = (memStream (esDb s))(aid := memStream (esDb s) aid @ es) \<and>
    memLoad env c' aid (s', w') = ((s', w'), Ret (map Some (memStream (esDb s) aid @ es)))"
proof -
  have len: "length (memStream (esDb s) aid) < 2 ^ 63" using assms(5) by simp
  note app = memSave_result [where sw = "(s, w)", unfolded fst_conv, OF assms(1,2,4) len _ assms(6)]
  note ld = mem.load_after_any_save [where s = "(s, w)", unfolded fst_conv, OF assms(1,2,4) assms(5) _ assms(6)]
  from app ld assms(3) show ?thesis by (simp add: memLoad_def)
qed

theorem memSave_then_load_witness:
  "\<exists>s' w' r. memSave demoEnv context_Background [Some (demoEvent ''Closed'' 3)] 2 (demoStore, 0) = ((s', w'), r) \<and>
     memLoad demoEnv context_Background 7 (s', w') = ((s', w'), Ret (map Some
       [demoEvent ''Created'' 1, demoEvent ''Closed'' 2, demoEvent ''Closed'' 3]))"
proof -
  obtain s' w' r where save:
    "memSave demoEnv context_Background [Some (demoEvent ''Closed'' 3)] 2 (demoStore, 0) = ((s', w'), r)"
    by (metis surj_pair)
  with memSave_then_load [of demoEnv demoStore "[demoEvent ''Closed'' 3]" "''Demo''" 7
      context_Background 0 s' w' r context_Background]
  show ?thesis by (auto simp: serialFrom_Cons)
qed

text \<open>
  C17: optimistic concurrency. A save of otherwise valid events to an existing aggregate whose
  original version is neither 0 nor the aggregate's current version fails with
  \<^verbatim>\<open>ErrEventConflictFromOtherSave\<close> and changes nothing.
\<close>

theorem memSave_conflict:
  assumes "es \<noteq> []" and "serialFrom agt aid ov es" and "\<forall>e \<in> set es. faithful env e"
    and "map_of (esDb s) aid = Some a" and "ov \<noteq> 0" and "arVersion a \<noteq> ov"
  shows "\<exists>x. memSave env c (map Some es) ov (s, w) = ((s, w), Fail x) \<and>
    errors_Is x ErrEventConflictFromOtherSave"
  using memSaveDb_valid [OF assms(1,2), of env "esDb s"] assms(3-6)
  by (simp add: memSave_def saveError_def)

theorem memSave_conflict_witness:
  "\<exists>x. memSave demoEnv context_Background [Some (demoEvent ''Closed'' 2)] 1 (demoStore, 0) =
     ((demoStore, 0), Fail x) \<and> errors_Is x ErrEventConflictFromOtherSave"
  using memSave_conflict [of "[demoEvent ''Closed'' 2]" "''Demo''" 7 1 demoEnv demoStore demoRecord]
  by (simp add: serialFrom_Cons demoRecord_def)

text \<open>
  what the guard of a save does not cover. A save at original version 0 to an aggregate
  that already has events replaces its whole history, and a save at another version to an
  unknown aggregate succeeds and stores nothing.
\<close>

theorem memSave_unguarded:
  assumes "es \<noteq> []" and "serialFrom agt aid ov es" and "\<forall>e \<in> set es. faithful env e"
  shows "(ov = 0 \<longrightarrow> (\<exists>db'. memSaveDb env (map Some es) ov db = (db', Ret ()) \<and>
      memStream db' = (memStream db)(aid := es))) \<and>
    (ov \<noteq> 0 \<and> map_of db aid = None \<longrightarrow> memSaveDb env (map Some es) ov db = (db, Ret ()))"
  using memSaveDb_valid [OF assms(1,2), of env db] assms(3)
  by (auto simp: memStream_update comp_def)

theorem memSave_unguarded_witness:
  "\<exists>db'. memSaveDb demoEnv [Some (demoEvent ''Created'' 1)] 0 (esDb demoStore) = (db', Ret ()) \<and>
     memStream db' 7 = [demoEvent ''Created'' 1]"
  using memSave_unguarded [of "[demoEvent ''Created'' 1]" "''Demo''" 7 0 demoEnv "esDb demoStore"]
  by (auto simp: serialFrom_Cons)

text \<open>
  C33: loading from a version returns one slot per event of the aggregate; the slots of the
  events below the version are nil, the others hold the stored events.
\<close>

theorem memLoadFrom_slots:
  assumes "memInv env (esDb s)" and "memStream (esDb s) aid \<noteq> []"
    and "length (memStream (esDb s) aid) < 2 ^ 63" and "n < 2 ^ 63"
  shows "memLoadFrom env c aid (of_nat n) (s, w) =
    ((s, w), Ret (map (\<lambda>i. if Suc i < n then None else Some (memStream (esDb s) aid ! i))
       [0..<length (memStream (esDb s) aid)]))"
proof -
  let ?es = "memStream (esDb s) aid"
  let ?g = "\<lambda>i. if Suc i < n then None else Some (?es ! i)"
  from assms(2) obtain r where some: "map_of (esDb s) aid = Some r"
    by (auto simp: memStream_def split: option.splits)
  note r = recordInv_stream [OF assms(1) some]
  have "loadSlot env (of_nat n) (Some (?es ! i)) = Ret (?g i)" if "i < length ?es" for i
    using loadSlot_stream [OF assms(1) that assms(3,4)] by simp
  then have "otraverse (loadSlot env (of_nat n)) (map Some ?es) = Ret (map ?g [0..<length ?es])"
    by (auto simp: otraverse_Ret_iff list_all2_conv_all_nth)
  then show ?thesis by (simp add: memLoadFrom_def some r(1))
qed

theorem memLoadFrom_slots_witness:
  "memLoadFrom demoEnv context_Background 7 2 (demoStore, 0) =
     ((demoStore, 0), Ret [None, Some (demoEvent ''Closed'' 2)])"
  using memLoadFrom_slots [of demoEnv demoStore 7 2 context_Background 0] by (simp add: upt_rec)

text \<open>
  replacing an event of a stored history puts the new event in the place of the old one
  and changes nothing else, and the invariant is kept.
\<close>

theorem memReplace_in_place:
  assumes "memInv env db" and "k < length (memStream db (aggregateID e))" and "k < 2 ^ 63"
    and "version e = of_nat (Suc k)" and "faithful env e"
  shows "\<exists>db'. memReplace env (Some e) db = (db', Ret ()) \<and> memInv env db' \<and>
    memStream db' = (memStream db)(aggregateID e := (memStream db (aggregateID e))[k := e])"
  using memReplace_effect [OF assms(1,2,3) refl assms(4,5)] memReplace_inv [OF assms(1), of "Some e"] assms(5)
  by auto

theorem memReplace_in_place_witness:
  "\<exists>db'. memReplace demoEnv (Some (demoEvent ''Created'' 2)) (esDb demoStore) = (db', Ret ()) \<and>
     memStream db' 7 = [demoEvent ''Created'' 1, demoEvent ''Created'' 2]"
  using memReplace_in_place [of demoEnv "esDb demoStore" 1 "demoEvent ''Created'' 2"] by auto

text \<open>
  C34: renaming event types. On a valid database it succeeds. A history all of whose events
  have the old type is renamed as intended; a history with an event of another type loses that
  event to a nil entry, and loading that aggregate panics from then on.
\<close>

theorem memRenameEvent_histories:
  assumes "memInv env (esDb s)"
  shows "\<exists>db'. memRenameEvent from to (esDb s) = (db', Ret ()) \<and>
    (\<forall>aid. (\<forall>e \<in> set (memStream (esDb s) aid). eventType e = from) \<longrightarrow>
       memStream db' aid = map (\<lambda>e. e\<lparr>eventType := to\<rparr>) (memStream (esDb s) aid)) \<and>
    (\<forall>aid. (\<exists>e \<in> set (memStream (esDb s) aid). eventType e \<noteq> from) \<longrightarrow>
       (\<exists>p. memLoad env c aid (s\<lparr>esDb := db'\<rparr>, w) = ((s\<lparr>esDb := db'\<rparr>, w), Panic p)))"
  (is "\<exists>db'. _ = (db', _) \<and> ?all db' \<and> ?some db'")
proof -
  let ?db = "map (map_prod id (renamedRecord from to)) (esDb s)"
  have "?all ?db"
  proof (intro allI impI)
    fix aid assume all: "\<forall>e \<in> set (memStream (esDb s) aid). eventType e = from"
    show "memStream ?db aid = map (\<lambda>e. e\<lparr>eventType := to\<rparr>) (memStream (esDb s) aid)"
    proof (cases "map_of (esDb s) aid")
      case None
      then show ?thesis by (simp add: memStream_def map_of_renamed)
    next
      case (Some r)
      from recordInv_stream(1) [OF assms Some] all show ?thesis
        by (simp add: memStream_def map_of_renamed renamedRecord_def Some comp_def)
    qed
  qed
  moreover have "?some ?db"
  proof (intro allI impI)
    fix aid assume ex: "\<exists>e \<in> set (memStream (esDb s) aid). eventType e \<noteq> from"
    then obtain r where r: "map_of (esDb s) aid = Some r"
      by (cases "map_of (esDb s) aid") (auto simp: memStream_def)
    with ex recordInv_stream(1) [OF assms r] have "None \<in> set (arEvents (renamedRecord from to r))"
      by (auto simp: renamedRecord_def)
    from otraverse_loadSlot_nil [OF this]
    show "\<exists>p. memLoad env c aid (s\<lparr>esDb := ?db\<rparr>, w) = ((s\<lparr>esDb := ?db\<rparr>, w), Panic p)"
      by (simp add: memLoad_def memLoadFrom_def map_of_renamed r)
  qed
  ultimately show ?thesis using memRenameEvent_effect [OF assms, of "from" to] by blast
qed

theorem memRenameEvent_histories_witness:
  "\<exists>db' p. memRenameEvent ''Created'' ''Opened'' (esDb demoStore) = (db', Ret ()) \<and>
     memLoad demoEnv context_Background 7 (demoStore\<lparr>esDb := db'\<rparr>, 0) =
       ((demoStore\<lparr>esDb := db'\<rparr>, 0), Panic p)"
  using memRenameEvent_histories [of demoEnv demoStore "''Created''" "''Opened''" context_Background 0]
  by auto

end
