(* ===== verification/AggregateStore_Events.thy ===== *)
theory AggregateStore_Events
  imports EventStore_Memory
begin

text \<open>
  The event sourced aggregate store (\<^verbatim>\<open>aggregatestore/events\<close>): the aggregate base, the snapshot
  strategies, and loading and saving of aggregates. An aggregate is a struct that embeds
  \<^verbatim>\<open>*AggregateBase\<close>, so the methods of the base are those of the aggregate; its own methods are
  user code and come as a record of functions. The event store is reached through its
  interface only.
\<close>

section \<open>Aggregates\<close>

text \<open>\<^verbatim>\<open>AggregateBase\<close>. Only \<open>AppendEvent\<close> adds to the events, so none of them is nil.\<close>

record AggregateBase =
  abID :: UUID
  abType :: string
  abV :: gint
  abEvents :: "event list"

definition NewAggregateBase :: "string \<Rightarrow> UUID \<Rightarrow> AggregateBase" where
  "NewAggregateBase t aid = \<lparr>abID = aid, abType = t, abV = 0, abEvents = []\<rparr>"

record 'u aggregate =
  aggBase :: AggregateBase
  aggState :: 'u

definition EntityID :: "'u aggregate \<Rightarrow> UUID" where
  "EntityID a = abID (aggBase a)"

definition AggregateType :: "'u aggregate \<Rightarrow> string" where
  "AggregateType a = abType (aggBase a)"

definition AggregateVersion :: "'u aggregate \<Rightarrow> gint" where
  "AggregateVersion a = abV (aggBase a)"

definition SetAggregateVersion :: "gint \<Rightarrow> 'u aggregate \<Rightarrow> 'u aggregate" where
  "SetAggregateVersion v a = a\<lparr>aggBase := (aggBase a)\<lparr>abV := v\<rparr>\<rparr>"

definition UncommittedEvents :: "'u aggregate \<Rightarrow> event list" where
  "UncommittedEvents a = abEvents (aggBase a)"

definition ClearUncommittedEvents :: "'u aggregate \<Rightarrow> 'u aggregate" where
  "ClearUncommittedEvents a = a\<lparr>aggBase := (aggBase a)\<lparr>abEvents := []\<rparr>\<rparr>"

definition AppendEvent ::
    "string \<Rightarrow> EventData \<Rightarrow> time \<Rightarrow> EventOption list \<Rightarrow> 'u aggregate \<Rightarrow> 'u aggregate \<times> event" where
  "AppendEvent t d ts options a =
     (let e = NewEvent t d ts (options @
                [ForAggregate (AggregateType a) (EntityID a)
                   (AggregateVersion a + of_nat (length (UncommittedEvents a)) + 1)])
      in (a\<lparr>aggBase := (aggBase a)\<lparr>abEvents := abEvents (aggBase a) @ [e]\<rparr>\<rparr>, e))"

text \<open>
  The methods of an aggregate that are user code, and the type assertions on it: whether it is
  a \<^verbatim>\<open>VersionedAggregate\<close> and whether it is \<^verbatim>\<open>Snapshotable\<close>. \<open>aggFactories\<close> is the registry that
  \<^verbatim>\<open>CreateAggregate\<close> uses.
\<close>

record 'u aggEnv =
  aggFactories :: "(UUID \<Rightarrow> 'u aggregate option) typeRegistry"
  isVersioned :: "'u aggregate \<Rightarrow> bool"
  ApplyEvent :: "ctx \<Rightarrow> event \<Rightarrow> 'u aggregate \<Rightarrow> 'u aggregate \<times> unit go"
  isSnapshotable :: "'u aggregate \<Rightarrow> bool"
  CreateSnapshot :: "'u aggregate \<Rightarrow> Snapshot option"
  ApplySnapshot :: "Snapshot \<Rightarrow> 'u aggregate \<Rightarrow> 'u aggregate"

section \<open>Snapshot strategies\<close>

type_synonym SnapshotStrategy = "gint \<Rightarrow> time \<Rightarrow> event \<Rightarrow> bool"

definition NoSnapshotStrategy :: SnapshotStrategy where
  "NoSnapshotStrategy lastVersion lastTimestamp e = False"

text \<open>The version difference wraps around and the comparison is signed.\<close>

definition EveryNumberEventSnapshotStrategy :: "gint \<Rightarrow> SnapshotStrategy" where
  "EveryNumberEventSnapshotStrategy threshold lastVersion lastTimestamp e =
     (threshold <=s version e - lastVersion)"

text \<open>\<^verbatim>\<open>Time.Sub\<close> saturates at the range of a \<^verbatim>\<open>Duration\<close>.\<close>

definition time_Sub :: "time \<Rightarrow> time \<Rightarrow> duration" where
  "time_Sub t u = max (- (2 ^ 63)) (min (2 ^ 63 - 1) (t - u))"

definition PeriodSnapshotStrategy :: "duration \<Rightarrow> SnapshotStrategy" where
  "PeriodSnapshotStrategy threshold lastVersion lastTimestamp e =
     (threshold \<le> time_Sub (timestamp e) lastTimestamp)"

section \<open>The aggregate store\<close>

text \<open>
  \<^verbatim>\<open>AggregateStore\<close>; \<open>asSnapshotStore\<close> is \<^const>\<open>None\<close> when \<^verbatim>\<open>isSnapshotStore\<close> is false, and a
  strategy that is \<^const>\<open>None\<close> is a nil one.
\<close>

record 's AggregateStore =
  asStore :: "'s EventStore"
  asSnapshotStore :: "'s SnapshotStore option"
  asSnapshotStrategy :: "SnapshotStrategy option"

type_synonym 's aggregateStoreOption = "'s AggregateStore \<Rightarrow> 's AggregateStore go"

fun applyAggregateStoreOptions ::
    "'s aggregateStoreOption list \<Rightarrow> 's AggregateStore \<Rightarrow> 's AggregateStore go" where
  "applyAggregateStoreOptions [] d = Ret d"
| "applyAggregateStoreOptions (option # options) d =
     obind (mapErr (Wrapf ''error while applying option'') (option d))
       (applyAggregateStoreOptions options)"

definition NewAggregateStore ::
    "'s EventStore option \<Rightarrow> 's aggregateStoreOption list \<Rightarrow> 's AggregateStore go" where
  "NewAggregateStore store options =
     (case store of
        None \<Rightarrow> Fail (Sentinel ErrInvalidEventStore)
      | Some es \<Rightarrow>
          obind (applyAggregateStoreOptions options
                  \<lparr>asStore = es, asSnapshotStore = None, asSnapshotStrategy = Some NoSnapshotStrategy\<rparr>)
            (\<lambda>d. Ret (d\<lparr>asSnapshotStore := esSnapshots es\<rparr>)))"

definition WithSnapshotStrategy :: "SnapshotStrategy option \<Rightarrow> 's aggregateStoreOption" where
  "WithSnapshotStrategy strategy d = Ret (d\<lparr>asSnapshotStrategy := strategy\<rparr>)"

text \<open>
  \<^verbatim>\<open>applyEvents\<close>: the aggregate as far as it was changed, and the result. A nil event panics.
  \<open>us\<close> prints UUIDs.
\<close>

fun applyEvents ::
    "(UUID \<Rightarrow> string) \<Rightarrow> 'u aggEnv \<Rightarrow> ctx \<Rightarrow> 'u aggregate \<Rightarrow> event option list \<Rightarrow> 'u aggregate \<times> unit go"
where
  "applyEvents us env c a [] = (a, Ret ())"
| "applyEvents us env c a (None # evs) = (a, nilDeref)"
| "applyEvents us env c a (Some e # evs) =
     (if aggregateType e \<noteq> AggregateType a then (a, Fail (Sentinel ErrMismatchedEventType))
      else case ApplyEvent env c e a of
             (a', Ret _) \<Rightarrow> applyEvents us env c (SetAggregateVersion (version e) a') evs
           | (a', Fail x) \<Rightarrow> (a', Fail (Wrapf (''could not apply event '' @ event_String us e) x))
           | (a', Panic p) \<Rightarrow> (a', Panic p))"

abbreviation AggregateStoreOpLoad :: string where "AggregateStoreOpLoad \<equiv> ''load''"
abbreviation AggregateStoreOpSave :: string where "AggregateStoreOpSave \<equiv> ''save''"

text \<open>The part of \<^verbatim>\<open>Load\<close> that restores a snapshot: the aggregate and the version to load from.\<close>

definition loadSnapshotted ::
    "'u aggEnv \<Rightarrow> 's AggregateStore \<Rightarrow> ctx \<Rightarrow> UUID \<Rightarrow> 'u aggregate \<Rightarrow> 's \<Rightarrow> 's \<times> ('u aggregate \<times> gint) go"
where
  "loadSnapshotted env r c aid a s =
     (if isSnapshotable env a then
        (case asSnapshotStore r of
           None \<Rightarrow> (s, Ret (a, 1))
         | Some ss \<Rightarrow>
             (case ssLoadSnapshot ss c aid s of
                (s', Ret None) \<Rightarrow> (s', Ret (a, 1))
              | (s', Ret (Some sn)) \<Rightarrow>
                  (s', Ret (SetAggregateVersion (snapVersion sn) (ApplySnapshot env sn a), snapVersion sn + 1))
              | (s', Fail x) \<Rightarrow> (s', Fail x)
              | (s', Panic p) \<Rightarrow> (s', Panic p)))
      else (s, Ret (a, 1)))"

definition asLoad ::
    "(UUID \<Rightarrow> string) \<Rightarrow> 'u aggEnv \<Rightarrow> 's AggregateStore \<Rightarrow> ctx \<Rightarrow> string \<Rightarrow> UUID \<Rightarrow> 's \<Rightarrow> 's \<times> 'u aggregate go"
where
  "asLoad us env r c agt aid s =
     (let fail = (\<lambda>x. AggregateStoreError (Some x) AggregateStoreOpLoad agt aid) in
      case CreateAggregate (aggFactories env) agt aid of
        Fail x \<Rightarrow> (s, Fail (fail x))
      | Panic p \<Rightarrow> (s, Panic p)
      | Ret None \<Rightarrow> (s, Fail (fail (Sentinel ErrAggregateNotVersioned)))
      | Ret (Some agg) \<Rightarrow>
          if \<not> isVersioned env agg then (s, Fail (fail (Sentinel ErrAggregateNotVersioned)))
          else case loadSnapshotted env r c aid agg s of
            (s1, Fail x) \<Rightarrow> (s1, Fail (fail x))
          | (s1, Panic p) \<Rightarrow> (s1, Panic p)
          | (s1, Ret (a, fromVersion)) \<Rightarrow>
              (case esLoadFrom (asStore r) c (EntityID a) fromVersion s1 of
                 (s2, Panic p) \<Rightarrow> (s2, Panic p)
               | (s2, Fail x) \<Rightarrow>
                   if errors_Is x ErrAggregateNotFound then (s2, Ret a) else (s2, Fail (fail x))
               | (s2, Ret events) \<Rightarrow>
                   (s2, case applyEvents us env c a events of
                          (a', Ret _) \<Rightarrow> Ret a'
                        | (a', Fail x) \<Rightarrow> Fail (fail x)
                        | (a', Panic p) \<Rightarrow> Panic p)))"

text \<open>\<^verbatim>\<open>takeSnapshot\<close>; \<open>now\<close> is what \<^verbatim>\<open>time.Now\<close> returns.\<close>

definition takeSnapshot ::
    "time \<Rightarrow> 'u aggEnv \<Rightarrow> 's AggregateStore \<Rightarrow> ctx \<Rightarrow> 'u aggregate \<Rightarrow> event \<Rightarrow> 's \<Rightarrow> 's \<times> unit go"
where
  "takeSnapshot now env r c agg lastEvent s =
     (let fail = (\<lambda>x. AggregateStoreError (Some x) AggregateStoreOpSave (AggregateType agg) (EntityID agg)) in
      if \<not> isSnapshotable env agg then (s, Ret ())
      else case asSnapshotStore r of
        None \<Rightarrow> (s, Ret ())
      | Some ss \<Rightarrow>
          (case ssLoadSnapshot ss c (EntityID agg) s of
             (s1, Fail x) \<Rightarrow> (s1, Fail (fail x))
           | (s1, Panic p) \<Rightarrow> (s1, Panic p)
           | (s1, Ret sn) \<Rightarrow>
               (let v = (case sn of None \<Rightarrow> 0 | Some x \<Rightarrow> snapVersion x);
                    ts = (case sn of None \<Rightarrow> now | Some x \<Rightarrow> snapTimestamp x)
                in case asSnapshotStrategy r of
                     None \<Rightarrow> (s1, nilDeref)
                   | Some strategy \<Rightarrow>
                       if strategy v ts lastEvent then
                         (case CreateSnapshot env agg of
                            None \<Rightarrow> (s1, nilDeref)
                          | Some new \<Rightarrow>
                              (case ssSaveSnapshot ss c (EntityID agg) new s1 of
                                 (s2, r2) \<Rightarrow> (s2, mapErr fail r2)))
                       else (s1, Ret ()))))"

text \<open>\<^verbatim>\<open>Save\<close>: the store, the aggregate it was given as it is afterwards, and the result.\<close>

definition asSave ::
    "(UUID \<Rightarrow> string) \<Rightarrow> time \<Rightarrow> 'u aggEnv \<Rightarrow> 's AggregateStore \<Rightarrow> ctx \<Rightarrow> 'u aggregate \<Rightarrow> 's \<Rightarrow>
     's \<times> 'u aggregate \<times> unit go"
where
  "asSave us now env r c agg s =
     (let fail = (\<lambda>x. AggregateStoreError (Some x) AggregateStoreOpSave (AggregateType agg) (EntityID agg)) in
      if \<not> isVersioned env agg then (s, agg, Fail (fail (Sentinel ErrAggregateNotVersioned)))
      else let events = UncommittedEvents agg in
        if events = [] then (s, agg, Ret ())
        else case esSave (asStore r) c (map Some events) (AggregateVersion agg) s of
          (s1, Fail x) \<Rightarrow> (s1, agg, Fail (fail x))
        | (s1, Panic p) \<Rightarrow> (s1, agg, Panic p)
        | (s1, Ret _) \<Rightarrow>
            (case applyEvents us env c (ClearUncommittedEvents agg) (map Some events) of
               (a, Fail x) \<Rightarrow>
                 (s1, a, Fail (AggregateStoreError (Some x) AggregateStoreOpSave (AggregateType a) (EntityID a)))
             | (a, Panic p) \<Rightarrow> (s1, a, Panic p)
             | (a, Ret _) \<Rightarrow>
                 (case takeSnapshot now env r c a (last events) s1 of (s2, r2) \<Rightarrow> (s2, a, r2))))"

section \<open>The contract of user aggregates\<close>

text \<open>
  What an event sourced aggregate promises: applying an event changes its own state and not
  the embedded base, does not look at the context, and its factory creates it with a fresh
  base.
\<close>

locale event_sourced_aggregate =
  fixes env :: "'u aggEnv" and agt :: string
  assumes apply_base: "ApplyEvent env c e a = (a', r) \<Longrightarrow> aggBase a' = aggBase a"
    and apply_ctx: "ApplyEvent env c e a = ApplyEvent env c' e a"
    and create: "\<exists>a. CreateAggregate (aggFactories env) agt aid = Ret (Some a) \<and>
      aggBase a = NewAggregateBase agt aid \<and> isVersioned env a"
begin

lemma applyEvents_ctx: "applyEvents us env c a evs = applyEvents us env c' a evs"
proof (induction evs arbitrary: a)
  case (Cons ev evs)
  then show ?case
    by (cases ev) (auto simp: apply_ctx [of c _ _ c'] split: prod.split outcome.split)
qed simp

end

section \<open>Lemmas\<close>

lemmas base_defs = EntityID_def AggregateType_def AggregateVersion_def SetAggregateVersion_def
  UncommittedEvents_def ClearUncommittedEvents_def

lemma base_simps [simp]:
  "EntityID (SetAggregateVersion v a) = EntityID a"
  "AggregateType (SetAggregateVersion v a) = AggregateType a"
  "AggregateVersion (SetAggregateVersion v a) = v"
  "UncommittedEvents (SetAggregateVersion v a) = UncommittedEvents a"
  "aggState (SetAggregateVersion v a) = aggState a"
  "EntityID (ClearUncommittedEvents a) = EntityID a"
  "AggregateType (ClearUncommittedEvents a) = AggregateType a"
  "AggregateVersion (ClearUncommittedEvents a) = AggregateVersion a"
  "UncommittedEvents (ClearUncommittedEvents a) = []"
  "aggState (ClearUncommittedEvents a) = aggState a"
  by (simp_all add: base_defs)

text \<open>A command handler that only appends events, as a list of \<open>AppendEvent\<close> calls.\<close>

fun appendAll :: "(string \<times> EventData \<times> time \<times> EventOption list) list \<Rightarrow> 'u aggregate \<Rightarrow> 'u aggregate" where
  "appendAll [] a = a"
| "appendAll ((t, d, ts, os) # ps) a = appendAll ps (fst (AppendEvent t d ts os a))"

lemma AppendEvent_sel [simp]:
  "EntityID (fst (AppendEvent t d ts os a)) = EntityID a"
  "AggregateType (fst (AppendEvent t d ts os a)) = AggregateType a"
  "AggregateVersion (fst (AppendEvent t d ts os a)) = AggregateVersion a"
  "aggState (fst (AppendEvent t d ts os a)) = aggState a"
  "UncommittedEvents (fst (AppendEvent t d ts os a)) = UncommittedEvents a @ [snd (AppendEvent t d ts os a)]"
  "ClearUncommittedEvents (fst (AppendEvent t d ts os a)) = ClearUncommittedEvents a"
  by (simp_all add: AppendEvent_def base_defs Let_def)

lemma AppendEvent_eventType [simp]: "eventType (snd (AppendEvent t d ts [] a)) = t"
  by (simp add: AppendEvent_def NewEvent_def ForAggregate_def Let_def)

lemma AppendEvent_data [simp]: "data (snd (AppendEvent t d ts [] a)) = d"
  by (simp add: AppendEvent_def NewEvent_def ForAggregate_def Let_def)

lemma AppendEvent_event:
  "snd (AppendEvent t d ts os a) = NewEventForAggregate t d ts (AggregateType a) (EntityID a)
     (AggregateVersion a + of_nat (length (UncommittedEvents a)) + 1) os"
  by (simp add: AppendEvent_def NewEventForAggregate_def Let_def)

lemma serialFrom_snoc:
  "serialFrom agt aid ov (es @ [e]) \<longleftrightarrow> serialFrom agt aid ov es \<and>
     aggregateID e = aid \<and> aggregateType e = agt \<and> version e = ov + of_nat (length es) + 1"
  by (auto simp: serialFrom_def nth_append less_Suc_eq ac_simps)

definition uncommittedSerial :: "'u aggregate \<Rightarrow> bool" where
  "uncommittedSerial a \<longleftrightarrow> serialFrom (AggregateType a) (EntityID a) (AggregateVersion a) (UncommittedEvents a)"

lemma AppendEvent_serial: "uncommittedSerial a \<Longrightarrow> uncommittedSerial (fst (AppendEvent t d ts os a))"
  by (simp add: uncommittedSerial_def serialFrom_snoc AppendEvent_event event_simps)

lemma appendAll_serial: "uncommittedSerial a \<Longrightarrow> uncommittedSerial (appendAll ps a)"
  by (induction ps a rule: appendAll.induct) (auto simp: AppendEvent_serial)

lemma appendAll_sel [simp]:
  "EntityID (appendAll ps a) = EntityID a" "AggregateType (appendAll ps a) = AggregateType a"
  "AggregateVersion (appendAll ps a) = AggregateVersion a" "aggState (appendAll ps a) = aggState a"
  "ClearUncommittedEvents (appendAll ps a) = ClearUncommittedEvents a"
  by (induction ps a rule: appendAll.induct) auto

lemma appendAll_length [simp]:
  "length (UncommittedEvents (appendAll ps a)) = length (UncommittedEvents a) + length ps"
  by (induction ps a rule: appendAll.induct) auto

text \<open>Applying events.\<close>

lemma applyEvents_append:
  "applyEvents us env c a (xs @ ys) =
     (case applyEvents us env c a xs of
        (a', Ret _) \<Rightarrow> applyEvents us env c a' ys
      | (a', Fail x) \<Rightarrow> (a', Fail x)
      | (a', Panic p) \<Rightarrow> (a', Panic p))"
  by (induction us env c a xs rule: applyEvents.induct) (auto split: prod.splits outcome.splits)

lemma applyEvents_version:
  "applyEvents us env c a (map Some es) = (a', Ret u) \<Longrightarrow> es \<noteq> [] \<Longrightarrow>
   AggregateVersion a' = version (last es)"
proof (induction es arbitrary: a)
  case (Cons e es)
  then show ?case by (cases "es = []") (auto split: if_splits prod.splits outcome.splits)
qed simp

context event_sourced_aggregate
begin

lemma applyEvents_base:
  "applyEvents us env c a evs = (a', r) \<Longrightarrow>
   EntityID a' = EntityID a \<and> AggregateType a' = AggregateType a \<and>
   UncommittedEvents a' = UncommittedEvents a"
proof (induction evs arbitrary: a)
  case (Cons ev evs)
  show ?case
  proof (cases ev)
    case (Some e)
    obtain a1 r1 where ap: "ApplyEvent env c e a = (a1, r1)" by fastforce
    from apply_base [OF this] have b: "EntityID a1 = EntityID a" "AggregateType a1 = AggregateType a"
      "UncommittedEvents a1 = UncommittedEvents a" by (simp_all add: base_defs)
    show ?thesis
    proof (cases r1)
      case (Ret u)
      with Cons.IH [of "SetAggregateVersion (version e) a1"] Cons.prems Some ap b show ?thesis
        by (auto split: if_splits)
    qed (use Cons.prems Some ap b in \<open>auto split: if_splits\<close>)
  qed (use Cons.prems in auto)
qed simp

end

text \<open>An aggregate store without snapshots over an event store with given operations.\<close>

definition storeOver ::
    "(ctx \<Rightarrow> event option list \<Rightarrow> gint \<Rightarrow> 's \<Rightarrow> 's \<times> unit go) \<Rightarrow>
     (ctx \<Rightarrow> UUID \<Rightarrow> gint \<Rightarrow> 's \<Rightarrow> 's \<times> event option list go) \<Rightarrow> 's AggregateStore \<Rightarrow> bool" where
  "storeOver sv ld r \<longleftrightarrow> esSave (asStore r) = sv \<and> esLoadFrom (asStore r) = ld \<and> asSnapshotStore r = None"

text \<open>The aggregate that replaying a history onto the factory's fresh aggregate gives.\<close>

definition replay ::
    "(UUID \<Rightarrow> string) \<Rightarrow> 'u aggEnv \<Rightarrow> ctx \<Rightarrow> string \<Rightarrow> UUID \<Rightarrow> event list \<Rightarrow> 'u aggregate go" where
  "replay us env c agt aid es =
     obind (obind (CreateAggregate (aggFactories env) agt aid) deref) (\<lambda>a.
       case applyEvents us env c a (map Some es) of
         (a', Ret _) \<Rightarrow> Ret a' | (a', Fail x) \<Rightarrow> Fail x | (a', Panic p) \<Rightarrow> Panic p)"

lemma replay_Ret_iff:
  "replay us env c agt aid es = Ret a \<longleftrightarrow>
     (\<exists>b. CreateAggregate (aggFactories env) agt aid = Ret (Some b) \<and>
        applyEvents us env c b (map Some es) = (a, Ret ()))"
  (is "_ \<longleftrightarrow> ?rhs")
proof
  assume "replay us env c agt aid es = Ret a"
  then obtain b where b: "CreateAggregate (aggFactories env) agt aid = Ret (Some b)"
    and ap: "(case applyEvents us env c b (map Some es) of
      (a', Ret _) \<Rightarrow> Ret a' | (a', Fail x) \<Rightarrow> Fail x | (a', Panic p) \<Rightarrow> Panic p) = Ret a"
    by (auto simp: replay_def obind_eq_Ret)
  from ap have "applyEvents us env c b (map Some es) = (a, Ret ())"
    by (cases "applyEvents us env c b (map Some es)", cases "snd (applyEvents us env c b (map Some es))") auto
  with b show ?rhs by blast
qed (auto simp: replay_def)

lemma replay_append:
  assumes "replay us env c agt aid es = Ret a" and "applyEvents us env c a (map Some es') = (a', Ret u)"
  shows "replay us env c agt aid (es @ es') = Ret a'"
  using assms by (auto simp: replay_Ret_iff applyEvents_append)

lemma takeSnapshot_none [simp]:
  "asSnapshotStore r = None \<Longrightarrow> takeSnapshot now env r c a e s = (s, Ret ())"
  by (simp add: takeSnapshot_def)

lemma loadSnapshotted_none [simp]:
  "asSnapshotStore r = None \<Longrightarrow> loadSnapshotted env r c aid a s = (s, Ret (a, 1))"
  by (simp add: loadSnapshotted_def)

context event_sourced_aggregate
begin

lemma replay_ctx: "replay us env c agt aid es = replay us env c' agt aid es"
  unfolding replay_def applyEvents_ctx [of us c _ _ c'] ..

end

context event_store
begin

text \<open>Loading replays the stored history.\<close>

lemma asLoad_replay:
  assumes "event_sourced_aggregate env agt" and "storeOver save loadFrom r"
    and "invar s" and "length (stream s aid) < 2 ^ 63"
  shows "asLoad us env r c agt aid s =
    (s, mapErr (\<lambda>x. AggregateStoreError (Some x) AggregateStoreOpLoad agt aid)
      (replay us env c agt aid (stream s aid)))"
proof -
  from event_sourced_aggregate.create [OF assms(1), of aid] obtain a where
    a: "CreateAggregate (aggFactories env) agt aid = Ret (Some a)"
      "aggBase a = NewAggregateBase agt aid" "isVersioned env a" by blast
  then have aid: "EntityID a = aid" by (simp add: EntityID_def NewAggregateBase_def)
  show ?thesis
  proof (cases "stream s aid = []")
    case True
    from load_missing [OF assms(3) this, of c] obtain x where
      "loadFrom c aid 1 s = (s, Fail x)" "errors_Is x ErrAggregateNotFound" by blast
    with True a aid assms(2) show ?thesis by (simp add: asLoad_def replay_def storeOver_def)
  next
    case False
    from load_stream [OF assms(3) this assms(4), of c] a aid assms(2) show ?thesis
      by (auto simp: asLoad_def replay_def storeOver_def split: prod.split outcome.split)
  qed
qed

text \<open>A replayed aggregate has no uncommitted events, and its version counts the events.\<close>

lemma replay_base:
  assumes "event_sourced_aggregate env agt" and "invar s"
    and "replay us env c agt aid (stream s aid) = Ret a"
  shows "EntityID a = aid \<and> AggregateType a = agt \<and> UncommittedEvents a = [] \<and>
    AggregateVersion a = of_nat (length (stream s aid))"
proof -
  from event_sourced_aggregate.create [OF assms(1), of aid] obtain b where
    b: "CreateAggregate (aggFactories env) agt aid = Ret (Some b)" "aggBase b = NewAggregateBase agt aid"
    by blast
  with assms(3) have ap: "applyEvents us env c b (map Some (stream s aid)) = (a, Ret ())"
    by (simp add: replay_Ret_iff)
  have "AggregateVersion a = of_nat (length (stream s aid))"
  proof (cases "stream s aid = []")
    case True
    with ap b show ?thesis by (simp add: AggregateVersion_def NewAggregateBase_def)
  next
    case False
    then have "length (stream s aid) - 1 < length (stream s aid)" by simp
    from stream_serial [OF assms(2) this] applyEvents_version [OF ap False] False
    show ?thesis by (simp add: last_conv_nth flip: length_greater_0_conv)
  qed
  with event_sourced_aggregate.applyEvents_base [OF assms(1) ap] b show ?thesis
    by (simp add: EntityID_def AggregateType_def UncommittedEvents_def NewAggregateBase_def)
qed

text \<open>What saving an aggregate does that was loaded and then appended events.\<close>

lemma asSave_loaded:
  assumes "event_sourced_aggregate env agt" and "storeOver save loadFrom r" and "invar s"
    and len: "length (stream s aid @ UncommittedEvents (appendAll ps a)) < 2 ^ 63"
    and load: "asLoad us env r c agt aid s = (s, Ret a)" and ver: "isVersioned env (appendAll ps a)"
    and st: "\<And>e. e \<in> set (UncommittedEvents (appendAll ps a)) \<Longrightarrow> storable e"
    and sv: "asSave us now env r c' (appendAll ps a) s = (s', a', Ret ())"
  shows "invar s' \<and> stream s' = (stream s)(aid := stream s aid @ UncommittedEvents (appendAll ps a)) \<and>
    asLoad us env r c'' agt aid s' = (s', Ret a')"
proof -
  let ?es = "UncommittedEvents (appendAll ps a)"
  have len': "length (stream s aid) < 2 ^ 63" using len by simp
  note ldr = asLoad_replay [OF assms(1,2,3) len', of us]
  from load ldr [of c] have rep: "replay us env c agt aid (stream s aid) = Ret a" by simp
  note base = replay_base [OF assms(1,3) rep]
  have ser: "serialFrom agt aid (of_nat (length (stream s aid))) ?es"
    using appendAll_serial [of a ps] base by (simp add: uncommittedSerial_def)
  have clr: "ClearUncommittedEvents a = a" using base by (cases a) (simp add: base_defs)
  have ctx: "replay us env c'' agt aid es = replay us env c agt aid es" for c'' es
    by (rule event_sourced_aggregate.replay_ctx [OF assms(1)])
  show ?thesis
  proof (cases "?es = []")
    case True
    then have "ps = []" using appendAll_length [of ps a] by simp
    with True sv ver have "s' = s" "a' = a" by (auto simp: asSave_def Let_def)
    with True assms(3) ldr [of c''] rep ctx [of c''] show ?thesis by simp
  next
    case False
    from sv ver False base obtain s1 where
      save: "save c' (map Some ?es) (of_nat (length (stream s aid))) s = (s1, Ret ())"
      and ap: "applyEvents us env c' a (map Some ?es) = (a', Ret ())" and "s' = s1"
      using assms(2) by (auto simp: asSave_def Let_def storeOver_def clr split: prod.splits outcome.splits)
    from save_appends [OF assms(3) False ser len' st save] \<open>s' = s1\<close>
    have s': "invar s'" "stream s' = (stream s)(aid := stream s aid @ ?es)" by auto
    have "replay us env c'' agt aid (stream s aid @ ?es) = Ret a'"
      using replay_append [OF _ ap] rep ctx by metis
    with asLoad_replay [OF assms(1,2) s'(1), of aid us c''] s' len show ?thesis by simp
  qed
qed

end

end
