(* ===== verification/Command_Check.thy ===== *)
theory Command_Check
  imports Errors
begin

text \<open>
  Validation of commands before they are dispatched (\<^verbatim>\<open>command_check.go\<close>): every exported
  field that is not tagged optional must be set.
\<close>

section \<open>Zero values\<close>

text \<open>
  \<^verbatim>\<open>isZero\<close> by kind. Functions, channels and pointers always count as missing, numbers and
  booleans never do. A struct is zero when all its exported fields are, a UUID and a time
  by their own zero value.
\<close>

fun isZero :: "gvalue \<Rightarrow> bool"
  and arrayZero :: "gvalue list \<Rightarrow> bool"
  and structZero :: "bool \<Rightarrow> gfield list \<Rightarrow> bool" where
  "isZero GFunc = True"
| "isZero GChan = True"
| "isZero (GPtr _) = True"
| "isZero GUnsafePointer = True"
| "isZero (GMap m) = (m = None)"
| "isZero (GSlice s) = (s = None)"
| "isZero (GUUID u) = (u = uuid_Nil)"
| "isZero (GArray vs) = arrayZero vs"
| "isZero (GInterface i) = (i = None)"
| "isZero (GString s) = (s = '''')"
| "isZero (GTime t) = time_IsZero t"
| "isZero (GStruct _ fs) = structZero True fs"
| "isZero (GBool _) = False"
| "isZero (GInt _) = False"
| "isZero (GFloat _) = False"
| "arrayZero [] = True"
| "arrayZero (v # vs) = (if \<not> isZero v then False else arrayZero vs)"
| "structZero z [] = z"
| "structZero z (GField _ exported _ _ v # fs) =
     (if \<not> exported then structZero z fs else structZero (z \<and> isZero v) fs)"

section \<open>CheckCommand\<close>

fun reflect_Indirect :: "gvalue \<Rightarrow> gvalue option" where
  "reflect_Indirect (GPtr v) = v"
| "reflect_Indirect v = Some v"

fun checkFields :: "gfield list \<Rightarrow> unit go" where
  "checkFields [] = Ret ()"
| "checkFields (field # fs) =
     (if \<not> fieldExported field then checkFields fs
      else if fieldTag field = ''optional'' then checkFields fs
      else let zero = (case fieldIsZeroer field of Some b \<Rightarrow> b | None \<Rightarrow> isZero (fieldValue field))
           in if zero then Fail (CommandFieldError (fieldName field)) else checkFields fs)"

text \<open>
  A command value that is not a struct, or a nil pointer, makes the reflection calls panic.
\<close>

definition CheckCommand :: "command option \<Rightarrow> unit go" where
  "CheckCommand cmd =
     (case cmd of
        None \<Rightarrow> Fail (Sentinel ErrMissingCommand)
      | Some c \<Rightarrow>
          if cmdAggregateID c = uuid_Nil then Fail (Sentinel ErrMissingAggregateID)
          else case reflect_Indirect (cmdValue c) of
            None \<Rightarrow> Panic ''reflect: call of Type on zero Value''
          | Some (GStruct _ fs) \<Rightarrow> checkFields fs
          | Some _ \<Rightarrow> Panic ''reflect: NumField of non-struct type'')"

section \<open>Characterisation\<close>

lemma arrayZero_iff: "arrayZero vs \<longleftrightarrow> (\<forall>v \<in> set vs. isZero v)"
  by (induction vs) auto

lemma structZero_iff:
  "structZero z fs \<longleftrightarrow> z \<and> (\<forall>f \<in> set fs. fieldExported f \<longrightarrow> isZero (fieldValue f))"
proof (induction fs arbitrary: z)
  case Nil
  then show ?case by simp
next
  case (Cons f fs)
  then show ?case by (cases f) auto
qed

definition requiredField :: "gfield \<Rightarrow> bool" where
  "requiredField f \<longleftrightarrow> fieldExported f \<and> fieldTag f \<noteq> ''optional''"

definition missingField :: "gfield \<Rightarrow> bool" where
  "missingField f \<longleftrightarrow> requiredField f \<and>
     (case fieldIsZeroer f of Some b \<Rightarrow> b | None \<Rightarrow> isZero (fieldValue f))"

lemma checkFields_find:
  "checkFields fs =
     (case find missingField fs of None \<Rightarrow> Ret () | Some f \<Rightarrow> Fail (CommandFieldError (fieldName f)))"
  by (induction fs) (auto simp: missingField_def requiredField_def Let_def split: option.splits)

lemma checkFields_Ret_iff: "checkFields fs = Ret () \<longleftrightarrow> (\<forall>f \<in> set fs. \<not> missingField f)"
  by (induction fs) (auto simp: missingField_def requiredField_def Let_def)

lemma CheckCommand_struct:
  "reflect_Indirect (cmdValue c) = Some (GStruct t fs) \<Longrightarrow>
   CheckCommand (Some c) = Ret () \<longleftrightarrow>
     cmdAggregateID c \<noteq> uuid_Nil \<and> (\<forall>f \<in> set fs. \<not> missingField f)"
  by (simp add: CheckCommand_def checkFields_Ret_iff)

lemma CheckCommand_Ret_cmd: "CheckCommand cmd = Ret () \<Longrightarrow> \<exists>c. cmd = Some c \<and> cmdAggregateID c \<noteq> uuid_Nil"
  by (auto simp: CheckCommand_def split: option.splits if_splits)

end
