(* ===== verification/CommandHandlers.thy ===== *)
theory CommandHandlers
  imports Command_Check EventStore_Spec
begin

text \<open>
  Command handling: the aggregate command handler (\<^verbatim>\<open>commandhandler/aggregate\<close>), the routing
  command bus (\<^verbatim>\<open>commandhandler/bus\<close>), chaining of middleware (\<^verbatim>\<open>middleware.go\<close>), and the lock and
  validation middlewares (\<^verbatim>\<open>middleware/commandhandler\<close>). A command handler is a function on a
  world of its own; a nil command is \<^const>\<open>None\<close>.
\<close>

type_synonym 'w CommandHandlerFn = "ctx \<Rightarrow> command option \<Rightarrow> 'w \<Rightarrow> 'w \<times> unit go"

text \<open>\<^verbatim>\<open>ctx.Err()\<close> of a context that is done.\<close>

fun ctxErr :: "ctxDone \<Rightarrow> err" where
  "ctxErr Canceled = Sentinel ErrContextCanceled"
| "ctxErr DeadlineExceeded = Sentinel ErrContextDeadlineExceeded"

section \<open>Dispatch to aggregates\<close>

text \<open>
  The \<^verbatim>\<open>eh.AggregateStore\<close> interface over aggregates of type \<open>'a\<close>; an aggregate is a pointer, so
  \<open>Save\<close> also returns it as it is afterwards. \<open>Load\<close> may return a nil aggregate.
\<close>

record ('a, 's) AggregateStoreI =
  aLoad :: "ctx \<Rightarrow> string \<Rightarrow> UUID \<Rightarrow> 's \<Rightarrow> 's \<times> 'a option go"
  aSave :: "ctx \<Rightarrow> 'a \<Rightarrow> 's \<Rightarrow> 's \<times> 'a \<times> unit go"

record ('a, 's) aggCommandHandler =
  chType :: string
  chStore :: "('a, 's) AggregateStoreI"

definition NewAggregateCommandHandler ::
    "string \<Rightarrow> ('a, 's) AggregateStoreI option \<Rightarrow> ('a, 's) aggCommandHandler go" where
  "NewAggregateCommandHandler t store =
     (case store of
        None \<Rightarrow> Fail (Sentinel ErrNilAggregateStore)
      | Some st \<Rightarrow> Ret \<lparr>chType = t, chStore = st\<rparr>)"

text \<open>\<open>hc\<close> is the aggregate's own \<^verbatim>\<open>HandleCommand\<close> method.\<close>

definition aggHandleCommand ::
    "(ctx \<Rightarrow> command \<Rightarrow> 'a \<Rightarrow> 'a \<times> unit go) \<Rightarrow> ('a, 's) aggCommandHandler \<Rightarrow> 's CommandHandlerFn" where
  "aggHandleCommand hc h c cmd s =
     (case ctxDone c of
        Some d \<Rightarrow> (s, Fail (ctxErr d))
      | None \<Rightarrow>
          (case CheckCommand cmd of
             Fail x \<Rightarrow> (s, Fail x)
           | Panic p \<Rightarrow> (s, Panic p)
           | Ret _ \<Rightarrow>
               (case cmd of
                  None \<Rightarrow> (s, nilDeref)
                | Some cm \<Rightarrow>
                    (case aLoad (chStore h) c (chType h) (cmdAggregateID cm) s of
                       (s1, Fail x) \<Rightarrow> (s1, Fail x)
                     | (s1, Panic p) \<Rightarrow> (s1, Panic p)
                     | (s1, Ret None) \<Rightarrow> (s1, Fail (Sentinel ErrAggregateNotFound))
                     | (s1, Ret (Some a)) \<Rightarrow>
                         (case hc c cm a of
                            (a1, Fail x) \<Rightarrow> (s1, Fail (AggregateError x))
                          | (a1, Panic p) \<Rightarrow> (s1, Panic p)
                          | (a1, Ret _) \<Rightarrow>
                              (case aSave (chStore h) c a1 s1 of (s2, a2, r) \<Rightarrow> (s2, r)))))))"

section \<open>The command bus\<close>

record 'w cmdBus =
  busHandlers :: "string \<rightharpoonup> 'w CommandHandlerFn"

definition NewBusCommandHandler :: "'w cmdBus" where
  "NewBusCommandHandler = \<lparr>busHandlers = Map.empty\<rparr>"

definition busHandleCommand :: "'w cmdBus \<Rightarrow> 'w CommandHandlerFn" where
  "busHandleCommand b c cmd w =
     (case ctxDone c of
        Some d \<Rightarrow> (w, Fail (ctxErr d))
      | None \<Rightarrow>
          (case CheckCommand cmd of
             Fail x \<Rightarrow> (w, Fail x)
           | Panic p \<Rightarrow> (w, Panic p)
           | Ret _ \<Rightarrow>
               (case cmd of
                  None \<Rightarrow> (w, nilDeref)
                | Some cm \<Rightarrow>
                    (case busHandlers b (cmdType cm) of
                       Some handler \<Rightarrow> handler c cmd w
                     | None \<Rightarrow> (w, Fail (Sentinel ErrHandlerNotFound))))))"

definition SetHandler :: "'w cmdBus \<Rightarrow> 'w CommandHandlerFn \<Rightarrow> string \<Rightarrow> 'w cmdBus \<times> unit go" where
  "SetHandler b handler t =
     (case busHandlers b t of
        Some _ \<Rightarrow> (b, Fail (Sentinel ErrHandlerAlreadySet))
      | None \<Rightarrow> (b\<lparr>busHandlers := (busHandlers b)(t \<mapsto> handler)\<rparr>, Ret ()))"

section \<open>Middleware\<close>

text \<open>\<^verbatim>\<open>applyMiddleware\<close>: the loop runs from the last middleware to the first.\<close>

definition applyMiddleware :: "'h \<Rightarrow> ('h \<Rightarrow> 'h) list \<Rightarrow> 'h" where
  "applyMiddleware h middleware = foldl (\<lambda>h m. m h) h (rev middleware)"

definition UseCommandHandlerMiddleware ::
    "'w CommandHandlerFn \<Rightarrow> ('w CommandHandlerFn \<Rightarrow> 'w CommandHandlerFn) list \<Rightarrow> 'w CommandHandlerFn" where
  "UseCommandHandlerMiddleware h middleware = applyMiddleware h middleware"

lemma applyMiddleware_simps [simp]:
  "applyMiddleware h [] = h"
  "applyMiddleware h (m # ms) = m (applyMiddleware h ms)"
  by (simp_all add: applyMiddleware_def)

lemma applyMiddleware_append: "applyMiddleware h (ms @ ns) = applyMiddleware (applyMiddleware h ns) ms"
  by (simp add: applyMiddleware_def)

subsection \<open>Validation\<close>

text \<open>
  \<open>validate cmd\<close> is \<^const>\<open>None\<close> when the command has no \<^verbatim>\<open>Validate\<close> method, and otherwise what
  the method returns.
\<close>

definition validateMiddleware ::
    "(command \<Rightarrow> unit go option) \<Rightarrow> 'w CommandHandlerFn \<Rightarrow> 'w CommandHandlerFn" where
  "validateMiddleware validate h c cmd w =
     (case cmd of
        None \<Rightarrow> h c cmd w
      | Some cm \<Rightarrow>
          (case validate cm of
             None \<Rightarrow> h c cmd w
           | Some (Fail x) \<Rightarrow> (w, Fail (ValidateError x))
           | Some (Panic p) \<Rightarrow> (w, Panic p)
           | Some (Ret _) \<Rightarrow> h c cmd w))"

definition CommandWithValidation ::
    "(command \<Rightarrow> unit go option) \<Rightarrow> command \<Rightarrow> unit go \<Rightarrow> (command \<Rightarrow> unit go option)" where
  "CommandWithValidation validate cmd v = validate(cmd := Some v)"

subsection \<open>Locking\<close>

type_synonym localLock = "string set"

definition NewLocalLock :: localLock where
  "NewLocalLock = {}"

definition LocalLock_Lock :: "localLock \<Rightarrow> string \<Rightarrow> localLock go" where
  "LocalLock_Lock l i = (if i \<in> l then Fail (Sentinel ErrLockExists) else Ret (insert i l))"

definition LocalLock_Unlock :: "localLock \<Rightarrow> string \<Rightarrow> localLock go" where
  "LocalLock_Unlock l i = (if i \<notin> l then Fail (Sentinel ErrNoLockExists) else Ret (l - {i}))"

text \<open>
  The lock middleware over any lock with state \<open>'l\<close>. The deferred unlock also runs when the
  inner handler panics; an error of it is logged only.
\<close>

definition lockMiddleware ::
    "('l \<Rightarrow> string \<Rightarrow> 'l go) \<Rightarrow> ('l \<Rightarrow> string \<Rightarrow> 'l go) \<Rightarrow> (UUID \<Rightarrow> string) \<Rightarrow>
     ('l \<times> 'w) CommandHandlerFn \<Rightarrow> ('l \<times> 'w) CommandHandlerFn" where
  "lockMiddleware lock unlock us h c cmd lw =
     (case cmd of
        None \<Rightarrow> (lw, nilDeref)
      | Some cm \<Rightarrow>
          (case lock (fst lw) (us (cmdAggregateID cm)) of
             Fail x \<Rightarrow> (lw, Fail x)
           | Panic p \<Rightarrow> (lw, Panic p)
           | Ret l1 \<Rightarrow>
               (case h c cmd (l1, snd lw) of
                  ((l2, w2), r) \<Rightarrow>
                    (case unlock l2 (us (cmdAggregateID cm)) of
                       Ret l3 \<Rightarrow> ((l3, w2), r)
                     | Fail _ \<Rightarrow> ((l2, w2), r)
                     | Panic p \<Rightarrow> ((l2, w2), Panic p)))))"

text \<open>The \<^verbatim>\<open>Lock\<close> interface as a contract on the set of held IDs.\<close>

locale lock_spec =
  fixes lock unlock :: "'l \<Rightarrow> string \<Rightarrow> 'l go" and held :: "'l \<Rightarrow> string set"
  assumes lock_free: "i \<notin> held l \<Longrightarrow> \<exists>l'. lock l i = Ret l' \<and> held l' = insert i (held l)"
    and lock_taken: "i \<in> held l \<Longrightarrow> lock l i = Fail (Sentinel ErrLockExists)"
    and unlock_held: "i \<in> held l \<Longrightarrow> \<exists>l'. unlock l i = Ret l' \<and> held l' = held l - {i}"
    and unlock_free: "i \<notin> held l \<Longrightarrow> unlock l i = Fail (Sentinel ErrNoLockExists)"
begin

text \<open>
  An inner handler that leaves the set of held locks as it found it, behind the middleware
  again leaves it as it was, whatever the result.
\<close>

lemma lockMiddleware_balanced:
  assumes inner: "\<And>l w l' w' r. h c cmd (l, w) = ((l', w'), r) \<Longrightarrow> held l' = held l"
    and "lockMiddleware lock unlock us h c cmd (l, w) = ((l', w'), r)"
  shows "held l' = held l"
proof (cases cmd)
  case None
  with assms(2) show ?thesis by (simp add: lockMiddleware_def)
next
  case (Some cm)
  let ?i = "us (cmdAggregateID cm)"
  show ?thesis
  proof (cases "?i \<in> held l")
    case True
    with assms(2) Some show ?thesis by (simp add: lockMiddleware_def lock_taken)
  next
    case False
    then obtain l1 where l1: "lock l ?i = Ret l1" "held l1 = insert ?i (held l)" using lock_free by blast
    obtain l2 w2 r2 where h: "h c cmd (l1, w) = ((l2, w2), r2)" by (metis surj_pair)
    from inner [OF this] l1 have "?i \<in> held l2" by simp
    with unlock_held obtain l3 where "unlock l2 ?i = Ret l3" "held l3 = held l2 - {?i}" by blast
    with assms(2) Some l1 h inner [OF h] False show ?thesis by (auto simp: lockMiddleware_def)
  qed
qed

lemma lockMiddleware_busy:
  "us (cmdAggregateID cm) \<in> held l \<Longrightarrow>
   lockMiddleware lock unlock us h c (Some cm) (l, w) = ((l, w), Fail (Sentinel ErrLockExists))"
  by (simp add: lockMiddleware_def lock_taken)

end

interpretation ll: lock_spec LocalLock_Lock LocalLock_Unlock "\<lambda>l. l"
  by unfold_locales (auto simp: LocalLock_Lock_def LocalLock_Unlock_def)

text \<open>
  Concurrent calls of a handler behind the lock middleware. The lock operations are atomic;
  between them the inner handler runs. A state is the lock and, for each goroutine inside the
  inner handler, the command it handles.
\<close>

record lockSys =
  sysLocks :: localLock
  running :: "nat \<rightharpoonup> command"

inductive lockStep :: "(UUID \<Rightarrow> string) \<Rightarrow> lockSys \<Rightarrow> lockSys \<Rightarrow> bool" for us where
  lockStep_enter:
    "running s t = None \<Longrightarrow> LocalLock_Lock (sysLocks s) (us (cmdAggregateID cm)) = Ret l \<Longrightarrow>
     lockStep us s (s\<lparr>sysLocks := l, running := (running s)(t \<mapsto> cm)\<rparr>)"
| lockStep_reject:
    "running s t = None \<Longrightarrow> LocalLock_Lock (sysLocks s) (us (cmdAggregateID (cm :: command))) = Fail x \<Longrightarrow>
     lockStep us s s"
| lockStep_leave:
    "running s t = Some cm \<Longrightarrow> LocalLock_Unlock (sysLocks s) (us (cmdAggregateID cm)) = Ret l \<Longrightarrow>
     lockStep us s (s\<lparr>sysLocks := l, running := (running s)(t := None)\<rparr>)"
| lockStep_leave_unlocked:
    "running s t = Some cm \<Longrightarrow> LocalLock_Unlock (sysLocks s) (us (cmdAggregateID cm)) = Fail x \<Longrightarrow>
     lockStep us s (s\<lparr>running := (running s)(t := None)\<rparr>)"

inductive lockReach :: "(UUID \<Rightarrow> string) \<Rightarrow> lockSys \<Rightarrow> bool" for us where
  lockReach_init: "lockReach us \<lparr>sysLocks = NewLocalLock, running = Map.empty\<rparr>"
| lockReach_step: "lockReach us s \<Longrightarrow> lockStep us s s' \<Longrightarrow> lockReach us s'"

text \<open>The held locks are those of the running commands, one each.\<close>

definition lockInv :: "(UUID \<Rightarrow> string) \<Rightarrow> lockSys \<Rightarrow> bool" where
  "lockInv us s \<longleftrightarrow>
     (\<forall>i. i \<in> sysLocks s \<longleftrightarrow> (\<exists>t cm. running s t = Some cm \<and> us (cmdAggregateID cm) = i)) \<and>
     (\<forall>t t' cm cm'. running s t = Some cm \<and> running s t' = Some cm' \<and> t \<noteq> t' \<longrightarrow>
        us (cmdAggregateID cm) \<noteq> us (cmdAggregateID cm'))"

lemma lockInvI:
  assumes "\<And>t cm. running s t = Some cm \<Longrightarrow> us (cmdAggregateID cm) \<in> sysLocks s"
    and "\<And>i. i \<in> sysLocks s \<Longrightarrow> \<exists>t cm. running s t = Some cm \<and> us (cmdAggregateID cm) = i"
    and "\<And>t t' cm cm'. running s t = Some cm \<Longrightarrow> running s t' = Some cm' \<Longrightarrow> t \<noteq> t' \<Longrightarrow>
      us (cmdAggregateID cm) \<noteq> us (cmdAggregateID cm')"
  shows "lockInv us s"
  unfolding lockInv_def using assms by blast

lemma lockInvD:
  assumes "lockInv us s"
  shows "running s t = Some cm \<Longrightarrow> us (cmdAggregateID cm) \<in> sysLocks s"
    and "i \<in> sysLocks s \<Longrightarrow> \<exists>t cm. running s t = Some cm \<and> us (cmdAggregateID cm) = i"
    and "running s t = Some cm \<Longrightarrow> running s t' = Some cm' \<Longrightarrow> t \<noteq> t' \<Longrightarrow>
      us (cmdAggregateID cm) \<noteq> us (cmdAggregateID cm')"
  using assms unfolding lockInv_def by blast+

lemma lockInv_enter:
  assumes "lockInv us s" and "running s t = None" and "us (cmdAggregateID cm) \<notin> sysLocks s"
  shows "lockInv us (s\<lparr>sysLocks := insert (us (cmdAggregateID cm)) (sysLocks s),
    running := (running s)(t \<mapsto> cm)\<rparr>)" (is "lockInv us ?s")
proof (rule lockInvI)
  fix i assume "i \<in> sysLocks ?s"
  then consider "i = us (cmdAggregateID cm)" | "i \<in> sysLocks s" by auto
  then show "\<exists>t cm. running ?s t = Some cm \<and> us (cmdAggregateID cm) = i"
  proof cases
    case 1
    then have "running ?s t = Some cm \<and> us (cmdAggregateID cm) = i" by simp
    then show ?thesis by blast
  next
    case 2
    then obtain u cm' where u: "running s u = Some cm'" "us (cmdAggregateID cm') = i"
      using lockInvD(2) [OF assms(1)] by blast
    with assms(2) have "running ?s u = Some cm'" by auto
    with u(2) show ?thesis by blast
  qed
next
  fix u cm' assume "running ?s u = Some cm'"
  then show "us (cmdAggregateID cm') \<in> sysLocks ?s"
    using lockInvD(1) [OF assms(1), of u cm'] by (cases "u = t") simp_all
next
  fix u u' cm1 cm2 assume r: "running ?s u = Some cm1" "running ?s u' = Some cm2" "u \<noteq> u'"
  then show "us (cmdAggregateID cm1) \<noteq> us (cmdAggregateID cm2)"
    using lockInvD(1,3) [OF assms(1)] assms(3) by (cases "u = t"; cases "u' = t") (simp_all, metis+)
qed

lemma lockInv_leave:
  assumes "lockInv us s" and "running s t = Some cm"
  shows "lockInv us (s\<lparr>sysLocks := sysLocks s - {us (cmdAggregateID cm)}, running := (running s)(t := None)\<rparr>)"
    (is "lockInv us ?s")
proof (rule lockInvI)
  fix u cm' assume "running ?s u = Some cm'"
  then have "running s u = Some cm'" "u \<noteq> t" by (auto split: if_splits)
  with lockInvD(1,3) [OF assms(1)] assms(2) show "us (cmdAggregateID cm') \<in> sysLocks ?s" by simp
next
  fix i assume "i \<in> sysLocks ?s"
  then have i: "i \<in> sysLocks s" "i \<noteq> us (cmdAggregateID cm)" by auto
  from lockInvD(2) [OF assms(1) i(1)] obtain u cm' where
    u: "running s u = Some cm'" "us (cmdAggregateID cm') = i" by blast
  with assms(2) i(2) have "running ?s u = Some cm'" by auto
  with u(2) show "\<exists>t cm. running ?s t = Some cm \<and> us (cmdAggregateID cm) = i" by blast
next
  fix u u' cm1 cm2 assume "running ?s u = Some cm1" "running ?s u' = Some cm2" "u \<noteq> u'"
  then show "us (cmdAggregateID cm1) \<noteq> us (cmdAggregateID cm2)"
    using lockInvD(3) [OF assms(1), of u cm1 u' cm2] by (auto split: if_splits)
qed

lemma lockStep_inv: "lockStep us s s' \<Longrightarrow> lockInv us s \<Longrightarrow> lockInv us s'"
proof (induction rule: lockStep.induct)
  case (lockStep_enter s t cm l)
  then show ?case using lockInv_enter [of us s t cm] by (simp add: LocalLock_Lock_def split: if_splits)
next
  case (lockStep_leave s t cm l)
  then show ?case using lockInv_leave [of us s t cm] by (simp add: LocalLock_Unlock_def split: if_splits)
next
  case (lockStep_leave_unlocked s t cm x)
  then have "us (cmdAggregateID cm) \<in> sysLocks s" by (auto simp: lockInv_def)
  with lockStep_leave_unlocked show ?case by (simp add: LocalLock_Unlock_def)
qed simp

lemma lockReach_inv: "lockReach us s \<Longrightarrow> lockInv us s"
proof (induction rule: lockReach.induct)
  case lockReach_init
  then show ?case by (simp add: lockInv_def NewLocalLock_def)
qed (rule lockStep_inv)

section \<open>Properties\<close>



text \<open>
  the lock middleware with the local lock, around a handler that does not touch the lock,
  leaves the lock as it found it on every outcome, and while the aggregate is locked it refuses
  the command with \<^verbatim>\<open>ErrLockExists\<close> without calling the handler.
\<close>

theorem lockMiddleware_sound:
  assumes "\<And>l w. fst (fst (h c cmd (l, w))) = l"
  shows "fst (fst (lockMiddleware LocalLock_Lock LocalLock_Unlock us h c cmd (l, w))) = l \<and>
    (\<forall>cm. cmd = Some cm \<and> us (cmdAggregateID cm) \<in> l \<longrightarrow>
       lockMiddleware LocalLock_Lock LocalLock_Unlock us h c cmd (l, w) = ((l, w), Fail (Sentinel ErrLockExists)))"
proof -
  have inner: "h c cmd (l, w) = ((l', w'), r) \<Longrightarrow> l' = l" for l w l' w' r using assms [of l w] by simp
  obtain l' w' r where m: "lockMiddleware LocalLock_Lock LocalLock_Unlock us h c cmd (l, w) = ((l', w'), r)"
    by (metis surj_pair)
  from ll.lockMiddleware_balanced [OF inner this] m show ?thesis by (auto simp: ll.lockMiddleware_busy)
qed

theorem lockMiddleware_sound_witness:
  "fst (fst (lockMiddleware LocalLock_Lock LocalLock_Unlock (\<lambda>_. ''a'')
     (\<lambda>c cmd (l, n). ((l, Suc n), Panic ''boom'')) context_Background None ({''b''}, 0))) = {''b''}"
  using lockMiddleware_sound [of "\<lambda>c cmd (l, n). ((l, Suc n), Panic ''boom'')" context_Background None
      "\<lambda>_. ''a''" "{''b''}" 0] by simp



text \<open>
  the command bus routes by command type. Setting a handler for a free type makes exactly
  the checked commands of that type go to it and changes the routing of no other command;
  setting one for a type that has a handler fails and changes nothing.
\<close>

theorem bus_routing:
  "(busHandlers b t = None \<longrightarrow>
      (\<exists>b'. SetHandler b h t = (b', Ret ()) \<and>
         (\<forall>c cm w. ctxDone c = None \<and> CheckCommand (Some cm) = Ret () \<longrightarrow>
            busHandleCommand b' c (Some cm) w =
              (if cmdType cm = t then h c (Some cm) w else busHandleCommand b c (Some cm) w)))) \<and>
   (busHandlers b t \<noteq> None \<longrightarrow> SetHandler b h t = (b, Fail (Sentinel ErrHandlerAlreadySet))) \<and>
   (busHandlers b (cmdType cm') = None \<and> ctxDone c' = None \<and> CheckCommand (Some cm') = Ret () \<longrightarrow>
      busHandleCommand b c' (Some cm') w' = (w', Fail (Sentinel ErrHandlerNotFound)))"
  by (auto simp: SetHandler_def busHandleCommand_def)

theorem bus_routing_witness:
  "\<exists>b'. SetHandler NewBusCommandHandler (\<lambda>c cmd n. (Suc n, Ret ())) ''C'' = (b', Ret ()) \<and>
     busHandleCommand b' context_Background (Some \<lparr>cmdAggregateID = 7, cmdAggregateType = ''T'',
       cmdType = ''C'', cmdID = None, cmdValue = GStruct ''C'' []\<rparr>) (4 :: nat) = (5, Ret ())"
proof -
  have "CheckCommand (Some \<lparr>cmdAggregateID = 7, cmdAggregateType = ''T'',
      cmdType = ''C'', cmdID = None, cmdValue = GStruct ''C'' []\<rparr>) = Ret ()"
    by (simp add: CheckCommand_def)
  moreover have "busHandlers NewBusCommandHandler ''C'' = None" "ctxDone context_Background = None"
    by (simp_all add: NewBusCommandHandler_def context_Background_def)
  moreover from this obtain b' where "SetHandler NewBusCommandHandler (\<lambda>c cmd n. (Suc n, Ret ())) ''C'' = (b', Ret ())"
    and "\<And>c cm w. ctxDone c = None \<and> CheckCommand (Some cm) = Ret () \<Longrightarrow> busHandleCommand b' c (Some cm) w =
      (if cmdType cm = ''C'' then (Suc w, Ret ()) else busHandleCommand NewBusCommandHandler c (Some cm) w)"
    using bus_routing [of NewBusCommandHandler "''C''" "\<lambda>c cmd n. (Suc n, Ret ())"] by meson
  ultimately show ?thesis by (intro exI [of _ b']) simp
qed

end
