(* ===== verification/Dispatch.thy ===== *)
theory Dispatch
  imports AggregateStore_Events CommandHandlers
begin

text \<open>
  Command dispatch end to end: the aggregate command handler over the event sourced aggregate
  store over an event store. The lemmas are proved for any event store that keeps the
  contract of \<^verbatim>\<open>eh.EventStore\<close>.
\<close>

text \<open>The event sourced aggregate store as an \<^verbatim>\<open>eh.AggregateStore\<close>.\<close>

definition sourcedStore ::
    "(UUID \<Rightarrow> string) \<Rightarrow> time \<Rightarrow> 'u aggEnv \<Rightarrow> 's AggregateStore \<Rightarrow> ('u aggregate, 's) AggregateStoreI" where
  "sourcedStore us now env r =
     \<lparr>aLoad = (\<lambda>c agt aid s. case asLoad us env r c agt aid s of (s', o') \<Rightarrow> (s', obind o' (\<lambda>a. Ret (Some a)))),
      aSave = asSave us now env r\<rparr>"

text \<open>A command method that only appends events to its aggregate, events that can be stored.\<close>

definition appendsOnly ::
    "(event \<Rightarrow> bool) \<Rightarrow> (ctx \<Rightarrow> command \<Rightarrow> 'u aggregate \<Rightarrow> 'u aggregate \<times> unit go) \<Rightarrow> bool" where
  "appendsOnly storable hc \<longleftrightarrow>
     (\<forall>c cm a. \<exists>ps. fst (hc c cm a) = appendAll ps a) \<and>
     (\<forall>c cm a. UncommittedEvents a = [] \<longrightarrow> (\<forall>e \<in> set (UncommittedEvents (fst (hc c cm a))). storable e))"

context event_store
begin

text \<open>Saving appends all uncommitted events to the stored history, or none of them and returns an error.\<close>

lemma asSave_stream:
  assumes "storeOver save loadFrom r" and "invar s" and "length (stream s aid) < 2 ^ 63"
    and "uncommittedSerial a" and "EntityID a = aid" and "AggregateVersion a = of_nat (length (stream s aid))"
    and "\<And>e. e \<in> set (UncommittedEvents a) \<Longrightarrow> storable e" and "isVersioned env a"
    and "asSave us now env r c a s = (s', a', res)"
  shows "invar s' \<and> (stream s' = (stream s)(aid := stream s aid @ UncommittedEvents a) \<or>
    stream s' = stream s \<and> res \<noteq> Ret ())"
proof (cases "UncommittedEvents a = []")
  case True
  with assms(2,8,9) show ?thesis by (auto simp: asSave_def Let_def)
next
  case False
  obtain s1 r1 where sv: "save c (map Some (UncommittedEvents a)) (of_nat (length (stream s aid))) s = (s1, r1)"
    by fastforce
  with assms(1,6,8,9) False have "s' = s1" and "r1 \<noteq> Ret () \<Longrightarrow> res \<noteq> Ret ()"
    by (auto simp: asSave_def Let_def storeOver_def split: prod.splits outcome.splits)
  moreover have "serialFrom (AggregateType a) aid (of_nat (length (stream s aid))) (UncommittedEvents a)"
    using assms(4-6) by (simp add: uncommittedSerial_def)
  ultimately show ?thesis using save_effect [OF assms(2) False _ assms(3,7) sv] by auto
qed

lemma dispatch:
  assumes esa: "event_sourced_aggregate env (chType h)" and over: "storeOver save loadFrom r"
    and h: "chStore h = sourcedStore us now env r" and inv: "invar s"
    and len: "length (stream s (cmdAggregateID cm)) < 2 ^ 63" and hc: "appendsOnly storable hc"
    and run: "aggHandleCommand hc h c (Some cm) s = (s', res)"
  shows "\<exists>es. invar s' \<and> stream s' = (stream s)(cmdAggregateID cm := stream s (cmdAggregateID cm) @ es) \<and>
    (res = Ret () \<or> es \<noteq> [] \<longrightarrow>
      (\<exists>a. replay us env c (chType h) (cmdAggregateID cm) (stream s (cmdAggregateID cm)) = Ret a \<and>
         snd (hc c cm a) = Ret () \<and> es = UncommittedEvents (fst (hc c cm a))))"
    (is "\<exists>es. ?P es")
proof -
  let ?aid = "cmdAggregateID cm"
  have same: "?P []" if "s' = s" "res \<noteq> Ret ()" using inv that by simp
  note load = asLoad_replay [OF esa over inv len, of us c]
  show ?thesis
  proof (cases "ctxDone c = None \<and> CheckCommand (Some cm) = Ret ()")
    case False
    have "s' = s \<and> res \<noteq> Ret ()"
    proof (cases "ctxDone c")
      case None
      with False run show ?thesis by (cases "CheckCommand (Some cm)") (auto simp: aggHandleCommand_def)
    qed (use run in \<open>auto simp: aggHandleCommand_def\<close>)
    with same show ?thesis by blast
  next
    case ok: True
    show ?thesis
    proof (cases "replay us env c (chType h) ?aid (stream s ?aid)")
      case (Ret a)
      note base = replay_base [OF esa inv Ret]
      obtain a1 r1 where a1: "hc c cm a = (a1, r1)" by fastforce
      show ?thesis
      proof (cases "r1 = Ret () \<and> isVersioned env a1")
        case True
        obtain s2 a2 r2 where sv: "asSave us now env r c a1 s = (s2, a2, r2)" by (metis surj_pair)
        from True ok run load Ret h a1 sv have "s' = s2" by (simp add: aggHandleCommand_def sourcedStore_def)
        from hc obtain ps where ps: "a1 = appendAll ps a" using a1 unfolding appendsOnly_def by (metis fst_conv)
        have "uncommittedSerial a1" using appendAll_serial [of a ps] base ps by (simp add: uncommittedSerial_def)
        moreover have "storable e" if "e \<in> set (UncommittedEvents a1)" for e
          using hc a1 base that unfolding appendsOnly_def by (metis fst_conv)
        ultimately have "invar s2" and "stream s2 = (stream s)(?aid := stream s ?aid @ UncommittedEvents a1) \<or>
            stream s2 = stream s \<and> r2 \<noteq> Ret ()"
          using asSave_stream [OF over inv len _ _ _ _ _ sv] True ps base by simp_all
        moreover from True ok run load Ret h a1 sv have "res = r2" by (simp add: aggHandleCommand_def sourcedStore_def)
        moreover have "?P (UncommittedEvents a1)" if "stream s2 = (stream s)(?aid := stream s ?aid @ UncommittedEvents a1)"
          using that \<open>invar s2\<close> \<open>s' = s2\<close> Ret a1 True by simp
        moreover have "?P []" if "stream s2 = stream s" "r2 \<noteq> Ret ()"
          using that \<open>invar s2\<close> \<open>s' = s2\<close> \<open>res = r2\<close> by simp
        ultimately show ?thesis by blast
      next
        case False
        with ok run load Ret h a1 have "s' = s \<and> res \<noteq> Ret ()"
          by (cases r1) (auto simp: aggHandleCommand_def sourcedStore_def asSave_def Let_def)
        with same show ?thesis by blast
      qed
    next
      case (Fail x)
      with ok run load h have "s' = s \<and> res \<noteq> Ret ()" by (auto simp: aggHandleCommand_def sourcedStore_def)
      with same show ?thesis by blast
    next
      case (Panic p)
      with ok run load h have "s' = s \<and> res \<noteq> Ret ()" by (auto simp: aggHandleCommand_def sourcedStore_def)
      with same show ?thesis by blast
    qed
  qed
qed

text \<open>When nothing fails, the command is handled without an error and the history replays to the saved aggregate.\<close>

lemma dispatch_ok:
  assumes esa: "event_sourced_aggregate env (chType h)" and over: "storeOver save loadFrom r"
    and h: "chStore h = sourcedStore us now env r" and inv: "invar s"
    and len: "length (stream s (cmdAggregateID cm)) < 2 ^ 63"
    and c: "ctxDone c = None" "CheckCommand (Some cm) = Ret ()"
    and rep: "replay us env c (chType h) (cmdAggregateID cm) (stream s (cmdAggregateID cm)) = Ret a"
    and hc: "hc c cm a = (appendAll ps a, Ret ())" and ver: "isVersioned env (appendAll ps a)"
    and st: "\<And>e. e \<in> set (UncommittedEvents (appendAll ps a)) \<Longrightarrow> storable e"
    and ap: "applyEvents us env c a (map Some (UncommittedEvents (appendAll ps a))) = (a', Ret ())"
    and sv: "\<And>es. \<exists>s'. P s' \<and> (es \<noteq> [] \<longrightarrow> serialFrom (chType h) (cmdAggregateID cm) (of_nat (length (stream s (cmdAggregateID cm)))) es \<longrightarrow>
      (\<forall>e \<in> set es. storable e) \<longrightarrow> save c (map Some es) (of_nat (length (stream s (cmdAggregateID cm)))) s = (s', Ret ()))"
    and P: "P s"
  shows "\<exists>s'. P s' \<and> aggHandleCommand hc h c (Some cm) s = (s', Ret ()) \<and> invar s' \<and>
    stream s' = (stream s)(cmdAggregateID cm := stream s (cmdAggregateID cm) @ UncommittedEvents (appendAll ps a)) \<and>
    replay us env c (chType h) (cmdAggregateID cm) (stream s' (cmdAggregateID cm)) = Ret a'"
proof -
  let ?aid = "cmdAggregateID cm" and ?es = "UncommittedEvents (appendAll ps a)"
  note load = asLoad_replay [OF esa over inv len, of us c]
  note base = replay_base [OF esa inv rep]
  have clr: "ClearUncommittedEvents a = a" using base by (cases a) (simp add: base_defs)
  have ser: "serialFrom (chType h) ?aid (of_nat (length (stream s ?aid))) ?es"
    using appendAll_serial [of a ps] base by (simp add: uncommittedSerial_def)
  note rep' = replay_append [OF rep ap]
  show ?thesis
  proof (cases "?es = []")
    case True
    with over h c load rep hc ver have "aggHandleCommand hc h c (Some cm) s = (s, Ret ())"
      by (simp add: aggHandleCommand_def sourcedStore_def asSave_def)
    with True inv P rep' show ?thesis by (intro exI [of _ s]) simp
  next
    case False
    with sv [of ?es] ser st obtain s' where s': "P s'" "save c (map Some ?es) (of_nat (length (stream s ?aid))) s = (s', Ret ())"
      by blast
    with over have "asSave us now env r c (appendAll ps a) s = (s', a', Ret ())"
      using False ver base ap by (simp add: asSave_def Let_def storeOver_def clr)
    with h c load rep hc have "aggHandleCommand hc h c (Some cm) s = (s', Ret ())"
      by (simp add: aggHandleCommand_def sourcedStore_def)
    with s' save_appends [OF inv False ser len st s'(2)] rep' show ?thesis by (intro exI [of _ s']) simp
  qed
qed

end

end
