(* ===== verification/Guestlist.thy ===== *)
theory Guestlist
  imports AggregateStore_Events CommandHandlers
begin

text \<open>
  The invitation aggregate of the guest list example (\<^verbatim>\<open>examples/guestlist/domains/guestlist\<close>), an
  aggregate of the event sourced aggregate store: its commands, its events, its command
  handler and its event application.
\<close>

section \<open>Events and commands\<close>

abbreviation InvitationAggregateType :: string where "InvitationAggregateType \<equiv> ''Invitation''"

abbreviation InviteCreatedEvent :: string where "InviteCreatedEvent \<equiv> ''InviteCreated''"
abbreviation InviteAcceptedEvent :: string where "InviteAcceptedEvent \<equiv> ''InviteAccepted''"
abbreviation InviteDeclinedEvent :: string where "InviteDeclinedEvent \<equiv> ''InviteDeclined''"
abbreviation InviteConfirmedEvent :: string where "InviteConfirmedEvent \<equiv> ''InviteConfirmed''"
abbreviation InviteDeniedEvent :: string where "InviteDeniedEvent \<equiv> ''InviteDenied''"

definition InviteCreatedData :: "string \<Rightarrow> gint \<Rightarrow> gvalue" where
  "InviteCreatedData name age =
     gstructPtr ''InviteCreatedData'' [pubField ''Name'' (GString name), pubField ''Age'' (GInt age)]"

definition inviteCommand :: "string \<Rightarrow> UUID \<Rightarrow> gfield list \<Rightarrow> command" where
  "inviteCommand t i fs =
     \<lparr>cmdAggregateID = i, cmdAggregateType = InvitationAggregateType, cmdType = t, cmdID = None,
      cmdValue = gstructPtr t (pubField ''ID'' (GUUID i) # fs)\<rparr>"

definition CreateInvite :: "UUID \<Rightarrow> string \<Rightarrow> gint \<Rightarrow> command" where
  "CreateInvite i name age = inviteCommand ''CreateInvite'' i
     [pubField ''Name'' (GString name), GField ''Age'' True ''optional'' None (GInt age)]"

definition AcceptInvite :: "UUID \<Rightarrow> command" where
  "AcceptInvite i = inviteCommand ''AcceptInvite'' i []"

definition DeclineInvite :: "UUID \<Rightarrow> command" where
  "DeclineInvite i = inviteCommand ''DeclineInvite'' i []"

definition ConfirmInvite :: "UUID \<Rightarrow> command" where
  "ConfirmInvite i = inviteCommand ''ConfirmInvite'' i []"

definition DenyInvite :: "UUID \<Rightarrow> command" where
  "DenyInvite i = inviteCommand ''DenyInvite'' i []"

section \<open>The aggregate\<close>

record invitation =
  invName :: string
  invAge :: gint
  accepted :: bool
  declined :: bool
  confirmed :: bool
  denied :: bool

definition NewInvitationAggregate :: "UUID \<Rightarrow> invitation aggregate" where
  "NewInvitationAggregate i =
     \<lparr>aggBase = NewAggregateBase InvitationAggregateType i,
      aggState = \<lparr>invName = '''', invAge = 0, accepted = False, declined = False,
        confirmed = False, denied = False\<rparr>\<rparr>"

text \<open>
  \<^verbatim>\<open>HandleCommand\<close>: the type switch is on pointers to the command structs. \<open>now\<close> is what
  \<^verbatim>\<open>time.Now\<close> returns.
\<close>

definition invHandleCommand ::
    "time \<Rightarrow> ctx \<Rightarrow> command \<Rightarrow> invitation aggregate \<Rightarrow> invitation aggregate \<times> unit go" where
  "invHandleCommand now c cmd a =
     (let s = aggState a;
          append = (\<lambda>t d. (fst (AppendEvent t d now [] a), Ret ()));
          fail = (\<lambda>m. (a, Fail (NewError m)))
      in case asStructPtr ''CreateInvite'' (Some (cmdValue cmd)) of
           Some fs \<Rightarrow> append InviteCreatedEvent
             (Some (InviteCreatedData (stringField ''Name'' fs) (intField ''Age'' fs)))
         | None \<Rightarrow>
             if isCmd ''AcceptInvite'' cmd then
               (if invName s = '''' then fail ''invitee does not exist''
                else if declined s then fail (invName s @ '' already declined'')
                else if accepted s then (a, Ret ())
                else append InviteAcceptedEvent None)
             else if isCmd ''DeclineInvite'' cmd then
               (if invName s = '''' then fail ''invitee does not exist''
                else if accepted s then fail (invName s @ '' already accepted'')
                else if declined s then (a, Ret ())
                else append InviteDeclinedEvent None)
             else if isCmd ''ConfirmInvite'' cmd then
               (if invName s = '''' then fail ''invitee does not exist''
                else if \<not> accepted s \<or> declined s then fail ''only accepted invites can be confirmed''
                else append InviteConfirmedEvent None)
             else if isCmd ''DenyInvite'' cmd then
               (if invName s = '''' then fail ''invitee does not exist''
                else if \<not> accepted s \<or> declined s then fail ''only accepted invites can be denied''
                else append InviteDeniedEvent None)
             else fail (''couldn'' @ [CHR 0x27] @ ''t handle command''))"

definition invApplyEvent ::
    "ctx \<Rightarrow> event \<Rightarrow> invitation aggregate \<Rightarrow> invitation aggregate \<times> unit go" where
  "invApplyEvent c e a =
     (let s = aggState a;
          s' = (if eventType e = InviteCreatedEvent then
                  (case asStructPtr ''InviteCreatedData'' (data e) of
                     Some fs \<Rightarrow> s\<lparr>invName := stringField ''Name'' fs, invAge := intField ''Age'' fs\<rparr>
                   | None \<Rightarrow> s)
                else if eventType e = InviteAcceptedEvent then s\<lparr>accepted := True\<rparr>
                else if eventType e = InviteDeclinedEvent then s\<lparr>declined := True\<rparr>
                else if eventType e = InviteConfirmedEvent then s\<lparr>confirmed := True\<rparr>
                else if eventType e = InviteDeniedEvent then s\<lparr>denied := True\<rparr>
                else s)
      in (a\<lparr>aggState := s'\<rparr>, Ret ()))"

text \<open>The registry after the package's \<^verbatim>\<open>init\<close>, and the aggregate as the store sees it.\<close>

definition invAggregates :: "(UUID \<Rightarrow> invitation aggregate option) typeRegistry go" where
  "invAggregates = RegisterAggregate AggregateType (newTypeRegistry ''aggregate'') 1
     (\<lambda>i. Some (NewInvitationAggregate i))"

definition invEnv :: "invitation aggEnv" where
  "invEnv = \<lparr>aggFactories = (case invAggregates of Ret r \<Rightarrow> r | _ \<Rightarrow> newTypeRegistry ''aggregate''),
     isVersioned = (\<lambda>a. True), ApplyEvent = invApplyEvent, isSnapshotable = (\<lambda>a. False),
     CreateSnapshot = (\<lambda>a. None), ApplySnapshot = (\<lambda>s a. a)\<rparr>"

section \<open>The aggregate keeps its contract\<close>

lemma ApplyEvent_invEnv [simp]: "ApplyEvent invEnv = invApplyEvent"
  by (simp add: invEnv_def)

lemma isVersioned_invEnv [simp]: "isVersioned invEnv a"
  by (simp add: invEnv_def)

lemma CreateAggregate_invEnv [simp]:
  "CreateAggregate (aggFactories invEnv) InvitationAggregateType i = Ret (Some (NewInvitationAggregate i))"
  by (simp add: invEnv_def invAggregates_def RegisterAggregate_def register_def newTypeRegistry_def
      CreateAggregate_def registry_get_def AggregateType_def NewInvitationAggregate_def NewAggregateBase_def)

lemma invApplyEvent_base: "aggBase (fst (invApplyEvent c e a)) = aggBase a"
  by (simp add: invApplyEvent_def Let_def)

lemma invApplyEvent_Ret: "snd (invApplyEvent c e a) = Ret ()"
  by (simp add: invApplyEvent_def Let_def)

interpretation invitation: event_sourced_aggregate invEnv InvitationAggregateType
proof
  fix c e and a a' :: "invitation aggregate" and r
  assume "ApplyEvent invEnv c e a = (a', r)"
  then show "aggBase a' = aggBase a" using invApplyEvent_base [of c e a] by simp
next
  show "\<exists>a. CreateAggregate (aggFactories invEnv) InvitationAggregateType aid = Ret (Some a) \<and>
      aggBase a = NewAggregateBase InvitationAggregateType aid \<and> isVersioned invEnv a" for aid
    by (simp add: NewInvitationAggregate_def)
qed (simp add: invApplyEvent_def)

text \<open>Handling a command either leaves the aggregate alone or appends one event to it.\<close>

lemma invHandleCommand_fst:
  "fst (invHandleCommand now c cmd a) = a \<or>
   (\<exists>t d. fst (invHandleCommand now c cmd a) = fst (AppendEvent t d now [] a))"
proof (cases "asStructPtr ''CreateInvite'' (Some (cmdValue cmd))")
  case None
  then show ?thesis unfolding invHandleCommand_def Let_def by (simp split del: if_split) (simp, blast)
next
  case (Some fs)
  then show ?thesis by (auto simp: invHandleCommand_def)
qed

lemma invHandleCommand_appends:
  "\<exists>ps. length ps \<le> 1 \<and> fst (invHandleCommand now c cmd a) = appendAll ps a"
  using invHandleCommand_fst [of now c cmd a]
proof
  assume "fst (invHandleCommand now c cmd a) = a"
  then show ?thesis by (intro exI [of _ "[]"]) simp
next
  assume "\<exists>t d. fst (invHandleCommand now c cmd a) = fst (AppendEvent t d now [] a)"
  then obtain t d where "fst (invHandleCommand now c cmd a) = fst (AppendEvent t d now [] a)" by blast
  then show ?thesis by (intro exI [of _ "[(t, d, now, [])]"]) simp
qed

lemma invApply_total:
  assumes "\<forall>e \<in> set es. aggregateType e = AggregateType a"
  shows "snd (applyEvents us invEnv c a (map Some es)) = Ret ()"
  using assms
proof (induction es arbitrary: a)
  case (Cons e es)
  obtain a1 where a1: "invApplyEvent c e a = (a1, Ret ())"
    using invApplyEvent_Ret [of c e a] by (metis prod.collapse)
  with invApplyEvent_base [of c e a] have "AggregateType a1 = AggregateType a" by (simp add: AggregateType_def)
  with Cons a1 show ?case by simp
qed simp


section \<open>The invitation on the in-memory event store\<close>

text \<open>The registered event data of the package, with a copier that copies whole values.\<close>

definition guestEnv :: copyEnv where
  "guestEnv = \<lparr>eventDataFactories =
       (case RegisterEventData (newTypeRegistry ''event'') InviteCreatedEvent
          (Some (InviteCreatedData '''' 0)) of Ret r \<Rightarrow> r | _ \<Rightarrow> newTypeRegistry ''event''),
     copier_Copy = (\<lambda>to from. Ret from)\<rparr>"

lemma faithful_guestEnv:
  "faithful guestEnv e \<longleftrightarrow> data e = None \<or> eventType e = InviteCreatedEvent"
  by (auto simp: faithful_def guestEnv_def RegisterEventData_def register_def newTypeRegistry_def
      registry_get_def split: option.splits)

lemma invHandleCommand_data:
  "fst (invHandleCommand now c cmd a) = a \<or>
   (\<exists>t d. fst (invHandleCommand now c cmd a) = fst (AppendEvent t d now [] a) \<and>
     (d = None \<or> t = InviteCreatedEvent))"
proof (cases "asStructPtr ''CreateInvite'' (Some (cmdValue cmd))")
  case None
  then show ?thesis unfolding invHandleCommand_def Let_def by (simp split del: if_split) (simp, blast)
next
  case (Some fs)
  then show ?thesis by (auto simp: invHandleCommand_def)
qed

lemma invHandleCommand_faithful:
  assumes "UncommittedEvents a = []" and "e \<in> set (UncommittedEvents (fst (invHandleCommand now c cm a)))"
  shows "faithful guestEnv e"
  using invHandleCommand_data [of now c cm a] assms by (auto simp: faithful_guestEnv)

section \<open>The life of an invitation\<close>

text \<open>
  The states of an invitation that handled commands lead to: a command that is handled
  without an error, and then the events it appended committed and applied, as saving does.
\<close>

inductive invReach :: "(UUID \<Rightarrow> string) \<Rightarrow> invitation aggregate \<Rightarrow> bool" for us where
  invReach_New: "invReach us (NewInvitationAggregate i)"
| invReach_Command:
    "invReach us a \<Longrightarrow> invHandleCommand now c cmd a = (a1, Ret ()) \<Longrightarrow>
     applyEvents us invEnv c (ClearUncommittedEvents a1) (map Some (UncommittedEvents a1)) = (a2, Ret ()) \<Longrightarrow>
     invReach us a2"

definition invitationInv :: "invitation \<Rightarrow> bool" where
  "invitationInv s \<longleftrightarrow> \<not> (accepted s \<and> declined s) \<and> (confirmed s \<or> denied s \<longrightarrow> accepted s)"

text \<open>The event a handled command appends, with the guards that were passed.\<close>

lemma invHandleCommand_guard:
  assumes "invHandleCommand now c cmd a = (a1, Ret ())"
  shows "a1 = a \<or> (\<exists>t d. a1 = fst (AppendEvent t d now [] a) \<and>
    (t = InviteCreatedEvent \<or> t = InviteAcceptedEvent \<and> \<not> declined (aggState a) \<or>
     t = InviteDeclinedEvent \<and> \<not> accepted (aggState a) \<or>
     (t = InviteConfirmedEvent \<or> t = InviteDeniedEvent) \<and> accepted (aggState a) \<and> \<not> declined (aggState a)))"
proof (cases "asStructPtr ''CreateInvite'' (Some (cmdValue cmd))")
  case None
  with assms show ?thesis
    unfolding invHandleCommand_def Let_def by (simp split: if_splits) blast+
next
  case (Some fs)
  with assms show ?thesis by (auto simp: invHandleCommand_def)
qed

lemma invReach_fresh: "invReach us a \<Longrightarrow> UncommittedEvents a = []"
proof (induction rule: invReach.induct)
  case (invReach_New i)
  then show ?case by (simp add: UncommittedEvents_def NewInvitationAggregate_def NewAggregateBase_def)
next
  case (invReach_Command a now c cmd a1 a2)
  from invitation.applyEvents_base [OF invReach_Command(3)] show ?case by simp
qed

lemma invApplyEvent_inv:
  assumes "invitationInv (aggState a)" and "invApplyEvent c e a = (a', r)"
    and "eventType e = InviteAcceptedEvent \<Longrightarrow> \<not> declined (aggState a)"
    and "eventType e = InviteDeclinedEvent \<Longrightarrow> \<not> accepted (aggState a)"
    and "eventType e = InviteConfirmedEvent \<or> eventType e = InviteDeniedEvent \<Longrightarrow> accepted (aggState a)"
  shows "invitationInv (aggState a')"
  using assms by (auto simp: invApplyEvent_def Let_def invitationInv_def split: if_splits option.splits)

lemma invStep_inv:
  assumes "invitationInv (aggState a)" and "UncommittedEvents a = []"
    and "invHandleCommand now c cmd a = (a1, Ret ())"
    and "applyEvents us invEnv c (ClearUncommittedEvents a1) (map Some (UncommittedEvents a1)) = (a2, Ret ())"
  shows "invitationInv (aggState a2)"
  using invHandleCommand_guard [OF assms(3)]
proof (elim disjE exE)
  assume "a1 = a"
  with assms show ?thesis by auto
next
  fix t d
  assume *: "a1 = fst (AppendEvent t d now [] a) \<and>
    (t = InviteCreatedEvent \<or> t = InviteAcceptedEvent \<and> \<not> declined (aggState a) \<or>
     t = InviteDeclinedEvent \<and> \<not> accepted (aggState a) \<or>
     (t = InviteConfirmedEvent \<or> t = InviteDeniedEvent) \<and> accepted (aggState a) \<and> \<not> declined (aggState a))"
  let ?e = "snd (AppendEvent t d now [] a)" and ?b = "ClearUncommittedEvents a"
  obtain b where b: "invApplyEvent c ?e ?b = (b, Ret ())"
    using invApplyEvent_Ret [of c ?e ?b] by (metis prod.collapse)
  with assms(2,4) * have "a2 = SetAggregateVersion (version ?e) b" by (auto split: if_splits)
  moreover have "invitationInv (aggState b)"
    using assms(1) * by (intro invApplyEvent_inv [OF _ b]) auto
  ultimately show ?thesis by simp
qed

section \<open>Properties\<close>

text \<open>
  C21: an invitation is never both accepted and declined, and only an accepted invitation is
  ever confirmed or denied, whatever commands it is sent.
\<close>

theorem invitation_consistent:
  assumes "invReach us a"
  shows "\<not> (accepted (aggState a) \<and> declined (aggState a)) \<and>
    (confirmed (aggState a) \<or> denied (aggState a) \<longrightarrow> accepted (aggState a))"
proof -
  have "invitationInv (aggState a)" using assms
  proof (induction rule: invReach.induct)
    case (invReach_New i)
    then show ?case by (simp add: NewInvitationAggregate_def invitationInv_def)
  next
    case (invReach_Command a now c cmd a1 a2)
    then show ?case using invStep_inv invReach_fresh by blast
  qed
  then show ?thesis by (simp add: invitationInv_def)
qed

theorem invitation_consistent_witness:
  "\<exists>a. invReach (\<lambda>_. ''u'') a \<and> accepted (aggState a) \<and> \<not> declined (aggState a)"
proof -
  let ?us = "\<lambda>_. ''u''" and ?c = context_Background
  define step where "step = (\<lambda>cmd a. let b = fst (invHandleCommand 0 ?c cmd a) in
    fst (applyEvents ?us invEnv ?c (ClearUncommittedEvents b) (map Some (UncommittedEvents b))))"
  define a where "a = step (CreateInvite 7 ''Ann'' 30) (NewInvitationAggregate 7)"
  have stepI: "invReach ?us (step cmd a)"
    if reach: "invReach ?us a" and ok: "snd (invHandleCommand 0 ?c cmd a) = Ret ()"
      and ev: "\<forall>e \<in> set (UncommittedEvents (fst (invHandleCommand 0 ?c cmd a))). aggregateType e = AggregateType a" for cmd a
  proof -
    obtain b where b: "invHandleCommand 0 ?c cmd a = (b, Ret ())" using ok by (metis prod.collapse)
    with invHandleCommand_appends [of 0 ?c cmd a] have "AggregateType b = AggregateType a" by auto
    with ev b invApply_total [of "UncommittedEvents b" "ClearUncommittedEvents b" ?us ?c]
    have "applyEvents ?us invEnv ?c (ClearUncommittedEvents b) (map Some (UncommittedEvents b)) =
        (step cmd a, Ret ())" by (simp add: step_def Let_def prod_eq_iff)
    with reach b show ?thesis by (blast intro: invReach_Command)
  qed
  have a: "a = \<lparr>aggBase = \<lparr>abID = 7, abType = ''Invitation'', abV = 1, abEvents = []\<rparr>,
      aggState = \<lparr>invName = ''Ann'', invAge = 30, accepted = False, declined = False, confirmed = False, denied = False\<rparr>\<rparr>"
    by (simp add: a_def step_def Let_def invHandleCommand_def CreateInvite_def inviteCommand_def
        NewInvitationAggregate_def NewAggregateBase_def AppendEvent_def NewEvent_def ForAggregate_def
        base_defs invApplyEvent_def InviteCreatedData_def stringField_def intField_def structField_def)
  have "invReach ?us a" unfolding a_def
    by (rule stepI [OF invReach_New])
      (auto simp: invHandleCommand_def CreateInvite_def inviteCommand_def NewInvitationAggregate_def
        NewAggregateBase_def AppendEvent_def NewEvent_def ForAggregate_def base_defs Let_def)
  then have "invReach ?us (step (AcceptInvite 7) a)"
    by (rule stepI) (auto simp: a invHandleCommand_def AcceptInvite_def inviteCommand_def isCmd_def
        AppendEvent_def NewEvent_def ForAggregate_def base_defs Let_def)
  moreover have "accepted (aggState (step (AcceptInvite 7) a))"
    by (simp add: a step_def Let_def invHandleCommand_def AcceptInvite_def inviteCommand_def isCmd_def
        AppendEvent_def NewEvent_def ForAggregate_def base_defs invApplyEvent_def)
  ultimately show ?thesis using invitation_consistent [of ?us "step (AcceptInvite 7) a"] by blast
qed

end
