(* ===== verification/Repo.thy ===== *)
theory Repo
  imports Context Errors
begin

text \<open>
  Read model repositories: the repository interface (\<^verbatim>\<open>repo.go\<close>) with its contract, the in-memory
  repository (\<^verbatim>\<open>repo/memory\<close>), the caching repository (\<^verbatim>\<open>repo/cache\<close>) and the repository with
  minimum versions (\<^verbatim>\<open>repo/version\<close>). Every operation of the in-memory repository holds its mutex
  and is one atomic step. JSON encoding is a parameter.
\<close>

section \<open>The interface\<close>

record 's Repo =
  rFind :: "ctx \<Rightarrow> UUID \<Rightarrow> 's \<Rightarrow> 's \<times> entity go"
  rFindAll :: "ctx \<Rightarrow> 's \<Rightarrow> 's \<times> entity list go"
  rSave :: "ctx \<Rightarrow> entity \<Rightarrow> 's \<Rightarrow> 's \<times> unit go"
  rRemove :: "ctx \<Rightarrow> UUID \<Rightarrow> 's \<Rightarrow> 's \<times> unit go"

text \<open>
  \<^verbatim>\<open>IntoRepo\<close>: a repository with its inner repositories is the list of them, outermost first;
  \<open>is\<close> is the type assertion to the wanted type.
\<close>

fun IntoRepo :: "('r \<Rightarrow> bool) \<Rightarrow> 'r list \<Rightarrow> 'r option" where
  "IntoRepo is [] = None"
| "IntoRepo is (r # inner) = (if is r then Some r else IntoRepo is inner)"

abbreviation RepoOpFind :: string where "RepoOpFind \<equiv> ''find''"
abbreviation RepoOpFindAll :: string where "RepoOpFindAll \<equiv> ''find all''"
abbreviation RepoOpSave :: string where "RepoOpSave \<equiv> ''save''"
abbreviation RepoOpRemove :: string where "RepoOpRemove \<equiv> ''remove''"

text \<open>
  The contract of a read/write repository: \<open>view s\<close> are the entities it holds by ID. Reading
  does not change them, saving sets one, removing drops one.
\<close>

locale rw_repo =
  fixes fnd :: "ctx \<Rightarrow> UUID \<Rightarrow> 's \<Rightarrow> 's \<times> entity go"
    and save :: "ctx \<Rightarrow> entity \<Rightarrow> 's \<Rightarrow> 's \<times> unit go"
    and remove :: "ctx \<Rightarrow> UUID \<Rightarrow> 's \<Rightarrow> 's \<times> unit go"
    and view :: "'s \<Rightarrow> UUID \<Rightarrow> entity option"
    and storable :: "entity \<Rightarrow> bool"
    and invar :: "'s \<Rightarrow> bool"
  assumes find_state: "invar s \<Longrightarrow> fnd c i s = (s', o') \<Longrightarrow> invar s' \<and> view s' = view s"
    and find_some: "invar s \<Longrightarrow> view s i = Some e \<Longrightarrow> fnd c i s = (s', o') \<Longrightarrow> o' = Ret e"
    and find_none: "invar s \<Longrightarrow> view s i = None \<Longrightarrow> fnd c i s = (s', o') \<Longrightarrow>
      \<exists>x. o' = Fail x \<and> errors_Is x ErrEntityNotFound \<and> \<not> errors_Is x ErrIncorrectEntityVersion"
    and save_ok: "invar s \<Longrightarrow> storable e \<Longrightarrow> entityID e \<noteq> uuid_Nil \<Longrightarrow> save c e s = (s', r) \<Longrightarrow>
      r = Ret () \<and> invar s' \<and> view s' = (view s)(entityID e \<mapsto> e)"
    and remove_some: "invar s \<Longrightarrow> view s i \<noteq> None \<Longrightarrow> remove c i s = (s', r) \<Longrightarrow>
      r = Ret () \<and> invar s' \<and> view s' = (view s)(i := None)"
    and remove_none: "invar s \<Longrightarrow> view s i = None \<Longrightarrow> remove c i s = (s', r) \<Longrightarrow>
      invar s' \<and> view s' = view s \<and> (\<exists>x. r = Fail x \<and> errors_Is x ErrEntityNotFound)"
begin

lemma find_after_save:
  "invar s \<Longrightarrow> storable e \<Longrightarrow> entityID e \<noteq> uuid_Nil \<Longrightarrow> save c e s = (s1, r1) \<Longrightarrow>
   fnd c' (entityID e) s1 = (s2, r2) \<Longrightarrow> r2 = Ret e"
  using save_ok find_some by (metis fun_upd_same)

lemma find_after_remove:
  "invar s \<Longrightarrow> view s i \<noteq> None \<Longrightarrow> remove c i s = (s1, r1) \<Longrightarrow> fnd c' i s1 = (s2, r2) \<Longrightarrow>
   \<exists>x. r2 = Fail x \<and> errors_Is x ErrEntityNotFound"
  using remove_some find_none by (metis fun_upd_same)

end

text \<open>What clients that only write rely on: a write takes effect, or fails and changes nothing.\<close>

locale write_repo =
  fixes save :: "ctx \<Rightarrow> entity \<Rightarrow> 's \<Rightarrow> 's \<times> unit go"
    and remove :: "ctx \<Rightarrow> UUID \<Rightarrow> 's \<Rightarrow> 's \<times> unit go"
    and view :: "'s \<Rightarrow> UUID \<Rightarrow> entity option"
    and storable :: "entity \<Rightarrow> bool"
    and invar :: "'s \<Rightarrow> bool"
  assumes save_effect: "invar s \<Longrightarrow> storable e \<Longrightarrow> save c e s = (s', r) \<Longrightarrow>
      invar s' \<and> view s' = (if r = Ret () then (view s)(entityID e \<mapsto> e) else view s)"
    and remove_effect: "invar s \<Longrightarrow> remove c i s = (s', r) \<Longrightarrow>
      invar s' \<and> view s' = (if r = Ret () then (view s)(i := None) else view s)"

section \<open>The in-memory repository\<close>

text \<open>\<^verbatim>\<open>json.Marshal\<close> and \<^verbatim>\<open>json.Unmarshal\<close> onto an entity.\<close>

record jsonEnv =
  json_Marshal :: "entity \<Rightarrow> string go"
  json_Unmarshal :: "string \<Rightarrow> entity \<Rightarrow> entity go"

text \<open>\<open>rFactory\<close> is what the factory function creates, \<^const>\<open>None\<close> when it is nil.\<close>

record memRepo =
  rDb :: "UUID \<rightharpoonup> string"
  rIds :: "UUID list"
  rFactory :: "entity option"

definition NewMemRepo :: memRepo where
  "NewMemRepo = \<lparr>rDb = Map.empty, rIds = [], rFactory = None\<rparr>"

definition memSetEntityFactory :: "memRepo \<Rightarrow> entity \<Rightarrow> memRepo" where
  "memSetEntityFactory r f = r\<lparr>rFactory := Some f\<rparr>"

definition memFind :: "jsonEnv \<Rightarrow> ctx \<Rightarrow> UUID \<Rightarrow> memRepo \<Rightarrow> memRepo \<times> entity go" where
  "memFind env c i r =
     (r, case rFactory r of
           None \<Rightarrow> Fail (RepoError (Some (Sentinel ErrRepoModelNotSet)) RepoOpFind i)
         | Some fresh \<Rightarrow>
             (case rDb r i of
                None \<Rightarrow> Fail (RepoError (Some (Sentinel ErrEntityNotFound)) RepoOpFind i)
              | Some b \<Rightarrow>
                  mapErr (\<lambda>x. RepoError (Some (Wrapf ''could not unmarshal'' x)) RepoOpFind i)
                    (json_Unmarshal env b fresh)))"

fun findAllLoop :: "jsonEnv \<Rightarrow> entity \<Rightarrow> (UUID \<rightharpoonup> string) \<Rightarrow> UUID list \<Rightarrow> entity list go" where
  "findAllLoop env fresh db [] = Ret []"
| "findAllLoop env fresh db (i # ids) =
     (case db i of
        None \<Rightarrow> findAllLoop env fresh db ids
      | Some b \<Rightarrow>
          obind (mapErr (\<lambda>x. RepoError (Some (Wrapf ''could not unmarshal'' x)) RepoOpFindAll uuid_Nil)
                  (json_Unmarshal env b fresh))
            (\<lambda>e. obind (findAllLoop env fresh db ids) (\<lambda>es. Ret (e # es))))"

definition memFindAll :: "jsonEnv \<Rightarrow> ctx \<Rightarrow> memRepo \<Rightarrow> memRepo \<times> entity list go" where
  "memFindAll env c r =
     (r, case rFactory r of
           None \<Rightarrow> Fail (RepoError (Some (Sentinel ErrRepoModelNotSet)) RepoOpFindAll uuid_Nil)
         | Some fresh \<Rightarrow> findAllLoop env fresh (rDb r) (rIds r))"

definition memRepoSave :: "jsonEnv \<Rightarrow> ctx \<Rightarrow> entity \<Rightarrow> memRepo \<Rightarrow> memRepo \<times> unit go" where
  "memRepoSave env c e r =
     (case rFactory r of
        None \<Rightarrow> (r, Fail (RepoError (Some (Sentinel ErrRepoModelNotSet)) RepoOpSave uuid_Nil))
      | Some _ \<Rightarrow>
          (let i = entityID e in
           if i = uuid_Nil then (r, Fail (RepoError (Some (NewError ''missing entity ID'')) RepoOpSave uuid_Nil))
           else case json_Marshal env e of
             Fail x \<Rightarrow> (r, Fail (RepoError (Some (Wrapf ''could not marshal'' x)) RepoOpSave i))
           | Panic p \<Rightarrow> (r, Panic p)
           | Ret b \<Rightarrow>
               (r\<lparr>rIds := (if rDb r i = None then rIds r @ [i] else rIds r), rDb := (rDb r)(i \<mapsto> b)\<rparr>, Ret ())))"

text \<open>
  \<^verbatim>\<open>Remove\<close>: the entry is deleted from the map before its place in the index is searched; a
  missing place makes the slice expression panic.
\<close>

fun indexOf :: "nat \<Rightarrow> UUID \<Rightarrow> UUID list \<Rightarrow> nat option" where
  "indexOf n i [] = None"
| "indexOf n i (d # ds) = (if i = d then Some n else indexOf (Suc n) i ds)"

definition memRepoRemove :: "ctx \<Rightarrow> UUID \<Rightarrow> memRepo \<Rightarrow> memRepo \<times> unit go" where
  "memRepoRemove c i r =
     (if rDb r i \<noteq> None then
        (let r' = r\<lparr>rDb := (rDb r)(i := None)\<rparr> in
         case indexOf 0 i (rIds r) of
           None \<Rightarrow> (r', Panic ''slice bounds out of range'')
         | Some n \<Rightarrow> (r'\<lparr>rIds := take n (rIds r) @ drop (Suc n) (rIds r)\<rparr>, Ret ()))
      else (r, Fail (RepoError (Some (Sentinel ErrEntityNotFound)) RepoOpRemove i)))"

definition memRepoOps :: "jsonEnv \<Rightarrow> memRepo Repo" where
  "memRepoOps env = \<lparr>rFind = memFind env, rFindAll = memFindAll env, rSave = memRepoSave env, rRemove = memRepoRemove\<rparr>"

subsection \<open>Invariant and contract\<close>

text \<open>An entity that survives the JSON round trip onto a fresh entity.\<close>

definition jsonStorable :: "jsonEnv \<Rightarrow> entity \<Rightarrow> entity \<Rightarrow> bool" where
  "jsonStorable env fresh e \<longleftrightarrow>
     (case json_Marshal env e of Ret b \<Rightarrow> json_Unmarshal env b fresh = Ret e | _ \<Rightarrow> False)"

text \<open>
  The index lists each stored ID once, and every stored document decodes to an entity with the
  ID it is stored under.
\<close>

definition memRepoInv :: "jsonEnv \<Rightarrow> entity \<Rightarrow> memRepo \<Rightarrow> bool" where
  "memRepoInv env fresh r \<longleftrightarrow> rFactory r = Some fresh \<and> distinct (rIds r) \<and> set (rIds r) = dom (rDb r) \<and>
     (\<forall>i b. rDb r i = Some b \<longrightarrow> (\<exists>e. json_Unmarshal env b fresh = Ret e \<and> entityID e = i))"

definition memView :: "jsonEnv \<Rightarrow> entity \<Rightarrow> memRepo \<Rightarrow> UUID \<Rightarrow> entity option" where
  "memView env fresh r i =
     (case rDb r i of None \<Rightarrow> None
      | Some b \<Rightarrow> (case json_Unmarshal env b fresh of Ret e \<Rightarrow> Some e | _ \<Rightarrow> None))"

lemma indexOf_found: "i \<in> set ds \<Longrightarrow> \<exists>k. indexOf n i ds = Some (n + k) \<and> k < length ds \<and>
    take k ds @ drop (Suc k) ds = remove1 i ds"
proof (induction ds arbitrary: n)
  case (Cons d ds)
  show ?case
  proof (cases "i = d")
    case True
    then show ?thesis by (intro exI [of _ 0]) simp
  next
    case False
    with Cons.prems have "i \<in> set ds" by simp
    from Cons.IH [OF this, of "Suc n"] obtain k where
      "indexOf (Suc n) i ds = Some (Suc n + k) \<and> k < length ds \<and> take k ds @ drop (Suc k) ds = remove1 i ds" by blast
    with False show ?thesis by (intro exI [of _ "Suc k"]) simp
  qed
qed simp

lemma memView_None_iff: "memRepoInv env fresh r \<Longrightarrow> memView env fresh r i = None \<longleftrightarrow> rDb r i = None"
  by (cases "rDb r i") (auto simp: memRepoInv_def memView_def dest!: spec [of _ i])

lemma memView_Some:
  "memRepoInv env fresh r \<Longrightarrow> memView env fresh r i = Some e \<Longrightarrow>
   \<exists>b. rDb r i = Some b \<and> json_Unmarshal env b fresh = Ret e \<and> entityID e = i"
  by (cases "rDb r i") (auto simp: memRepoInv_def memView_def dest!: spec [of _ i])

lemma memRepoSave_ok:
  assumes "memRepoInv env fresh r" and "jsonStorable env fresh e" and "entityID e \<noteq> uuid_Nil"
    and "memRepoSave env c e r = (r', res)"
  shows "res = Ret () \<and> memRepoInv env fresh r' \<and> memView env fresh r' = (memView env fresh r)(entityID e \<mapsto> e)"
proof -
  from assms(2) obtain b where b: "json_Marshal env e = Ret b" "json_Unmarshal env b fresh = Ret e"
    by (auto simp: jsonStorable_def split: outcome.splits)
  with assms have r': "res = Ret ()" "r' = r\<lparr>rIds := (if rDb r (entityID e) = None then rIds r @ [entityID e] else rIds r),
      rDb := (rDb r)(entityID e \<mapsto> b)\<rparr>"
    by (auto simp: memRepoSave_def memRepoInv_def Let_def)
  with assms(1) b have "memRepoInv env fresh r'" by (auto simp: memRepoInv_def)
  moreover have "memView env fresh r' = (memView env fresh r)(entityID e \<mapsto> e)"
    using r' b by (auto simp: memView_def fun_eq_iff)
  ultimately show ?thesis using r' by simp
qed

lemma memRepoRemove_ok:
  assumes "memRepoInv env fresh r" and "rDb r i \<noteq> None" and "memRepoRemove c i r = (r', res)"
  shows "res = Ret () \<and> memRepoInv env fresh r' \<and> memView env fresh r' = (memView env fresh r)(i := None) \<and>
    rIds r' = remove1 i (rIds r)"
proof -
  from assms(1,2) have "i \<in> set (rIds r)" by (auto simp: memRepoInv_def)
  from indexOf_found [OF this, of 0] assms(2,3)
  have r': "res = Ret ()" "r' = r\<lparr>rDb := (rDb r)(i := None), rIds := remove1 i (rIds r)\<rparr>"
    by (auto simp: memRepoRemove_def Let_def)
  with assms(1) have "memRepoInv env fresh r'" by (auto simp: memRepoInv_def)
  moreover have "memView env fresh r' = (memView env fresh r)(i := None)"
    using r' by (auto simp: memView_def fun_eq_iff)
  ultimately show ?thesis using r' by simp
qed

interpretation memr: rw_repo "memFind env" "memRepoSave env" memRepoRemove
  "memView env fresh" "jsonStorable env fresh" "memRepoInv env fresh"
  for env :: jsonEnv and fresh :: entity
proof (unfold_locales, goal_cases)
  case (1 r c i r' res)
  then show ?case by (simp add: memFind_def)
next
  case (2 r i e c r' res)
  with memView_Some [OF 2(1,2)] show ?case by (auto simp: memFind_def memRepoInv_def)
next
  case (3 r i c r' res)
  with memView_None_iff [OF 3(1), of i] show ?case by (auto simp: memFind_def memRepoInv_def)
next
  case (4 r e c r' res)
  then show ?case by (rule memRepoSave_ok)
next
  case (5 r i c r' res)
  with memView_None_iff [OF 5(1), of i] memRepoRemove_ok [OF 5(1) _ 5(3)] show ?case by simp
next
  case (6 r i c r' res)
  with memView_None_iff [OF 6(1), of i] show ?case by (auto simp: memRepoRemove_def)
qed

interpretation memw: write_repo "memRepoSave env" memRepoRemove
  "memView env fresh" "jsonStorable env fresh" "memRepoInv env fresh"
  for env :: jsonEnv and fresh :: entity
proof (unfold_locales, goal_cases)
  case (1 r e c r' res)
  show ?case
  proof (cases "entityID e = uuid_Nil")
    case True
    with 1 have "r' = r \<and> res \<noteq> Ret ()" by (auto simp: memRepoSave_def Let_def split: option.splits)
    with 1(1) show ?thesis by simp
  next
    case False
    from memr.save_ok [OF 1(1,2) this 1(3)] show ?thesis by simp
  qed
next
  case (2 r c i r' res)
  then show ?case using memr.remove_some [OF 2(1) _ 2(2)] memr.remove_none [OF 2(1) _ 2(2)] by (cases "memView env fresh r i") auto
qed

text \<open>All entities, in the order they were first saved.\<close>

lemma findAllLoop_view:
  "(\<And>i. i \<in> set ids \<Longrightarrow> \<exists>b e. db i = Some b \<and> json_Unmarshal env b fresh = Ret e \<and> g i = Some e) \<Longrightarrow>
   findAllLoop env fresh db ids = Ret (map (\<lambda>i. the (g i)) ids)"
proof (induction ids)
  case (Cons i ids)
  from Cons.prems [of i] obtain b e where "db i = Some b" "json_Unmarshal env b fresh = Ret e" "g i = Some e" by auto
  with Cons show ?case by simp
qed simp

lemma memFindAll_view:
  assumes "memRepoInv env fresh r"
  shows "memFindAll env c r = (r, Ret (map (\<lambda>i. the (memView env fresh r i)) (rIds r)))"
proof -
  have "\<exists>b e. rDb r i = Some b \<and> json_Unmarshal env b fresh = Ret e \<and> memView env fresh r i = Some e"
    if "i \<in> set (rIds r)" for i
  proof -
    from that assms obtain b where b: "rDb r i = Some b" by (auto simp: memRepoInv_def)
    with assms obtain e where "json_Unmarshal env b fresh = Ret e" unfolding memRepoInv_def by blast
    with b show ?thesis by (simp add: memView_def)
  qed
  from findAllLoop_view [of "rIds r", OF this] assms show ?thesis
    by (simp add: memFindAll_def memRepoInv_def)
qed

end
