(* ===== verification/Repo_Middleware.thy ===== *)
theory Repo_Middleware
  imports Repo CommandHandlers
begin

text \<open>
  Repositories that wrap another one: the cache (\<^verbatim>\<open>repo/cache\<close>) and the minimum version check
  (\<^verbatim>\<open>repo/version\<close>). Both are given the inner repository as functions.
\<close>

section \<open>The cache\<close>

text \<open>
  The state is the inner repository's with the cache. The cache has a mutex of its own that is
  not held during calls of the inner repository, so the two halves of \<^verbatim>\<open>Find\<close>, \<^verbatim>\<open>Save\<close> and
  \<^verbatim>\<open>Remove\<close> are also given as steps of their own.
\<close>

type_synonym 's cached = "'s \<times> (UUID \<rightharpoonup> entity)"

definition NewCacheRepo :: "'s \<Rightarrow> 's cached" where
  "NewCacheRepo repo = (repo, Map.empty)"

definition cacheBust :: "UUID \<Rightarrow> 's cached \<Rightarrow> 's cached" where
  "cacheBust i sc = (fst sc, (snd sc)(i := None))"

definition cachePut :: "UUID \<Rightarrow> entity \<Rightarrow> 's cached \<Rightarrow> 's cached" where
  "cachePut i e sc = (fst sc, (snd sc)(i \<mapsto> e))"

definition cacheHandleEvent :: "ctx \<Rightarrow> event option \<Rightarrow> 's cached \<Rightarrow> 's cached \<times> unit go" where
  "cacheHandleEvent c ev sc =
     (case ev of None \<Rightarrow> (sc, nilDeref) | Some e \<Rightarrow> (cacheBust (aggregateID e) sc, Ret ()))"

definition cacheFind ::
    "(ctx \<Rightarrow> UUID \<Rightarrow> 's \<Rightarrow> 's \<times> entity go) \<Rightarrow> ctx \<Rightarrow> UUID \<Rightarrow> 's cached \<Rightarrow> 's cached \<times> entity go" where
  "cacheFind fnd c i sc =
     (case snd sc i of
        Some e \<Rightarrow> (sc, Ret e)
      | None \<Rightarrow>
          (case fnd c i (fst sc) of
             (s', Ret e) \<Rightarrow> (cachePut i e (s', snd sc), Ret e)
           | (s', Fail x) \<Rightarrow> ((s', snd sc), Fail x)
           | (s', Panic p) \<Rightarrow> ((s', snd sc), Panic p)))"

definition cacheFindAll ::
    "(ctx \<Rightarrow> 's \<Rightarrow> 's \<times> entity list go) \<Rightarrow> ctx \<Rightarrow> 's cached \<Rightarrow> 's cached \<times> entity list go" where
  "cacheFindAll findAll c sc =
     (case findAll c (fst sc) of
        (s', Ret es) \<Rightarrow> (fold (\<lambda>e. cachePut (entityID e) e) es (s', snd sc), Ret es)
      | (s', Fail x) \<Rightarrow> ((s', snd sc), Fail x)
      | (s', Panic p) \<Rightarrow> ((s', snd sc), Panic p))"

definition cacheSave ::
    "(ctx \<Rightarrow> entity \<Rightarrow> 's \<Rightarrow> 's \<times> unit go) \<Rightarrow> ctx \<Rightarrow> entity \<Rightarrow> 's cached \<Rightarrow> 's cached \<times> unit go" where
  "cacheSave save c e sc =
     (let sc1 = cacheBust (entityID e) sc in
      case save c e (fst sc1) of (s', r) \<Rightarrow> ((s', snd sc1), r))"

definition cacheRemove ::
    "(ctx \<Rightarrow> UUID \<Rightarrow> 's \<Rightarrow> 's \<times> unit go) \<Rightarrow> ctx \<Rightarrow> UUID \<Rightarrow> 's cached \<Rightarrow> 's cached \<times> unit go" where
  "cacheRemove remove c i sc =
     (let sc1 = cacheBust i sc in
      case remove c i (fst sc1) of (s', r) \<Rightarrow> ((s', snd sc1), r))"

text \<open>The cache agrees with the repository behind it.\<close>

definition coherent :: "('s \<Rightarrow> UUID \<Rightarrow> entity option) \<Rightarrow> 's cached \<Rightarrow> bool" where
  "coherent view sc \<longleftrightarrow> (\<forall>i e. snd sc i = Some e \<longrightarrow> view (fst sc) i = Some e)"

lemma coherentD: "coherent view sc \<Longrightarrow> snd sc i = Some e \<Longrightarrow> view (fst sc) i = Some e"
  by (simp add: coherent_def)

lemma coherent_bust: "coherent view (s, ca) \<Longrightarrow> (\<And>j. j \<noteq> i \<Longrightarrow> view s' j = view s j) \<Longrightarrow>
    coherent view (s', ca(i := None))"
  by (auto simp: coherent_def split: if_splits)

context rw_repo
begin

abbreviation cinv :: "'s cached \<Rightarrow> bool" where
  "cinv sc \<equiv> invar (fst sc) \<and> coherent view sc"

lemma cacheFind_state:
  assumes "cinv sc" and "cacheFind fnd c i sc = (sc', o')"
  shows "cinv sc' \<and> view (fst sc') = view (fst sc)"
proof (cases "snd sc i")
  case None
  obtain s' r where f: "fnd c i (fst sc) = (s', r)" by fastforce
  with find_state assms(1) have st: "invar s'" "view s' = view (fst sc)" by blast+
  show ?thesis
  proof (cases r)
    case (Ret e)
    have "view (fst sc) i = Some e"
      using find_none [OF _ _ f] find_some [OF _ _ f] assms(1) Ret by (cases "view (fst sc) i") auto
    with None f Ret assms st show ?thesis
      by (auto simp: cacheFind_def cachePut_def coherent_def split: if_splits)
  qed (use None f assms st in \<open>auto simp: cacheFind_def coherent_def\<close>)
qed (use assms in \<open>auto simp: cacheFind_def\<close>)

text \<open>A cache over a repository is a repository again, with the same contents.\<close>

lemma cache_rw_repo:
  "rw_repo (cacheFind fnd) (cacheSave save) (cacheRemove remove) (\<lambda>sc. view (fst sc)) storable cinv"
proof (unfold_locales, goal_cases)
  case (1 sc c i sc' r)
  then show ?case using cacheFind_state by blast
next
  case (2 sc i e c sc' r)
  then show ?case
    using find_some [of "fst sc" i e c] coherentD [of view sc i]
    by (cases "snd sc i") (auto simp: cacheFind_def split: prod.splits outcome.splits)
next
  case (3 sc i c sc' r)
  then have none: "snd sc i = None" using coherentD [of view sc i] by (cases "snd sc i") auto
  obtain s' r' where f: "fnd c i (fst sc) = (s', r')" by fastforce
  from find_none [OF _ 3(2) f] 3(1) none f 3(3) show ?case by (auto simp: cacheFind_def)
next
  case (4 sc e c sc' r)
  obtain s' r' where f: "save c e (fst sc) = (s', r')" by fastforce
  note ok = save_ok [OF _ 4(2,3) f]
  from 4(1) ok have "coherent view (s', (snd sc)(entityID e := None))"
    by (intro coherent_bust [of view "fst sc"]) auto
  with 4 ok f show ?case by (auto simp: cacheSave_def cacheBust_def)
next
  case (5 sc i c sc' r)
  obtain s' r' where f: "remove c i (fst sc) = (s', r')" by fastforce
  note ok = remove_some [OF _ 5(2) f]
  from 5(1) ok have "coherent view (s', (snd sc)(i := None))"
    by (intro coherent_bust [of view "fst sc"]) auto
  with 5 ok f show ?case by (auto simp: cacheRemove_def cacheBust_def)
next
  case (6 sc i c sc' r)
  obtain s' r' where f: "remove c i (fst sc) = (s', r')" by fastforce
  note ok = remove_none [OF _ 6(2) f]
  from 6(1) ok have "coherent view (s', (snd sc)(i := None))"
    by (intro coherent_bust [of view "fst sc"]) auto
  with 6 ok f show ?case by (auto simp: cacheRemove_def cacheBust_def)
qed

end

interpretation memc: rw_repo "cacheFind (memFind env)" "cacheSave (memRepoSave env)" "cacheRemove memRepoRemove"
  "\<lambda>sc. memView env fresh (fst sc)" "jsonStorable env fresh"
  "\<lambda>sc. memRepoInv env fresh (fst sc) \<and> coherent (memView env fresh) sc"
  for env :: jsonEnv and fresh :: entity
  by (rule memr.cache_rw_repo)

section \<open>Minimum versions\<close>

text \<open>\<open>findMinVersion\<close>.\<close>

definition findMinVersion ::
    "(ctx \<Rightarrow> UUID \<Rightarrow> 's \<Rightarrow> 's \<times> entity go) \<Rightarrow> ctx \<Rightarrow> UUID \<Rightarrow> gint \<Rightarrow> 's \<Rightarrow> 's \<times> entity go" where
  "findMinVersion fnd c i minVersion s =
     (case fnd c i s of
        (s', Ret e) \<Rightarrow>
          (s', case entityVersion e of
                 None \<Rightarrow> Fail (RepoError (Some (Sentinel ErrEntityHasNoVersion)) '''' uuid_Nil)
               | Some v \<Rightarrow>
                   if v <s minVersion
                   then Fail (RepoError (Some (Sentinel ErrIncorrectEntityVersion)) '''' uuid_Nil)
                   else Ret e)
      | (s', Fail x) \<Rightarrow> (s', Fail x)
      | (s', Panic p) \<Rightarrow> (s', Panic p))"

text \<open>
  The retry loop. What happens while the loop waits comes as a list, one entry per wait: how
  the repository changed meanwhile, and whether the context was done first. The result is
  \<^const>\<open>None\<close> when the list ends while the loop still waits.
\<close>

fun retryLoop ::
    "(ctx \<Rightarrow> UUID \<Rightarrow> 's \<Rightarrow> 's \<times> entity go) \<Rightarrow> ctx \<Rightarrow> UUID \<Rightarrow> gint \<Rightarrow>
     (('s \<Rightarrow> 's) \<times> ctxDone option) list \<Rightarrow> 's \<Rightarrow> 's \<times> entity go option"
where
  "retryLoop fnd c i minVersion waits s =
     (case findMinVersion fnd c i minVersion s of
        (s', Ret e) \<Rightarrow> (s', Some (Ret e))
      | (s', Panic p) \<Rightarrow> (s', Some (Panic p))
      | (s', Fail x) \<Rightarrow>
          if errors_Is x ErrIncorrectEntityVersion \<or> errors_Is x ErrEntityNotFound then
            (if ctxDeadline c = None then (s', Some (Fail x))
             else case waits of
                    [] \<Rightarrow> (s', None)
                  | (f, Some d) # ws \<Rightarrow> (f s', Some (Fail (ctxErr d)))
                  | (f, None) # ws \<Rightarrow> retryLoop fnd c i minVersion ws (f s'))
          else (s', Some (Fail x)))"

declare retryLoop.simps [simp del]

definition versionFind ::
    "(ctx \<Rightarrow> UUID \<Rightarrow> 's \<Rightarrow> 's \<times> entity go) \<Rightarrow> (('s \<Rightarrow> 's) \<times> ctxDone option) list \<Rightarrow>
     ctx \<Rightarrow> UUID \<Rightarrow> 's \<Rightarrow> 's \<times> entity go option"
where
  "versionFind fnd waits c i s =
     (case MinVersionFromContext c of
        None \<Rightarrow> (case fnd c i s of (s', r) \<Rightarrow> (s', Some r))
      | Some minVersion \<Rightarrow>
          if minVersion <s 1 then (case fnd c i s of (s', r) \<Rightarrow> (s', Some r))
          else retryLoop fnd c i minVersion waits s)"

lemma findMinVersion_Ret:
  "findMinVersion fnd c i minV s = (s', Ret e) \<Longrightarrow>
   fnd c i s = (s', Ret e) \<and> (\<exists>v. entityVersion e = Some v \<and> minV <=s v)"
  by (auto simp: findMinVersion_def word_sle_eq word_sless_alt split: prod.splits outcome.splits option.splits if_splits)

lemma retryLoop_Ret:
  "retryLoop fnd c i minV waits s = (s', Some (Ret e)) \<Longrightarrow> \<exists>v. entityVersion e = Some v \<and> minV <=s v"
proof (induction fnd c i minV waits s rule: retryLoop.induct)
  case (1 fnd c i minV waits s)
  obtain s1 r1 where f: "findMinVersion fnd c i minV s = (s1, r1)" by fastforce
  show ?case
  proof (cases r1)
    case (Ret e1)
    with 1(2) f have "e1 = e" by (simp add: retryLoop.simps)
    with findMinVersion_Ret [of fnd c i minV s s1 e1] f Ret show ?thesis by simp
  next
    case (Fail x)
    with 1(2) f obtain w ws where ws: "waits = (w, None) # ws" "retryLoop fnd c i minV ws (w s1) = (s', Some (Ret e))"
      and "errors_Is x ErrIncorrectEntityVersion \<or> errors_Is x ErrEntityNotFound" "ctxDeadline c \<noteq> None"
      by (auto simp: retryLoop.simps [of fnd c i minV waits s] split: if_splits list.splits prod.splits option.splits)
    with 1(1) [OF f [symmetric] Fail _ _ ws(1) refl refl ws(2)] show ?thesis by simp
  next
    case (Panic p)
    with 1(2) f show ?thesis by (simp add: retryLoop.simps)
  qed
qed

text \<open>Once an acceptable entity is there, the next attempt returns it.\<close>

lemma retryLoop_now:
  "fnd c i s = (s', Ret e) \<Longrightarrow> entityVersion e = Some v \<Longrightarrow> \<not> v <s minV \<Longrightarrow>
   retryLoop fnd c i minV waits s = (s', Some (Ret e))"
  by (simp add: retryLoop.simps findMinVersion_def)

section \<open>Properties\<close>

text \<open>
  A JSON library that keeps an entity's ID in the text, for the examples: entities without a
  version whose body is empty.
\<close>

definition demoJson :: jsonEnv where
  "demoJson = \<lparr>json_Marshal = (\<lambda>e. Ret (replicate (unat (entityID e)) (CHR ''x''))),
     json_Unmarshal = (\<lambda>b fresh. Ret (fresh\<lparr>entityID := of_nat (length b)\<rparr>))\<rparr>"

definition demoFresh :: entity where
  "demoFresh = \<lparr>entityID = 0, entityVersion = None, entityBody = GBool True\<rparr>"

definition demoRepo :: memRepo where
  "demoRepo = memSetEntityFactory NewMemRepo demoFresh"

lemma demoRepo_inv [simp]: "memRepoInv demoJson demoFresh demoRepo"
  by (simp add: memRepoInv_def demoRepo_def memSetEntityFactory_def NewMemRepo_def)

lemma demo_storable [simp]: "jsonStorable demoJson demoFresh (demoFresh\<lparr>entityID := i\<rparr>)"
  by (simp add: jsonStorable_def demoJson_def)

text \<open>
  the in-memory repository. Saving an entity with an ID that survives the JSON round trip
  succeeds, keeps the invariant of index and documents, and from then on finding its ID gives
  the entity, while no other entity changes.
\<close>

theorem memRepo_save_find:
  assumes "memRepoInv env fresh r" and "jsonStorable env fresh e" and "entityID e \<noteq> uuid_Nil"
  shows "\<exists>r'. memRepoSave env c e r = (r', Ret ()) \<and> memRepoInv env fresh r' \<and>
    memFind env c' (entityID e) r' = (r', Ret e) \<and>
    (\<forall>i. i \<noteq> entityID e \<longrightarrow> memFind env c' i r' = (r', snd (memFind env c' i r)))"
proof -
  obtain r' res where sv: "memRepoSave env c e r = (r', res)" by fastforce
  from memr.save_ok [OF assms sv] have ok: "res = Ret ()" "memRepoInv env fresh r'"
    "memView env fresh r' = (memView env fresh r)(entityID e \<mapsto> e)" by auto
  moreover have "memFind env c' (entityID e) r' = (r', Ret e)"
    using memr.find_some [OF ok(2)] ok(3) by (simp add: memFind_def)
  moreover have "memFind env c' i r' = (r', snd (memFind env c' i r))" if "i \<noteq> entityID e" for i
    using sv that by (auto simp: memFind_def memRepoSave_def Let_def split: option.splits if_splits outcome.splits)
  ultimately show ?thesis using sv by auto
qed

theorem memRepo_save_find_witness:
  "\<exists>r'. memRepoSave demoJson context_Background (demoFresh\<lparr>entityID := 3\<rparr>) demoRepo = (r', Ret ()) \<and>
     memFind demoJson context_Background 3 r' = (r', Ret (demoFresh\<lparr>entityID := 3\<rparr>))"
  using memRepo_save_find [of demoJson demoFresh demoRepo "demoFresh\<lparr>entityID := 3\<rparr>" context_Background context_Background]
  by auto

text \<open>
  listing the in-memory repository gives every stored entity exactly once, in the order in
  which the entities were first saved, and removing an entity takes exactly it out of the list.
\<close>

theorem memRepo_findAll:
  assumes "memRepoInv env fresh r"
  shows "memFindAll env c r = (r, Ret (map (\<lambda>i. the (memView env fresh r i)) (rIds r))) \<and>
    distinct (rIds r) \<and> set (rIds r) = {i. memView env fresh r i \<noteq> None} \<and>
    (\<forall>i. memView env fresh r i \<noteq> None \<longrightarrow>
       (\<exists>r'. memRepoRemove c i r = (r', Ret ()) \<and> memRepoInv env fresh r' \<and> rIds r' = remove1 i (rIds r)))"
proof -
  have ids: "distinct (rIds r)" "set (rIds r) = {i. memView env fresh r i \<noteq> None}"
    using assms memView_None_iff [OF assms] by (auto simp: memRepoInv_def)
  have "\<exists>r'. memRepoRemove c i r = (r', Ret ()) \<and> memRepoInv env fresh r' \<and> rIds r' = remove1 i (rIds r)"
    if "memView env fresh r i \<noteq> None" for i
  proof -
    obtain r' res where rm: "memRepoRemove c i r = (r', res)" by fastforce
    with memRepoRemove_ok [OF assms _ rm] memView_None_iff [OF assms, of i] that show ?thesis by simp
  qed
  with ids memFindAll_view [OF assms] show ?thesis by simp
qed

theorem memRepo_findAll_witness:
  "memFindAll demoJson context_Background demoRepo = (demoRepo, Ret [])"
proof -
  have "rIds demoRepo = []" by (simp add: demoRepo_def memSetEntityFactory_def NewMemRepo_def)
  with memRepo_findAll [OF demoRepo_inv, of context_Background] show ?thesis by simp
qed







end
