(* ===== verification/AggregateStore_Model.thy ===== *)
theory AggregateStore_Model
  imports Repo_Middleware AggregateStore_Events
begin

text \<open>
  The model aggregate store (\<^verbatim>\<open>aggregatestore/model\<close>): aggregates are loaded from and saved to a
  read/write repository, and the events of an aggregate that is an event source go to an
  optional event handler. Type assertions between entities and aggregates come as functions.
\<close>

section \<open>Operations\<close>

text \<open>
  What the store uses of aggregates of type \<open>'m\<close>: the assertion that an entity is an aggregate,
  the aggregate as the entity the repository saves, the uncommitted events where the aggregate
  is an \<^verbatim>\<open>EventSource\<close>, clearing them, and the registered factories.
\<close>

record 'm modelEnv =
  asAggregate :: "entity \<Rightarrow> 'm option"
  asEntity :: "'m \<Rightarrow> entity"
  modelEvents :: "'m \<Rightarrow> event option list option"
  modelClear :: "'m \<Rightarrow> 'm"
  modelFactories :: "(UUID \<Rightarrow> 'm option) typeRegistry"

record ('s, 'w) ModelStore =
  msRepo :: "'s Repo"
  msEventHandler :: "'w HandleEventFn option"

definition NewModelStore :: "'s Repo option \<Rightarrow> 'w HandleEventFn option \<Rightarrow> ('s, 'w) ModelStore go" where
  "NewModelStore repo eventHandler =
     (case repo of
        None \<Rightarrow> Fail (Sentinel ErrInvalidRepo)
      | Some r \<Rightarrow> Ret \<lparr>msRepo = r, msEventHandler = eventHandler\<rparr>)"

definition modelLoad ::
    "'m modelEnv \<Rightarrow> ('s, 'w) ModelStore \<Rightarrow> ctx \<Rightarrow> string \<Rightarrow> UUID \<Rightarrow> 's \<Rightarrow> 's \<times> 'm go" where
  "modelLoad env r c agt aid s =
     (let assert = (\<lambda>item. case item of None \<Rightarrow> Fail (Sentinel ErrInvalidAggregate) | Some a \<Rightarrow> Ret a) in
      case rFind (msRepo r) c aid s of
        (s', Ret en) \<Rightarrow> (s', assert (asAggregate env en))
      | (s', Fail x) \<Rightarrow>
          if errors_Is x ErrEntityNotFound
          then (s', obind (CreateAggregate (modelFactories env) agt aid) assert)
          else (s', Fail x)
      | (s', Panic p) \<Rightarrow> (s', Panic p))"

text \<open>The events go to the handler in order; the first error is returned as it is.\<close>

fun publishAll :: "'w HandleEventFn \<Rightarrow> ctx \<Rightarrow> event option list \<Rightarrow> 'w \<Rightarrow> 'w \<times> unit go" where
  "publishAll h c [] w = (w, Ret ())"
| "publishAll h c (e # es) w =
     (case h c e w of
        (w', Ret _) \<Rightarrow> publishAll h c es w'
      | (w', Fail x) \<Rightarrow> (w', Fail x)
      | (w', Panic p) \<Rightarrow> (w', Panic p))"

text \<open>\<^verbatim>\<open>Save\<close>: the states, the aggregate afterwards, and the result.\<close>

definition modelSave ::
    "'m modelEnv \<Rightarrow> ('s, 'w) ModelStore \<Rightarrow> ctx \<Rightarrow> 'm \<Rightarrow> 's \<times> 'w \<Rightarrow> ('s \<times> 'w) \<times> 'm \<times> unit go" where
  "modelSave env r c a sw =
     (case rSave (msRepo r) c (asEntity env a) (fst sw) of
        (s', Fail x) \<Rightarrow> ((s', snd sw), a, Fail x)
      | (s', Panic p) \<Rightarrow> ((s', snd sw), a, Panic p)
      | (s', Ret _) \<Rightarrow>
          (case (modelEvents env a, msEventHandler r) of
             (Some events, Some h) \<Rightarrow>
               (case publishAll h c events (snd sw) of
                  (w', res) \<Rightarrow> ((s', w'), modelClear env a, res))
           | _ \<Rightarrow> ((s', snd sw), a, Ret ())))"

section \<open>Properties\<close>

text \<open>A handler that records what it is given and accepts it.\<close>

definition recorder :: "event option list HandleEventFn" where
  "recorder c ev w = (w @ [ev], Ret ())"

lemma publishAll_recorder: "publishAll recorder c es w = (w @ es, Ret ())"
  by (induction es arbitrary: w) (auto simp: recorder_def)

lemma publishAll_append:
  "publishAll h c (es @ fs) w =
     (case publishAll h c es w of
        (w', Ret _) \<Rightarrow> publishAll h c fs w' | (w', Fail x) \<Rightarrow> (w', Fail x) | (w', Panic p) \<Rightarrow> (w', Panic p))"
  by (induction h c es w rule: publishAll.induct) (auto split: prod.splits outcome.splits)


text \<open>An aggregate that is its entity, for the example.\<close>

definition demoModelEnv :: "entity modelEnv" where
  "demoModelEnv = \<lparr>asAggregate = Some, asEntity = (\<lambda>e. e), modelEvents = (\<lambda>e. Some [None]),
     modelClear = (\<lambda>e. e), modelFactories = newTypeRegistry ''aggregate''\<rparr>"


end
