(* ===== verification/Codec.thy ===== *)
theory Codec
  imports Context Events
begin

text \<open>
  The codecs of events and commands (\<^verbatim>\<open>codec.go\<close>, \<^verbatim>\<open>codec/json\<close>, \<^verbatim>\<open>codec/bson\<close>). Both formats fill
  a wire struct from the accessors and encode it; the encoders themselves (\<^verbatim>\<open>encoding/json\<close>, the
  BSON package of the MongoDB driver) and the UUID library are parameters. What they document about
  the values that come back is stated by the predicates of the section on formats: JSON gives
  every number in a dynamic value back as a \<^verbatim>\<open>float64\<close>, BSON gives a Go \<^verbatim>\<open>int\<close> back as an
  \<^verbatim>\<open>int32\<close> or \<^verbatim>\<open>int64\<close> and keeps times to the millisecond.
\<close>

section \<open>Event data\<close>

text \<open>
  \<open>dc_Marshal\<close> and \<open>dc_Unmarshal\<close> stand for the encoder and decoder of a format. Unmarshaling
  fills the value that the event data factory created.
\<close>

record dataCodec =
  dcFactories :: "EventData typeRegistry"
  dc_Marshal :: "gvalue \<Rightarrow> string go"
  dc_Unmarshal :: "string \<Rightarrow> EventData \<Rightarrow> EventData go"

definition marshalData :: "dataCodec \<Rightarrow> EventData \<Rightarrow> string go" where
  "marshalData env d =
     (case d of None \<Rightarrow> Ret '''' | Some v \<Rightarrow> mapErr (Wrapf ''could not marshal event data'') (dc_Marshal env v))"

definition unmarshalData :: "dataCodec \<Rightarrow> string \<Rightarrow> string \<Rightarrow> EventData go" where
  "unmarshalData env et raw =
     (if raw \<noteq> '''' then
        obind (mapErr (Wrapf ''could not create event data'') (CreateEventData (dcFactories env) et))
          (\<lambda>d. mapErr (Wrapf ''could not unmarshal event data'') (dc_Unmarshal env raw d))
      else Ret None)"

text \<open>Event data that the format represents: what is decoded into a fresh value is the data.\<close>

definition representable :: "dataCodec \<Rightarrow> string \<Rightarrow> EventData \<Rightarrow> bool" where
  "representable env et d \<longleftrightarrow>
     (\<forall>v raw. d = Some v \<and> dc_Marshal env v = Ret raw \<longrightarrow>
        raw \<noteq> '''' \<and> (\<exists>fresh. CreateEventData (dcFactories env) et = Ret fresh \<and> dc_Unmarshal env raw fresh = Ret (Some v)))"

lemma unmarshalData_marshalData:
  "representable env et d \<Longrightarrow> marshalData env d = Ret raw \<Longrightarrow> unmarshalData env et raw = Ret d"
  by (cases d) (auto simp: marshalData_def unmarshalData_def representable_def)

section \<open>Wire structs\<close>

text \<open>
  The struct \<^verbatim>\<open>evt\<close> without its field \<^verbatim>\<open>data\<close>, which is not encoded, and the struct \<^verbatim>\<open>command\<close>. A
  context that is absent or null on the wire is \<^const>\<open>None\<close>.
\<close>

record wireEvt =
  wEventType :: string
  wRawData :: string
  wTimestamp :: time
  wAggregateType :: string
  wAggregateID :: string
  wVersion :: gint
  wMetadata :: Metadata
  wContext :: "ctxVals option"

record wireCommand =
  wCommandType :: string
  wCommand :: string
  wCmdContext :: "ctxVals option"

text \<open>
  A format: its coding of event data and of the wire structs, its coding of commands (decoding
  acts on the command that the factory created, and JSON can set it to nil), the registered
  context functions and the UUID library.
\<close>

record wireEnv =
  weData :: dataCodec
  weEncode :: "wireEvt \<Rightarrow> string go"
  weDecode :: "string \<Rightarrow> wireEvt go"
  weCommands :: "command option typeRegistry"
  weMarshalCmd :: "command \<Rightarrow> string go"
  weUnmarshalCmd :: "string \<Rightarrow> command option \<Rightarrow> command option go"
  weEncodeCmd :: "wireCommand \<Rightarrow> string go"
  weDecodeCmd :: "string \<Rightarrow> wireCommand go"
  weContexts :: ctxCodecs
  weUUIDString :: "UUID \<Rightarrow> string"
  weUUIDParse :: "string \<Rightarrow> UUID option"

section \<open>Events\<close>

text \<open>The interface \<^verbatim>\<open>eh.EventCodec\<close>; an event to encode can be nil, a decoded one is not.\<close>

record eventCodec =
  MarshalEvent :: "ctx \<Rightarrow> event option \<Rightarrow> string go"
  UnmarshalEvent :: "ctx \<Rightarrow> string \<Rightarrow> (event \<times> ctx) go"

definition evtOf :: "wireEnv \<Rightarrow> event \<Rightarrow> ctxVals \<Rightarrow> string \<Rightarrow> wireEvt" where
  "evtOf env e vals raw =
     \<lparr>wEventType = eventType e, wRawData = raw, wTimestamp = timestamp e, wAggregateType = aggregateType e,
      wAggregateID = weUUIDString env (aggregateID e), wVersion = version e, wMetadata = metadata e,
      wContext = Some vals\<rparr>"

definition marshalEvent :: "wireEnv \<Rightarrow> ctx \<Rightarrow> event option \<Rightarrow> string go" where
  "marshalEvent env c ev =
     obind (deref ev) (\<lambda>e.
     obind (MarshalContext (weContexts env) c) (\<lambda>vals.
     obind (marshalData (weData env) (data e)) (\<lambda>raw.
     mapErr (Wrapf ''could not marshal event'') (weEncode env (evtOf env e vals raw)))))"

text \<open>An aggregate ID that does not parse becomes \<^verbatim>\<open>uuid.Nil\<close>.\<close>

definition unmarshalEvent :: "wireEnv \<Rightarrow> ctx \<Rightarrow> string \<Rightarrow> (event \<times> ctx) go" where
  "unmarshalEvent env c b =
     obind (mapErr (Wrapf ''could not unmarshal event'') (weDecode env b)) (\<lambda>w.
     obind (unmarshalData (weData env) (wEventType w) (wRawData w)) (\<lambda>d.
       let aid = (case weUUIDParse env (wAggregateID w) of None \<Rightarrow> uuid_Nil | Some u \<Rightarrow> u);
           e = NewEvent (wEventType w) d (wTimestamp w)
                 [ForAggregate (wAggregateType w) aid (wVersion w), WithMetadata (wMetadata w)]
       in Ret (e, UnmarshalContext (weContexts env) c (wContext w))))"

section \<open>Commands\<close>

definition marshalCommand :: "wireEnv \<Rightarrow> ctx \<Rightarrow> command option \<Rightarrow> string go" where
  "marshalCommand env c cm =
     obind (deref cm) (\<lambda>cmd.
     obind (MarshalContext (weContexts env) c) (\<lambda>vals.
     obind (mapErr (Wrapf ''could not marshal command data'') (weMarshalCmd env cmd)) (\<lambda>raw.
     mapErr (Wrapf ''could not marshal command'')
       (weEncodeCmd env \<lparr>wCommandType = cmdType cmd, wCommand = raw, wCmdContext = Some vals\<rparr>))))"

definition unmarshalCommand :: "wireEnv \<Rightarrow> ctx \<Rightarrow> string \<Rightarrow> (command option \<times> ctx) go" where
  "unmarshalCommand env c b =
     obind (mapErr (Wrapf ''could not unmarshal command'') (weDecodeCmd env b)) (\<lambda>w.
     obind (mapErr (Wrapf ''could not create command'') (CreateCommand (weCommands env) (wCommandType w))) (\<lambda>fresh.
     obind (mapErr (Wrapf ''could not unmarshal command data'') (weUnmarshalCmd env (wCommand w) fresh)) (\<lambda>cmd.
     Ret (cmd, UnmarshalContext (weContexts env) c (wCmdContext w)))))"

section \<open>The two codecs\<close>

text \<open>The packages \<^verbatim>\<open>codec/json\<close> and \<^verbatim>\<open>codec/bson\<close> differ in the encoder they call only.\<close>

definition jsonMarshalEvent :: "wireEnv \<Rightarrow> ctx \<Rightarrow> event option \<Rightarrow> string go" where
  "jsonMarshalEvent json = marshalEvent json"

definition jsonUnmarshalEvent :: "wireEnv \<Rightarrow> ctx \<Rightarrow> string \<Rightarrow> (event \<times> ctx) go" where
  "jsonUnmarshalEvent json = unmarshalEvent json"

definition bsonMarshalEvent :: "wireEnv \<Rightarrow> ctx \<Rightarrow> event option \<Rightarrow> string go" where
  "bsonMarshalEvent bson = marshalEvent bson"

definition bsonUnmarshalEvent :: "wireEnv \<Rightarrow> ctx \<Rightarrow> string \<Rightarrow> (event \<times> ctx) go" where
  "bsonUnmarshalEvent bson = unmarshalEvent bson"

definition jsonMarshalCommand :: "wireEnv \<Rightarrow> ctx \<Rightarrow> command option \<Rightarrow> string go" where
  "jsonMarshalCommand json = marshalCommand json"

definition jsonUnmarshalCommand :: "wireEnv \<Rightarrow> ctx \<Rightarrow> string \<Rightarrow> (command option \<times> ctx) go" where
  "jsonUnmarshalCommand json = unmarshalCommand json"

definition bsonMarshalCommand :: "wireEnv \<Rightarrow> ctx \<Rightarrow> command option \<Rightarrow> string go" where
  "bsonMarshalCommand bson = marshalCommand bson"

definition bsonUnmarshalCommand :: "wireEnv \<Rightarrow> ctx \<Rightarrow> string \<Rightarrow> (command option \<times> ctx) go" where
  "bsonUnmarshalCommand bson = unmarshalCommand bson"

definition jsonEventCodec :: "wireEnv \<Rightarrow> eventCodec" where
  "jsonEventCodec json = \<lparr>MarshalEvent = jsonMarshalEvent json, UnmarshalEvent = jsonUnmarshalEvent json\<rparr>"

definition bsonEventCodec :: "wireEnv \<Rightarrow> eventCodec" where
  "bsonEventCodec bson = \<lparr>MarshalEvent = bsonMarshalEvent bson, UnmarshalEvent = bsonUnmarshalEvent bson\<rparr>"

section \<open>UUIDs in BSON\<close>

text \<open>
  The encoder and decoder that \<^verbatim>\<open>newUUIDRegistry\<close> registers. The bytes of a UUID are in order of
  significance; \<open>fromBytes\<close> is \<^verbatim>\<open>uuid.FromBytes\<close>. A value reader holds a string, binary data or a value
  of another BSON type, and reading can fail.
\<close>

definition uuidBytes :: "UUID \<Rightarrow> 8 word list" where
  "uuidBytes u = map (\<lambda>i. ucast (drop_bit (8 * (15 - i)) u)) [0..<16]"

definition hexDigit :: "nat \<Rightarrow> char" where
  "hexDigit n = char_of (if n < 10 then 48 + n else 87 + n)"

definition hexBytes :: "8 word list \<Rightarrow> string" where
  "hexBytes bs = concat (map (\<lambda>b. [hexDigit (unat b div 16), hexDigit (unat b mod 16)]) bs)"

datatype bsonReader = RString "string go" | RBinary "8 word list go" | ROther string

definition encodeUUID ::
    "(UUID \<Rightarrow> string) \<Rightarrow> (8 word list \<Rightarrow> UUID go) \<Rightarrow> gvalue option \<Rightarrow> string go" where
  "encodeUUID us fromBytes val =
     (case asUUID val of
        None \<Rightarrow> Fail (NewError ''ValueEncoderError: uuid.UUID'')
      | Some u \<Rightarrow>
          (let b = uuidBytes u in
           obind (mapErr (Wrapf (''could not parse UUID bytes ('' @ hexBytes b @ '')'')) (fromBytes b)) (\<lambda>i.
           Ret (us i))))"

definition decodeUUID ::
    "(string \<Rightarrow> UUID option) \<Rightarrow> (8 word list \<Rightarrow> UUID go) \<Rightarrow> bool \<Rightarrow> bsonReader \<Rightarrow> UUID go" where
  "decodeUUID up fromBytes settable vr =
     (if \<not> settable then Fail (NewError ''ValueDecoderError: uuid.UUID'')
      else case vr of
        RString rd \<Rightarrow> obind rd (\<lambda>s.
          case up s of None \<Rightarrow> Fail (NewError (''could not parse UUID string: '' @ s)) | Some u \<Rightarrow> Ret u)
      | RBinary rd \<Rightarrow> obind rd (\<lambda>bs.
          mapErr (Wrapf (''could not parse UUID binary ('' @ hexBytes bs @ '')'')) (fromBytes bs))
      | ROther t \<Rightarrow> Fail (NewError (''received invalid BSON type to decode into UUID: '' @ t)))"

section \<open>Formats\<close>

text \<open>
  What comes back of a wire struct that a format represents: \<open>ts\<close> is what the format does to times
  and \<open>any\<close> what it does to the values of a map with dynamic values.
\<close>

definition wireBack :: "(time \<Rightarrow> time) \<Rightarrow> (gvalue \<Rightarrow> gvalue) \<Rightarrow> wireEvt \<Rightarrow> wireEvt" where
  "wireBack ts any w = w\<lparr>wTimestamp := ts (wTimestamp w),
     wMetadata := map_option (\<lambda>m k. map_option any (m k)) (wMetadata w),
     wContext := map_option (map (\<lambda>(k, v). (k, any v))) (wContext w)\<rparr>"

definition representsEvt :: "wireEnv \<Rightarrow> (time \<Rightarrow> time) \<Rightarrow> (gvalue \<Rightarrow> gvalue) \<Rightarrow> wireEvt \<Rightarrow> bool" where
  "representsEvt env ts any w \<longleftrightarrow> (\<forall>b. weEncode env w = Ret b \<longrightarrow> weDecode env b = Ret (wireBack ts any w))"

definition representsCmd :: "wireEnv \<Rightarrow> (gvalue \<Rightarrow> gvalue) \<Rightarrow> wireCommand \<Rightarrow> bool" where
  "representsCmd env any w \<longleftrightarrow> (\<forall>b. weEncodeCmd env w = Ret b \<longrightarrow>
     weDecodeCmd env b = Ret (w\<lparr>wCmdContext := map_option (map (\<lambda>(k, v). (k, any v))) (wCmdContext w)\<rparr>))"

text \<open>
  Both formats keep ASCII strings. JSON gives integers up to \<open>2 ^ 53\<close> back as the float of the same
  value. BSON gives a Go \<^verbatim>\<open>int\<close> back as an integer of another type, for which the type assertions
  to \<^verbatim>\<open>int\<close> and \<^verbatim>\<open>float64\<close> fail, and cuts times to the millisecond.
\<close>

definition asciiText :: "string \<Rightarrow> bool" where
  "asciiText s \<longleftrightarrow> list_all (\<lambda>ch. (of_char ch :: nat) < 128) s"

definition keepsText :: "(gvalue \<Rightarrow> gvalue) \<Rightarrow> bool" where
  "keepsText any \<longleftrightarrow> (\<forall>s. asciiText s \<longrightarrow> any (GString s) = GString s)"

definition jsonInts :: "(gvalue \<Rightarrow> gvalue) \<Rightarrow> bool" where
  "jsonInts any \<longleftrightarrow> (\<forall>i. \<bar>sint i\<bar> \<le> 2 ^ 53 \<longrightarrow> any (GInt i) = GFloat (of_int (sint i)))"

definition bsonInts :: "(gvalue \<Rightarrow> gvalue) \<Rightarrow> bool" where
  "bsonInts any \<longleftrightarrow> (\<forall>i. asInt (Some (any (GInt i))) = None \<and> asFloat (Some (any (GInt i))) = None)"

definition bsonTime :: "time \<Rightarrow> time" where
  "bsonTime t = t - t mod 10 ^ 6"

text \<open>The UUID library prints ASCII text that parses back; the context holds ASCII strings only.\<close>

definition uuidLib :: "wireEnv \<Rightarrow> bool" where
  "uuidLib env \<longleftrightarrow> (\<forall>u. weUUIDParse env (weUUIDString env u) = Some u \<and> asciiText (weUUIDString env u))"

definition ctxText :: "ctx \<Rightarrow> bool" where
  "ctxText c \<longleftrightarrow> (\<forall>k s. ctxValue c k = Some (GString s) \<longrightarrow> asciiText s)"

definition ehContexts :: "wireEnv \<Rightarrow> bool" where
  "ehContexts env \<longleftrightarrow> weContexts env = ehCodecs (weUUIDString env) (weUUIDParse env)"

section \<open>Round trips\<close>

text \<open>The entries of the registered context functions after a round trip, by key.\<close>

lemma map_of_any: "map_of (map (\<lambda>(k, v). (k, any v)) vals) key = map_option any (map_of vals key)"
  by (simp add: map_of_map)

lemma any_GString:
  "keepsText any \<Longrightarrow> (\<And>s. x = Some s \<Longrightarrow> asciiText s) \<Longrightarrow> map_option any (map_option GString x) = map_option GString x"
  by (cases x) (simp_all add: keepsText_def)

lemma any_UUID:
  "keepsText any \<Longrightarrow> (\<And>u. asciiText (us u)) \<Longrightarrow>
   map_option any (map_option (\<lambda>u. GString (us u)) x) = map_option (\<lambda>u. GString (us u)) x"
  by (cases x) (simp_all add: keepsText_def)

lemma asString_eq_Some: "asString x = Some s \<longleftrightarrow> x = Some (GString s)"
  by (cases x rule: asString.cases) auto

text \<open>
  The context that comes back: the values of the accessors are those of the encoded context
  where it had them; \<open>mv\<close> is what comes back of the minimum version.
\<close>

definition ctxBack :: "(gint \<Rightarrow> gint option) \<Rightarrow> ctx \<Rightarrow> ctx \<Rightarrow> ctx \<Rightarrow> bool" where
  "ctxBack mv from to c \<longleftrightarrow>
     AggregateIDFromContext c = orElse (AggregateIDFromContext from) (AggregateIDFromContext to) \<and>
     AggregateTypeFromContext c = orElse (AggregateTypeFromContext from) (AggregateTypeFromContext to) \<and>
     CommandTypeFromContext c = orElse (CommandTypeFromContext from) (CommandTypeFromContext to) \<and>
     MinVersionFromContext c = orElse (Option.bind (MinVersionFromContext from) mv) (MinVersionFromContext to) \<and>
     FromContext c = (case asString (ctxValue from NamespaceKey) of Some s \<Rightarrow> s | None \<Rightarrow> FromContext to) \<and>
     ctxDeadline c = ctxDeadline to \<and> ctxDone c = ctxDone to"

lemma UnmarshalContext_back:
  assumes lib: "uuidLib env" and eh: "ehContexts env" and keeps: "keepsText any" and ascii: "ctxText from"
    and vals: "MarshalContext (weContexts env) from = Ret vals"
    and mv: "\<And>i. MinVersionFromContext from = Some i \<Longrightarrow>
      orElse (asInt (Some (any (GInt i)))) (map_option float_to_int (asFloat (Some (any (GInt i))))) = mv i"
  shows "ctxBack mv from to (UnmarshalContext (weContexts env) to (Some (map (\<lambda>(k, v). (k, any v)) vals)))"
proof -
  let ?us = "weUUIDString env" and ?up = "weUUIDParse env"
  have k: "weContexts env = ehCodecs ?us ?up" using eh by (simp add: ehContexts_def)
  have v: "vals = rev (namespaceMarshal from) @ rev (versionMarshal from) @ rev (aggregateMarshal ?us from)"
    using vals by (simp add: k MarshalContext_eh)
  have parse: "Option.bind (map_option ?us x) ?up = x" for x
    using lib by (intro bind_parse_print) (simp add: uuidLib_def)
  have "map_option any (map_option GString (f from)) = map_option GString (f from)"
    if "f \<in> {AggregateTypeFromContext, CommandTypeFromContext, \<lambda>c. asString (ctxValue c NamespaceKey)}" for f
    using that ascii by (intro any_GString [OF keeps]) (auto simp: ctxText_def asString_eq_Some
        AggregateTypeFromContext_def CommandTypeFromContext_def)
  from this [of AggregateTypeFromContext] this [of CommandTypeFromContext] this [of "\<lambda>c. asString (ctxValue c NamespaceKey)"]
  have str: "map_option any (map_option GString (AggregateTypeFromContext from)) = map_option GString (AggregateTypeFromContext from)"
    "map_option any (map_option GString (CommandTypeFromContext from)) = map_option GString (CommandTypeFromContext from)"
    "map_option any (map_option GString (asString (ctxValue from NamespaceKey))) = map_option GString (asString (ctxValue from NamespaceKey))"
    by simp_all
  have uid: "map_option any (map_option (\<lambda>u. GString (?us u)) x) = map_option (\<lambda>u. GString (?us u)) x" for x
    using lib by (intro any_UUID [OF keeps]) (simp add: uuidLib_def)
  have "orElse (asInt (map_option any (map_option GInt (MinVersionFromContext from))))
      (map_option float_to_int (asFloat (map_option any (map_option GInt (MinVersionFromContext from))))) =
    Option.bind (MinVersionFromContext from) mv"
    using mv by (cases "MinVersionFromContext from") simp_all
  then show ?thesis
    by (simp only: ctxBack_def UnmarshalContext_def option.case k ehCodecs_funcs unmarshalLoop.simps unmarshal_views
        map_of_any v marshal_entries str uid as_map_option parse option.map_ident simp_thms)
qed

lemma float_to_int_of_int: "float_to_int (of_int (sint i)) = i"
  unfolding float_to_int_def floor_of_int ceiling_of_int by simp

text \<open>An encoded event that the format represents comes back, with its data, and its context too.\<close>

lemma unmarshalEvent_marshalEvent:
  assumes lib: "uuidLib env" "ehContexts env" "keepsText any" "ctxText from"
    and data: "representable (weData env) (eventType e) (data e)"
    and wire: "\<And>vals raw. representsEvt env ts any (evtOf env e vals raw)"
    and enc: "marshalEvent env from (Some e) = Ret b"
    and mv: "\<And>i. MinVersionFromContext from = Some i \<Longrightarrow>
      orElse (asInt (Some (any (GInt i)))) (map_option float_to_int (asFloat (Some (any (GInt i))))) = mv i"
  shows "\<exists>c. unmarshalEvent env to b =
    Ret (e\<lparr>timestamp := ts (timestamp e), metadata := map_option (\<lambda>m k. map_option any (m k)) (metadata e)\<rparr>, c) \<and>
    ctxBack mv from to c"
proof -
  from enc obtain vals raw where vals: "MarshalContext (weContexts env) from = Ret vals"
    and raw: "marshalData (weData env) (data e) = Ret raw" and b: "weEncode env (evtOf env e vals raw) = Ret b"
    by (auto simp: marshalEvent_def outcome_simps)
  from wire [of vals raw] b have "weDecode env b = Ret (wireBack ts any (evtOf env e vals raw))"
    by (simp add: representsEvt_def)
  then have "unmarshalEvent env to b =
      Ret (e\<lparr>timestamp := ts (timestamp e), metadata := map_option (\<lambda>m k. map_option any (m k)) (metadata e)\<rparr>,
        UnmarshalContext (weContexts env) to (Some (map (\<lambda>(k, v). (k, any v)) vals)))"
    using lib(1) unmarshalData_marshalData [OF data raw]
    by (simp add: unmarshalEvent_def wireBack_def evtOf_def uuidLib_def NewEvent_def ForAggregate_def WithMetadata_def)
  with UnmarshalContext_back [OF lib vals mv] show ?thesis by blast
qed

lemma unmarshalCommand_marshalCommand:
  assumes lib: "uuidLib env" "ehContexts env" "keepsText any" "ctxText from"
    and cmd: "\<And>raw. weMarshalCmd env cmd = Ret raw \<Longrightarrow>
      \<exists>fresh. CreateCommand (weCommands env) (cmdType cmd) = Ret fresh \<and> weUnmarshalCmd env raw fresh = Ret (Some cmd)"
    and wire: "\<And>w. representsCmd env any w"
    and enc: "marshalCommand env from (Some cmd) = Ret b"
    and mv: "\<And>i. MinVersionFromContext from = Some i \<Longrightarrow>
      orElse (asInt (Some (any (GInt i)))) (map_option float_to_int (asFloat (Some (any (GInt i))))) = mv i"
  shows "\<exists>c. unmarshalCommand env to b = Ret (Some cmd, c) \<and> ctxBack mv from to c"
proof -
  from enc obtain vals raw where vals: "MarshalContext (weContexts env) from = Ret vals"
    and raw: "weMarshalCmd env cmd = Ret raw"
    and b: "weEncodeCmd env \<lparr>wCommandType = cmdType cmd, wCommand = raw, wCmdContext = Some vals\<rparr> = Ret b"
    by (auto simp: marshalCommand_def outcome_simps)
  with wire [of "\<lparr>wCommandType = cmdType cmd, wCommand = raw, wCmdContext = Some vals\<rparr>"] cmd [OF raw]
  have "unmarshalCommand env to b = Ret (Some cmd, UnmarshalContext (weContexts env) to (Some (map (\<lambda>(k, v). (k, any v)) vals)))"
    by (auto simp: unmarshalCommand_def representsCmd_def)
  with UnmarshalContext_back [OF lib vals mv] show ?thesis by blast
qed

section \<open>Example\<close>

text \<open>A format for one event without data, in a context with a namespace and a minimum version.\<close>

definition unaryID :: "UUID \<Rightarrow> string" where
  "unaryID i = replicate (unat i) (CHR ''i'')"

definition unaryParseOpt :: "string \<Rightarrow> UUID option" where
  "unaryParseOpt s = Some (of_nat (length s))"

definition wireEvent :: event where
  "wireEvent = \<lparr>eventType = ''Closed'', data = None, timestamp = 1500001, aggregateType = ''Door'', aggregateID = 2,
     version = 3, metadata = None\<rparr>"

definition wireCtx :: ctx where
  "wireCtx = NewContextWithMinVersion (NewContext context_Background ''ns'') 7"

definition wireVals :: ctxVals where
  "wireVals = [(''eh_namespace'', GString ''ns''), (''eh_minversion'', GInt 7)]"

definition wirePing :: command where
  "wirePing = \<lparr>cmdAggregateID = 1, cmdAggregateType = ''T'', cmdType = ''Ping'', cmdID = None, cmdValue = GBool True\<rparr>"

text \<open>JSON turns an integer into a float, BSON into an integer of another type, here a time.\<close>

fun demoJsonAny :: "gvalue \<Rightarrow> gvalue" where
  "demoJsonAny (GInt i) = GFloat (of_int (sint i))"
| "demoJsonAny v = v"

fun demoBsonAny :: "gvalue \<Rightarrow> gvalue" where
  "demoBsonAny (GInt i) = GTime (sint i)"
| "demoBsonAny v = v"

definition demoWire :: "(time \<Rightarrow> time) \<Rightarrow> (gvalue \<Rightarrow> gvalue) \<Rightarrow> wireEnv" where
  "demoWire ts any =
     (let base = \<lparr>wEventType = ''Closed'', wRawData = '''', wTimestamp = 1500001, wAggregateType = ''Door'',
            wAggregateID = unaryID 2, wVersion = 3, wMetadata = None, wContext = Some wireVals\<rparr>;
          cbase = \<lparr>wCommandType = ''Ping'', wCommand = ''{}'', wCmdContext = Some wireVals\<rparr>
      in \<lparr>weData = \<lparr>dcFactories = newTypeRegistry ''event data'', dc_Marshal = (\<lambda>v. Fail (NewError ''unsupported'')), dc_Unmarshal = (\<lambda>b d. Ret d)\<rparr>,
          weEncode = (\<lambda>w. if w = base then Ret ''event'' else Fail (NewError ''unsupported'')),
          weDecode = (\<lambda>b. Ret (wireBack ts any base)),
          weCommands = \<lparr>items = [''Ping'' \<mapsto> Some wirePing], regName = ''command''\<rparr>,
          weMarshalCmd = (\<lambda>cmd. if cmd = wirePing then Ret ''{}'' else Fail (NewError ''unsupported'')),
          weUnmarshalCmd = (\<lambda>b fresh. if b = ''null'' then Ret None else Ret fresh),
          weEncodeCmd = (\<lambda>w. if w = cbase then Ret ''command'' else Fail (NewError ''unsupported'')),
          weDecodeCmd = (\<lambda>b. Ret (cbase\<lparr>wCmdContext := map_option (map (\<lambda>(k, v). (k, any v))) (wCmdContext cbase)\<rparr>)),
          weContexts = ehCodecs unaryID unaryParseOpt, weUUIDString = unaryID, weUUIDParse = unaryParseOpt\<rparr>)"


lemma asciiText_unaryID [simp]: "asciiText (unaryID u)"
  by (simp add: asciiText_def unaryID_def list_all_iff)

lemma unaryParseOpt_unaryID [simp]: "unaryParseOpt (unaryID u) = Some u"
  by (simp add: unaryParseOpt_def unaryID_def)

lemma demoWire_lib: "uuidLib (demoWire ts any)" "ehContexts (demoWire ts any)"
  by (simp_all add: uuidLib_def ehContexts_def demoWire_def Let_def)

lemma demoWire_ctx: "ctxText wireCtx" "MinVersionFromContext wireCtx = Some 7"
  "ctxValue wireCtx NamespaceKey = Some (GString ''ns'')"
  "MarshalContext (weContexts (demoWire ts any)) wireCtx = Ret wireVals"
  by (auto simp: ctxText_def wireCtx_def NewContextWithMinVersion_def NewContext_def context_Background_def asciiText_def
      MinVersionFromContext_def demoWire_def Let_def MarshalContext_eh wireVals_def ctx_codec_defs ctx_access_defs entry_def
      split: if_splits)

lemma demoWire_event:
  "representable (weData (demoWire ts any)) (eventType wireEvent) (data wireEvent)"
  "representsEvt (demoWire ts any) ts any w"
  "marshalEvent (demoWire ts any) wireCtx (Some wireEvent) = Ret ''event''"
  by (simp_all add: representable_def wireEvent_def representsEvt_def marshalEvent_def demoWire_ctx)
    (simp_all add: demoWire_def Let_def marshalData_def evtOf_def)

lemma demoWire_command:
  "CreateCommand (weCommands (demoWire ts any)) ''Ping'' = Ret (Some wirePing)"
  "weMarshalCmd (demoWire ts any) wirePing = Ret ''{}''"
  "weUnmarshalCmd (demoWire ts any) ''{}'' (Some wirePing) = Ret (Some wirePing)"
  "representsCmd (demoWire ts any) any wc"
  "marshalCommand (demoWire ts any) wireCtx (Some wirePing) = Ret ''command''"
  by (simp_all add: CreateCommand_def registry_get_def representsCmd_def marshalCommand_def demoWire_ctx)
    (simp_all add: demoWire_def Let_def wirePing_def)

lemma demo_any: "keepsText demoJsonAny" "jsonInts demoJsonAny" "keepsText demoBsonAny" "bsonInts demoBsonAny"
  by (simp_all add: keepsText_def jsonInts_def bsonInts_def)

section \<open>Properties\<close>

text \<open>
  The JSON event codec is lossless on the events it can represent: an encoded event is decoded
  with its type, data, timestamp, aggregate and version, its metadata up to the representation
  of numbers, and every value of the context, the minimum version included although it
  travels as a float.
\<close>

theorem json_event_roundtrip:
  assumes "uuidLib json" "ehContexts json" "keepsText num" "ctxText from" "jsonInts num"
    and "representable (weData json) (eventType e) (data e)"
    and "\<And>vals raw. representsEvt json id num (evtOf json e vals raw)"
    and "jsonMarshalEvent json from (Some e) = Ret b"
    and "\<And>i. MinVersionFromContext from = Some i \<Longrightarrow> \<bar>sint i\<bar> \<le> 2 ^ 53"
  shows "\<exists>c. jsonUnmarshalEvent json to b =
      Ret (e\<lparr>metadata := map_option (\<lambda>m k. map_option num (m k)) (metadata e)\<rparr>, c) \<and> ctxBack Some from to c"
proof -
  have mv: "orElse (asInt (Some (num (GInt i)))) (map_option float_to_int (asFloat (Some (num (GInt i))))) = Some i"
    if "MinVersionFromContext from = Some i" for i
    using assms(5) assms(9) [OF that] by (simp add: jsonInts_def float_to_int_of_int del: of_int_sint)
  from unmarshalEvent_marshalEvent [OF assms(1-4,6,7) assms(8) [unfolded jsonMarshalEvent_def] mv]
  show ?thesis by (auto simp: jsonUnmarshalEvent_def)
qed

theorem json_event_roundtrip_witness:
  "\<exists>c. jsonUnmarshalEvent (demoWire id demoJsonAny) context_Background ''event'' = Ret (wireEvent, c) \<and>
     MinVersionFromContext c = Some 7 \<and> FromContext c = ''ns''"
proof -
  from json_event_roundtrip [of "demoWire id demoJsonAny" demoJsonAny wireCtx wireEvent "''event''" context_Background]
  obtain c where "jsonUnmarshalEvent (demoWire id demoJsonAny) context_Background ''event'' =
      Ret (wireEvent\<lparr>metadata := map_option (\<lambda>m k. map_option demoJsonAny (m k)) (metadata wireEvent)\<rparr>, c)"
    "ctxBack Some wireCtx context_Background c"
    using demo_any demoWire_lib demoWire_ctx demoWire_event by (auto simp: jsonMarshalEvent_def)
  then show ?thesis
    by (auto simp: ctxBack_def demoWire_ctx wireEvent_def orElse_def)
qed

text \<open>
  The BSON event codec gives the event back with its timestamp cut to the millisecond and its
  context without the minimum version: that value comes back as an integer type which the
  version package does not accept, so the context keeps the minimum version it already had.
\<close>

theorem bson_event_roundtrip:
  assumes "uuidLib bson" "ehContexts bson" "keepsText num" "ctxText from" "bsonInts num"
    and "representable (weData bson) (eventType e) (data e)"
    and "\<And>vals raw. representsEvt bson bsonTime num (evtOf bson e vals raw)"
    and "bsonMarshalEvent bson from (Some e) = Ret b"
  shows "\<exists>c. bsonUnmarshalEvent bson to b =
      Ret (e\<lparr>timestamp := bsonTime (timestamp e), metadata := map_option (\<lambda>m k. map_option num (m k)) (metadata e)\<rparr>, c) \<and>
      ctxBack (\<lambda>_. None) from to c"
proof -
  have mv: "orElse (asInt (Some (num (GInt i)))) (map_option float_to_int (asFloat (Some (num (GInt i))))) = None" for i
    using assms(5) by (simp add: bsonInts_def)
  from unmarshalEvent_marshalEvent [OF assms(1-4,6,7) assms(8) [unfolded bsonMarshalEvent_def] mv]
  show ?thesis by (auto simp: bsonUnmarshalEvent_def)
qed

theorem bson_event_roundtrip_witness:
  "\<exists>c. bsonUnmarshalEvent (demoWire bsonTime demoBsonAny) context_Background ''event'' =
     Ret (wireEvent\<lparr>timestamp := 1000000\<rparr>, c) \<and> MinVersionFromContext wireCtx = Some 7 \<and>
     MinVersionFromContext c = None \<and> FromContext c = ''ns''"
proof -
  from bson_event_roundtrip [of "demoWire bsonTime demoBsonAny" demoBsonAny wireCtx wireEvent "''event''" context_Background]
  obtain c where "bsonUnmarshalEvent (demoWire bsonTime demoBsonAny) context_Background ''event'' =
      Ret (wireEvent\<lparr>timestamp := bsonTime (timestamp wireEvent),
        metadata := map_option (\<lambda>m k. map_option demoBsonAny (m k)) (metadata wireEvent)\<rparr>, c)"
    "ctxBack (\<lambda>_. None) wireCtx context_Background c"
    using demo_any demoWire_lib demoWire_ctx demoWire_event by (auto simp: bsonMarshalEvent_def)
  then show ?thesis
    by (auto simp: ctxBack_def demoWire_ctx wireEvent_def orElse_def bsonTime_def)
      (simp add: MinVersionFromContext_def context_Background_def)
qed

text \<open>
  The JSON command codec gives every encoded command back, as long as the format represents it and
  its type is registered, with the values of the context.
\<close>

theorem json_command_roundtrip:
  assumes "uuidLib json" "ehContexts json" "keepsText num" "ctxText from" "jsonInts num"
    and "\<And>raw. weMarshalCmd json cmd = Ret raw \<Longrightarrow>
      \<exists>fresh. CreateCommand (weCommands json) (cmdType cmd) = Ret fresh \<and> weUnmarshalCmd json raw fresh = Ret (Some cmd)"
    and "\<And>w. representsCmd json num w"
    and "jsonMarshalCommand json from (Some cmd) = Ret b"
    and "\<And>i. MinVersionFromContext from = Some i \<Longrightarrow> \<bar>sint i\<bar> \<le> 2 ^ 53"
  shows "\<exists>c. jsonUnmarshalCommand json to b = Ret (Some cmd, c) \<and> ctxBack Some from to c"
proof -
  have mv: "orElse (asInt (Some (num (GInt i)))) (map_option float_to_int (asFloat (Some (num (GInt i))))) = Some i"
    if "MinVersionFromContext from = Some i" for i
    using assms(5) assms(9) [OF that] by (simp add: jsonInts_def float_to_int_of_int del: of_int_sint)
  from unmarshalCommand_marshalCommand [OF assms(1-4,6,7) assms(8) [unfolded jsonMarshalCommand_def] mv]
  show ?thesis by (auto simp: jsonUnmarshalCommand_def)
qed

theorem json_command_roundtrip_witness:
  "\<exists>c. jsonUnmarshalCommand (demoWire id demoJsonAny) context_Background ''command'' = Ret (Some wirePing, c) \<and>
     MinVersionFromContext c = Some 7"
proof -
  have "cmdType wirePing = ''Ping''" by (simp add: wirePing_def)
  with json_command_roundtrip [of "demoWire id demoJsonAny" demoJsonAny wireCtx wirePing "''command''" context_Background]
  obtain c where "jsonUnmarshalCommand (demoWire id demoJsonAny) context_Background ''command'' = Ret (Some wirePing, c)"
    "ctxBack Some wireCtx context_Background c"
    using demo_any demoWire_lib demoWire_ctx demoWire_command by (auto simp: jsonMarshalCommand_def)
  then show ?thesis by (auto simp: ctxBack_def demoWire_ctx orElse_def)
qed

text \<open>A payload \<^verbatim>\<open>null\<close> of a JSON command gives no error but a nil command.\<close>

lemma json_null_command:
  assumes "weDecodeCmd json b = Ret w" "wCommand w = ''null''"
    and "CreateCommand (weCommands json) (wCommandType w) = Ret fresh" "\<And>f. weUnmarshalCmd json ''null'' f = Ret None"
  shows "\<exists>c'. jsonUnmarshalCommand json c b = Ret (None, c')"
  using assms by (simp add: jsonUnmarshalCommand_def unmarshalCommand_def)

text \<open>
  UUIDs in BSON: what the registered encoder writes for a UUID, a string, is decoded to the same
  UUID, and so is the binary form that other encoders write; every other BSON type is an error.
\<close>

theorem bson_uuid_roundtrip:
  assumes "up (us u) = Some u" and "fromBytes (uuidBytes u) = Ret u"
  shows "obind (encodeUUID us fromBytes (Some (GUUID u))) (\<lambda>s. decodeUUID up fromBytes True (RString (Ret s))) = Ret u \<and>
    decodeUUID up fromBytes True (RBinary (Ret (uuidBytes u))) = Ret u \<and>
    \<not> is_Ret (decodeUUID up fromBytes True (ROther t))"
  using assms by (simp add: encodeUUID_def decodeUUID_def Let_def)

text \<open>The number with the given bytes, most significant first.\<close>

definition bytesValue :: "8 word list \<Rightarrow> UUID go" where
  "bytesValue bs = Ret (of_nat (foldl (\<lambda>n b. n * 256 + unat b) 0 bs))"

theorem bson_uuid_roundtrip_witness:
  "obind (encodeUUID unaryID bytesValue (Some (GUUID 5))) (\<lambda>s. decodeUUID unaryParseOpt bytesValue True (RString (Ret s))) = Ret 5 \<and>
   decodeUUID unaryParseOpt bytesValue True (RBinary (Ret (uuidBytes 5))) = Ret 5"
  using bson_uuid_roundtrip [of unaryParseOpt unaryID 5 bytesValue]
  by (simp add: bytesValue_def uuidBytes_def upt_rec drop_bit_eq_div unsigned_ucast_eq)

end
