(* ===== verification/EventBus_Local.thy ===== *)
theory EventBus_Local
  imports EventStore_Spec Codec
begin

text \<open>
  The local event bus (\<^verbatim>\<open>eventbus/local\<close>). Buses publish encoded events to the channels of a
  group, which several buses can share; each added handler has a goroutine that receives from
  the channel of its handler type. A channel is its queue, bounded by \<open>DefaultQueueSize\<close>, and
  whether it is closed. The goroutines and callers interleave, so the system is a labelled step
  relation whose steps are the operations below. The event codec is a parameter, and so are
  the handlers, which act on a world of type \<open>'w\<close>.
\<close>

section \<open>The publishing group\<close>

abbreviation DefaultQueueSize :: nat where "DefaultQueueSize \<equiv> 1000"

record chan =
  chQueue :: "string list"
  chClosed :: bool

text \<open>
  \<open>groupChans\<close> are the channels by ID; the channels outlive the map, which is nil after
  \<^verbatim>\<open>close\<close>.
\<close>

record group =
  groupChans :: "string \<rightharpoonup> chan"
  groupNil :: bool

definition NewGroup :: group where
  "NewGroup = \<lparr>groupChans = Map.empty, groupNil = False\<rparr>"

text \<open>\<^verbatim>\<open>channel\<close>; writing to the nil map of a closed group panics.\<close>

definition groupChannel :: "string \<Rightarrow> group \<Rightarrow> group go" where
  "groupChannel i g =
     (if groupNil g then Panic ''assignment to entry in nil map''
      else case groupChans g i of
        Some _ \<Rightarrow> Ret g
      | None \<Rightarrow> Ret (g\<lparr>groupChans := (groupChans g)(i \<mapsto> \<lparr>chQueue = [], chClosed = False\<rparr>)\<rparr>))"

text \<open>\<^verbatim>\<open>publish\<close>: a channel that is full misses the event.\<close>

definition chanSend :: "string \<Rightarrow> chan \<Rightarrow> chan" where
  "chanSend b ch = (if length (chQueue ch) < DefaultQueueSize then ch\<lparr>chQueue := chQueue ch @ [b]\<rparr> else ch)"

definition groupPublish :: "string \<Rightarrow> group \<Rightarrow> group" where
  "groupPublish b g =
     (if groupNil g then g else g\<lparr>groupChans := (\<lambda>i. map_option (chanSend b) (groupChans g i))\<rparr>)"

definition groupClose :: "group \<Rightarrow> group" where
  "groupClose g = (if groupNil g then g
     else \<lparr>groupChans = (\<lambda>i. map_option (\<lambda>ch. ch\<lparr>chClosed := True\<rparr>) (groupChans g i)), groupNil = True\<rparr>)"

section \<open>Buses\<close>

record bus =
  registered :: "string list"
  errCh :: "err list"
  cancelled :: bool

definition NewEventBus :: bus where
  "NewEventBus = \<lparr>registered = [], errCh = [], cancelled = False\<rparr>"

definition errChSend :: "err \<Rightarrow> bus \<Rightarrow> bus" where
  "errChSend x b = (if length (errCh b) < 100 then b\<lparr>errCh := errCh b @ [x]\<rparr> else b)"

definition busHandleEvent :: "eventCodec \<Rightarrow> ctx \<Rightarrow> event option \<Rightarrow> group \<Rightarrow> group \<times> unit go" where
  "busHandleEvent codec c ev g =
     (case MarshalEvent codec c ev of
        Fail x \<Rightarrow> (g, Fail (Wrapf ''could not marshal event'' x))
      | Panic p \<Rightarrow> (g, Panic p)
      | Ret b \<Rightarrow> (groupPublish b g, Ret ()))"

text \<open>\<^verbatim>\<open>AddHandler\<close>: the matcher and the handler can be nil; on success a goroutine starts.\<close>

definition AddHandler ::
    "(event \<Rightarrow> bool) option \<Rightarrow> 'w EventHandler option \<Rightarrow> bus \<times> group \<Rightarrow> (bus \<times> group) \<times> unit go" where
  "AddHandler m h bg =
     (case m of
        None \<Rightarrow> (bg, Fail (Sentinel ErrMissingMatcher))
      | Some _ \<Rightarrow>
          (case h of
             None \<Rightarrow> (bg, Fail (Sentinel ErrMissingHandler))
           | Some hd' \<Rightarrow>
               (case bg of (b, g) \<Rightarrow>
                  if HandlerType hd' \<in> set (registered b) then (bg, Fail (Sentinel ErrHandlerAlreadyAdded))
                  else case groupChannel (HandlerType hd') g of
                    Ret g' \<Rightarrow> ((b\<lparr>registered := HandlerType hd' # registered b\<rparr>, g'), Ret ())
                  | Fail x \<Rightarrow> (bg, Fail x)
                  | Panic p \<Rightarrow> (bg, Panic p))))"

text \<open>
  One round of \<^verbatim>\<open>handle\<close> on received data: the bus with its error channel, the world, and whether
  the goroutine goes on. A closed channel delivers nil data, the empty string. A handler's error
  is reported by its text.
\<close>

definition handleData ::
    "(UUID \<Rightarrow> string) \<Rightarrow> eventCodec \<Rightarrow> (event \<Rightarrow> bool) \<Rightarrow> 'w EventHandler \<Rightarrow> string \<Rightarrow> bus \<times> 'w \<Rightarrow> (bus \<times> 'w) \<times> bool go"
where
  "handleData us codec m h b bw =
     (case bw of (bs, w) \<Rightarrow>
        (case UnmarshalEvent codec context_Background b of
           Panic p \<Rightarrow> (bw, Panic p)
         | Fail x \<Rightarrow>
             ((errChSend (EventBusError (Some (Wrapf ''could not unmarshal event'' x)) context_Background None) bs, w), Ret False)
         | Ret (e, c) \<Rightarrow>
             if \<not> m e then (bw, Ret True)
             else (case HandleEvent h c (Some e) w of
                     (w', Panic p) \<Rightarrow> ((bs, w'), Panic p)
                   | (w', Ret _) \<Rightarrow> ((bs, w'), Ret True)
                   | (w', Fail x) \<Rightarrow>
                       ((errChSend (EventBusError (Some (NewError
                           (''could not handle event ('' @ HandlerType h @ ''): '' @ error_string us x))) c (Some e)) bs, w'),
                        Ret True))))"

section \<open>The system\<close>

text \<open>
  Buses on one group, their goroutines and the world. A worker is the bus it belongs to, its
  matcher and its handler, and whether it still runs.
\<close>

record 'w worker =
  wBus :: nat
  wMatcher :: "event \<Rightarrow> bool"
  wHandler :: "'w EventHandler"
  wRunning :: bool

record 'w system =
  sysGroup :: group
  sysBuses :: "bus list"
  sysWorkers :: "'w worker list"
  sysWorld :: 'w

datatype label = LPublish string | LReceive nat string | LOther

text \<open>
  The steps: a bus publishes, adds a handler or cancels its context; a worker receives the
  oldest data of its channel and handles it, receives nil from a closed and drained channel,
  or returns because its bus is cancelled; the group is closed when all workers of a cancelled
  bus have returned.
\<close>

inductive busStep ::
    "(UUID \<Rightarrow> string) \<Rightarrow> eventCodec \<Rightarrow> 'w system \<Rightarrow> label \<Rightarrow> 'w system \<Rightarrow> bool" for us codec where
  step_publish:
    "MarshalEvent codec c ev = Ret b \<Longrightarrow> busHandleEvent codec c ev (sysGroup s) = (g, r) \<Longrightarrow>
     busStep us codec s (LPublish b) (s\<lparr>sysGroup := g\<rparr>)"
| step_add:
    "k < length (sysBuses s) \<Longrightarrow> AddHandler (Some m) (Some h) (sysBuses s ! k, sysGroup s) = ((b, g), Ret ()) \<Longrightarrow>
     busStep us codec s LOther (s\<lparr>sysGroup := g, sysBuses := (sysBuses s)[k := b],
       sysWorkers := sysWorkers s @ [\<lparr>wBus = k, wMatcher = m, wHandler = h, wRunning = True\<rparr>]\<rparr>)"
| step_receive:
    "j < length (sysWorkers s) \<Longrightarrow> w = sysWorkers s ! j \<Longrightarrow> wRunning w \<Longrightarrow> wBus w < length (sysBuses s) \<Longrightarrow>
     groupChans (sysGroup s) (HandlerType (wHandler w)) = Some ch \<Longrightarrow> chQueue ch = b # q \<Longrightarrow>
     handleData us codec (wMatcher w) (wHandler w) b (sysBuses s ! wBus w, sysWorld s) = ((bs, x), Ret go_on) \<Longrightarrow>
     busStep us codec s (LReceive j b) (s\<lparr>
       sysGroup := (sysGroup s)\<lparr>groupChans := (groupChans (sysGroup s))(HandlerType (wHandler w) \<mapsto> ch\<lparr>chQueue := q\<rparr>)\<rparr>,
       sysBuses := (sysBuses s)[wBus w := bs], sysWorld := x,
       sysWorkers := (sysWorkers s)[j := w\<lparr>wRunning := go_on\<rparr>]\<rparr>)"
| step_receive_closed:
    "j < length (sysWorkers s) \<Longrightarrow> w = sysWorkers s ! j \<Longrightarrow> wRunning w \<Longrightarrow> wBus w < length (sysBuses s) \<Longrightarrow>
     groupChans (sysGroup s) (HandlerType (wHandler w)) = Some ch \<Longrightarrow> chQueue ch = [] \<Longrightarrow> chClosed ch \<Longrightarrow>
     handleData us codec (wMatcher w) (wHandler w) [] (sysBuses s ! wBus w, sysWorld s) = ((bs, x), Ret go_on) \<Longrightarrow>
     busStep us codec s LOther (s\<lparr>sysBuses := (sysBuses s)[wBus w := bs], sysWorld := x,
       sysWorkers := (sysWorkers s)[j := w\<lparr>wRunning := go_on\<rparr>]\<rparr>)"
| step_cancel:
    "k < length (sysBuses s) \<Longrightarrow>
     busStep us codec s LOther (s\<lparr>sysBuses := (sysBuses s)[k := (sysBuses s ! k)\<lparr>cancelled := True\<rparr>]\<rparr>)"
| step_stop:
    "j < length (sysWorkers s) \<Longrightarrow> wBus (sysWorkers s ! j) < length (sysBuses s) \<Longrightarrow>
     cancelled (sysBuses s ! wBus (sysWorkers s ! j)) \<Longrightarrow>
     busStep us codec s LOther (s\<lparr>sysWorkers := (sysWorkers s)[j := (sysWorkers s ! j)\<lparr>wRunning := False\<rparr>]\<rparr>)"
| step_close:
    "k < length (sysBuses s) \<Longrightarrow> cancelled (sysBuses s ! k) \<Longrightarrow>
     \<forall>w \<in> set (sysWorkers s). wBus w = k \<longrightarrow> \<not> wRunning w \<Longrightarrow>
     busStep us codec s LOther (s\<lparr>sysGroup := groupClose (sysGroup s)\<rparr>)"

definition initSystem :: "nat \<Rightarrow> 'w \<Rightarrow> 'w system" where
  "initSystem n w = \<lparr>sysGroup = NewGroup, sysBuses = replicate n NewEventBus, sysWorkers = [], sysWorld = w\<rparr>"

section \<open>Traces\<close>

text \<open>A run of the system: the states before each step with the step's label.\<close>

inductive busTrace ::
    "(UUID \<Rightarrow> string) \<Rightarrow> eventCodec \<Rightarrow> 'w system \<Rightarrow> ('w system \<times> label) list \<Rightarrow> 'w system \<Rightarrow> bool"
  for us codec s0 where
  trace_nil: "busTrace us codec s0 [] s0"
| trace_step: "busTrace us codec s0 tr s \<Longrightarrow> busStep us codec s l s' \<Longrightarrow> busTrace us codec s0 (tr @ [(s, l)]) s'"

text \<open>The queue of a channel, and whether the channel takes a published event.\<close>

definition chq :: "group \<Rightarrow> string \<Rightarrow> string list" where
  "chq g i = (case groupChans g i of None \<Rightarrow> [] | Some ch \<Rightarrow> chQueue ch)"

definition accepts :: "group \<Rightarrow> string \<Rightarrow> bool" where
  "accepts g i \<longleftrightarrow> \<not> groupNil g \<and> groupChans g i \<noteq> None \<and> length (chq g i) < DefaultQueueSize"

text \<open>What the channel \<open>i\<close> took and what its receivers got, in the order of the run.\<close>

fun acceptedBy :: "string \<Rightarrow> ('w system \<times> label) list \<Rightarrow> string list" where
  "acceptedBy i [] = []"
| "acceptedBy i ((s, LPublish b) # tr) = (if accepts (sysGroup s) i then b # acceptedBy i tr else acceptedBy i tr)"
| "acceptedBy i ((s, _) # tr) = acceptedBy i tr"

fun receivedBy :: "string \<Rightarrow> ('w system \<times> label) list \<Rightarrow> string list" where
  "receivedBy i [] = []"
| "receivedBy i ((s, LReceive j b) # tr) =
     (if HandlerType (wHandler (sysWorkers s ! j)) = i then b # receivedBy i tr else receivedBy i tr)"
| "receivedBy i ((s, _) # tr) = receivedBy i tr"

lemma acceptedBy_append: "acceptedBy i (tr @ tr') = acceptedBy i tr @ acceptedBy i tr'"
  by (induction i tr rule: acceptedBy.induct) auto

lemma receivedBy_append: "receivedBy i (tr @ tr') = receivedBy i tr @ receivedBy i tr'"
  by (induction i tr rule: receivedBy.induct) auto

lemma chq_publish: "chq (groupPublish b g) i = chq g i @ (if accepts g i then [b] else [])"
  by (cases "groupChans g i") (auto simp: chq_def groupPublish_def accepts_def chanSend_def)

lemma chq_close [simp]: "chq (groupClose g) i = chq g i"
  by (cases "groupChans g i") (auto simp: chq_def groupClose_def)

lemma chq_channel: "groupChannel k g = Ret g' \<Longrightarrow> chq g' i = chq g i"
  by (auto simp: chq_def groupChannel_def split: if_splits option.splits)

lemma AddHandler_group: "AddHandler (Some m) (Some h) (b, g) = ((b', g'), Ret ()) \<Longrightarrow>
    groupChannel (HandlerType h) g = Ret g' \<and> HandlerType h \<notin> set (registered b) \<and>
    b' = b\<lparr>registered := HandlerType h # registered b\<rparr>"
  by (auto simp: AddHandler_def split: if_splits outcome.splits)

text \<open>Every step moves the queue of a channel by what the step's label says.\<close>

lemma busStep_queue:
  "busStep us codec s l s' \<Longrightarrow>
   chq (sysGroup s) i @ acceptedBy i [(s, l)] = receivedBy i [(s, l)] @ chq (sysGroup s') i"
proof (induction rule: busStep.induct)
  case (step_publish c ev b s g r)
  then show ?case by (auto simp: busHandleEvent_def chq_publish)
next
  case (step_add k s m h b g)
  then show ?case by (auto dest!: AddHandler_group simp: chq_channel)
next
  case (step_receive j s w ch b q bs x go_on)
  then show ?case by (auto simp: chq_def)
qed auto

definition busInv :: "'w system \<Rightarrow> bool" where
  "busInv s \<longleftrightarrow> (\<forall>i. length (chq (sysGroup s) i) \<le> DefaultQueueSize) \<and>
     (\<forall>b \<in> set (sysBuses s). distinct (registered b) \<and> length (errCh b) \<le> 100)"

lemma errChSend_inv:
  "distinct (registered b) \<and> length (errCh b) \<le> 100 \<Longrightarrow>
   distinct (registered (errChSend x b)) \<and> length (errCh (errChSend x b)) \<le> 100"
  by (simp add: errChSend_def)

lemma handleData_bus:
  assumes "distinct (registered b) \<and> length (errCh b) \<le> 100"
    and "handleData us codec m h d (b, w) = ((b', w'), r)"
  shows "distinct (registered b') \<and> length (errCh b') \<le> 100"
  using assms errChSend_inv [OF assms(1)]
  by (auto simp: handleData_def split: outcome.splits prod.splits option.splits if_splits)

lemma busInv_update:
  assumes "busInv s" and "distinct (registered b) \<and> length (errCh b) \<le> 100"
    and "\<And>i. length (chq g i) \<le> DefaultQueueSize"
  shows "busInv (s\<lparr>sysGroup := g, sysBuses := (sysBuses s)[k := b]\<rparr>)"
  using assms set_update_subset_insert [of "sysBuses s" k b] by (auto simp: busInv_def)

lemma busInv_ext: "busInv (s\<lparr>sysWorkers := ws\<rparr>) = busInv s" "busInv (s\<lparr>sysWorld := x\<rparr>) = busInv s"
  by (simp_all add: busInv_def)

lemma busStep_inv: "busStep us codec s l s' \<Longrightarrow> busInv s \<Longrightarrow> busInv s'"
proof (induction rule: busStep.induct)
  case (step_publish c ev b s g r)
  then have "g = groupPublish b (sysGroup s)" by (simp add: busHandleEvent_def)
  with step_publish(3) show ?case by (auto simp: busInv_def chq_publish accepts_def)
next
  case (step_add k s m h b g)
  from AddHandler_group [OF step_add(2)] step_add(1,3)
  have "distinct (registered b) \<and> length (errCh b) \<le> 100" "\<And>i. chq g i = chq (sysGroup s) i"
    by (auto simp: busInv_def chq_channel)
  with step_add(3) busInv_update [OF step_add(3), of b g k] show ?case
    by (simp add: busInv_def)
next
  case (step_receive j s w ch b q bs x go_on)
  have bs: "distinct (registered bs) \<and> length (errCh bs) \<le> 100"
    using step_receive(4,7,8) by (intro handleData_bus [OF _ step_receive(7)]) (auto simp: busInv_def)
  let ?g = "(sysGroup s)\<lparr>groupChans := (groupChans (sysGroup s))(HandlerType (wHandler w) \<mapsto> ch\<lparr>chQueue := q\<rparr>)\<rparr>"
  have "length (chq ?g i) \<le> DefaultQueueSize" for i
  proof -
    have "length (chq (sysGroup s) i) \<le> DefaultQueueSize" "length (chq (sysGroup s) (HandlerType (wHandler w))) \<le> DefaultQueueSize"
      using step_receive(8) unfolding busInv_def by blast+
    with step_receive(5,6) show ?thesis by (auto simp: chq_def)
  qed
  from busInv_update [OF step_receive(8) bs this, of "wBus w"] show ?case by (simp add: busInv_def)
next
  case (step_receive_closed j s w ch bs x go_on)
  have bs: "distinct (registered bs) \<and> length (errCh bs) \<le> 100"
    using step_receive_closed(4,8,9) by (intro handleData_bus [OF _ step_receive_closed(8)]) (auto simp: busInv_def)
  with busInv_update [OF step_receive_closed(9) bs, of "sysGroup s" "wBus w"] step_receive_closed(9) show ?case
    by (simp add: busInv_def)
next
  case (step_cancel k s)
  then have "distinct (registered (sysBuses s ! k)) \<and> length (errCh (sysBuses s ! k)) \<le> 100" by (auto simp: busInv_def)
  with busInv_update [OF step_cancel(2), of "(sysBuses s ! k)\<lparr>cancelled := True\<rparr>" "sysGroup s" k] step_cancel(2)
  show ?case by (simp add: busInv_def)
qed (simp_all add: busInv_def)

text \<open>A run for the examples: one bus adds a handler, then publishes an event.\<close>

definition demoCodec :: eventCodec where
  "demoCodec = \<lparr>MarshalEvent = (\<lambda>c ev. Ret ''e''), UnmarshalEvent = (\<lambda>c b. Ret (wireEvent, c))\<rparr>"

definition demoHandler :: "unit EventHandler" where
  "demoHandler = \<lparr>HandlerType = ''h'', HandleEvent = (\<lambda>c ev w. (w, Ret ()))\<rparr>"

definition demoSystem :: "string list \<Rightarrow> unit system" where
  "demoSystem q = \<lparr>sysGroup = \<lparr>groupChans = [''h'' \<mapsto> \<lparr>chQueue = q, chClosed = False\<rparr>], groupNil = False\<rparr>,
     sysBuses = [\<lparr>registered = [''h''], errCh = [], cancelled = False\<rparr>],
     sysWorkers = [\<lparr>wBus = 0, wMatcher = (\<lambda>e. True), wHandler = demoHandler, wRunning = True\<rparr>], sysWorld = ()\<rparr>"

lemma demo_trace:
  "busTrace us demoCodec (initSystem 1 ())
     [(initSystem 1 (), LOther), (demoSystem [], LPublish ''e'')] (demoSystem [''e''])"
proof -
  have add: "AddHandler (Some (\<lambda>e. True)) (Some demoHandler) (NewEventBus, NewGroup) =
      ((sysBuses (demoSystem []) ! 0, sysGroup (demoSystem [])), Ret ())"
    by (simp add: AddHandler_def demoHandler_def NewEventBus_def NewGroup_def groupChannel_def demoSystem_def)
  have 1: "busStep us demoCodec (initSystem 1 ()) LOther (demoSystem [])"
    using step_add [of 0 "initSystem 1 ()" "\<lambda>e. True" demoHandler "sysBuses (demoSystem []) ! 0" "sysGroup (demoSystem [])" us demoCodec] add
    by (simp add: initSystem_def demoSystem_def)
  have 2: "busStep us demoCodec (demoSystem []) (LPublish ''e'') (demoSystem [''e''])"
    using step_publish [of demoCodec context_Background None "''e''" "demoSystem []" "sysGroup (demoSystem [''e''])" "Ret ()" us]
    by (simp add: demoCodec_def busHandleEvent_def groupPublish_def demoSystem_def chanSend_def fun_eq_iff)
  from trace_step [OF trace_step [OF trace_nil 1] 2] show ?thesis by simp
qed

section \<open>Properties\<close>

text \<open>
  C10: delivery on the local bus. In every run of any number of buses sharing a group, what the
  channel of a handler type took from publishers is what its receivers got, in the same order,
  followed by what is still queued: no event is reordered, duplicated or invented, and an
  event is received by one goroutine only, also when buses share the handler type.
\<close>

theorem bus_fifo:
  assumes "busTrace us codec (initSystem n w) tr s"
  shows "acceptedBy i tr = receivedBy i tr @ chq (sysGroup s) i"
  using assms
proof (induction rule: busTrace.induct)
  case trace_nil
  then show ?case by (simp add: chq_def initSystem_def NewGroup_def)
next
  case (trace_step tr s l s')
  from busStep_queue [OF trace_step(2), of i] trace_step.IH show ?case
    by (simp add: acceptedBy_append receivedBy_append del: acceptedBy.simps receivedBy.simps)
qed

theorem bus_fifo_witness:
  "acceptedBy ''h'' [(initSystem 1 (), LOther), (demoSystem [], LPublish ''e'')] = [''e'']"
  using bus_fifo [OF demo_trace, of "''h''"] by (simp add: chq_def demoSystem_def)



text \<open>
  publishing after the group was closed reports success and delivers to nobody: the group
  is unchanged, whatever the event.
\<close>

theorem publish_after_close:
  "is_Ret (MarshalEvent codec c ev) \<longrightarrow> busHandleEvent codec c ev (groupClose g) = (groupClose g, Ret ())"
  by (cases "MarshalEvent codec c ev") (auto simp: busHandleEvent_def groupPublish_def groupClose_def)

theorem publish_after_close_witness:
  "busHandleEvent demoCodec context_Background None (groupClose NewGroup) = (groupClose NewGroup, Ret ())"
  using publish_after_close [of demoCodec context_Background None NewGroup] by (simp add: demoCodec_def)

text \<open>
  adding handlers. A second handler of a type that the bus has is refused and changes
  nothing, as are a nil matcher and a nil handler; a new type gets a channel.
\<close>

theorem AddHandler_cases:
  "(HandlerType h \<in> set (registered b) \<longrightarrow>
      AddHandler (Some m) (Some h) (b, g) = ((b, g), Fail (Sentinel ErrHandlerAlreadyAdded))) \<and>
   AddHandler None ho (b, g) = ((b, g), Fail (Sentinel ErrMissingMatcher)) \<and>
   AddHandler (Some m) (None :: 'w EventHandler option) (b, g) = ((b, g), Fail (Sentinel ErrMissingHandler)) \<and>
   (HandlerType h \<notin> set (registered b) \<and> \<not> groupNil g \<longrightarrow>
      (\<exists>b' g'. AddHandler (Some m) (Some h) (b, g) = ((b', g'), Ret ()) \<and> HandlerType h \<in> set (registered b') \<and>
         groupChans g' (HandlerType h) \<noteq> None))"
  by (auto simp: AddHandler_def groupChannel_def split: option.splits)

theorem AddHandler_cases_witness:
  "\<exists>b' g'. AddHandler (Some (\<lambda>e. True)) (Some demoHandler) (NewEventBus, NewGroup) = ((b', g'), Ret ()) \<and>
     ''h'' \<in> set (registered b')"
  using AddHandler_cases [of demoHandler NewEventBus "\<lambda>e. True" NewGroup None]
  by (auto simp: demoHandler_def NewEventBus_def NewGroup_def)

end
