(* ===== verification/Outbox_Memory.thy ===== *)
theory Outbox_Memory
  imports EventStore_Memory
begin

text \<open>
  The in-memory outbox (\<^verbatim>\<open>outbox/memory\<close>). Documents are shared by pointer between the database map
  and the watch channel, so they live in a heap by their ID; the map and the channel hold IDs.
  Handlers act on a world of type \<open>'w\<close>. Every operation holds the database mutex and is one
  atomic step; the two background loops and the callers interleave, which the step relation
  below describes.
\<close>

section \<open>State\<close>

abbreviation PeriodicSweepAge :: duration where "PeriodicSweepAge \<equiv> 15 * 10 ^ 9"
abbreviation PeriodicCleanupAge :: duration where "PeriodicCleanupAge \<equiv> 600 * 10 ^ 9"

record outboxDoc =
  docEvent :: event
  docCtx :: ctx
  docHandlers :: "string list"
  createdAt :: time
  takenAt :: time

record 'w matcherHandler =
  mhMatch :: "event \<Rightarrow> bool"
  mhHandler :: "'w EventHandler"

record 'w outbox =
  obHeap :: "UUID \<rightharpoonup> outboxDoc"
  obDb :: "UUID set"
  obHandlers :: "'w matcherHandler list"
  obWatch :: "UUID list"
  obErrs :: "err list"

definition NewOutbox :: "'w outbox" where
  "NewOutbox = \<lparr>obHeap = Map.empty, obDb = {}, obHandlers = [], obWatch = [], obErrs = []\<rparr>"

section \<open>Operations\<close>

text \<open>\<open>handlersByType\<close> holds the handlers of the list by type.\<close>

definition handlerFor :: "'w matcherHandler list \<Rightarrow> string \<Rightarrow> 'w matcherHandler option" where
  "handlerFor hs t = find (\<lambda>mh. HandlerType (mhHandler mh) = t) hs"

definition outboxAddHandler ::
    "(event \<Rightarrow> bool) option \<Rightarrow> 'w EventHandler option \<Rightarrow> 'w outbox \<Rightarrow> 'w outbox \<times> unit go" where
  "outboxAddHandler m h ob =
     (case m of
        None \<Rightarrow> (ob, Fail (Sentinel ErrMissingMatcher))
      | Some mt \<Rightarrow>
          (case h of
             None \<Rightarrow> (ob, Fail (Sentinel ErrMissingHandler))
           | Some hd' \<Rightarrow>
               if handlerFor (obHandlers ob) (HandlerType hd') \<noteq> None
               then (ob, Fail (Sentinel ErrHandlerAlreadyAdded))
               else (ob\<lparr>obHandlers := obHandlers ob @ [\<lparr>mhMatch = mt, mhHandler = hd'\<rparr>]\<rparr>, Ret ())))"

text \<open>The package has its own \<^verbatim>\<open>copyEvent\<close>, with the same body as that of the in-memory event store.\<close>

definition outboxCopyEvent :: "copyEnv \<Rightarrow> event \<Rightarrow> event go" where
  "outboxCopyEvent env e = copyEvent env e"

text \<open>\<^verbatim>\<open>HandleEvent\<close>: \<open>newID\<close> is what \<^verbatim>\<open>uuid.New\<close> returns. A full watch channel misses the document.\<close>

definition matchingHandlers :: "'w matcherHandler list \<Rightarrow> event \<Rightarrow> string list" where
  "matchingHandlers hs e = map (\<lambda>mh. HandlerType (mhHandler mh)) (filter (\<lambda>mh. mhMatch mh e) hs)"

definition outboxHandleEvent ::
    "copyEnv \<Rightarrow> UUID \<Rightarrow> time \<Rightarrow> ctx \<Rightarrow> event option \<Rightarrow> 'w outbox \<Rightarrow> 'w outbox \<times> unit go" where
  "outboxHandleEvent env newID now c ev ob =
     (case ev of
        None \<Rightarrow> (ob, nilDeref)
      | Some e \<Rightarrow>
          (case outboxCopyEvent env e of
             Fail x \<Rightarrow> (ob, Fail (Wrapf ''could not copy event'' x))
           | Panic p \<Rightarrow> (ob, Panic p)
           | Ret e' \<Rightarrow>
               (ob\<lparr>obHeap := (obHeap ob)(newID \<mapsto>
                     \<lparr>docEvent = e', docCtx = c, docHandlers = matchingHandlers (obHandlers ob) e,
                      createdAt = now, takenAt = 0\<rparr>),
                   obDb := insert newID (obDb ob),
                   obWatch := (if length (obWatch ob) < 100 then obWatch ob @ [newID] else obWatch ob)\<rparr>,
                Ret ())))"

definition obErrSend :: "err \<Rightarrow> err list \<Rightarrow> err list" where
  "obErrSend x errs = (if length errs < 100 then errs @ [x] else errs)"

text \<open>
  The loop over the handlers of a document: the types that were processed without an error,
  the error channel and the world. Types without a handler, and handlers that do not match,
  are skipped.
\<close>

fun runHandlers ::
    "'w matcherHandler list \<Rightarrow> ctx \<Rightarrow> event \<Rightarrow> string list \<Rightarrow> err list \<Rightarrow> 'w \<Rightarrow>
     (err list \<times> 'w) \<times> string list go"
where
  "runHandlers hs c e [] errs w = ((errs, w), Ret [])"
| "runHandlers hs c e (t # ts) errs w =
     (case handlerFor hs t of
        None \<Rightarrow> runHandlers hs c e ts errs w
      | Some mh \<Rightarrow>
          if \<not> mhMatch mh e then runHandlers hs c e ts errs w
          else (case HandleEvent (mhHandler mh) c (Some e) w of
                  (w', Panic p) \<Rightarrow> ((errs, w'), Panic p)
                | (w', Fail x) \<Rightarrow>
                    runHandlers hs c e ts
                      (obErrSend (OutboxError (Some (Wrapf (''could not handle event ('' @ t @ '')'') x)) c (Some e)) errs) w'
                | (w', Ret _) \<Rightarrow>
                    (case runHandlers hs c e ts errs w' of
                       (ew, r) \<Rightarrow> (ew, obind r (\<lambda>ps. Ret (t # ps))))))"

text \<open>Dropping the processed types from the document's list, one after the other.\<close>

fun dropProcessed :: "string list \<Rightarrow> string list \<Rightarrow> string list" where
  "dropProcessed [] hs = hs"
| "dropProcessed (p # ps) hs = dropProcessed ps (filter (\<lambda>h. h \<noteq> p) hs)"

definition takeable :: "time \<Rightarrow> outboxDoc \<Rightarrow> bool" where
  "takeable now r \<longleftrightarrow> time_IsZero (takenAt r) \<or> takenAt r < now - PeriodicSweepAge \<or>
     (time_IsZero (takenAt r) \<and> createdAt r < now - PeriodicCleanupAge)"

text \<open>\<^verbatim>\<open>processOutboxEvent\<close>; the result also says which handler types were processed.\<close>

definition processOutboxEvent ::
    "UUID \<Rightarrow> time \<Rightarrow> 'w outbox \<times> 'w \<Rightarrow> ('w outbox \<times> 'w) \<times> string list go" where
  "processOutboxEvent i now obw =
     (case obw of (ob, w) \<Rightarrow>
        (case obHeap ob i of
           None \<Rightarrow> (obw, nilDeref)
         | Some r \<Rightarrow>
             if \<not> takeable now r then (obw, Ret [])
             else
               (let r1 = r\<lparr>takenAt := now\<rparr> in
                case runHandlers (obHandlers ob) (docCtx r) (docEvent r) (docHandlers r) (obErrs ob) w of
                  ((errs, w'), Panic p) \<Rightarrow> ((ob\<lparr>obHeap := (obHeap ob)(i \<mapsto> r1), obErrs := errs\<rparr>, w'), Panic p)
                | ((errs, w'), Fail x) \<Rightarrow> ((ob\<lparr>obHeap := (obHeap ob)(i \<mapsto> r1), obErrs := errs\<rparr>, w'), Fail x)
                | ((errs, w'), Ret ps) \<Rightarrow>
                    (if length ps = length (docHandlers r)
                     then ((ob\<lparr>obHeap := (obHeap ob)(i \<mapsto> r1), obErrs := errs, obDb := obDb ob - {i}\<rparr>, w'), Ret ps)
                     else ((ob\<lparr>obHeap := (obHeap ob)(i \<mapsto> r1\<lparr>docHandlers := dropProcessed ps (docHandlers r)\<rparr>),
                               obErrs := errs\<rparr>, w'), Ret ps)))))"

text \<open>One round of \<^verbatim>\<open>processWithWatch\<close>.\<close>

definition processWatched :: "time \<Rightarrow> 'w outbox \<times> 'w \<Rightarrow> ('w outbox \<times> 'w) \<times> string list go" where
  "processWatched now obw =
     (case obWatch (fst obw) of
        [] \<Rightarrow> (obw, Ret [])
      | i # is \<Rightarrow> processOutboxEvent i now ((fst obw)\<lparr>obWatch := is\<rparr>, snd obw))"

text \<open>
  \<^verbatim>\<open>processFullOutbox\<close>: the documents of the map in some order \<open>ids\<close>; the ones taken recently are
  passed over.
\<close>

definition sweepSkips :: "time \<Rightarrow> outboxDoc \<Rightarrow> bool" where
  "sweepSkips now r \<longleftrightarrow> \<not> takenAt r < now - PeriodicSweepAge \<and>
     (\<not> time_IsZero (takenAt r) \<or> \<not> createdAt r < now - PeriodicCleanupAge)"

fun processFullOutbox ::
    "time \<Rightarrow> UUID list \<Rightarrow> 'w outbox \<times> 'w \<Rightarrow> ('w outbox \<times> 'w) \<times> (UUID \<times> string list) list go" where
  "processFullOutbox now [] obw = (obw, Ret [])"
| "processFullOutbox now (i # ids) obw =
     (case obHeap (fst obw) i of
        None \<Rightarrow> (obw, nilDeref)
      | Some r \<Rightarrow>
          if sweepSkips now r then processFullOutbox now ids obw
          else (case processOutboxEvent i now obw of
                  (obw1, Ret ps) \<Rightarrow>
                    (case processFullOutbox now ids obw1 of
                       (obw2, rest) \<Rightarrow> (obw2, obind rest (\<lambda>l. Ret ((i, ps) # l))))
                | (obw1, Fail x) \<Rightarrow> (obw1, Fail x)
                | (obw1, Panic p) \<Rightarrow> (obw1, Panic p)))"

text \<open>
  One turn of \<^verbatim>\<open>runPeriodicallyUntilCancelled\<close>: the error channel after it, and whether the
  goroutine goes on to wait for the next turn. \<open>cancelled\<close> tells whether the outbox was closed.
\<close>

definition periodicTurn :: "bool \<Rightarrow> unit go \<Rightarrow> err list \<Rightarrow> err list \<times> bool" where
  "periodicTurn cancelled r errs =
     (case r of
        Ret _ \<Rightarrow> (errs, \<not> cancelled)
      | Fail x \<Rightarrow>
          if errors_Is x ErrContextCanceled then (errs, False)
          else (obErrSend (OutboxError (Some x) context_Background None) errs, \<not> cancelled)
      | Panic p \<Rightarrow> (errs, False))"

section \<open>Lemmas\<close>

lemma outboxCopyEvent_eq [simp]: "outboxCopyEvent env e = copyEvent env e"
  by (simp add: outboxCopyEvent_def)

lemma dropProcessed_filter: "dropProcessed ps hs = filter (\<lambda>h. h \<notin> set ps) hs"
  by (induction ps hs rule: dropProcessed.induct) (auto intro: filter_cong)

text \<open>The processed types are some of the document's, in order, and each was handled.\<close>

lemma runHandlers_subseq:
  "snd (runHandlers hs c e ts errs w) = Ret ps \<Longrightarrow> subseq ps ts"
proof (induction ts arbitrary: errs w ps)
  case (Cons t ts)
  show ?case
  proof (cases "handlerFor hs t")
    case None
    with Cons.prems Cons.IH [of errs w ps] show ?thesis by (simp add: list_emb_Cons)
  next
    case (Some mh)
    obtain w1 r1 where h: "HandleEvent (mhHandler mh) c (Some e) w = (w1, r1)" by fastforce
    show ?thesis
    proof (cases "mhMatch mh e")
      case False
      with Some Cons.prems Cons.IH [of errs w ps] show ?thesis by (simp add: list_emb_Cons)
    next
      case True
      show ?thesis
      proof (cases r1)
        case (Ret u)
        with Some True h Cons.prems obtain qs where "snd (runHandlers hs c e ts errs w1) = Ret qs" "ps = t # qs"
          by (auto split: prod.splits simp: outcome_simps)
        with Cons.IH show ?thesis by auto
      next
        case (Fail x)
        with Some True h Cons.prems have "subseq ps ts" by (auto intro: Cons.IH)
        then show ?thesis by (simp add: list_emb_Cons)
      next
        case (Panic p)
        with Some True h Cons.prems show ?thesis by simp
      qed
    qed
  qed
qed simp

lemma runHandlers_not_Fail: "snd (runHandlers hs c e ts errs w) \<noteq> Fail x"
proof (induction ts arbitrary: errs w)
  case (Cons t ts)
  show ?case
  proof (cases "handlerFor hs t")
    case (Some mh)
    obtain w1 r1 where h: "HandleEvent (mhHandler mh) c (Some e) w = (w1, r1)" by fastforce
    obtain ew2 r2 where r: "runHandlers hs c e ts errs w1 = (ew2, r2)" by fastforce
    with Cons.IH [of errs w1] have "r2 \<noteq> Fail x" by auto
    with Some h r Cons.IH show ?thesis by (cases r1; cases r2) auto
  qed (use Cons.IH in auto)
qed simp

section \<open>Runs\<close>

text \<open>
  The labels say which document was added with which handlers, and which handlers of a
  document were processed. Adding relies on \<^verbatim>\<open>uuid.New\<close> returning an unused ID.
\<close>

datatype obLabel = OAdd UUID "string list" | OProcess UUID "string list" | OOther

inductive outboxStep ::
    "copyEnv \<Rightarrow> 'w outbox \<times> 'w \<Rightarrow> obLabel \<Rightarrow> 'w outbox \<times> 'w \<Rightarrow> bool" for env where
  ob_add:
    "obHeap ob newID = None \<Longrightarrow> outboxHandleEvent env newID now c (Some e) ob = (ob', Ret ()) \<Longrightarrow>
     outboxStep env (ob, w) (OAdd newID (matchingHandlers (obHandlers ob) e)) (ob', w)"
| ob_handler:
    "outboxAddHandler m h ob = (ob', r) \<Longrightarrow> outboxStep env (ob, w) OOther (ob', w)"
| ob_watch:
    "obWatch ob = i # is \<Longrightarrow> processWatched now (ob, w) = (obw', Ret ps) \<Longrightarrow>
     outboxStep env (ob, w) (OProcess i ps) obw'"
| ob_sweep:
    "i \<in> obDb ob \<Longrightarrow> processFullOutbox now [i] (ob, w) = (obw', Ret [(i, ps)]) \<Longrightarrow>
     outboxStep env (ob, w) (OProcess i ps) obw'"

inductive outboxRun :: "copyEnv \<Rightarrow> obLabel list \<Rightarrow> 'w outbox \<times> 'w \<Rightarrow> bool" for env where
  run_new: "outboxRun env [] (NewOutbox, w)"
| run_step: "outboxRun env tr s \<Longrightarrow> outboxStep env s l s' \<Longrightarrow> outboxRun env (tr @ [l]) s'"

text \<open>The handler types that processed the document in a run.\<close>

definition processedIn :: "UUID \<Rightarrow> obLabel list \<Rightarrow> string set" where
  "processedIn i tr = {h. \<exists>ps. OProcess i ps \<in> set tr \<and> h \<in> set ps}"

lemma processedIn_append [simp]: "processedIn i (tr @ tr') = processedIn i tr \<union> processedIn i tr'"
  by (auto simp: processedIn_def)

text \<open>What processing one document does.\<close>

lemma processOutboxEvent_effect:
  assumes "processOutboxEvent i now (ob, w) = ((ob', w'), Ret ps)" and "obHeap ob i = Some r"
  shows "\<exists>r'. obHeap ob' = (obHeap ob)(i \<mapsto> r') \<and> set (docHandlers r) \<subseteq> set ps \<union> set (docHandlers r') \<and>
    (i \<in> obDb ob \<longrightarrow> i \<in> obDb ob' \<or> set (docHandlers r) \<subseteq> set ps) \<and> obDb ob' - {i} = obDb ob - {i} \<and>
    obDb ob' \<subseteq> obDb ob"
proof (cases "takeable now r")
  case False
  with assms show ?thesis by (auto simp: processOutboxEvent_def fun_upd_idem intro!: exI [of _ r])
next
  case True
  obtain errs w1 res where run: "runHandlers (obHandlers ob) (docCtx r) (docEvent r) (docHandlers r) (obErrs ob) w = ((errs, w1), res)"
    by (metis surj_pair)
  with True assms have res: "res = Ret ps" by (cases res) (auto simp: processOutboxEvent_def Let_def split: if_splits)
  with run runHandlers_subseq [of "obHandlers ob" "docCtx r" "docEvent r" "docHandlers r" "obErrs ob" w ps]
  have sub: "subseq ps (docHandlers r)" by simp
  show ?thesis
  proof (cases "length ps = length (docHandlers r)")
    case eq: True
    with sub have "ps = docHandlers r" by (simp add: subseq_same_length)
    with True assms run res eq show ?thesis
      by (auto simp: processOutboxEvent_def Let_def intro!: exI [of _ "r\<lparr>takenAt := now\<rparr>"])
  next
    case ne: False
    with True assms run res show ?thesis
      by (auto simp: processOutboxEvent_def Let_def dropProcessed_filter
          intro!: exI [of _ "r\<lparr>takenAt := now, docHandlers := dropProcessed ps (docHandlers r)\<rparr>"])
  qed
qed

definition outboxInv :: "obLabel list \<Rightarrow> 'w outbox \<Rightarrow> bool" where
  "outboxInv tr ob \<longleftrightarrow>
     obDb ob \<union> set (obWatch ob) \<subseteq> dom (obHeap ob) \<and>
     (\<forall>i hs. OAdd i hs \<in> set tr \<longrightarrow>
        (\<exists>r. obHeap ob i = Some r \<and> set hs \<subseteq> processedIn i tr \<union> set (docHandlers r)) \<and>
        (i \<notin> obDb ob \<longrightarrow> set hs \<subseteq> processedIn i tr))"

lemma outboxInv_process:
  assumes "outboxInv tr ob" and "processOutboxEvent i now (ob, w) = ((ob', w'), Ret ps)"
    and "obHeap ob i = Some r" and "set (obWatch ob') \<subseteq> set (obWatch ob)"
  shows "outboxInv (tr @ [OProcess i ps]) ob'"
proof -
  from processOutboxEvent_effect [OF assms(2,3)] obtain r' where
    r': "obHeap ob' = (obHeap ob)(i \<mapsto> r')" "set (docHandlers r) \<subseteq> set ps \<union> set (docHandlers r')"
    "i \<in> obDb ob \<longrightarrow> i \<in> obDb ob' \<or> set (docHandlers r) \<subseteq> set ps" "obDb ob' - {i} = obDb ob - {i}" "obDb ob' \<subseteq> obDb ob"
    by blast
  have new: "processedIn k [OProcess i ps] = (if k = i then set ps else {})" for k by (auto simp: processedIn_def)
  show ?thesis
    unfolding outboxInv_def
  proof (intro conjI allI impI)
    show "obDb ob' \<union> set (obWatch ob') \<subseteq> dom (obHeap ob')"
      using assms(1,4) r'(1,5) by (auto simp: outboxInv_def)
  next
    fix k hs assume "OAdd k hs \<in> set (tr @ [OProcess i ps])"
    then have "OAdd k hs \<in> set tr" by simp
    with assms(1) obtain rk where rk: "obHeap ob k = Some rk" "set hs \<subseteq> processedIn k tr \<union> set (docHandlers rk)"
      "k \<notin> obDb ob \<longrightarrow> set hs \<subseteq> processedIn k tr" unfolding outboxInv_def by blast
    show "\<exists>r. obHeap ob' k = Some r \<and> set hs \<subseteq> processedIn k (tr @ [OProcess i ps]) \<union> set (docHandlers r)"
      using rk r'(1,2) assms(3) by (cases "k = i") (auto simp: new)
    show "set hs \<subseteq> processedIn k (tr @ [OProcess i ps])" if "k \<notin> obDb ob'"
      using rk r'(3,4) assms(3) that by (cases "k = i") (auto simp: new)
  qed
qed

lemma outboxInv_other:
  "outboxInv tr ob \<Longrightarrow> obHeap ob' = obHeap ob \<Longrightarrow> obDb ob' = obDb ob \<Longrightarrow> obWatch ob' = obWatch ob \<Longrightarrow>
   outboxInv (tr @ [OOther]) ob'"
proof -
  have "processedIn k [OOther] = {}" for k by (simp add: processedIn_def)
  then show "outboxInv tr ob \<Longrightarrow> obHeap ob' = obHeap ob \<Longrightarrow> obDb ob' = obDb ob \<Longrightarrow> obWatch ob' = obWatch ob \<Longrightarrow>
   outboxInv (tr @ [OOther]) ob'" by (simp add: outboxInv_def)
qed

lemma outboxInv_add:
  assumes "outboxInv tr ob" and "obHeap ob i = None"
    and "outboxHandleEvent env i now c (Some e) ob = (ob', Ret ())"
  shows "outboxInv (tr @ [OAdd i (matchingHandlers (obHandlers ob) e)]) ob'"
proof -
  let ?hs = "matchingHandlers (obHandlers ob) e"
  from assms(3) obtain e' where "copyEvent env e = Ret e'"
    by (auto simp: outboxHandleEvent_def split: outcome.splits)
  then obtain r where ob': "obHeap ob' = (obHeap ob)(i \<mapsto> r)" "docHandlers r = ?hs"
    "obDb ob' = insert i (obDb ob)" "set (obWatch ob') \<subseteq> insert i (set (obWatch ob))"
    using assms(3)
    by (intro that [of "\<lparr>docEvent = e', docCtx = c, docHandlers = ?hs, createdAt = now, takenAt = 0\<rparr>"])
      (auto simp: outboxHandleEvent_def split: if_splits)
  have new: "processedIn k [OAdd i ?hs] = {}" for k by (simp add: processedIn_def)
  show ?thesis
    unfolding outboxInv_def
  proof (intro conjI allI impI)
    show "obDb ob' \<union> set (obWatch ob') \<subseteq> dom (obHeap ob')"
      using assms(1) ob' by (auto simp: outboxInv_def)
  next
    fix k hs assume in_tr: "OAdd k hs \<in> set (tr @ [OAdd i ?hs])"
    show "\<exists>r. obHeap ob' k = Some r \<and> set hs \<subseteq> processedIn k (tr @ [OAdd i ?hs]) \<union> set (docHandlers r)"
    proof (cases "OAdd k hs \<in> set tr")
      case True
      with assms(1) obtain rk where "obHeap ob k = Some rk" "set hs \<subseteq> processedIn k tr \<union> set (docHandlers rk)"
        unfolding outboxInv_def by blast
      with assms(2) ob' show ?thesis by (auto simp: new)
    qed (use in_tr ob' in auto)
    show "set hs \<subseteq> processedIn k (tr @ [OAdd i ?hs])" if "k \<notin> obDb ob'"
    proof -
      from that ob'(3) have "k \<noteq> i" "k \<notin> obDb ob" by auto
      with in_tr assms(1) show ?thesis unfolding outboxInv_def by (auto simp: new)
    qed
  qed
qed

lemma outboxStep_inv:
  "outboxStep env s l s' \<Longrightarrow> outboxInv tr (fst s) \<Longrightarrow> outboxInv (tr @ [l]) (fst s')"
proof (induction rule: outboxStep.induct)
  case (ob_add ob newID now c e ob' w)
  then show ?case using outboxInv_add [of tr ob newID env now c e ob'] by simp
next
  case (ob_handler m h ob ob' r w)
  then show ?case
    by (auto simp: outboxAddHandler_def intro!: outboxInv_other [of tr ob] split: option.splits if_splits)
next
  case (ob_watch ob i "is" now w obw' ps)
  obtain ob' w' where obw': "obw' = (ob', w')" by fastforce
  let ?ob = "ob\<lparr>obWatch := is\<rparr>"
  from ob_watch have p: "processOutboxEvent i now (?ob, w) = ((ob', w'), Ret ps)"
    by (simp add: processWatched_def obw')
  from ob_watch obtain r where r: "obHeap ?ob i = Some r" by (auto simp: outboxInv_def)
  have "outboxInv tr ?ob" using ob_watch by (auto simp: outboxInv_def)
  moreover have "obWatch ob' = obWatch ?ob"
    using p r by (auto simp: processOutboxEvent_def Let_def split: if_splits prod.splits outcome.splits)
  ultimately show ?case using outboxInv_process [OF _ p r] by (simp add: obw')
next
  case (ob_sweep i ob now w obw' ps)
  obtain ob' w' where obw': "obw' = (ob', w')" by fastforce
  from ob_sweep obtain r where r: "obHeap ob i = Some r" by (auto simp: outboxInv_def)
  from ob_sweep r have p: "processOutboxEvent i now (ob, w) = ((ob', w'), Ret ps)"
    by (auto simp: obw' split: if_splits prod.splits outcome.splits)
  have "obWatch ob' = obWatch ob"
    using p r by (auto simp: processOutboxEvent_def Let_def split: if_splits prod.splits outcome.splits)
  with ob_sweep show ?case using outboxInv_process [OF _ p r, of tr] by (simp add: obw')
qed

lemma outboxRun_inv: "outboxRun env tr s \<Longrightarrow> outboxInv tr (fst s)"
proof (induction rule: outboxRun.induct)
  case (run_new w)
  then show ?case by (simp add: outboxInv_def NewOutbox_def)
next
  case (run_step tr s l s')
  then show ?case using outboxStep_inv by blast
qed

text \<open>Handlers that accept the event are all processed.\<close>

lemma runHandlers_all:
  "(\<And>t. t \<in> set ts \<Longrightarrow> \<exists>mh. handlerFor hs t = Some mh \<and> mhMatch mh e \<and>
     (\<forall>w. snd (HandleEvent (mhHandler mh) c (Some e) w) = Ret ())) \<Longrightarrow>
   \<exists>w'. runHandlers hs c e ts errs w = ((errs, w'), Ret ts)"
proof (induction ts arbitrary: w)
  case (Cons t ts)
  from Cons.prems [of t] obtain mh where mh: "handlerFor hs t = Some mh" "mhMatch mh e"
    "\<forall>w. snd (HandleEvent (mhHandler mh) c (Some e) w) = Ret ()" by auto
  then obtain w1 where "HandleEvent (mhHandler mh) c (Some e) w = (w1, Ret ())" by (metis prod.collapse)
  with mh Cons.IH [of w1] Cons.prems show ?case by auto
qed simp

text \<open>An outbox with one handler that accepts every event, and a document for it.\<close>

definition demoMh :: "nat matcherHandler" where
  "demoMh = \<lparr>mhMatch = (\<lambda>e. True), mhHandler = \<lparr>HandlerType = ''h'', HandleEvent = (\<lambda>c ev n. (Suc n, Ret ()))\<rparr>\<rparr>"

definition demoDoc :: outboxDoc where
  "demoDoc = \<lparr>docEvent = demoEvent ''Closed'' 1, docCtx = context_Background, docHandlers = [''h''],
     createdAt = 5, takenAt = 0\<rparr>"

definition demoOutbox :: "nat outbox" where
  "demoOutbox = \<lparr>obHeap = [9 \<mapsto> demoDoc], obDb = {9}, obHandlers = [demoMh], obWatch = [9], obErrs = []\<rparr>"

lemma demo_run: "outboxRun demoEnv [OOther, OAdd 9 [''h'']] (demoOutbox, 0)"
proof -
  let ?ob = "NewOutbox\<lparr>obHandlers := [demoMh]\<rparr>"
  have h: "outboxAddHandler (Some (mhMatch demoMh)) (Some (mhHandler demoMh)) NewOutbox = (?ob, Ret ())"
    by (simp add: outboxAddHandler_def handlerFor_def NewOutbox_def demoMh_def)
  have cp: "copyEvent demoEnv (demoEvent ''Closed'' 1) = Ret (demoEvent ''Closed'' 1)"
    by (simp add: copyEvent_faithful)
  have a: "outboxHandleEvent demoEnv 9 5 context_Background (Some (demoEvent ''Closed'' 1)) ?ob = (demoOutbox, Ret ())"
    using cp by (simp add: outboxHandleEvent_def matchingHandlers_def NewOutbox_def demoMh_def demoOutbox_def demoDoc_def)
  have "outboxRun demoEnv ([] @ [OOther]) (?ob, 0)"
    by (rule run_step [OF run_new ob_handler [OF h]])
  moreover have "obHeap ?ob 9 = None" by (simp add: NewOutbox_def)
  ultimately have "outboxRun demoEnv (([] @ [OOther]) @ [OAdd 9 (matchingHandlers (obHandlers ?ob) (demoEvent ''Closed'' 1))]) (demoOutbox, 0)"
    using run_step [OF _ ob_add [OF _ a]] by blast
  then show ?thesis by (simp add: matchingHandlers_def demoMh_def)
qed

lemma demo_accepts:
  "\<forall>t \<in> set (docHandlers demoDoc). \<exists>mh. handlerFor (obHandlers demoOutbox) t = Some mh \<and> mhMatch mh (docEvent demoDoc) \<and>
     (\<forall>w. snd (HandleEvent (mhHandler mh) (docCtx demoDoc) (Some (docEvent demoDoc)) w) = Ret ())"
  by (simp add: demoDoc_def demoOutbox_def handlerFor_def demoMh_def)

section \<open>Properties\<close>



text \<open>
  progress. Processing a document that can be taken, all of whose handlers exist, match and
  accept the event, removes it from the database in one round and reports no error.
\<close>

theorem outbox_progress:
  assumes "obHeap ob i = Some r" and "takeable now r"
    and "\<forall>t \<in> set (docHandlers r). \<exists>mh. handlerFor (obHandlers ob) t = Some mh \<and> mhMatch mh (docEvent r) \<and>
      (\<forall>w. snd (HandleEvent (mhHandler mh) (docCtx r) (Some (docEvent r)) w) = Ret ())"
  shows "\<exists>ob' w'. processOutboxEvent i now (ob, w) = ((ob', w'), Ret (docHandlers r)) \<and>
    obDb ob' = obDb ob - {i} \<and> obErrs ob' = obErrs ob"
proof -
  from assms(3) runHandlers_all [of "docHandlers r" "obHandlers ob" "docEvent r" "docCtx r" "obErrs ob" w]
  obtain w' where "runHandlers (obHandlers ob) (docCtx r) (docEvent r) (docHandlers r) (obErrs ob) w =
      ((obErrs ob, w'), Ret (docHandlers r))" by blast
  with assms(1,2) show ?thesis by (auto simp: processOutboxEvent_def Let_def)
qed

theorem outbox_progress_witness:
  "\<exists>ob' w'. processOutboxEvent 9 100 (demoOutbox, 0) = ((ob', w'), Ret [''h'']) \<and> obDb ob' = {}"
  using outbox_progress [of demoOutbox 9 demoDoc 100 0, OF _ _ demo_accepts]
  by (auto simp: demoOutbox_def demoDoc_def takeable_def)

text \<open>
  a document whose handlers all accepted it keeps its list of handlers when it is dropped
  from the database. If its ID is still in the watch channel when more than the sweep age has
  passed, it is taken again and every handler runs on the event a second time.
\<close>

theorem outbox_watch_redelivers:
  assumes "obHeap ob i = Some r" and "takeable now r" and "now + PeriodicSweepAge < later" and "docHandlers r \<noteq> []"
    and "\<forall>t \<in> set (docHandlers r). \<exists>mh. handlerFor (obHandlers ob) t = Some mh \<and> mhMatch mh (docEvent r) \<and>
      (\<forall>w. snd (HandleEvent (mhHandler mh) (docCtx r) (Some (docEvent r)) w) = Ret ())"
    and "processOutboxEvent i now (ob, w) = ((ob', w'), Ret ps)"
  shows "i \<notin> obDb ob' \<and> (\<exists>ob'' w''. processOutboxEvent i later (ob', w') = ((ob'', w''), Ret (docHandlers r)))"
proof -
  from assms(5) runHandlers_all [of "docHandlers r" "obHandlers ob" "docEvent r" "docCtx r"]
  have run: "\<exists>w'. runHandlers (obHandlers ob) (docCtx r) (docEvent r) (docHandlers r) errs w =
      ((errs, w'), Ret (docHandlers r))" for errs w by blast
  from run [of "obErrs ob" w] assms(1,2,6)
  have ob': "obHeap ob' = (obHeap ob)(i \<mapsto> r\<lparr>takenAt := now\<rparr>)" "obDb ob' = obDb ob - {i}"
    "obHandlers ob' = obHandlers ob" "obErrs ob' = obErrs ob" by (auto simp: processOutboxEvent_def Let_def)
  have "takeable later (r\<lparr>takenAt := now\<rparr>)" using assms(3) by (simp add: takeable_def)
  with ob' run [of "obErrs ob" w'] show ?thesis by (auto simp: processOutboxEvent_def Let_def)
qed

theorem outbox_watch_redelivers_witness:
  "\<exists>ob' w' ob'' w''. processOutboxEvent 9 100 (demoOutbox, 0) = ((ob', w'), Ret [''h'']) \<and> 9 \<notin> obDb ob' \<and>
     processOutboxEvent 9 (200 * 10 ^ 9) (ob', w') = ((ob'', w''), Ret [''h''])"
proof -
  obtain ob' w' where p: "processOutboxEvent 9 100 (demoOutbox, 0) = ((ob', w'), Ret [''h''])"
    by (simp add: processOutboxEvent_def demoOutbox_def demoDoc_def takeable_def handlerFor_def demoMh_def)
  moreover have "9 \<notin> obDb ob' \<and> (\<exists>ob'' w''. processOutboxEvent 9 (200 * 10 ^ 9) (ob', w') = ((ob'', w''), Ret (docHandlers demoDoc)))"
    by (rule outbox_watch_redelivers [OF _ _ _ _ demo_accepts p]) (simp_all add: demoOutbox_def demoDoc_def takeable_def)
  ultimately show ?thesis by (auto simp: demoDoc_def)
qed

text \<open>
  the sweep never passes over a document that was not taken before: the cleanup age has no
  effect, since the zero time lies before any sweep limit.
\<close>

theorem sweep_takes_untaken:
  "PeriodicSweepAge < now \<and> time_IsZero (takenAt r) \<longrightarrow> \<not> sweepSkips now r \<and> takeable now r"
  by (auto simp: sweepSkips_def takeable_def)

theorem sweep_takes_untaken_witness: "\<not> sweepSkips (20 * 10 ^ 9) demoDoc"
  using sweep_takes_untaken [of "20 * 10 ^ 9" demoDoc] by (simp add: demoDoc_def)

end
