(* ===== verification/Namespaces.thy ===== *)
theory Namespaces
  imports Repo_Middleware EventStore_Memory Outbox_Memory
begin

text \<open>
  Components with namespaces taken from the context (\<^verbatim>\<open>namespace\<close>): an event store, a repository
  and an outbox per namespace, created on first use. The maps hold the state of the inner
  component of each namespace. Finding the component is done in two steps, a read under the
  read lock and, if that found nothing, a check and creation under the write lock, between
  which other goroutines can run; both steps are definitions of their own. The component
  found is a handle, its namespace, or nil.
\<close>

section \<open>Finding a component\<close>

definition quoted :: "string \<Rightarrow> string" where
  "quoted ns = [CHR 0x27] @ ns @ [CHR 0x27]"

text \<open>The second step of \<^verbatim>\<open>EventStore.eventStore\<close>, under the write lock.\<close>

definition eventStoreLocked ::
    "(string \<Rightarrow> 's go) \<Rightarrow> string \<Rightarrow> (string \<rightharpoonup> 's) \<Rightarrow> (string \<rightharpoonup> 's) \<times> string option go" where
  "eventStoreLocked factory ns stores =
     (case stores ns of
        Some _ \<Rightarrow> (stores, Ret (Some ns))
      | None \<Rightarrow>
          (case factory ns of
             Ret s \<Rightarrow> (stores(ns \<mapsto> s), Ret (Some ns))
           | Fail x \<Rightarrow> (stores, Fail (Wrapf (''could not create event store for namespace '' @ quoted ns) x))
           | Panic p \<Rightarrow> (stores, Panic p)))"

definition nsEventStore ::
    "(string \<Rightarrow> 's go) \<Rightarrow> ctx \<Rightarrow> (string \<rightharpoonup> 's) \<Rightarrow> (string \<rightharpoonup> 's) \<times> string option go" where
  "nsEventStore factory c stores =
     (case stores (FromContext c) of
        Some _ \<Rightarrow> (stores, Ret (Some (FromContext c)))
      | None \<Rightarrow> eventStoreLocked factory (FromContext c) stores)"

text \<open>
  The second step of \<^verbatim>\<open>Repo.repo\<close>. The check under the write lock does not assign the repository
  it finds, so the variable keeps the nil of the first step.
\<close>

definition repoLocked ::
    "(string \<Rightarrow> 's go) \<Rightarrow> string \<Rightarrow> (string \<rightharpoonup> 's) \<Rightarrow> (string \<rightharpoonup> 's) \<times> string option go" where
  "repoLocked factory ns repos =
     (case repos ns of
        Some _ \<Rightarrow> (repos, Ret None)
      | None \<Rightarrow>
          (case factory ns of
             Ret s \<Rightarrow> (repos(ns \<mapsto> s), Ret (Some ns))
           | Fail x \<Rightarrow> (repos, Fail (Wrapf (''could not create repo for namespace '' @ quoted ns) x))
           | Panic p \<Rightarrow> (repos, Panic p)))"

definition nsRepo ::
    "(string \<Rightarrow> 's go) \<Rightarrow> ctx \<Rightarrow> (string \<rightharpoonup> 's) \<Rightarrow> (string \<rightharpoonup> 's) \<times> string option go" where
  "nsRepo factory c repos =
     (case repos (FromContext c) of
        Some _ \<Rightarrow> (repos, Ret (Some (FromContext c)))
      | None \<Rightarrow> repoLocked factory (FromContext c) repos)"

text \<open>
  A call on the component that was found: an error is returned, a nil component panics, and
  otherwise the operation runs on the state of the handle's namespace.
\<close>

definition onComponent ::
    "(string \<rightharpoonup> 's) \<times> string option go \<Rightarrow> ('s \<Rightarrow> 's \<times> 'a go) \<Rightarrow> (string \<rightharpoonup> 's) \<times> 'a go" where
  "onComponent found op =
     (case found of
        (st, Fail x) \<Rightarrow> (st, Fail x)
      | (st, Panic p) \<Rightarrow> (st, Panic p)
      | (st, Ret None) \<Rightarrow> (st, nilDeref)
      | (st, Ret (Some ns)) \<Rightarrow>
          (case st ns of
             None \<Rightarrow> (st, nilDeref)
           | Some s \<Rightarrow> (case op s of (s', r) \<Rightarrow> (st(ns \<mapsto> s'), r))))"

section \<open>Operations\<close>

definition nsSave ::
    "(string \<Rightarrow> 's go) \<Rightarrow> 's EventStore \<Rightarrow> ctx \<Rightarrow> event option list \<Rightarrow> gint \<Rightarrow> (string \<rightharpoonup> 's) \<Rightarrow> (string \<rightharpoonup> 's) \<times> unit go" where
  "nsSave factory es c events ov st = onComponent (nsEventStore factory c st) (esSave es c events ov)"

definition nsLoadFrom ::
    "(string \<Rightarrow> 's go) \<Rightarrow> 's EventStore \<Rightarrow> ctx \<Rightarrow> UUID \<Rightarrow> gint \<Rightarrow> (string \<rightharpoonup> 's) \<Rightarrow> (string \<rightharpoonup> 's) \<times> event option list go" where
  "nsLoadFrom factory es c aid v st = onComponent (nsEventStore factory c st) (esLoadFrom es c aid v)"

definition nsPreRegister ::
    "(string \<Rightarrow> 's go) \<Rightarrow> string \<Rightarrow> (string \<rightharpoonup> 's) \<Rightarrow> (string \<rightharpoonup> 's) \<times> unit go" where
  "nsPreRegister factory ns st =
     (case nsEventStore factory (NewContext context_Background ns) st of
        (st', r) \<Rightarrow> (st', obind r (\<lambda>_. Ret ())))"

definition nsFind ::
    "(string \<Rightarrow> 's go) \<Rightarrow> 's Repo \<Rightarrow> ctx \<Rightarrow> UUID \<Rightarrow> (string \<rightharpoonup> 's) \<Rightarrow> (string \<rightharpoonup> 's) \<times> entity go" where
  "nsFind factory r c i st = onComponent (nsRepo factory c st) (rFind r c i)"

definition nsFindAll ::
    "(string \<Rightarrow> 's go) \<Rightarrow> 's Repo \<Rightarrow> ctx \<Rightarrow> (string \<rightharpoonup> 's) \<Rightarrow> (string \<rightharpoonup> 's) \<times> entity list go" where
  "nsFindAll factory r c st = onComponent (nsRepo factory c st) (rFindAll r c)"

definition nsRepoSave ::
    "(string \<Rightarrow> 's go) \<Rightarrow> 's Repo \<Rightarrow> ctx \<Rightarrow> entity \<Rightarrow> (string \<rightharpoonup> 's) \<Rightarrow> (string \<rightharpoonup> 's) \<times> unit go" where
  "nsRepoSave factory r c e st = onComponent (nsRepo factory c st) (rSave r c e)"

definition nsRepoRemove ::
    "(string \<Rightarrow> 's go) \<Rightarrow> 's Repo \<Rightarrow> ctx \<Rightarrow> UUID \<Rightarrow> (string \<rightharpoonup> 's) \<Rightarrow> (string \<rightharpoonup> 's) \<times> unit go" where
  "nsRepoRemove factory r c i st = onComponent (nsRepo factory c st) (rRemove r c i)"

text \<open>The constructors, and the traversal of inner repositories.\<close>

definition NewNsEventStore :: "string \<rightharpoonup> 's" where
  "NewNsEventStore = Map.empty"

definition NewNsRepo :: "string \<rightharpoonup> 's" where
  "NewNsRepo = Map.empty"

definition nsInnerRepo :: "(string \<Rightarrow> 's go) \<Rightarrow> ctx \<Rightarrow> (string \<rightharpoonup> 's) \<Rightarrow> (string \<rightharpoonup> 's) \<times> string option" where
  "nsInnerRepo factory c repos =
     (case nsRepo factory c repos of (st, Ret h) \<Rightarrow> (st, h) | (st, _) \<Rightarrow> (st, None))"

definition nsIntoRepo :: "('r \<Rightarrow> bool) \<Rightarrow> 'r list \<Rightarrow> 'r option" where
  "nsIntoRepo isNamespaced chain = IntoRepo isNamespaced chain"

text \<open>\<^verbatim>\<open>Close\<close>: all components are closed, and the texts of their errors are joined.\<close>

definition nsClose :: "(UUID \<Rightarrow> string) \<Rightarrow> unit go list \<Rightarrow> unit go" where
  "nsClose us results =
     (let errStrs = concat (map (\<lambda>r. case r of Fail x \<Rightarrow> [error_string us x] | _ \<Rightarrow> []) results) in
      if errStrs \<noteq> [] then Fail (NewError (''multiple errors: '' @ strings_Join errStrs '', '')) else Ret ())"

section \<open>The outbox\<close>

text \<open>
  The outboxes by namespace and the handlers that were added. An inner outbox is used through
  its \<^verbatim>\<open>AddHandler\<close>, \<^verbatim>\<open>HandleEvent\<close> and \<^verbatim>\<open>Start\<close>.
\<close>

record ('o, 'w) outboxOps =
  ooAddHandler :: "(event \<Rightarrow> bool) \<Rightarrow> 'w EventHandler \<Rightarrow> 'o \<Rightarrow> 'o \<times> unit go"
  ooHandleEvent :: "ctx \<Rightarrow> event option \<Rightarrow> 'o \<Rightarrow> 'o \<times> unit go"
  ooStart :: "'o \<Rightarrow> 'o"

record ('o, 'w) nsOutbox =
  noOutboxes :: "string \<rightharpoonup> 'o"
  noHandlers :: "'w matcherHandler list"

text \<open>Adding the known handlers to a new outbox, stopping at the first error.\<close>

fun addAllHandlers :: "('o, 'w) outboxOps \<Rightarrow> 'w matcherHandler list \<Rightarrow> 'o \<Rightarrow> 'o go" where
  "addAllHandlers ops [] ob = Ret ob"
| "addAllHandlers ops (mh # mhs) ob =
     (case ooAddHandler ops (mhMatch mh) (mhHandler mh) ob of
        (ob', Ret _) \<Rightarrow> addAllHandlers ops mhs ob'
      | (ob', Fail x) \<Rightarrow> Fail x
      | (ob', Panic p) \<Rightarrow> Panic p)"

definition outboxLocked ::
    "(string \<Rightarrow> 'o go) \<Rightarrow> ('o, 'w) outboxOps \<Rightarrow> string \<Rightarrow> ('o, 'w) nsOutbox \<Rightarrow> ('o, 'w) nsOutbox \<times> string option go" where
  "outboxLocked factory ops ns o' =
     (case noOutboxes o' ns of
        Some _ \<Rightarrow> (o', Ret None)
      | None \<Rightarrow>
          (case factory ns of
             Fail x \<Rightarrow> (o', Fail (Wrapf (''could not create outbox for namespace '' @ quoted ns) x))
           | Panic p \<Rightarrow> (o', Panic p)
           | Ret ob \<Rightarrow>
               (case addAllHandlers ops (noHandlers o') ob of
                  Fail x \<Rightarrow> (o', Fail (Wrapf (''could not add handler for outbox in namespace '' @ quoted ns) x))
                | Panic p \<Rightarrow> (o', Panic p)
                | Ret ob' \<Rightarrow> (o'\<lparr>noOutboxes := (noOutboxes o')(ns \<mapsto> ooStart ops ob')\<rparr>, Ret (Some ns)))))"

definition nsOutboxFor ::
    "(string \<Rightarrow> 'o go) \<Rightarrow> ('o, 'w) outboxOps \<Rightarrow> ctx \<Rightarrow> ('o, 'w) nsOutbox \<Rightarrow> ('o, 'w) nsOutbox \<times> string option go" where
  "nsOutboxFor factory ops c o' =
     (case noOutboxes o' (FromContext c) of
        Some _ \<Rightarrow> (o', Ret (Some (FromContext c)))
      | None \<Rightarrow> outboxLocked factory ops (FromContext c) o')"

definition nsOutboxHandleEvent ::
    "(string \<Rightarrow> 'o go) \<Rightarrow> ('o, 'w) outboxOps \<Rightarrow> ctx \<Rightarrow> event option \<Rightarrow> ('o, 'w) nsOutbox \<Rightarrow> ('o, 'w) nsOutbox \<times> unit go" where
  "nsOutboxHandleEvent factory ops c ev o' =
     (case nsOutboxFor factory ops c o' of
        (o1, r) \<Rightarrow>
          (case onComponent (noOutboxes o1, r) (ooHandleEvent ops c ev) of
             (obs, res) \<Rightarrow> (o1\<lparr>noOutboxes := obs\<rparr>, res)))"

text \<open>
  \<^verbatim>\<open>AddHandler\<close>: the handler is recorded for outboxes that are created later, and added to the
  existing outbox of the context's namespace, if there is one.
\<close>

definition nsOutboxAddHandler ::
    "('o, 'w) outboxOps \<Rightarrow> ctx \<Rightarrow> (event \<Rightarrow> bool) option \<Rightarrow> 'w EventHandler option \<Rightarrow> ('o, 'w) nsOutbox \<Rightarrow>
     ('o, 'w) nsOutbox \<times> unit go" where
  "nsOutboxAddHandler ops c m h o' =
     (case m of
        None \<Rightarrow> (o', Fail (Sentinel ErrMissingMatcher))
      | Some mt \<Rightarrow>
          (case h of
             None \<Rightarrow> (o', Fail (Sentinel ErrMissingHandler))
           | Some hd' \<Rightarrow>
               if handlerFor (noHandlers o') (HandlerType hd') \<noteq> None
               then (o', Fail (Sentinel ErrHandlerAlreadyAdded))
               else
                 (let o1 = o'\<lparr>noHandlers := noHandlers o' @ [\<lparr>mhMatch = mt, mhHandler = hd'\<rparr>]\<rparr> in
                  case noOutboxes o' (FromContext c) of
                    None \<Rightarrow> (o1, Ret ())
                  | Some ob \<Rightarrow>
                      (case ooAddHandler ops mt hd' ob of
                         (ob', r) \<Rightarrow> (o1\<lparr>noOutboxes := (noOutboxes o')(FromContext c \<mapsto> ob')\<rparr>, r)))))"

definition NewNsOutbox :: "('o, 'w) nsOutbox" where
  "NewNsOutbox = \<lparr>noOutboxes = Map.empty, noHandlers = []\<rparr>"

definition nsOutboxPreRegister ::
    "(string \<Rightarrow> 'o go) \<Rightarrow> ('o, 'w) outboxOps \<Rightarrow> string \<Rightarrow> ('o, 'w) nsOutbox \<Rightarrow> ('o, 'w) nsOutbox \<times> unit go" where
  "nsOutboxPreRegister factory ops ns o' =
     (case nsOutboxFor factory ops (NewContext context_Background ns) o' of (o1, r) \<Rightarrow> (o1, obind r (\<lambda>_. Ret ())))"

text \<open>\<^verbatim>\<open>Start\<close> starts every outbox, also those that were started when they were created.\<close>

definition nsOutboxStart :: "('o, 'w) outboxOps \<Rightarrow> ('o, 'w) nsOutbox \<Rightarrow> ('o, 'w) nsOutbox" where
  "nsOutboxStart ops o' = o'\<lparr>noOutboxes := (\<lambda>ns. map_option (ooStart ops) (noOutboxes o' ns))\<rparr>"

text \<open>
  \<^verbatim>\<open>Close\<close>: the goroutines that forward the errors of the outboxes are stopped only when every
  outbox closed without an error. The result says whether they are.
\<close>

definition nsOutboxClose :: "(UUID \<Rightarrow> string) \<Rightarrow> unit go list \<Rightarrow> bool \<times> unit go" where
  "nsOutboxClose us results = (case nsClose us results of Ret _ \<Rightarrow> (True, Ret ()) | r \<Rightarrow> (False, r))"

text \<open>One error forwarded from an outbox to the channel of the namespaced outbox.\<close>

definition nsForward :: "err \<Rightarrow> err list \<Rightarrow> err list" where
  "nsForward x errs = obErrSend x errs"

section \<open>Lemmas\<close>

text \<open>An outbox that fails to close leaves the forwarders running.\<close>

lemma nsOutboxClose_failed:
  "Fail x \<in> set results \<Longrightarrow> \<exists>msg. nsOutboxClose us results = (False, Fail (NewError msg))"
  by (auto simp: nsOutboxClose_def nsClose_def Let_def intro: bexI [of _ "Fail x"])

lemma nsOutboxStart_twice:
  "noOutboxes o' ns = None \<Longrightarrow> factory ns = Ret ob \<Longrightarrow> addAllHandlers ops (noHandlers o') ob = Ret ob' \<Longrightarrow>
   noOutboxes (nsOutboxStart ops (fst (nsOutboxPreRegister factory ops ns o'))) ns = Some (ooStart ops (ooStart ops ob'))"
  by (simp add: nsOutboxStart_def nsOutboxPreRegister_def nsOutboxFor_def outboxLocked_def FromContext_def NewContext_def)

text \<open>The state of a namespace, where one that does not exist yet has the factory's state.\<close>

definition nsState :: "(string \<Rightarrow> 's go) \<Rightarrow> (string \<rightharpoonup> 's) \<Rightarrow> string \<Rightarrow> 's go" where
  "nsState factory st ns = (case st ns of Some s \<Rightarrow> Ret s | None \<Rightarrow> factory ns)"

lemma FromContext_NewContext [simp]: "FromContext (NewContext c ns) = ns"
  by (simp add: FromContext_def NewContext_def)

lemma nsEventStore_found:
  assumes "nsState factory st (FromContext c) = Ret s"
  shows "\<exists>st'. nsEventStore factory c st = (st', Ret (Some (FromContext c))) \<and>
    st' = st(FromContext c \<mapsto> s)"
  using assms by (cases "st (FromContext c)") (auto simp: nsEventStore_def eventStoreLocked_def nsState_def)

section \<open>Properties\<close>





text \<open>
  a handler added to the namespaced outbox reaches the outbox of the context's namespace
  and the outboxes created later, but not the outboxes that other namespaces already have.
\<close>

theorem nsOutbox_handler_scope:
  assumes "nsOutboxAddHandler ops c (Some m) (Some h) o' = (o1, Ret ())"
  shows "noHandlers o1 = noHandlers o' @ [\<lparr>mhMatch = m, mhHandler = h\<rparr>] \<and>
    (\<forall>ns. ns \<noteq> FromContext c \<longrightarrow> noOutboxes o1 ns = noOutboxes o' ns) \<and>
    (\<forall>ob. noOutboxes o' (FromContext c) = Some ob \<longrightarrow>
       noOutboxes o1 (FromContext c) = Some (fst (ooAddHandler ops m h ob)))"
  using assms by (auto simp: nsOutboxAddHandler_def Let_def split: if_splits option.splits prod.splits)

theorem nsOutbox_handler_scope_witness:
  "\<exists>o1. nsOutboxAddHandler \<lparr>ooAddHandler = (\<lambda>m h n. (Suc n, Ret ())), ooHandleEvent = (\<lambda>c ev n. (n, Ret ())), ooStart = id\<rparr>
       (NewContext context_Background ''a'') (Some (\<lambda>e. True)) (Some (mhHandler demoMh))
       \<lparr>noOutboxes = [''b'' \<mapsto> 7], noHandlers = []\<rparr> = (o1, Ret ()) \<and> noOutboxes o1 ''b'' = Some 7"
proof -
  let ?ops = "\<lparr>ooAddHandler = (\<lambda>m h n. (Suc n, Ret ())), ooHandleEvent = (\<lambda>c ev n. (n, Ret ())), ooStart = id\<rparr>"
  let ?c = "NewContext context_Background ''a''" and ?o = "\<lparr>noOutboxes = [''b'' \<mapsto> 7], noHandlers = []\<rparr>"
  obtain o1 where o1: "nsOutboxAddHandler ?ops ?c (Some (\<lambda>e. True)) (Some (mhHandler demoMh)) ?o = (o1, Ret ())"
    by (simp add: nsOutboxAddHandler_def handlerFor_def)
  with nsOutbox_handler_scope [OF o1] show ?thesis by auto
qed

end
