(* ===== verification/Projector.thy ===== *)
theory Projector
  imports Repo_Middleware EventStore_Spec
begin

text \<open>
  Projectors (\<^verbatim>\<open>eventhandler/projector\<close>) and sagas (\<^verbatim>\<open>eventhandler/saga\<close>). A projector is user code
  that maps an event and a model to a new model; its handler loads the model from a repository,
  checks versions, and saves or removes the result. A nil model is \<^const>\<open>None\<close>.
\<close>

section \<open>The projector's event handler\<close>

record 's projHandler =
  projectorType :: string
  project :: "ctx \<Rightarrow> event \<Rightarrow> entity \<Rightarrow> entity option go"
  projRepo :: "'s Repo"
  projFactory :: "entity option"
  useWait :: bool
  useRetryOnce :: bool
  useIrregularVersioning :: bool
  entityLookupFn :: "event \<Rightarrow> UUID"

type_synonym 's projOption = "'s projHandler \<Rightarrow> 's projHandler"

definition defaultEntityLookupFn :: "event \<Rightarrow> UUID" where
  "defaultEntityLookupFn e = aggregateID e"

definition NewProjectorHandler ::
    "string \<Rightarrow> (ctx \<Rightarrow> event \<Rightarrow> entity \<Rightarrow> entity option go) \<Rightarrow> 's Repo \<Rightarrow> 's projOption list \<Rightarrow> 's projHandler" where
  "NewProjectorHandler t p repo options = fold (\<lambda>option h. option h) options
     \<lparr>projectorType = t, project = p, projRepo = repo, projFactory = None, useWait = False,
      useRetryOnce = False, useIrregularVersioning = False, entityLookupFn = defaultEntityLookupFn\<rparr>"

definition WithWait :: "'s projOption" where
  "WithWait h = h\<lparr>useWait := True\<rparr>"

definition WithRetryOnce :: "'s projOption" where
  "WithRetryOnce h = h\<lparr>useRetryOnce := True\<rparr>"

definition WithIrregularVersioning :: "'s projOption" where
  "WithIrregularVersioning h = h\<lparr>useIrregularVersioning := True\<rparr>"

definition WithEntityLookup :: "(event \<Rightarrow> UUID) \<Rightarrow> 's projOption" where
  "WithEntityLookup f h = h\<lparr>entityLookupFn := f\<rparr>"

definition projSetEntityFactory :: "'s projHandler \<Rightarrow> entity \<Rightarrow> 's projHandler" where
  "projSetEntityFactory h f = h\<lparr>projFactory := Some f\<rparr>"

definition projHandlerType :: "'s projHandler \<Rightarrow> string" where
  "projHandlerType h = ''projector_'' @ projectorType h"

text \<open>One attempt ends with a result or asks for the retry.\<close>

datatype attempt = Retry | Finished "unit go"

definition projError :: "'s projHandler \<Rightarrow> err \<Rightarrow> event \<Rightarrow> UUID \<Rightarrow> gint \<Rightarrow> attempt" where
  "projError h x e i v = Finished (Fail (ProjectorError (Some x) (projectorType h) (Some e) i v))"

text \<open>The last part of \<^verbatim>\<open>HandleEvent\<close>: run the projection, then save or remove the model.\<close>

definition projRun :: "'s projHandler \<Rightarrow> ctx \<Rightarrow> event \<Rightarrow> UUID \<Rightarrow> entity \<Rightarrow> gint \<Rightarrow> 's \<Rightarrow> 's \<times> attempt" where
  "projRun h c e i en ev s =
     (case project h c e en of
        Panic p \<Rightarrow> (s, Finished (Panic p))
      | Fail x \<Rightarrow> (s, projError h (Wrapf ''could not project'' x) e i ev)
      | Ret None \<Rightarrow>
          (case rRemove (projRepo h) c i s of
             (s', Ret _) \<Rightarrow> (s', Finished (Ret ()))
           | (s', Fail x) \<Rightarrow> (s', projError h (Wrapf ''could not remove'' x) e i ev)
           | (s', Panic p) \<Rightarrow> (s', Finished (Panic p)))
      | Ret (Some new) \<Rightarrow>
          (let v = (case entityVersion new of Some v \<Rightarrow> v | None \<Rightarrow> ev) in
           if entityVersion new \<noteq> None \<and> v \<noteq> version e
           then (s, projError h (Sentinel ErrIncorrectProjectedEntityVersion) e i v)
           else if entityID new \<noteq> i
           then (s, projError h (NewError ''incorrect entity ID after projection'') e i v)
           else case rSave (projRepo h) c new s of
                  (s', Ret _) \<Rightarrow> (s', Finished (Ret ()))
                | (s', Fail x) \<Rightarrow> (s', projError h (Wrapf ''could not save'' x) e i v)
                | (s', Panic p) \<Rightarrow> (s', Finished (Panic p))))"

text \<open>The middle part: the model should be one version behind the event.\<close>

definition projCheck ::
    "'s projHandler \<Rightarrow> bool \<Rightarrow> ctx \<Rightarrow> event \<Rightarrow> UUID \<Rightarrow> entity \<Rightarrow> 's \<Rightarrow> 's \<times> attempt" where
  "projCheck h triedOnce c e i en s =
     (case entityVersion en of
        None \<Rightarrow> projRun h c e i en 0 s
      | Some v \<Rightarrow>
          if version e <=s v then (s, Finished (Ret ()))
          else if version e \<noteq> v + 1 \<and> \<not> useIrregularVersioning h then
            (if useRetryOnce h \<and> \<not> triedOnce then (s, Retry)
             else if v = 0 \<and> 1 <s version e then (s, projError h (Sentinel ErrModelRemoved) e i v)
             else (s, projError h (Sentinel ErrIncorrectEntityVersion) e i v))
          else projRun h c e i en v s)"

definition projFindCtx :: "time \<Rightarrow> 's projHandler \<Rightarrow> ctx \<Rightarrow> event \<Rightarrow> ctx" where
  "projFindCtx now h c e =
     (if useIrregularVersioning h then c
      else if useWait h then NewContextWithMinVersionWait c (version e - 1) now
      else NewContextWithMinVersion c (version e - 1))"

definition projAttempt ::
    "time \<Rightarrow> 's projHandler \<Rightarrow> bool \<Rightarrow> ctx \<Rightarrow> event \<Rightarrow> 's \<Rightarrow> 's \<times> attempt" where
  "projAttempt now h triedOnce c e s =
     (let i = entityLookupFn h e
      in case rFind (projRepo h) (projFindCtx now h c e) i s of
           (s1, Panic p) \<Rightarrow> (s1, Finished (Panic p))
         | (s1, Ret en) \<Rightarrow> projCheck h triedOnce c e i en s1
         | (s1, Fail x) \<Rightarrow>
             if errors_Is x ErrEntityNotFound then
               (case projFactory h of
                  None \<Rightarrow> (s1, projError h (Sentinel ErrModelNotSet) e i 0)
                | Some fresh \<Rightarrow> projCheck h triedOnce c e i fresh s1)
             else if errors_Is x ErrIncorrectEntityVersion then
               (if useRetryOnce h \<and> \<not> triedOnce then (s1, Retry)
                else (s1, projError h (Wrapf ''could not load entity with correct version'' x) e i 0))
             else (s1, projError h (Wrapf ''could not load entity'' x) e i 0))"

text \<open>
  \<^verbatim>\<open>HandleEvent\<close>: at most two attempts. \<open>slept\<close> is how the repository changed during the sleep
  between them, and the two times are when the attempts start.
\<close>

definition projHandleEvent ::
    "time \<times> time \<Rightarrow> ('s \<Rightarrow> 's) \<Rightarrow> 's projHandler \<Rightarrow> ctx \<Rightarrow> event option \<Rightarrow> 's \<Rightarrow> 's \<times> unit go" where
  "projHandleEvent now slept h c ev s =
     (case ev of
        None \<Rightarrow> (s, Fail (ProjectorError (Some (Sentinel ErrMissingEvent)) (projectorType h) None uuid_Nil 0))
      | Some e \<Rightarrow>
          (case projAttempt (fst now) h False c e s of
             (s1, Finished r) \<Rightarrow> (s1, r)
           | (s1, Retry) \<Rightarrow>
               (case projAttempt (snd now) h True c e (slept s1) of
                  (s2, Finished r) \<Rightarrow> (s2, r)
                | (s2, Retry) \<Rightarrow> (s2, Ret ()))))"

text \<open>The second attempt never asks for another one.\<close>

lemma projRun_finished: "snd (projRun h c e i en v s) \<noteq> Retry"
  by (auto simp: projRun_def projError_def Let_def split: outcome.splits option.splits prod.splits)

lemma projAttempt_second: "snd (projAttempt now h True c e s) \<noteq> Retry"
  using projRun_finished [of h c e]
  by (auto simp: projAttempt_def projCheck_def projError_def Let_def split: outcome.splits option.splits prod.splits)

section \<open>Sagas\<close>

text \<open>A saga may issue commands on the command handler it is given; \<open>'w\<close> is the world of both.\<close>

record 'w sagaHandler =
  sagaType :: string
  runSaga :: "ctx \<Rightarrow> event \<Rightarrow> 'w CommandHandlerFn \<Rightarrow> 'w \<Rightarrow> 'w \<times> unit go"
  sagaCommandHandler :: "'w CommandHandlerFn"

definition sagaHandlerType :: "'w sagaHandler \<Rightarrow> string" where
  "sagaHandlerType h = ''saga_'' @ sagaType h"

definition sagaHandleEvent :: "'w sagaHandler \<Rightarrow> 'w HandleEventFn" where
  "sagaHandleEvent h c ev w =
     (case ev of
        None \<Rightarrow> (w, Fail (SagaError (Sentinel ErrMissingEvent) (sagaType h)))
      | Some e \<Rightarrow>
          (case runSaga h c e (sagaCommandHandler h) w of
             (w', r) \<Rightarrow> (w', mapErr (\<lambda>x. SagaError x (sagaType h)) r)))"

section \<open>Projecting a history\<close>

text \<open>
  A projector that gives every model the event's version and aggregate ID; \<open>f\<close> is the model it
  computes.
\<close>

definition wellProjecting :: "(entity \<Rightarrow> bool) \<Rightarrow> 's projHandler \<Rightarrow> (event \<Rightarrow> entity \<Rightarrow> entity) \<Rightarrow> bool" where
  "wellProjecting storable h f \<longleftrightarrow>
     (\<forall>c e en. project h c e en = Ret (Some (f e en)) \<and> entityID (f e en) = aggregateID e \<and>
        entityVersion (f e en) = Some (version e) \<and> storable (f e en)) \<and>
     entityLookupFn h = defaultEntityLookupFn \<and> \<not> useIrregularVersioning h"

text \<open>The model after the first \<open>n\<close> events of a history.\<close>

definition modelAt :: "(event \<Rightarrow> entity \<Rightarrow> entity) \<Rightarrow> entity \<Rightarrow> event list \<Rightarrow> nat \<Rightarrow> entity option" where
  "modelAt f fresh es n = (if n = 0 then None else Some (fold f (take n es) fresh))"

text \<open>
  Deliveries of a history, as indices into it: each is an event that was delivered before or
  the next one. \<open>progress\<close> counts the events delivered so far.
\<close>

fun inOrder :: "nat \<Rightarrow> nat list \<Rightarrow> bool" where
  "inOrder n [] = True"
| "inOrder n (k # ks) = (k \<le> n \<and> inOrder (max n (Suc k)) ks)"

fun progress :: "nat \<Rightarrow> nat list \<Rightarrow> nat" where
  "progress n [] = n"
| "progress n (k # ks) = progress (max n (Suc k)) ks"

fun deliver ::
    "time \<times> time \<Rightarrow> ('s \<Rightarrow> 's) \<Rightarrow> 's projHandler \<Rightarrow> ctx \<Rightarrow> event list \<Rightarrow> 's \<Rightarrow> 's \<times> unit go list" where
  "deliver now slept h c [] s = (s, [])"
| "deliver now slept h c (e # es) s =
     (case projHandleEvent now slept h c (Some e) s of
        (s1, r) \<Rightarrow> (case deliver now slept h c es s1 of (s2, rs) \<Rightarrow> (s2, r # rs)))"

lemma fold_take_Suc: "n < length es \<Longrightarrow> fold f (take (Suc n) es) a = f (es ! n) (fold f (take n es) a)"
  by (simp add: take_Suc_conv_app_nth)

context rw_repo
begin

lemma projAttempt_found:
  assumes "invar s" and "rFind (projRepo h) = fnd" and "view s (entityLookupFn h e) = Some en"
  shows "\<exists>s1. invar s1 \<and> view s1 = view s \<and>
    projAttempt now h tried c e s = projCheck h tried c e (entityLookupFn h e) en s1"
proof -
  obtain s1 o1 where f: "fnd (projFindCtx now h c e) (entityLookupFn h e) s = (s1, o1)" by fastforce
  from find_some [OF assms(1,3) f] find_state [OF assms(1) f] f assms(2) show ?thesis
    by (intro exI [of _ s1]) (simp add: projAttempt_def)
qed

lemma projAttempt_fresh:
  assumes "invar s" and "rFind (projRepo h) = fnd" and "view s (entityLookupFn h e) = None"
    and "projFactory h = Some fresh"
  shows "\<exists>s1. invar s1 \<and> view s1 = view s \<and>
    projAttempt now h tried c e s = projCheck h tried c e (entityLookupFn h e) fresh s1"
proof -
  obtain s1 o1 where f: "fnd (projFindCtx now h c e) (entityLookupFn h e) s = (s1, o1)" by fastforce
  from find_none [OF assms(1,3) f] find_state [OF assms(1) f] f assms(2,4) show ?thesis
    by (intro exI [of _ s1]) (auto simp: projAttempt_def)
qed

text \<open>An old or duplicate event is ignored.\<close>

lemma projHandle_old:
  assumes "invar s" and "rFind (projRepo h) = fnd" and "view s (entityLookupFn h e) = Some en"
    and "entityVersion en = Some v" and "version e <=s v"
  shows "\<exists>s'. projHandleEvent now slept h c (Some e) s = (s', Ret ()) \<and> invar s' \<and> view s' = view s"
  using projAttempt_found [OF assms(1-3), of "fst now" False c] assms(4,5)
  by (auto simp: projHandleEvent_def projCheck_def)

text \<open>The next event of a history is projected.\<close>

lemma projHandle_next:
  assumes "invar s" and "rFind (projRepo h) = fnd" and "rSave (projRepo h) = save"
    and well: "wellProjecting storable h f" and id: "aggregateID e \<noteq> uuid_Nil"
    and cur: "view s (aggregateID e) = Some en \<or> view s (aggregateID e) = None \<and> projFactory h = Some en"
    and v: "entityVersion en = Some v" "\<not> version e <=s v" "version e = v + 1"
  shows "\<exists>s'. projHandleEvent now slept h c (Some e) s = (s', Ret ()) \<and> invar s' \<and>
    view s' = (view s)(aggregateID e \<mapsto> f e en)"
proof -
  have lk: "entityLookupFn h e = aggregateID e"
    using well by (simp add: wellProjecting_def defaultEntityLookupFn_def)
  from cur obtain s1 where s1: "invar s1" "view s1 = view s"
    "projAttempt (fst now) h False c e s = projCheck h False c e (aggregateID e) en s1"
    using projAttempt_found [OF assms(1,2), of e en "fst now" False c]
      projAttempt_fresh [OF assms(1,2), of e en "fst now" False c] lk by auto
  from well have p: "project h c e en = Ret (Some (f e en))" "entityID (f e en) = aggregateID e"
    "entityVersion (f e en) = Some (version e)" "storable (f e en)" by (auto simp: wellProjecting_def)
  obtain s2 r2 where sv: "save c (f e en) s1 = (s2, r2)" by fastforce
  with save_ok [OF s1(1) p(4) _ sv] p(2) id have s2: "r2 = Ret ()" "invar s2"
    "view s2 = (view s1)(aggregateID e \<mapsto> f e en)" by auto
  with s1 p v sv assms(3) show ?thesis
    by (auto simp: projHandleEvent_def projCheck_def projRun_def)
qed

text \<open>Redelivered histories.\<close>

lemma deliver_modelAt:
  assumes ops: "rFind (projRepo h) = fnd" "rSave (projRepo h) = save" and well: "wellProjecting storable h f"
    and fac: "projFactory h = Some fresh" "entityVersion fresh = Some 0" and id: "aid \<noteq> uuid_Nil"
    and es: "serialFrom agt aid 0 es" "length es < 2 ^ 63"
  shows "\<lbrakk>invar s; view s aid = modelAt f fresh es n; n \<le> length es; inOrder n ks; \<forall>k \<in> set ks. k < length es\<rbrakk> \<Longrightarrow>
    \<exists>s'. deliver now slept h c (map ((!) es) ks) s = (s', replicate (length ks) (Ret ())) \<and>
      invar s' \<and> view s' = (view s)(aid := modelAt f fresh es (progress n ks))"
proof (induction ks arbitrary: s n)
  case Nil
  then show ?case by (auto simp: fun_upd_idem)
next
  case (Cons k ks)
  let ?e = "es ! k"
  have k: "k < length es" "k \<le> n" using Cons.prems by auto
  have e: "aggregateID ?e = aid" "version ?e = of_nat (Suc k)" using es(1) k by (auto simp: serialFrom_def)
  have lk: "entityLookupFn h ?e = aid"
    using well e by (simp add: wellProjecting_def defaultEntityLookupFn_def)
  have ver: "entityVersion (fold f (take m es) fresh) = Some (of_nat m)" if "m \<le> length es" for m
  proof (cases m)
    case (Suc j)
    with that es(1) have "version (es ! j) = of_nat m" by (simp add: serialFrom_def)
    with well Suc that show ?thesis by (simp add: fold_take_Suc wellProjecting_def)
  qed (simp add: fac)
  have sle: "(of_nat (Suc k) :: gint) <=s of_nat n \<longleftrightarrow> Suc k \<le> n"
    using k es(2) Cons.prems(3) by (simp add: word_sle_eq sint_of_nat_gint del: of_nat_Suc)
  have "\<exists>s1. projHandleEvent now slept h c (Some ?e) s = (s1, Ret ()) \<and> invar s1 \<and>
    view s1 = (view s)(aid := modelAt f fresh es (max n (Suc k)))"
  proof (cases "k < n")
    case True
    then have "view s (entityLookupFn h ?e) = Some (fold f (take n es) fresh)"
      using Cons.prems(2) lk by (simp add: modelAt_def)
    note old = projHandle_old [OF Cons.prems(1) ops(1) this ver [OF Cons.prems(3)], of now slept c]
    have "max n (Suc k) = n" using True by simp
    moreover have "(view s)(aid := modelAt f fresh es n) = view s" using Cons.prems(2) by (metis fun_upd_triv)
    moreover have "version ?e <=s of_nat n" using True sle e by simp
    ultimately show ?thesis using old by simp
  next
    case False
    with k have kn: "k = n" by simp
    let ?en = "fold f (take n es) fresh"
    have cur: "view s (aggregateID ?e) = Some ?en \<or> view s (aggregateID ?e) = None \<and> projFactory h = Some ?en"
      using Cons.prems(2) e fac by (simp add: modelAt_def)
    have "\<not> version ?e <=s of_nat n" "version ?e = of_nat n + 1" using e sle kn by (simp_all add: ac_simps)
    from projHandle_next [OF Cons.prems(1) ops well _ cur ver [OF Cons.prems(3)] this] e id kn k
    show ?thesis by (auto simp: modelAt_def fold_take_Suc max_def)
  qed
  then obtain s1 where s1: "projHandleEvent now slept h c (Some ?e) s = (s1, Ret ())" "invar s1"
    "view s1 = (view s)(aid := modelAt f fresh es (max n (Suc k)))" by blast
  have "view s1 aid = modelAt f fresh es (max n (Suc k))" "max n (Suc k) \<le> length es"
    "inOrder (max n (Suc k)) ks" "\<forall>k \<in> set ks. k < length es" using s1(3) Cons.prems k by auto
  from Cons.IH [OF s1(2) this] obtain s2 where
    "deliver now slept h c (map ((!) es) ks) s1 = (s2, replicate (length ks) (Ret ()))" "invar s2"
    "view s2 = (view s1)(aid := modelAt f fresh es (progress (max n (Suc k)) ks))" by blast
  with s1 show ?case by auto
qed

end

text \<open>A counting projector on a repository whose documents hold ID and version, for the examples.\<close>

definition countJson :: jsonEnv where
  "countJson = \<lparr>json_Marshal = (\<lambda>e. Ret (replicate (unat (entityID e)) (CHR ''i'') @
       replicate (unat (the (entityVersion e))) (CHR ''v''))),
     json_Unmarshal = (\<lambda>b fresh. Ret (fresh\<lparr>entityID := of_nat (length (filter (\<lambda>x. x = CHR ''i'') b)),
       entityVersion := Some (of_nat (length (filter (\<lambda>x. x = CHR ''v'') b)))\<rparr>))\<rparr>"

definition countModel :: "event \<Rightarrow> entity \<Rightarrow> entity" where
  "countModel e en = \<lparr>entityID = aggregateID e, entityVersion = Some (version e), entityBody = GBool True\<rparr>"

definition countFresh :: entity where
  "countFresh = \<lparr>entityID = 0, entityVersion = Some 0, entityBody = GBool True\<rparr>"

definition countHandler :: "memRepo projHandler" where
  "countHandler = projSetEntityFactory
     (NewProjectorHandler ''count'' (\<lambda>c e en. Ret (Some (countModel e en))) (memRepoOps countJson) []) countFresh"

definition countEvent :: "nat \<Rightarrow> event" where
  "countEvent v = \<lparr>eventType = ''Counted'', data = None, timestamp = 0, aggregateType = ''T'',
     aggregateID = 7, version = of_nat v, metadata = None\<rparr>"

lemma countHandler_sel [simp]:
  "projRepo countHandler = memRepoOps countJson" "projFactory countHandler = Some countFresh"
  "entityLookupFn countHandler = aggregateID" "\<not> useIrregularVersioning countHandler"
  "\<not> useRetryOnce countHandler"
  by (auto simp: countHandler_def projSetEntityFactory_def NewProjectorHandler_def defaultEntityLookupFn_def fun_eq_iff)

lemma count_storable [simp]: "jsonStorable countJson countFresh (countModel e en)"
  by (simp add: jsonStorable_def countJson_def countModel_def countFresh_def)

lemma count_wellProjecting [simp]: "wellProjecting (jsonStorable countJson countFresh) countHandler countModel"
proof -
  have "entityLookupFn countHandler = defaultEntityLookupFn" by (simp add: defaultEntityLookupFn_def fun_eq_iff)
  then show ?thesis
    by (simp add: wellProjecting_def) (simp add: countHandler_def projSetEntityFactory_def NewProjectorHandler_def countModel_def)
qed

lemma count_empty [simp]:
  "memRepoInv countJson countFresh (memSetEntityFactory NewMemRepo countFresh)"
  "memView countJson countFresh (memSetEntityFactory NewMemRepo countFresh) i = None"
  by (simp_all add: memRepoInv_def memView_def memSetEntityFactory_def NewMemRepo_def)

section \<open>Properties\<close>

text \<open>
  C11: projections are idempotent under redelivery. A projector handler over the in-memory
  repository whose projector sets the model's version to the event's, and a history of one
  aggregate delivered in any order in which every delivery is the next event or one delivered
  before: every delivery succeeds and the stored model is the fold of the projector over the
  events delivered, each counted once, and no other model changes.
\<close>

theorem projection_of_redelivered_history:
  assumes "projRepo h = memRepoOps env" and "wellProjecting (jsonStorable env fresh) h f"
    and "projFactory h = Some fresh" and "entityVersion fresh = Some 0" and "aid \<noteq> uuid_Nil"
    and "serialFrom agt aid 0 es" and "length es < 2 ^ 63"
    and "memRepoInv env fresh s" and "memView env fresh s aid = None"
    and "inOrder 0 ks" and "\<forall>k \<in> set ks. k < length es"
  shows "\<exists>s'. deliver now slept h c (map ((!) es) ks) s = (s', replicate (length ks) (Ret ())) \<and>
    memRepoInv env fresh s' \<and>
    memView env fresh s' = (memView env fresh s)
      (aid := (if ks = [] then None else Some (fold f (take (progress 0 ks) es) fresh)))"
proof -
  have pos: "0 < progress n ks" if "0 < n \<or> ks \<noteq> []" for n ks
    using that by (induction n ks rule: progress.induct) (auto simp: less_max_iff_disj)
  have "modelAt f fresh es (progress 0 ks) = (if ks = [] then None else Some (fold f (take (progress 0 ks) es) fresh))"
    using pos [of 0 ks] by (cases "ks = []") (simp_all add: modelAt_def)
  with memr.deliver_modelAt [OF _ _ assms(2-7) assms(8), of 0 ks now slept c] assms show ?thesis
    by (simp add: memRepoOps_def modelAt_def)
qed

theorem projection_of_redelivered_history_witness:
  "\<exists>s'. deliver (0, 0) id countHandler context_Background (map ((!) [countEvent 1, countEvent 2]) [0, 0, 1, 0])
       (memSetEntityFactory NewMemRepo countFresh) = (s', [Ret (), Ret (), Ret (), Ret ()]) \<and>
     memView countJson countFresh s' 7 = Some (countModel (countEvent 2) countFresh)"
proof -
  let ?es = "[countEvent 1, countEvent 2]" and ?ks = "[0, 0, 1, 0 :: nat]"
  let ?s = "memSetEntityFactory NewMemRepo countFresh"
  have es: "serialFrom ''T'' 7 0 ?es" by (simp add: serialFrom_Cons countEvent_def)
  have fv: "entityVersion countFresh = Some 0" by (simp add: countFresh_def)
  have "\<exists>s'. deliver (0, 0) id countHandler context_Background (map ((!) ?es) ?ks) ?s =
      (s', replicate (length ?ks) (Ret ())) \<and> memRepoInv countJson countFresh s' \<and>
    memView countJson countFresh s' = (memView countJson countFresh ?s)
      (7 := (if ?ks = [] then None else Some (fold countModel (take (progress 0 ?ks) ?es) countFresh)))"
    by (rule projection_of_redelivered_history
        [OF countHandler_sel(1) count_wellProjecting countHandler_sel(2) fv _ es _ count_empty]) simp_all
  then obtain s' where "deliver (0, 0) id countHandler context_Background (map ((!) ?es) ?ks) ?s =
      (s', replicate (length ?ks) (Ret ()))"
    and "memView countJson countFresh s' 7 = Some (fold countModel (take (progress 0 ?ks) ?es) countFresh)" by auto
  moreover have "replicate (length ?ks) (Ret () :: unit go) = [Ret (), Ret (), Ret (), Ret ()]" by simp
  moreover have "fold countModel (take (progress 0 ?ks) ?es) countFresh = countModel (countEvent 2) countFresh"
    by (simp add: numeral_2_eq_2 countModel_def)
  ultimately show ?thesis by metis
qed

text \<open>
  C30: a gap in the versions is refused. When the repository's model is behind the event by more
  than one version, the handler without the retry option fails with an incorrect version error,
  or with a removed model error for a model at version 0, and the repository is not changed.
\<close>

theorem projection_gap_refused:
  assumes "projRepo h = memRepoOps env" and "\<not> useIrregularVersioning h" and "\<not> useRetryOnce h"
    and "memRepoInv env fresh s" and "memView env fresh s (entityLookupFn h e) = Some en"
    and "entityVersion en = Some v" and "\<not> version e <=s v" and "version e \<noteq> v + 1"
  shows "\<exists>x. projHandleEvent now slept h c (Some e) s = (s, Fail x) \<and>
    (errors_Is x ErrIncorrectEntityVersion \<or> errors_Is x ErrModelRemoved \<and> v = 0)"
proof -
  from memView_Some [OF assms(4,5)] assms(4)
  have "memFind env c' (entityLookupFn h e) s = (s, Ret en)" for c'
    by (auto simp: memFind_def memRepoInv_def)
  with assms show ?thesis
    by (cases "v = 0 \<and> 1 <s version e")
      (auto simp: projHandleEvent_def projAttempt_def projCheck_def projError_def memRepoOps_def Let_def)
qed

theorem projection_gap_refused_witness:
  "\<exists>s x. projHandleEvent (0, 0) id countHandler context_Background (Some (countEvent 3)) s = (s, Fail x) \<and>
     errors_Is x ErrIncorrectEntityVersion"
proof -
  let ?m = "countModel (countEvent 1) countFresh"
  obtain s r where sv: "memRepoSave countJson context_Background ?m (memSetEntityFactory NewMemRepo countFresh) = (s, r)"
    by fastforce
  with memr.save_ok [OF count_empty(1) count_storable _ sv]
  have "memRepoInv countJson countFresh s" "memView countJson countFresh s 7 = Some ?m"
    by (auto simp: countModel_def countEvent_def)
  with projection_gap_refused [of countHandler countJson countFresh s "countEvent 3" ?m 1 "(0, 0)" id context_Background]
  have "\<exists>x. projHandleEvent (0, 0) id countHandler context_Background (Some (countEvent 3)) s = (s, Fail x) \<and>
      errors_Is x ErrIncorrectEntityVersion"
    by (auto simp: countModel_def countEvent_def word_sle_eq)
  then show ?thesis by blast
qed



text \<open>
  a saga's handler runs the saga exactly on non-nil events, with the command handler it was
  created with, and wraps the saga's error so that its cause stays visible.
\<close>

theorem saga_handles:
  "sagaHandleEvent h c (Some e) w =
     (fst (runSaga h c e (sagaCommandHandler h) w),
      mapErr (\<lambda>x. SagaError x (sagaType h)) (snd (runSaga h c e (sagaCommandHandler h) w))) \<and>
   (\<exists>x. sagaHandleEvent h c None w = (w, Fail x) \<and> errors_Is x ErrMissingEvent) \<and>
   (\<forall>x. snd (sagaHandleEvent h c (Some e) w) = Fail x \<longrightarrow>
      (\<exists>y. snd (runSaga h c e (sagaCommandHandler h) w) = Fail y \<and> (\<forall>t. errors_Is x t = errors_Is y t)))"
  by (auto simp: sagaHandleEvent_def split: prod.splits)

theorem saga_handles_witness:
  "\<exists>y. snd (runSaga \<lparr>sagaType = ''S'', runSaga = (\<lambda>c e h w. (w, Fail (Sentinel ErrCanceled))),
        sagaCommandHandler = (\<lambda>c cmd w. (w, Ret ()))\<rparr> context_Background (countEvent 1) (\<lambda>c cmd w. (w, Ret ())) ()) = Fail y \<and>
     errors_Is y ErrCanceled"
  using saga_handles [of "\<lparr>sagaType = ''S'', runSaga = (\<lambda>c e h w. (w, Fail (Sentinel ErrCanceled))),
        sagaCommandHandler = (\<lambda>c cmd w. (w, Ret ()))\<rparr>" context_Background "countEvent 1" "()"] by auto

end
