(* ===== verification/Mongo.thy ===== *)
theory Mongo
  imports EventStore_Spec Codec
begin

text \<open>
  What the MongoDB backed components share: client ownership, sessions and transactions of the
  driver, and the
  check of collection names (\<^verbatim>\<open>mongoutils/checks.go\<close>). The driver and the server are not part of
  the repository: their operations are parameters on a database state of type \<open>'d\<close>, and the
  predicates here state what their documentation promises.
\<close>

section \<open>Clients and collections\<close>

datatype clientOwnership = internalClient | externalClient

definition CheckCollectionName :: "string \<Rightarrow> unit go" where
  "CheckCollectionName name =
     (if name = '''' then Fail (Sentinel ErrMissingCollectionName)
      else if CHR '' '' \<in> set name then Fail (Sentinel ErrInvalidCharInCollectionName)
      else Ret ())"

text \<open>\<^verbatim>\<open>Close\<close>: a client that the component does not own is left open.\<close>

definition closeClient :: "clientOwnership \<Rightarrow> unit go \<Rightarrow> unit go" where
  "closeClient owner disconnect = (if owner = externalClient then Ret () else disconnect)"

section \<open>Transactions\<close>

text \<open>
  A session over a database \<open>'d\<close> and a world \<open>'w\<close> of event handlers. \<open>WithTransaction\<close> runs a
  function on both, possibly several times.
\<close>

record ('d, 'w) mongoSession =
  StartSession :: "'d \<Rightarrow> unit go"
  WithTransaction :: "(ctx \<Rightarrow> 'd \<times> 'w \<Rightarrow> ('d \<times> 'w) \<times> unit go) \<Rightarrow> ctx \<Rightarrow> 'd \<times> 'w \<Rightarrow> ('d \<times> 'w) \<times> unit go"

text \<open>
  The driver's promise, on what \<open>view\<close> shows of the database: a transaction that returns no error
  has the effect of one successful run of its function on the database as it was, whatever
  earlier runs did to the world; one that returns an error leaves the database as it was.
\<close>

definition transactional :: "('d, 'w) mongoSession \<Rightarrow> ('d \<Rightarrow> 'v) \<Rightarrow> bool" where
  "transactional S view \<longleftrightarrow>
     (\<forall>f c d w d' w' r. WithTransaction S f c (d, w) = ((d', w'), r) \<longrightarrow>
        (if r = Ret () then \<exists>c1 d1 w1. view d1 = view d \<and> f c1 (d1, w1) = ((d', w'), Ret ())
         else view d' = view d))"

definition inTransaction ::
    "('d, 'w) mongoSession \<Rightarrow> (err \<Rightarrow> err) \<Rightarrow> (err \<Rightarrow> err) \<Rightarrow> (ctx \<Rightarrow> 'd \<times> 'w \<Rightarrow> ('d \<times> 'w) \<times> unit go) \<Rightarrow>
     ctx \<Rightarrow> 'd \<times> 'w \<Rightarrow> ('d \<times> 'w) \<times> unit go" where
  "inTransaction S failStart failTX body c dw =
     (case StartSession S (fst dw) of
        Fail x \<Rightarrow> (dw, Fail (failStart (Wrapf ''could not start transaction'' x)))
      | Panic p \<Rightarrow> (dw, Panic p)
      | Ret _ \<Rightarrow> (case WithTransaction S body c dw of (dw', r) \<Rightarrow> (dw', mapErr failTX r)))"

lemma inTransaction_effect:
  assumes "transactional S view" and "inTransaction S f1 f2 body c (d, w) = ((d', w'), r)"
  shows "if r = Ret () then \<exists>c1 d1 w1. view d1 = view d \<and> body c1 (d1, w1) = ((d', w'), Ret ())
    else view d' = view d"
proof (cases "StartSession S d")
  case (Ret u)
  obtain d2 w2 r2 where t: "WithTransaction S body c (d, w) = ((d2, w2), r2)" by (metis surj_pair)
  with Ret assms(2) have eq: "d' = d2" "w' = w2" "r = mapErr f2 r2" by (auto simp: inTransaction_def)
  from assms(1) t have law: "if r2 = Ret () then \<exists>c1 d1 w1. view d1 = view d \<and> body c1 (d1, w1) = ((d2, w2), Ret ())
      else view d2 = view d"
    unfolding transactional_def by blast
  have "r = Ret () \<longleftrightarrow> r2 = Ret ()" using eq by simp
  with law eq show ?thesis by (cases "r2 = Ret ()") auto
qed (use assms(2) in \<open>auto simp: inTransaction_def\<close>)

text \<open>The loop over the events in a transaction, with the handler of \<^verbatim>\<open>WithEventHandlerInTX\<close>.\<close>

fun handleInTX :: "'w HandleEventFn \<Rightarrow> ctx \<Rightarrow> event option list \<Rightarrow> 'w \<Rightarrow> 'w \<times> unit go" where
  "handleInTX h c [] w = (w, Ret ())"
| "handleInTX h c (e # es) w =
     (case h c e w of
        (w', Ret _) \<Rightarrow> handleInTX h c es w'
      | (w', Fail x) \<Rightarrow> (w', Fail (Wrapf ''could not handle event in transaction'' x))
      | (w', Panic p) \<Rightarrow> (w', Panic p))"

text \<open>The handlers that run after a save, if there are any.\<close>

definition handleAfterSave :: "'w HandleEventFn option \<Rightarrow> ctx \<Rightarrow> event option list \<Rightarrow> 'w \<Rightarrow> 'w \<times> unit go" where
  "handleAfterSave h c events w = (case h of None \<Rightarrow> (w, Ret ()) | Some f \<Rightarrow> handleAll f c events w)"

lemma handleAfterSave_result:
  "handleAfterSave h c events w = (w', r) \<Longrightarrow>
   r = Ret () \<or> (\<exists>x ev. r = Fail (EventHandlerError x ev)) \<or> (\<exists>p. r = Panic p)"
  by (cases h) (auto simp: handleAfterSave_def dest: handleAll_result)

section \<open>An example session\<close>

text \<open>A concrete session: the function runs once, and its database changes are dropped if it fails.\<close>

definition demoSession :: "('d, 'w) mongoSession" where
  "demoSession = \<lparr>StartSession = (\<lambda>_. Ret ()),
     WithTransaction = (\<lambda>f c dw. case f c dw of (dw', r) \<Rightarrow> (if r = Ret () then dw' else (fst dw, snd dw'), r))\<rparr>"

lemma demoSession_transactional: "transactional demoSession view"
  unfolding transactional_def
proof (intro allI impI)
  fix f :: "ctx \<Rightarrow> 'a \<times> 'b \<Rightarrow> ('a \<times> 'b) \<times> unit go" and c d w d' w' r
  assume "WithTransaction demoSession f c (d, w) = ((d', w'), r)"
  moreover obtain d1 w1 r1 where "f c (d, w) = ((d1, w1), r1)" by (metis surj_pair)
  ultimately show "if r = Ret () then \<exists>c1 d1 w1. view d1 = view d \<and> f c1 (d1, w1) = ((d', w'), Ret ()) else view d' = view d"
    by (auto simp: demoSession_def split: if_splits)
qed

end
