(* ===== verification/EventStore_Mongo.thy ===== *)
theory EventStore_Mongo
  imports Mongo
begin

text \<open>
  The MongoDB event store with one document per aggregate (\<^verbatim>\<open>eventstore/mongodb\<close>). The collection
  of aggregates is a parameter on a database state \<open>'d\<close>; its filters and updates are the query
  documents that the code writes. The store also acts on a world \<open>'w\<close> of event handlers.
\<close>

section \<open>Documents and queries\<close>

record evt =
  evEventType :: string
  evRawData :: string
  evTimestamp :: time
  evAggregateType :: string
  evAggregateID :: UUID
  evVersion :: gint
  evMetadata :: Metadata

record aggDoc =
  adID :: UUID
  adVersion :: gint
  adEvents :: "evt list"

text \<open>
  The query documents: \<^verbatim>\<open>{_id}\<close>, \<^verbatim>\<open>{_id, version}\<close>, \<^verbatim>\<open>{_id, events.version}\<close> and
  \<^verbatim>\<open>{events.event_type}\<close>; the updates: \<^verbatim>\<open>$push\<close> of events with \<^verbatim>\<open>$inc\<close> of the version, and \<^verbatim>\<open>$set\<close>
  of the first event that the filter matches, or of its type (the positional operator \<^verbatim>\<open>$\<close>).
\<close>

datatype aggFilter = ById UUID | ByIdVersion UUID gint | ByIdEventVersion UUID gint | ByEventType string

datatype aggUpdate = PushEvents "evt list" gint | SetEvent evt | SetEventType string

record 'd aggColl =
  InsertOne :: "ctx \<Rightarrow> aggDoc \<Rightarrow> 'd \<Rightarrow> 'd \<times> unit go"
  UpdateOne :: "ctx \<Rightarrow> aggFilter \<Rightarrow> aggUpdate \<Rightarrow> 'd \<Rightarrow> 'd \<times> gint go"
  UpdateMany :: "ctx \<Rightarrow> aggFilter \<Rightarrow> aggUpdate \<Rightarrow> 'd \<Rightarrow> 'd \<times> unit go"
  FindOne :: "ctx \<Rightarrow> aggFilter \<Rightarrow> 'd \<Rightarrow> aggDoc go"
  CountDocuments :: "ctx \<Rightarrow> aggFilter \<Rightarrow> 'd \<Rightarrow> gint \<times> err option"
  DropColl :: "ctx \<Rightarrow> 'd \<Rightarrow> 'd \<times> unit go"

section \<open>Construction\<close>

record 'w mongoStore =
  msOwnership :: clientOwnership
  msCollection :: string
  msAfterSave :: "'w HandleEventFn option"
  msInTX :: "'w HandleEventFn option"

type_synonym 'w mongoOption = "'w mongoStore \<Rightarrow> 'w mongoStore go"

fun applyMongoOptions :: "'w mongoOption list \<Rightarrow> 'w mongoStore \<Rightarrow> 'w mongoStore go" where
  "applyMongoOptions [] s = Ret s"
| "applyMongoOptions (opt # opts) s =
     obind (mapErr (Wrapf ''error while applying option'') (opt s)) (applyMongoOptions opts)"

text \<open>\<open>client\<close> can be nil; \<open>ping\<close> is the answer of the server.\<close>

definition newMongoStoreWithClient ::
    "'c option \<Rightarrow> clientOwnership \<Rightarrow> unit go \<Rightarrow> 'w mongoOption list \<Rightarrow> 'w mongoStore go" where
  "newMongoStoreWithClient client owner ping options =
     (if client = None then Fail (NewError ''missing DB client'')
      else obind (applyMongoOptions options
                   \<lparr>msOwnership = owner, msCollection = ''events'', msAfterSave = None, msInTX = None\<rparr>)
             (\<lambda>s. obind (mapErr (Wrapf ''could not connect to MongoDB'') ping) (\<lambda>_. Ret s)))"

definition NewMongoStore :: "'c go \<Rightarrow> unit go \<Rightarrow> 'w mongoOption list \<Rightarrow> 'w mongoStore go" where
  "NewMongoStore connect ping options =
     obind (mapErr (Wrapf ''could not connect to DB'') connect)
       (\<lambda>client. newMongoStoreWithClient (Some client) internalClient ping options)"

definition NewMongoStoreWithClient :: "'c option \<Rightarrow> unit go \<Rightarrow> 'w mongoOption list \<Rightarrow> 'w mongoStore go" where
  "NewMongoStoreWithClient client ping options = newMongoStoreWithClient client externalClient ping options"

definition WithMongoHandler :: "'w HandleEventFn \<Rightarrow> 'w mongoOption" where
  "WithMongoHandler h s =
     (if msAfterSave s \<noteq> None then Fail (NewError ''another event handler is already set'')
      else if msInTX s \<noteq> None then Fail (NewError ''another TX event handler is already set'')
      else Ret (s\<lparr>msAfterSave := Some h\<rparr>))"

definition WithMongoHandlerInTX :: "'w HandleEventFn \<Rightarrow> 'w mongoOption" where
  "WithMongoHandlerInTX h s =
     (if msAfterSave s \<noteq> None then Fail (NewError ''another event handler is already set'')
      else if msInTX s \<noteq> None then Fail (NewError ''another TX event handler is already set'')
      else Ret (s\<lparr>msInTX := Some h\<rparr>))"

definition WithMongoCollection :: "string \<Rightarrow> 'w mongoOption" where
  "WithMongoCollection eventsColl s =
     (if eventsColl = '''' then Fail (NewError ''missing collection name'')
      else Ret (s\<lparr>msCollection := eventsColl\<rparr>))"

definition mongoClose :: "unit go \<Rightarrow> 'w mongoStore \<Rightarrow> unit go" where
  "mongoClose disconnect s = closeClient (msOwnership s) disconnect"

section \<open>Saving and loading\<close>

definition newEvt :: "dataCodec \<Rightarrow> event \<Rightarrow> evt go" where
  "newEvt env e = obind (marshalData env (data e)) (\<lambda>raw.
     Ret \<lparr>evEventType = eventType e, evRawData = raw, evTimestamp = timestamp e, evAggregateType = aggregateType e,
          evAggregateID = aggregateID e, evVersion = version e, evMetadata = metadata e\<rparr>)"

text \<open>\<^verbatim>\<open>saveEvents\<close>: a new aggregate is inserted, an existing one updated if its version is the original one.\<close>

definition saveEvents :: "'d aggColl \<Rightarrow> UUID \<Rightarrow> gint \<Rightarrow> evt list \<Rightarrow> ctx \<Rightarrow> 'd \<Rightarrow> 'd \<times> unit go" where
  "saveEvents C aid ov dbEvents c d =
     (if ov = 0 then
        (case InsertOne C c \<lparr>adID = aid, adVersion = of_nat (length dbEvents), adEvents = dbEvents\<rparr> d of
           (d', r) \<Rightarrow> (d', mapErr (Wrapf ''could not insert events (new)'') r))
      else
        (case UpdateOne C c (ByIdVersion aid ov) (PushEvents dbEvents (of_nat (length dbEvents))) d of
           (d', Fail x) \<Rightarrow> (d', Fail (Wrapf ''could not insert events (update)'' x))
         | (d', Panic p) \<Rightarrow> (d', Panic p)
         | (d', Ret n) \<Rightarrow> (d', if n = 0 then Fail (Sentinel ErrEventConflictFromOtherSave) else Ret ())))"

text \<open>The function that runs in the transaction.\<close>

definition saveAndHandle ::
    "'d aggColl \<Rightarrow> 'w HandleEventFn \<Rightarrow> UUID \<Rightarrow> gint \<Rightarrow> evt list \<Rightarrow> event option list \<Rightarrow> ctx \<Rightarrow> 'd \<times> 'w \<Rightarrow> ('d \<times> 'w) \<times> unit go" where
  "saveAndHandle C h aid ov dbEvents events c dw =
     (case saveEvents C aid ov dbEvents c (fst dw) of
        (d', Ret _) \<Rightarrow> (case handleInTX h c events (snd dw) of (w', r) \<Rightarrow> ((d', w'), r))
      | (d', r) \<Rightarrow> ((d', snd dw), r))"

definition mongoStoreEvents ::
    "'d aggColl \<Rightarrow> ('d, 'w) mongoSession \<Rightarrow> 'w mongoStore \<Rightarrow> (err \<Rightarrow> err) \<Rightarrow> UUID \<Rightarrow> gint \<Rightarrow> evt list \<Rightarrow>
     event option list \<Rightarrow> ctx \<Rightarrow> 'd \<times> 'w \<Rightarrow> ('d \<times> 'w) \<times> unit go" where
  "mongoStoreEvents C S st fail aid ov dbEvents events c dw =
     (case msInTX st of
        Some h \<Rightarrow> inTransaction S fail fail (saveAndHandle C h aid ov dbEvents events) c dw
      | None \<Rightarrow> (case saveEvents C aid ov dbEvents c (fst dw) of (d', r) \<Rightarrow> ((d', snd dw), mapErr fail r)))"

definition mongoSave ::
    "dataCodec \<Rightarrow> 'd aggColl \<Rightarrow> ('d, 'w) mongoSession \<Rightarrow> 'w mongoStore \<Rightarrow> ctx \<Rightarrow> event option list \<Rightarrow> gint \<Rightarrow>
     'd \<times> 'w \<Rightarrow> ('d \<times> 'w) \<times> unit go" where
  "mongoSave env C S st c events ov dw =
     (if events = [] then
        (dw, Fail (EventStoreError (Some (Sentinel ErrMissingEvents)) EventStoreOpSave '''' uuid_Nil 0 []))
      else case hd events of
        None \<Rightarrow> (dw, nilDeref)
      | Some e0 \<Rightarrow>
          let aid = aggregateID e0;
              agt = aggregateType e0;
              fail = (\<lambda>e. saveError e agt aid ov events);
              mk = (\<lambda>e. mapErr (\<lambda>x. fail (Wrapf ''could not copy event'' x)) (newEvt env e))
          in case buildRecords mk fail agt aid ov 0 events of
               Fail e \<Rightarrow> (dw, Fail e)
             | Panic p \<Rightarrow> (dw, Panic p)
             | Ret dbEvents \<Rightarrow>
                 (case mongoStoreEvents C S st fail aid ov dbEvents events c dw of
                    ((d', w'), Ret _) \<Rightarrow>
                      (case handleAfterSave (msAfterSave st) c events w' of (w2, r) \<Rightarrow> ((d', w2), r))
                  | (dw', r) \<Rightarrow> (dw', r)))"

definition decodeEvt :: "dataCodec \<Rightarrow> evt \<Rightarrow> event go" where
  "decodeEvt env e = obind (unmarshalData env (evEventType e) (evRawData e)) (\<lambda>d.
     Ret (NewEvent (evEventType e) d (evTimestamp e)
       [ForAggregate (evAggregateType e) (evAggregateID e) (evVersion e), WithMetadata (evMetadata e)]))"

text \<open>The loop of \<^verbatim>\<open>LoadFrom\<close>; \<open>done\<close> is the part of the result slice filled so far.\<close>

fun loadEvts :: "dataCodec \<Rightarrow> UUID \<Rightarrow> gint \<Rightarrow> event option list \<Rightarrow> evt list \<Rightarrow> event option list go" where
  "loadEvts env aid v done [] = Ret done"
| "loadEvts env aid v done (e # es) =
     (if evVersion e <s v then loadEvts env aid v (done @ [None]) es
      else case decodeEvt env e of
             Ret ev \<Rightarrow> loadEvts env aid v (done @ [Some ev]) es
           | Fail x \<Rightarrow> Fail (EventStoreError (Some x) EventStoreOpLoad (evAggregateType e) aid (evVersion e)
                              (done @ replicate (Suc (length es)) None))
           | Panic p \<Rightarrow> Panic p)"

definition mongoLoadFrom ::
    "dataCodec \<Rightarrow> 'd aggColl \<Rightarrow> ctx \<Rightarrow> UUID \<Rightarrow> gint \<Rightarrow> 'd \<times> 'w \<Rightarrow> ('d \<times> 'w) \<times> event option list go" where
  "mongoLoadFrom env C c aid v dw =
     (dw, case FindOne C c (ById aid) (fst dw) of
            Fail x \<Rightarrow> Fail (EventStoreError
              (Some (if errors_Is x MongoErrNoDocuments then Sentinel ErrAggregateNotFound else x))
              EventStoreOpLoad '''' aid 0 [])
          | Panic p \<Rightarrow> Panic p
          | Ret a \<Rightarrow> loadEvts env aid v [] (adEvents a))"

definition mongoLoad ::
    "dataCodec \<Rightarrow> 'd aggColl \<Rightarrow> ctx \<Rightarrow> UUID \<Rightarrow> 'd \<times> 'w \<Rightarrow> ('d \<times> 'w) \<times> event option list go" where
  "mongoLoad env C c aid dw = mongoLoadFrom env C c aid 1 dw"

section \<open>Maintenance\<close>

definition maintenanceError :: "err \<Rightarrow> event \<Rightarrow> err" where
  "maintenanceError x e =
     EventStoreError (Some x) EventStoreOpReplace (aggregateType e) (aggregateID e) (version e) [Some e]"

definition mongoReplace :: "dataCodec \<Rightarrow> 'd aggColl \<Rightarrow> ctx \<Rightarrow> event option \<Rightarrow> 'd \<Rightarrow> 'd \<times> unit go" where
  "mongoReplace env C c event d =
     (case event of
        None \<Rightarrow> (d, nilDeref)
      | Some e \<Rightarrow>
          (case CountDocuments C c (ById (aggregateID e)) d of (n, err) \<Rightarrow>
             if n = 0 then (d, Fail (maintenanceError (Sentinel ErrAggregateNotFound) e))
             else (case err of
                     Some x \<Rightarrow> (d, Fail (maintenanceError (Wrapf ''could not check aggregate existence'' x) e))
                   | None \<Rightarrow>
                       (case newEvt env e of
                          Fail x \<Rightarrow> (d, Fail x)
                        | Panic p \<Rightarrow> (d, Panic p)
                        | Ret v \<Rightarrow>
                            (case UpdateOne C c (ByIdEventVersion (aggregateID e) (version e)) (SetEvent v) d of
                               (d', Fail x) \<Rightarrow> (d', Fail (maintenanceError x e))
                             | (d', Panic p) \<Rightarrow> (d', Panic p)
                             | (d', Ret m) \<Rightarrow>
                                 (d', if m = 0 then Fail (maintenanceError (Sentinel ErrEventNotFound) e) else Ret ()))))))"

definition mongoRenameEvent :: "'d aggColl \<Rightarrow> ctx \<Rightarrow> string \<Rightarrow> string \<Rightarrow> 'd \<Rightarrow> 'd \<times> unit go" where
  "mongoRenameEvent C c from to d =
     (case UpdateMany C c (ByEventType from) (SetEventType to) d of
        (d', r) \<Rightarrow> (d', mapErr (\<lambda>x. EventStoreError
           (Some (Wrapf (''could not update events of type '' @ [CHR 0x27] @ from @ [CHR 0x27]) x))
           EventStoreOpRename '''' uuid_Nil 0 []) r))"

definition mongoClear :: "'d aggColl \<Rightarrow> ctx \<Rightarrow> 'd \<Rightarrow> 'd \<times> unit go" where
  "mongoClear C c d =
     (case DropColl C c d of
        (d', r) \<Rightarrow> (d', mapErr (\<lambda>x. EventStoreError (Some x) EventStoreOpRename '''' uuid_Nil 0 []) r))"

section \<open>The collection's promises\<close>

text \<open>
  What the documentation of MongoDB says of the queries. \<open>docs\<close> gives the documents of the
  collection by their \<^verbatim>\<open>_id\<close>, and \<open>recode\<close> is what an event record becomes when it is encoded and
  decoded (BSON times have millisecond precision, for instance).
\<close>

fun matchesAgg :: "aggFilter \<Rightarrow> aggDoc \<Rightarrow> bool" where
  "matchesAgg (ById i) a \<longleftrightarrow> adID a = i"
| "matchesAgg (ByIdVersion i v) a \<longleftrightarrow> adID a = i \<and> adVersion a = v"
| "matchesAgg (ByIdEventVersion i v) a \<longleftrightarrow> adID a = i \<and> v \<in> evVersion ` set (adEvents a)"
| "matchesAgg (ByEventType t) a \<longleftrightarrow> t \<in> evEventType ` set (adEvents a)"

fun matchesElem :: "aggFilter \<Rightarrow> evt \<Rightarrow> bool" where
  "matchesElem (ByIdEventVersion i v) e \<longleftrightarrow> evVersion e = v"
| "matchesElem (ByEventType t) e \<longleftrightarrow> evEventType e = t"
| "matchesElem _ e \<longleftrightarrow> False"

fun updateFirst :: "('a \<Rightarrow> bool) \<Rightarrow> ('a \<Rightarrow> 'a) \<Rightarrow> 'a list \<Rightarrow> 'a list" where
  "updateFirst p f [] = []"
| "updateFirst p f (x # xs) = (if p x then f x # xs else x # updateFirst p f xs)"

fun updateAgg :: "(evt \<Rightarrow> evt) \<Rightarrow> aggFilter \<Rightarrow> aggUpdate \<Rightarrow> aggDoc \<Rightarrow> aggDoc" where
  "updateAgg recode f (PushEvents es n) a = a\<lparr>adVersion := adVersion a + n, adEvents := adEvents a @ map recode es\<rparr>"
| "updateAgg recode f (SetEvent e) a = a\<lparr>adEvents := updateFirst (matchesElem f) (\<lambda>_. recode e) (adEvents a)\<rparr>"
| "updateAgg recode f (SetEventType t) a =
     a\<lparr>adEvents := updateFirst (matchesElem f) (\<lambda>e. e\<lparr>evEventType := t\<rparr>) (adEvents a)\<rparr>"

text \<open>An insert of a document with a known \<^verbatim>\<open>_id\<close> fails; a failed write changes nothing.\<close>

definition insertLaw :: "'d aggColl \<Rightarrow> ('d \<Rightarrow> UUID \<Rightarrow> aggDoc option) \<Rightarrow> (evt \<Rightarrow> evt) \<Rightarrow> bool" where
  "insertLaw C docs recode \<longleftrightarrow> (\<forall>c a d d' r. InsertOne C c a d = (d', r) \<longrightarrow>
     (if r = Ret () then docs d (adID a) = None \<and>
        docs d' = (docs d)(adID a \<mapsto> a\<lparr>adEvents := map recode (adEvents a)\<rparr>)
      else docs d' = docs d))"

text \<open>\<^verbatim>\<open>UpdateOne\<close> updates one document that matches and returns the number of matches, 0 or 1.\<close>

definition updateOneLaw :: "'d aggColl \<Rightarrow> ('d \<Rightarrow> UUID \<Rightarrow> aggDoc option) \<Rightarrow> (evt \<Rightarrow> evt) \<Rightarrow> bool" where
  "updateOneLaw C docs recode \<longleftrightarrow> (\<forall>c f u d d' r. UpdateOne C c f u d = (d', r) \<longrightarrow>
     (if r = Ret 1 then \<exists>i a. docs d i = Some a \<and> matchesAgg f a \<and> docs d' = (docs d)(i \<mapsto> updateAgg recode f u a)
      else docs d' = docs d \<and> (is_Ret r \<longrightarrow> r = Ret 0 \<and> (\<forall>i a. docs d i = Some a \<longrightarrow> \<not> matchesAgg f a))))"

definition updateManyLaw :: "'d aggColl \<Rightarrow> ('d \<Rightarrow> UUID \<Rightarrow> aggDoc option) \<Rightarrow> (evt \<Rightarrow> evt) \<Rightarrow> bool" where
  "updateManyLaw C docs recode \<longleftrightarrow> (\<forall>c f u d d' r. UpdateMany C c f u d = (d', r) \<and> r = Ret () \<longrightarrow>
     docs d' = (\<lambda>i. map_option (\<lambda>a. if matchesAgg f a then updateAgg recode f u a else a) (docs d i)))"

text \<open>Documents have their key as \<^verbatim>\<open>_id\<close>, and the database answers reads.\<close>

definition readLaw :: "'d aggColl \<Rightarrow> ('d \<Rightarrow> UUID \<Rightarrow> aggDoc option) \<Rightarrow> bool" where
  "readLaw C docs \<longleftrightarrow> (\<forall>d i a. docs d i = Some a \<longrightarrow> adID a = i) \<and>
     (\<forall>c d i. FindOne C c (ById i) d =
        (case docs d i of Some a \<Rightarrow> Ret a | None \<Rightarrow> Fail (Sentinel MongoErrNoDocuments)))"

definition aggLaws :: "'d aggColl \<Rightarrow> ('d \<Rightarrow> UUID \<Rightarrow> aggDoc option) \<Rightarrow> (evt \<Rightarrow> evt) \<Rightarrow> bool" where
  "aggLaws C docs recode \<longleftrightarrow> insertLaw C docs recode \<and> updateOneLaw C docs recode \<and> updateManyLaw C docs recode \<and> readLaw C docs"

lemma aggLaws_insert:
  assumes "aggLaws C docs recode" and "InsertOne C c a d = (d', r)"
  shows "if r = Ret () then docs d (adID a) = None \<and> docs d' = (docs d)(adID a \<mapsto> a\<lparr>adEvents := map recode (adEvents a)\<rparr>)
    else docs d' = docs d"
  using assms unfolding aggLaws_def insertLaw_def by blast

lemma aggLaws_update:
  assumes "aggLaws C docs recode" and "UpdateOne C c f u d = (d', r)"
  shows "if r = Ret 1 then \<exists>i a. docs d i = Some a \<and> matchesAgg f a \<and> docs d' = (docs d)(i \<mapsto> updateAgg recode f u a)
    else docs d' = docs d \<and> (is_Ret r \<longrightarrow> r = Ret 0 \<and> (\<forall>i a. docs d i = Some a \<longrightarrow> \<not> matchesAgg f a))"
  using assms unfolding aggLaws_def updateOneLaw_def by blast

lemma aggLaws_find:
  "aggLaws C docs recode \<Longrightarrow>
   FindOne C c (ById i) d = (case docs d i of Some a \<Rightarrow> Ret a | None \<Rightarrow> Fail (Sentinel MongoErrNoDocuments))"
  unfolding aggLaws_def readLaw_def by blast

lemma aggLaws_key: "aggLaws C docs recode \<Longrightarrow> docs d i = Some a \<Longrightarrow> adID a = i"
  unfolding aggLaws_def readLaw_def by blast

section \<open>Histories\<close>

definition decodedEvt :: "dataCodec \<Rightarrow> evt \<Rightarrow> event" where
  "decodedEvt env e = (case decodeEvt env e of Ret ev \<Rightarrow> ev | _ \<Rightarrow> NewEvent '''' None 0 [])"

definition mongoStream :: "dataCodec \<Rightarrow> (UUID \<Rightarrow> aggDoc option) \<Rightarrow> UUID \<Rightarrow> event list" where
  "mongoStream env ds aid = (case ds aid of None \<Rightarrow> [] | Some a \<Rightarrow> map (decodedEvt env) (adEvents a))"

text \<open>Events that survive the way into the database and back.\<close>

definition mongoStorable :: "dataCodec \<Rightarrow> (evt \<Rightarrow> evt) \<Rightarrow> event \<Rightarrow> bool" where
  "mongoStorable env recode e \<longleftrightarrow> (\<exists>v. newEvt env e = Ret v \<and> decodeEvt env (recode v) = Ret e)"

definition docInv :: "dataCodec \<Rightarrow> UUID \<Rightarrow> aggDoc \<Rightarrow> bool" where
  "docInv env aid a \<longleftrightarrow> adEvents a \<noteq> [] \<and> adVersion a = of_nat (length (adEvents a)) \<and>
     (\<forall>i < length (adEvents a). \<exists>ev. decodeEvt env (adEvents a ! i) = Ret ev \<and>
        version ev = of_nat (Suc i) \<and> aggregateID ev = aid)"

definition mongoInv :: "dataCodec \<Rightarrow> (UUID \<Rightarrow> aggDoc option) \<Rightarrow> bool" where
  "mongoInv env ds \<longleftrightarrow> (\<forall>aid a. ds aid = Some a \<longrightarrow> docInv env aid a)"

lemma decodeEvt_version: "decodeEvt env e = Ret ev \<Longrightarrow> version ev = evVersion e"
  by (auto simp: decodeEvt_def outcome_simps NewEvent_def ForAggregate_def WithMetadata_def split: option.splits)

lemma decodedEvt_eq [simp]: "decodeEvt env e = Ret ev \<Longrightarrow> decodedEvt env e = ev"
  by (simp add: decodedEvt_def)

lemma mongoStream_empty_iff: "mongoInv env ds \<Longrightarrow> mongoStream env ds aid = [] \<longleftrightarrow> ds aid = None"
  by (auto simp: mongoStream_def mongoInv_def docInv_def split: option.splits)

lemma mongoStream_serial:
  assumes "mongoInv env ds" and "i < length (mongoStream env ds aid)"
  shows "version (mongoStream env ds aid ! i) = of_nat (Suc i) \<and> aggregateID (mongoStream env ds aid ! i) = aid"
proof -
  from assms(2) obtain a where a: "ds aid = Some a" "i < length (adEvents a)"
    by (auto simp: mongoStream_def split: option.splits)
  with assms(1) obtain ev where "decodeEvt env (adEvents a ! i) = Ret ev" "version ev = of_nat (Suc i)" "aggregateID ev = aid"
    unfolding mongoInv_def docInv_def by blast
  with a show ?thesis by (simp add: mongoStream_def)
qed

text \<open>Loading from version 1 decodes every event of a document that keeps the invariant.\<close>

lemma loadEvts_all:
  assumes "\<And>e. e \<in> set es \<Longrightarrow> \<not> evVersion e <s v" and "\<And>e. e \<in> set es \<Longrightarrow> is_Ret (decodeEvt env e)"
  shows "loadEvts env aid v done es = Ret (done @ map (Some \<circ> decodedEvt env) es)"
  using assms
proof (induction es arbitrary: "done")
  case (Cons e es)
  from Cons.prems(2) [of e] obtain ev where "decodeEvt env e = Ret ev" by (auto simp: is_Ret_iff)
  with Cons show ?case by simp
qed simp

lemma mongoLoadFrom_stream:
  assumes "aggLaws C docs recode" and "mongoInv env (docs d)" and "mongoStream env (docs d) aid \<noteq> []"
    and "length (mongoStream env (docs d) aid) < 2 ^ 63"
  shows "mongoLoadFrom env C c aid 1 (d, w) = ((d, w), Ret (map Some (mongoStream env (docs d) aid)))"
proof -
  from assms(3) obtain a where a: "docs d aid = Some a" by (auto simp: mongoStream_def split: option.splits)
  have len: "length (adEvents a) < 2 ^ 63" using assms(4) a by (simp add: mongoStream_def)
  have ok: "\<not> evVersion e <s 1 \<and> is_Ret (decodeEvt env e)" if "e \<in> set (adEvents a)" for e
  proof -
    from that obtain i where i: "i < length (adEvents a)" "e = adEvents a ! i" by (auto simp: in_set_conv_nth)
    with assms(2) a obtain ev where ev: "decodeEvt env e = Ret ev" "version ev = of_nat (Suc i)"
      unfolding mongoInv_def docInv_def by blast
    with decodeEvt_version [OF ev(1)] not_sless_one [of "Suc i"] i(1) len show ?thesis by simp
  qed
  have "loadEvts env aid 1 [] (adEvents a) = Ret ([] @ map (Some \<circ> decodedEvt env) (adEvents a))"
    by (rule loadEvts_all) (use ok in blast)+
  with a show ?thesis by (simp add: mongoLoadFrom_def aggLaws_find [OF assms(1)] mongoStream_def)
qed

text \<open>Appending records of events to a history, as a new document or to an existing one.\<close>

definition appendDoc :: "(evt \<Rightarrow> evt) \<Rightarrow> UUID \<Rightarrow> evt list \<Rightarrow> (UUID \<Rightarrow> aggDoc option) \<Rightarrow> UUID \<Rightarrow> aggDoc option" where
  "appendDoc recode aid vs ds = ds(aid \<mapsto>
     (case ds aid of
        None \<Rightarrow> \<lparr>adID = aid, adVersion = of_nat (length vs), adEvents = map recode vs\<rparr>
      | Some a \<Rightarrow> a\<lparr>adVersion := adVersion a + of_nat (length vs), adEvents := adEvents a @ map recode vs\<rparr>))"

lemma saveEvents_effect:
  assumes "aggLaws C docs recode" and "saveEvents C aid ov vs c d = (d', r)"
  shows "if r = Ret () then docs d' = appendDoc recode aid vs (docs d) \<and>
      (case docs d aid of None \<Rightarrow> ov = 0 | Some a \<Rightarrow> ov \<noteq> 0 \<and> adVersion a = ov)
    else docs d' = docs d"
proof (cases "ov = 0")
  case True
  obtain d1 r1 where ins: "InsertOne C c \<lparr>adID = aid, adVersion = of_nat (length vs), adEvents = vs\<rparr> d = (d1, r1)"
    by fastforce
  with True assms(2) have "d' = d1" "r = mapErr (Wrapf ''could not insert events (new)'') r1"
    by (auto simp: saveEvents_def)
  with aggLaws_insert [OF assms(1) ins] True show ?thesis by (auto simp: appendDoc_def)
next
  case False
  obtain d1 r1 where upd: "UpdateOne C c (ByIdVersion aid ov) (PushEvents vs (of_nat (length vs))) d = (d1, r1)"
    by fastforce
  with False assms(2) have d1: "d' = d1" and r: "r = Ret () \<longleftrightarrow> (\<exists>n. r1 = Ret n \<and> n \<noteq> 0)"
    by (auto simp: saveEvents_def split: outcome.splits if_splits)
  note law = aggLaws_update [OF assms(1) upd]
  show ?thesis
  proof (cases "r1 = Ret 1")
    case True
    with law obtain i a where a: "docs d i = Some a" "adID a = aid" "adVersion a = ov"
      "docs d1 = (docs d)(i \<mapsto> a\<lparr>adVersion := adVersion a + of_nat (length vs), adEvents := adEvents a @ map recode vs\<rparr>)"
      by auto
    with aggLaws_key [OF assms(1) a(1)] True False d1 r show ?thesis by (simp add: appendDoc_def)
  next
    case False
    with law have "docs d1 = docs d" "r \<noteq> Ret ()" using r by auto
    with d1 show ?thesis by simp
  qed
qed

text \<open>The same for the whole write, with or without a transaction.\<close>

lemma mongoStoreEvents_effect:
  assumes "aggLaws C docs recode" and "msInTX st \<noteq> None \<Longrightarrow> transactional S docs"
    and "mongoStoreEvents C S st fail aid ov vs events c (d, w) = ((d', w'), r)"
  shows "if r = Ret () then docs d' = appendDoc recode aid vs (docs d) \<and>
      (case docs d aid of None \<Rightarrow> ov = 0 | Some a \<Rightarrow> ov \<noteq> 0 \<and> adVersion a = ov)
    else docs d' = docs d"
proof (cases "msInTX st")
  case None
  obtain d1 r1 where sv: "saveEvents C aid ov vs c d = (d1, r1)" by fastforce
  with None assms(3) have "d' = d1" "r = mapErr fail r1" by (auto simp: mongoStoreEvents_def)
  with saveEvents_effect [OF assms(1) sv] show ?thesis by (auto split: if_splits)
next
  case (Some h)
  with assms(3) have tx: "inTransaction S fail fail (saveAndHandle C h aid ov vs events) c (d, w) = ((d', w'), r)"
    by (simp add: mongoStoreEvents_def)
  note eff = inTransaction_effect [OF assms(2) tx]
  show ?thesis
  proof (cases "r = Ret ()")
    case True
    with eff Some obtain c1 d1 w1 where d1: "docs d1 = docs d"
      and run: "saveAndHandle C h aid ov vs events c1 (d1, w1) = ((d', w'), Ret ())" by auto
    then have "saveEvents C aid ov vs c1 d1 = (d', Ret ())"
      by (auto simp: saveAndHandle_def split: prod.splits outcome.splits)
    from saveEvents_effect [OF assms(1) this] d1 True show ?thesis by simp
  next
    case False
    with eff Some show ?thesis by simp
  qed
qed

lemma mongoInv_append:
  assumes "mongoInv env ds" and "vs \<noteq> []" and "list_all2 (\<lambda>e v. decodeEvt env (recode v) = Ret e) es vs"
    and "serialFrom agt aid (of_nat (length (mongoStream env ds aid))) es"
  shows "mongoInv env (appendDoc recode aid vs ds) \<and>
    mongoStream env (appendDoc recode aid vs ds) = (mongoStream env ds)(aid := mongoStream env ds aid @ es)"
proof -
  let ?old = "case ds aid of None \<Rightarrow> [] | Some a \<Rightarrow> adEvents a"
  let ?new = "?old @ map recode vs"
  have len: "length (mongoStream env ds aid) = length ?old" by (simp add: mongoStream_def split: option.splits)
  have dec: "decodeEvt env (recode (vs ! i)) = Ret (es ! i)" if "i < length vs" for i
    using assms(3) that by (simp add: list_all2_conv_all_nth)
  have les: "length es = length vs" using assms(3) by (simp add: list_all2_lengthD)
  have "\<exists>ev. decodeEvt env (?new ! i) = Ret ev \<and> version ev = of_nat (Suc i) \<and> aggregateID ev = aid"
    if "i < length ?new" for i
  proof (cases "i < length ?old")
    case True
    then obtain a where a: "ds aid = Some a" by (auto split: option.splits)
    with assms(1) True show ?thesis by (auto simp: nth_append mongoInv_def docInv_def)
  next
    case False
    with that have "i - length ?old < length vs" by simp
    with dec [OF this] assms(4) les len False show ?thesis
      by (auto simp: nth_append serialFrom_def simp flip: of_nat_Suc of_nat_add)
  qed
  then have "docInv env aid (the (appendDoc recode aid vs ds aid))"
    using assms(1,2) by (auto simp: docInv_def appendDoc_def mongoInv_def split: option.splits)
  then have inv: "mongoInv env (appendDoc recode aid vs ds)"
    using assms(1) by (auto simp: mongoInv_def appendDoc_def)
  have "map (decodedEvt env) (map recode vs) = es"
    by (rule nth_equalityI) (use dec les in auto)
  then have "mongoStream env (appendDoc recode aid vs ds) = (mongoStream env ds)(aid := mongoStream env ds aid @ es)"
    by (auto simp: mongoStream_def appendDoc_def fun_eq_iff split: option.splits)
  with inv show ?thesis by blast
qed

text \<open>What a save does to the collection, whatever events and version it is given.\<close>

lemma mongoSave_docs:
  assumes "aggLaws C docs recode" and "msInTX st \<noteq> None \<Longrightarrow> transactional S docs"
    and "mongoSave env C S st c events ov (d, w) = ((d', w'), r)"
  shows "docs d' = docs d \<and> r \<noteq> Ret () \<or>
    (\<exists>es aid agt vs. events = map Some es \<and> es \<noteq> [] \<and> serialFrom agt aid ov es \<and>
       list_all2 (\<lambda>e v. newEvt env e = Ret v) es vs \<and> docs d' = appendDoc recode aid vs (docs d) \<and>
       (case docs d aid of None \<Rightarrow> ov = 0 | Some a \<Rightarrow> ov \<noteq> 0 \<and> adVersion a = ov) \<and>
       (r = Ret () \<or> (\<exists>x ev. r = Fail (EventHandlerError x ev)) \<or> (\<exists>p. r = Panic p)))"
proof (cases "events = [] \<or> hd events = None")
  case True
  with assms(3) have "d' = d \<and> r \<noteq> Ret ()" by (cases "events = []") (auto simp: mongoSave_def)
  then show ?thesis by simp
next
  case False
  then obtain e0 where e0: "events \<noteq> []" "hd events = Some e0" by auto
  define fail where "fail = (\<lambda>e. saveError e (aggregateType e0) (aggregateID e0) ov events)"
  define mk where "mk = (\<lambda>e. mapErr (\<lambda>x. fail (Wrapf ''could not copy event'' x)) (newEvt env e))"
  have run: "(case buildRecords mk fail (aggregateType e0) (aggregateID e0) ov 0 events of
      Fail e \<Rightarrow> ((d, w), Fail e) | Panic p \<Rightarrow> ((d, w), Panic p)
    | Ret vs \<Rightarrow>
        (case mongoStoreEvents C S st fail (aggregateID e0) ov vs events c (d, w) of
           ((d', w'), Ret _) \<Rightarrow> (case handleAfterSave (msAfterSave st) c events w' of (w2, r) \<Rightarrow> ((d', w2), r))
         | (dw', r) \<Rightarrow> (dw', r))) = ((d', w'), r)"
    using assms(3) e0 unfolding fail_def mk_def by (simp add: mongoSave_def Let_def)
  show ?thesis
  proof (cases "buildRecords mk fail (aggregateType e0) (aggregateID e0) ov 0 events")
    case (Ret vs)
    then obtain es where es: "events = map Some es" "serialFrom (aggregateType e0) (aggregateID e0) ov es"
      "list_all2 (\<lambda>e v. newEvt env e = Ret v) es vs"
      by (auto simp: buildRecords_Ret_iff mk_def)
    obtain d1 w1 r1 where st: "mongoStoreEvents C S st fail (aggregateID e0) ov vs events c (d, w) = ((d1, w1), r1)"
      by (metis surj_pair)
    note eff = mongoStoreEvents_effect [OF assms(1,2) st]
    show ?thesis
    proof (cases "r1 = Ret ()")
      case True
      obtain w2 r2 where h: "handleAfterSave (msAfterSave st) c events w1 = (w2, r2)" by fastforce
      with run Ret st True have "d' = d1" "r = r2" by auto
      moreover note handleAfterSave_result [OF h]
      ultimately show ?thesis using eff True es e0(1) by auto
    next
      case False
      then have "d' = d1" "r = r1" using run Ret st by (cases r1; auto)+
      with eff False show ?thesis by simp
    qed
  qed (use run in auto)
qed

lemma serialFrom_id: "serialFrom agt aid ov es \<Longrightarrow> es \<noteq> [] \<Longrightarrow> aggregateID (hd es) = aid"
  by (cases es) (auto simp: serialFrom_Cons)

text \<open>The contract of an event store, given the driver's promises.\<close>

lemma mongo_event_store:
  assumes "aggLaws C docs recode" and "msInTX st \<noteq> None \<Longrightarrow> transactional S docs"
  shows "event_store (mongoSave env C S st) (mongoLoadFrom env C)
    (\<lambda>dw. mongoStream env (docs (fst dw))) (mongoStorable env recode) (\<lambda>dw. mongoInv env (docs (fst dw)))"
proof (unfold_locales, goal_cases)
  case (1 dw i aid)
  then show ?case by (rule mongoStream_serial)
next
  case (2 dw aid c)
  then show ?case using mongoLoadFrom_stream [OF assms(1), of env "fst dw" aid c "snd dw"] by simp
next
  case (3 dw aid c)
  then show ?case
    by (auto simp: mongoLoadFrom_def mongoStream_empty_iff aggLaws_find [OF assms(1)])
next
  case (4 dw es agt aid c dw' r)
  obtain d w d' w' where dw: "dw = (d, w)" "dw' = (d', w')" by (metis surj_pair)
  note as = 4 [unfolded dw fst_conv]
  from mongoSave_docs [OF assms as(6)] show ?case
  proof
    assume "docs d' = docs d \<and> r \<noteq> Ret ()"
    with as(1) show ?thesis by (simp add: dw)
  next
    assume "\<exists>es' aid' agt' vs. map Some es = map Some es' \<and> es' \<noteq> [] \<and>
        serialFrom agt' aid' (of_nat (length (mongoStream env (docs d) aid))) es' \<and>
        list_all2 (\<lambda>e v. newEvt env e = Ret v) es' vs \<and> docs d' = appendDoc recode aid' vs (docs d) \<and>
        (case docs d aid' of None \<Rightarrow> of_nat (length (mongoStream env (docs d) aid)) = (0 :: gint)
         | Some a \<Rightarrow> of_nat (length (mongoStream env (docs d) aid)) \<noteq> (0 :: gint) \<and>
             adVersion a = of_nat (length (mongoStream env (docs d) aid))) \<and>
        (r = Ret () \<or> (\<exists>x ev. r = Fail (EventHandlerError x ev)) \<or> (\<exists>p. r = Panic p))"
    then obtain aid' agt' vs where vs: "list_all2 (\<lambda>e v. newEvt env e = Ret v) es vs"
      "docs d' = appendDoc recode aid' vs (docs d)"
      and ser: "serialFrom agt' aid' (of_nat (length (mongoStream env (docs d) aid))) es" by auto
    from serialFrom_id [OF ser as(2)] serialFrom_id [OF as(3,2)] have "aid' = aid" by simp
    have "list_all2 (\<lambda>e v. decodeEvt env (recode v) = Ret e) es vs"
      using vs(1) as(5) by (auto simp: list_all2_conv_all_nth mongoStorable_def) (metis nth_mem outcome.inject(1))
    moreover have "vs \<noteq> []" using vs(1) as(2) by auto
    ultimately show ?thesis using mongoInv_append [OF as(1) _ _ as(3)] vs(2) \<open>aid' = aid\<close> by (simp add: dw)
  qed
qed

section \<open>A concrete collection\<close>

text \<open>A list of documents in which an update puts the new version of a document in front.\<close>

definition demoDocs :: "aggDoc list \<Rightarrow> UUID \<Rightarrow> aggDoc option" where
  "demoDocs d i = find (\<lambda>a. adID a = i) d"

definition demoColl :: "aggDoc list aggColl" where
  "demoColl = \<lparr>
     InsertOne = (\<lambda>c a d. if demoDocs d (adID a) = None then (a # d, Ret ()) else (d, Fail (NewError ''duplicate key''))),
     UpdateOne = (\<lambda>c f u d.
       case find (\<lambda>a. demoDocs d (adID a) = Some a \<and> matchesAgg f a) d of
         None \<Rightarrow> (d, Ret 0) | Some a \<Rightarrow> (updateAgg id f u a # d, Ret 1)),
     UpdateMany = (\<lambda>c f u d. (map (\<lambda>a. if matchesAgg f a then updateAgg id f u a else a) d, Ret ())),
     FindOne = (\<lambda>c f d. case find (matchesAgg f) d of Some a \<Rightarrow> Ret a | None \<Rightarrow> Fail (Sentinel MongoErrNoDocuments)),
     CountDocuments = (\<lambda>c f d. (of_nat (length (filter (matchesAgg f) d)), None)),
     DropColl = (\<lambda>c d. ([], Ret ()))\<rparr>"

lemma demoDocs_simps [simp]:
  "demoDocs [] = Map.empty" "demoDocs (a # d) = (demoDocs d)(adID a \<mapsto> a)"
  by (auto simp: demoDocs_def fun_eq_iff)

lemma adID_updateAgg [simp]: "adID (updateAgg g f u a) = adID a"
  by (cases u) simp_all

lemma demoDocs_map:
  "(\<And>a. adID (g a) = adID a) \<Longrightarrow> demoDocs (map g d) = (\<lambda>i. map_option g (demoDocs d i))"
  by (induction d) (auto simp: fun_eq_iff)

lemma demoDocs_SomeD: "demoDocs d i = Some a \<Longrightarrow> a \<in> set d \<and> adID a = i"
  by (auto simp: demoDocs_def find_Some_iff)

lemma demoColl_update:
  "updateOneLaw demoColl demoDocs id"
  unfolding updateOneLaw_def
proof (intro allI impI)
  fix c f u d d' r assume run: "UpdateOne demoColl c f u d = (d', r)"
  show "if r = Ret 1 then \<exists>i a. demoDocs d i = Some a \<and> matchesAgg f a \<and> demoDocs d' = (demoDocs d)(i \<mapsto> updateAgg id f u a)
    else demoDocs d' = demoDocs d \<and> (is_Ret r \<longrightarrow> r = Ret 0 \<and> (\<forall>i a. demoDocs d i = Some a \<longrightarrow> \<not> matchesAgg f a))"
  proof (cases "find (\<lambda>a. demoDocs d (adID a) = Some a \<and> matchesAgg f a) d")
    case None
    with run show ?thesis by (auto simp: demoColl_def find_None_iff dest: demoDocs_SomeD)
  next
    case (Some a)
    then have "demoDocs d (adID a) = Some a" "matchesAgg f a" by (auto simp: find_Some_iff)
    with Some run show ?thesis by (auto simp: demoColl_def intro!: exI [of _ "adID a"] exI [of _ a])
  qed
qed

lemma demoColl_laws: "aggLaws demoColl demoDocs id"
proof -
  have "insertLaw demoColl demoDocs id" by (auto simp: insertLaw_def demoColl_def)
  moreover have "updateManyLaw demoColl demoDocs id"
    by (simp add: updateManyLaw_def demoColl_def demoDocs_map)
  moreover have "matchesAgg (ById i) = (\<lambda>a. adID a = i)" for i by (simp add: fun_eq_iff)
  then have "readLaw demoColl demoDocs" by (auto simp: readLaw_def demoColl_def demoDocs_def find_Some_iff)
  ultimately show ?thesis using demoColl_update by (simp add: aggLaws_def)
qed

definition demoBson :: dataCodec where
  "demoBson = \<lparr>dcFactories = newTypeRegistry ''event'', dc_Marshal = (\<lambda>_. Ret ''raw''), dc_Unmarshal = (\<lambda>_ d. Ret d)\<rparr>"

definition demoMongo :: "nat mongoStore" where
  "demoMongo = \<lparr>msOwnership = internalClient, msCollection = ''events'', msAfterSave = None,
     msInTX = Some (\<lambda>c e n. (Suc n, Ret ()))\<rparr>"

definition plainEvent :: "nat \<Rightarrow> event" where
  "plainEvent v = \<lparr>eventType = ''Created'', data = None, timestamp = 5, aggregateType = ''Demo'',
     aggregateID = 7, version = of_nat v, metadata = None\<rparr>"

lemma plainEvent_storable: "mongoStorable demoBson id (plainEvent v)"
  by (simp add: mongoStorable_def newEvt_def decodeEvt_def marshalData_def unmarshalData_def plainEvent_def
      NewEvent_def ForAggregate_def WithMetadata_def)

section \<open>Properties\<close>

text \<open>
  C7: the MongoDB event store stores all events of a save or none. For a driver that keeps its
  promises, with or without a handler in the transaction and with any failure of the driver or
  a handler: the invariant is kept, and either the collection is as before and the save returns
  an error, or the aggregate's history has grown by exactly the saved events, no other history
  changed, and loading the aggregate returns its old events followed by the new ones.
\<close>

theorem mongoSave_all_or_nothing:
  assumes "aggLaws C docs recode" and "transactional S docs" and "mongoInv env (docs d)"
    and "es \<noteq> []" and "\<forall>e \<in> set es. mongoStorable env recode e"
    and "serialFrom agt aid (of_nat (length (mongoStream env (docs d) aid))) es"
    and "length (mongoStream env (docs d) aid @ es) < 2 ^ 63"
    and "mongoSave env C S st c (map Some es) (of_nat (length (mongoStream env (docs d) aid))) (d, w) = ((d', w'), r)"
  shows "mongoInv env (docs d') \<and>
    (mongoStream env (docs d') = mongoStream env (docs d) \<and> r \<noteq> Ret () \<or>
     mongoStream env (docs d') = (mongoStream env (docs d))(aid := mongoStream env (docs d) aid @ es) \<and>
     mongoLoad env C c' aid (d', w') = ((d', w'), Ret (map Some (mongoStream env (docs d) aid @ es))))"
proof -
  note es = mongo_event_store [OF assms(1,2), where st = st and env = env]
  have len: "length (mongoStream env (docs d) aid) < 2 ^ 63" using assms(7) by simp
  have "mongoInv env (docs d') \<and>
    (mongoStream env (docs d') = (mongoStream env (docs d))(aid := mongoStream env (docs d) aid @ es) \<or>
     mongoStream env (docs d') = mongoStream env (docs d) \<and> r \<noteq> Ret ())"
    using event_store.save_effect [OF es, of "(d, w)" es agt aid c "(d', w')" r] assms len by simp
  then show ?thesis
    using event_store.load_stream [OF es, of "(d', w')" aid c'] assms(4,7) by (auto simp: mongoLoad_def)
qed

theorem mongoSave_all_or_nothing_witness:
  "\<exists>d' w' r. mongoSave demoBson demoColl demoSession demoMongo context_Background [Some (plainEvent 1)] 0 ([], 0) = ((d', w'), r) \<and>
     r = Ret () \<and> mongoLoad demoBson demoColl context_Background 7 (d', w') = ((d', w'), Ret [Some (plainEvent 1)])"
proof -
  obtain d' w' r where run: "mongoSave demoBson demoColl demoSession demoMongo context_Background
      [Some (plainEvent 1)] 0 ([], 0) = ((d', w'), r)" by (metis surj_pair)
  have "r = Ret ()" using run
    by (auto simp: mongoSave_def demoMongo_def mongoStoreEvents_def inTransaction_def demoSession_def saveAndHandle_def
        saveEvents_def demoColl_def handleAfterSave_def newEvt_def marshalData_def plainEvent_def)
  moreover have "mongoInv demoBson (demoDocs [])" by (simp add: mongoInv_def)
  moreover have "mongoStream demoBson (demoDocs []) 7 = []" by (simp add: mongoStream_def)
  moreover have "serialFrom ''Demo'' 7 0 [plainEvent 1]" by (simp add: serialFrom_Cons plainEvent_def)
  ultimately show ?thesis
    using mongoSave_all_or_nothing [OF demoColl_laws demoSession_transactional, of demoBson "[]" "[plainEvent 1]"
        "''Demo''" 7 demoMongo context_Background 0 d' w' r context_Background] run plainEvent_storable by auto
qed

text \<open>
  optimistic concurrency in the MongoDB event store. A save for an aggregate that exists
  fails and changes nothing unless the original version is the aggregate's version, whatever
  events it carries; in particular a second save of a new aggregate fails.
\<close>

theorem mongoSave_stale:
  assumes "aggLaws C docs recode" and "transactional S docs"
    and "docs d (aggregateID e) = Some a" and "ov = 0 \<or> adVersion a \<noteq> ov"
    and "mongoSave env C S st c (Some e # evs) ov (d, w) = ((d', w'), r)"
  shows "docs d' = docs d \<and> r \<noteq> Ret ()"
proof -
  from mongoSave_docs [OF assms(1,2,5)] show ?thesis
  proof
    assume "\<exists>es aid agt vs. Some e # evs = map Some es \<and> es \<noteq> [] \<and> serialFrom agt aid ov es \<and>
       list_all2 (\<lambda>e v. newEvt env e = Ret v) es vs \<and> docs d' = appendDoc recode aid vs (docs d) \<and>
       (case docs d aid of None \<Rightarrow> ov = 0 | Some a \<Rightarrow> ov \<noteq> 0 \<and> adVersion a = ov) \<and>
       (r = Ret () \<or> (\<exists>x ev. r = Fail (EventHandlerError x ev)) \<or> (\<exists>p. r = Panic p))"
    then obtain es aid agt where es: "Some e # evs = map Some es" "serialFrom agt aid ov es"
      "case docs d aid of None \<Rightarrow> ov = 0 | Some a \<Rightarrow> ov \<noteq> 0 \<and> adVersion a = ov" by (elim exE conjE) (rule that)
    then have "aid = aggregateID e" by (auto simp: Cons_eq_map_conv serialFrom_Cons)
    with es(3) assms(3,4) show ?thesis by simp
  qed
qed

theorem mongoSave_stale_witness:
  "\<exists>d' w' r. mongoSave demoBson demoColl demoSession demoMongo context_Background [Some (plainEvent 1)] 0
     ([\<lparr>adID = 7, adVersion = 1, adEvents = []\<rparr>], 0) = ((d', w'), r) \<and>
     demoDocs d' = demoDocs [\<lparr>adID = 7, adVersion = 1, adEvents = []\<rparr>] \<and> r \<noteq> Ret ()"
proof -
  let ?d = "[\<lparr>adID = 7, adVersion = 1, adEvents = []\<rparr>]"
  obtain d' w' r where run: "mongoSave demoBson demoColl demoSession demoMongo context_Background
      [Some (plainEvent 1)] 0 (?d, 0) = ((d', w'), r)" by (metis surj_pair)
  with mongoSave_stale [OF demoColl_laws demoSession_transactional _ _ run] show ?thesis
    by (auto simp: plainEvent_def)
qed



end
