(* ===== verification/EventStore_Mongo2.thy ===== *)
theory EventStore_Mongo2
  imports Mongo "HOL-Library.Multiset"
begin

text \<open>
  The MongoDB event store with one document per event (\<^verbatim>\<open>eventstore/mongodb_v2\<close>): a collection of
  events keyed by their global position, one of streams with a document per aggregate and the
  \<^verbatim>\<open>$all\<close> document that counts positions, and one of snapshots. The driver's operations on these
  collections are parameters on a database state \<open>'d\<close>.
\<close>

section \<open>Documents\<close>

record evt2 =
  ePosition :: gint
  eEventType :: string
  eTimestamp :: time
  eAggregateType :: string
  eAggregateID :: UUID
  eVersion :: gint
  eRawData :: string
  eMetadata :: "string \<rightharpoonup> gvalue"

record stream2 =
  sID :: UUID
  sPosition :: gint
  sAggregateType :: string
  sVersion :: gint
  sUpdatedAt :: time

record SnapshotRecord =
  srAggregateID :: UUID
  srRawData :: string
  srTimestamp :: time
  srVersion :: gint
  srAggregateType :: string

text \<open>The dynamic type of an inserted ID: a 32-bit or a 64-bit integer, or another type (its name and text).\<close>

datatype insertedID = Int32 "32 word" | Int64 "64 word" | OtherID string string

text \<open>
  The operations, one per query that the code writes. A call whose result is decoded afterwards
  returns the outcome of the call and in it the outcome of the decoding; a cursor is the list of
  the decoding outcomes that \<^verbatim>\<open>Next\<close> delivers.
\<close>

record 'd esColls =
  EnsureIndex :: "string \<Rightarrow> string \<Rightarrow> 'd \<Rightarrow> unit go"
  FindAllStream :: "ctx \<Rightarrow> 'd \<Rightarrow> unit go"
  InsertAllStream :: "ctx \<Rightarrow> gint \<Rightarrow> 'd \<Rightarrow> 'd \<times> unit go"
  IncAllPosition :: "ctx \<Rightarrow> gint \<Rightarrow> 'd \<Rightarrow> 'd \<times> gint go go"
  InsertEvents :: "ctx \<Rightarrow> evt2 list \<Rightarrow> 'd \<Rightarrow> 'd \<times> insertedID list go"
  InsertStream :: "ctx \<Rightarrow> stream2 \<Rightarrow> 'd \<Rightarrow> 'd \<times> unit go"
  UpdateStream :: "ctx \<Rightarrow> UUID \<Rightarrow> gint \<Rightarrow> gint \<Rightarrow> time \<Rightarrow> gint \<Rightarrow> 'd \<Rightarrow> 'd \<times> gint go"
  IsDuplicateKeyError :: "err \<Rightarrow> bool"
  FindEvents :: "ctx \<Rightarrow> UUID \<Rightarrow> gint option \<Rightarrow> bool \<Rightarrow> 'd \<Rightarrow> evt2 go list go"
  CountEvents :: "ctx \<Rightarrow> UUID \<Rightarrow> 'd \<Rightarrow> gint go"
  FindEvent :: "ctx \<Rightarrow> UUID \<Rightarrow> gint \<Rightarrow> 'd \<Rightarrow> evt2 go go"
  ReplaceEvent :: "ctx \<Rightarrow> UUID \<Rightarrow> gint \<Rightarrow> evt2 \<Rightarrow> 'd \<Rightarrow> 'd \<times> gint go"
  RenameEvents :: "ctx \<Rightarrow> string \<Rightarrow> string \<Rightarrow> 'd \<Rightarrow> 'd \<times> unit go"
  DropEvents :: "ctx \<Rightarrow> 'd \<Rightarrow> 'd \<times> unit go"
  DropStreams :: "ctx \<Rightarrow> 'd \<Rightarrow> 'd \<times> unit go"
  InsertSnapshot :: "ctx \<Rightarrow> SnapshotRecord \<Rightarrow> 'd \<Rightarrow> 'd \<times> unit go"
  FindSnapshot :: "ctx \<Rightarrow> UUID \<Rightarrow> 'd \<Rightarrow> SnapshotRecord go go"

section \<open>Construction\<close>

datatype GlobalPositionStrategy = GlobalPositionInTX | GlobalPositionOutsideTX

record 'w mongoStore2 =
  m2Ownership :: clientOwnership
  m2Events :: string
  m2Streams :: string
  m2Snapshots :: string
  m2AfterSave :: "'w HandleEventFn option"
  m2InTX :: "'w HandleEventFn option"
  sortEventsOnDB :: bool
  globalPositionStrategy :: GlobalPositionStrategy

type_synonym 'w mongoOption2 = "'w mongoStore2 \<Rightarrow> 'w mongoStore2 go"

fun applyMongoOptions2 :: "'w mongoOption2 list \<Rightarrow> 'w mongoStore2 \<Rightarrow> 'w mongoStore2 go" where
  "applyMongoOptions2 [] s = Ret s"
| "applyMongoOptions2 (opt # opts) s =
     obind (mapErr (Wrapf ''error while applying option'') (opt s)) (applyMongoOptions2 opts)"

definition ensureIndexes :: "'d esColls \<Rightarrow> 'w mongoStore2 \<Rightarrow> 'd \<Rightarrow> unit go" where
  "ensureIndexes C s d =
     obind (mapErr (Wrapf ''could not ensure events index'') (EnsureIndex C (m2Events s) ''aggregate_id'' d)) (\<lambda>_.
     obind (mapErr (Wrapf ''could not ensure events index'') (EnsureIndex C (m2Events s) ''version'' d)) (\<lambda>_.
     obind (mapErr (Wrapf ''could not ensure snapshot aggregate_id index'') (EnsureIndex C (m2Snapshots s) ''aggregate_id'' d)) (\<lambda>_.
     mapErr (Wrapf ''could not ensure snapshot version index'') (EnsureIndex C (m2Snapshots s) ''version'' d))))"

definition ensureAllStream :: "'d esColls \<Rightarrow> 'd \<Rightarrow> 'd \<times> unit go" where
  "ensureAllStream C d =
     (case FindAllStream C context_Background d of
        Ret _ \<Rightarrow> (d, Ret ())
      | Panic p \<Rightarrow> (d, Panic p)
      | Fail x \<Rightarrow>
          if errors_Is x MongoErrNoDocuments then
            (case InsertAllStream C context_Background 0 d of
               (d', r) \<Rightarrow> (d', mapErr (Wrapf ''could not create the $all stream document'') r))
          else (d, Fail (Wrapf ''could not find the $all stream document'' x)))"

definition newMongoStore2WithClient ::
    "'d esColls \<Rightarrow> 'c option \<Rightarrow> clientOwnership \<Rightarrow> unit go \<Rightarrow> 'w mongoOption2 list \<Rightarrow> 'd \<Rightarrow> 'd \<times> 'w mongoStore2 go" where
  "newMongoStore2WithClient C client owner ping options d =
     (if client = None then (d, Fail (NewError ''missing DB client''))
      else case obind (applyMongoOptions2 options
                 \<lparr>m2Ownership = owner, m2Events = ''events'', m2Streams = ''streams'', m2Snapshots = ''snapshots'',
                  m2AfterSave = None, m2InTX = None, sortEventsOnDB = False, globalPositionStrategy = GlobalPositionInTX\<rparr>)
               (\<lambda>s. obind (mapErr (Wrapf ''could not connect to MongoDB'') ping) (\<lambda>_.
                    obind (ensureIndexes C s d) (\<lambda>_. Ret s))) of
        Fail x \<Rightarrow> (d, Fail x)
      | Panic p \<Rightarrow> (d, Panic p)
      | Ret s \<Rightarrow> (case ensureAllStream C d of (d', r) \<Rightarrow> (d', obind r (\<lambda>_. Ret s))))"

definition NewMongoStore2 ::
    "'d esColls \<Rightarrow> 'c go \<Rightarrow> unit go \<Rightarrow> 'w mongoOption2 list \<Rightarrow> 'd \<Rightarrow> 'd \<times> 'w mongoStore2 go" where
  "NewMongoStore2 C connect ping options d =
     (case mapErr (Wrapf ''could not connect to DB'') connect of
        Fail x \<Rightarrow> (d, Fail x)
      | Panic p \<Rightarrow> (d, Panic p)
      | Ret client \<Rightarrow> newMongoStore2WithClient C (Some client) internalClient ping options d)"

definition WithMongo2Handler :: "'w HandleEventFn \<Rightarrow> 'w mongoOption2" where
  "WithMongo2Handler h s =
     (if m2AfterSave s \<noteq> None then Fail (NewError ''another event handler is already set'')
      else if m2InTX s \<noteq> None then Fail (NewError ''another TX event handler is already set'')
      else Ret (s\<lparr>m2AfterSave := Some h\<rparr>))"

definition WithMongo2HandlerInTX :: "'w HandleEventFn \<Rightarrow> 'w mongoOption2" where
  "WithMongo2HandlerInTX h s =
     (if m2AfterSave s \<noteq> None then Fail (NewError ''another event handler is already set'')
      else if m2InTX s \<noteq> None then Fail (NewError ''another TX event handler is already set'')
      else Ret (s\<lparr>m2InTX := Some h\<rparr>))"

definition WithCollectionNames :: "string \<Rightarrow> string \<Rightarrow> 'w mongoOption2" where
  "WithCollectionNames eventsColl streamsColl s =
     obind (mapErr (Wrapf ''events collection'') (CheckCollectionName eventsColl)) (\<lambda>_.
     obind (mapErr (Wrapf ''streams collection'') (CheckCollectionName streamsColl)) (\<lambda>_.
     if eventsColl = streamsColl then Fail (NewError ''custom collection names are equal'')
     else Ret (s\<lparr>m2Events := eventsColl, m2Streams := streamsColl\<rparr>)))"

definition WithSnapshotCollectionName :: "string \<Rightarrow> 'w mongoOption2" where
  "WithSnapshotCollectionName snapshotColl s =
     obind (mapErr (Wrapf ''snapshot collection'') (CheckCollectionName snapshotColl))
       (\<lambda>_. Ret (s\<lparr>m2Snapshots := snapshotColl\<rparr>))"

definition WithSortEventsOnDB :: "'w mongoOption2" where
  "WithSortEventsOnDB s = Ret (s\<lparr>sortEventsOnDB := True\<rparr>)"

definition WithGlobalPositionStrategy :: "GlobalPositionStrategy \<Rightarrow> 'w mongoOption2" where
  "WithGlobalPositionStrategy strategy s = Ret (s\<lparr>globalPositionStrategy := strategy\<rparr>)"

definition mongo2Close :: "unit go \<Rightarrow> 'w mongoStore2 \<Rightarrow> unit go" where
  "mongo2Close disconnect s = closeClient (m2Ownership s) disconnect"

section \<open>Saving\<close>

text \<open>\<^verbatim>\<open>newEvt\<close>: the metadata map is cloned, a nil one replaced by an empty one.\<close>

definition newEvt2 :: "dataCodec \<Rightarrow> event \<Rightarrow> evt2 go" where
  "newEvt2 env e =
     obind (mapErr (\<lambda>x. EventStoreError (Some x) '''' '''' uuid_Nil 0 []) (marshalData env (data e))) (\<lambda>raw.
       Ret \<lparr>ePosition = 0, eEventType = eventType e, eTimestamp = timestamp e, eAggregateType = aggregateType e,
            eAggregateID = aggregateID e, eVersion = version e, eRawData = raw,
            eMetadata = (case metadata e of None \<Rightarrow> Map.empty | Some m \<Rightarrow> m)\<rparr>)"

definition atPosition :: "gint \<Rightarrow> evt2 \<Rightarrow> evt2" where
  "atPosition p e = e\<lparr>ePosition := p, eMetadata := (eMetadata e)(''position'' \<mapsto> GInt p)\<rparr>"

text \<open>The loop that numbers the events after the position \<open>p\<close>.\<close>

fun assignPositions :: "gint \<Rightarrow> evt2 list \<Rightarrow> evt2 list" where
  "assignPositions p [] = []"
| "assignPositions p (e # es) = atPosition (p + 1) e # assignPositions (p + 1) es"

text \<open>\<^verbatim>\<open>verifyInsertedPositions\<close>; \<open>findInserted\<close> is its inner loop.\<close>

fun findInserted :: "(UUID \<Rightarrow> string) \<Rightarrow> evt2 \<Rightarrow> insertedID list \<Rightarrow> bool go" where
  "findInserted us e [] = Ret False"
| "findInserted us e (Int32 p # ids) = (if ePosition e = scast p then Ret True else findInserted us e ids)"
| "findInserted us e (Int64 p # ids) = (if ePosition e = p then Ret True else findInserted us e ids)"
| "findInserted us e (OtherID ty val # ids) =
     Fail (NewError (''unexpected inserted ID type '' @ ty @ '' ('' @ val @ '') for event '' @ us (eAggregateID e) @
       '' at pos '' @ show_gint (ePosition e)))"

fun verifyInsertedPositions :: "(UUID \<Rightarrow> string) \<Rightarrow> evt2 list \<Rightarrow> insertedID list \<Rightarrow> unit go" where
  "verifyInsertedPositions us [] ids = Ret ()"
| "verifyInsertedPositions us (e # es) ids =
     obind (findInserted us e ids) (\<lambda>found.
       if found then verifyInsertedPositions us es ids
       else Fail (NewError (''inserted event '' @ us (eAggregateID e) @ '' at pos '' @ show_gint (ePosition e) @
              '' not found in inserted IDs'')))"

definition updateGlobalPosition :: "'d esColls \<Rightarrow> ctx \<Rightarrow> nat \<Rightarrow> 'd \<Rightarrow> 'd \<times> gint go" where
  "updateGlobalPosition C c n d =
     (case IncAllPosition C c (of_nat n) d of
        (d', Fail x) \<Rightarrow> (d', Fail (Wrapf ''could not increment global position'' x))
      | (d', Panic p) \<Rightarrow> (d', Panic p)
      | (d', Ret r) \<Rightarrow> (d', mapErr (Wrapf ''could not decode global position'') r))"

definition updateStreamForEntity :: "'d esColls \<Rightarrow> ctx \<Rightarrow> evt2 list \<Rightarrow> gint \<Rightarrow> 'd \<Rightarrow> 'd \<times> unit go" where
  "updateStreamForEntity C c dbEvents ov d =
     (let l = last dbEvents in
      if ov = 0 then
        (case InsertStream C c \<lparr>sID = eAggregateID l, sPosition = ePosition l, sAggregateType = eAggregateType l,
                                sVersion = eVersion l, sUpdatedAt = eTimestamp l\<rparr> d of
           (d', Fail x) \<Rightarrow> (d', Fail (if IsDuplicateKeyError C x then Sentinel ErrEventConflictFromOtherSave
                                     else Wrapf ''could not insert stream'' x))
         | (d', r) \<Rightarrow> (d', r))
      else
        (case UpdateStream C c (eAggregateID l) ov (ePosition l) (eTimestamp l) (of_nat (length dbEvents)) d of
           (d', Fail x) \<Rightarrow> (d', Fail (Wrapf ''could not update stream'' x))
         | (d', Panic p) \<Rightarrow> (d', Panic p)
         | (d', Ret n) \<Rightarrow> (d', if n = 0 then Fail (Sentinel ErrEventConflictFromOtherSave) else Ret ())))"

definition insertEvents :: "(UUID \<Rightarrow> string) \<Rightarrow> 'd esColls \<Rightarrow> ctx \<Rightarrow> evt2 list \<Rightarrow> 'd \<Rightarrow> 'd \<times> unit go" where
  "insertEvents us C c dbEvents d =
     (case InsertEvents C c dbEvents d of
        (d', Fail x) \<Rightarrow> (d', Fail (Wrapf ''could not insert events'' x))
      | (d', Panic p) \<Rightarrow> (d', Panic p)
      | (d', Ret ids) \<Rightarrow> (d', verifyInsertedPositions us dbEvents ids))"

definition handleTX ::
    "'w mongoStore2 \<Rightarrow> ctx \<Rightarrow> event option list \<Rightarrow> 'd \<times> 'w \<Rightarrow> ('d \<times> 'w) \<times> unit go" where
  "handleTX st c events dw =
     (case m2InTX st of
        None \<Rightarrow> (dw, Ret ())
      | Some h \<Rightarrow> (case handleInTX h c events (snd dw) of (w', r) \<Rightarrow> ((fst dw, w'), r)))"

text \<open>The functions that run in the transactions of the two strategies.\<close>

definition bodyInTX ::
    "(UUID \<Rightarrow> string) \<Rightarrow> 'd esColls \<Rightarrow> 'w mongoStore2 \<Rightarrow> event option list \<Rightarrow> evt2 list \<Rightarrow> gint \<Rightarrow>
     ctx \<Rightarrow> 'd \<times> 'w \<Rightarrow> ('d \<times> 'w) \<times> unit go" where
  "bodyInTX us C st events dbEvents ov c dw =
     (case updateGlobalPosition C c (length dbEvents) (fst dw) of
        (d1, Fail x) \<Rightarrow> ((d1, snd dw), Fail x)
      | (d1, Panic p) \<Rightarrow> ((d1, snd dw), Panic p)
      | (d1, Ret p) \<Rightarrow>
          (let evs = assignPositions p dbEvents in
           case insertEvents us C c evs d1 of
             (d2, Ret _) \<Rightarrow>
               (case updateStreamForEntity C c evs ov d2 of
                  (d3, Ret _) \<Rightarrow> handleTX st c events (d3, snd dw)
                | (d3, r) \<Rightarrow> ((d3, snd dw), r))
           | (d2, r) \<Rightarrow> ((d2, snd dw), r)))"

definition bodyOutsideTX ::
    "(UUID \<Rightarrow> string) \<Rightarrow> 'd esColls \<Rightarrow> 'w mongoStore2 \<Rightarrow> event option list \<Rightarrow> evt2 list \<Rightarrow> gint \<Rightarrow>
     ctx \<Rightarrow> 'd \<times> 'w \<Rightarrow> ('d \<times> 'w) \<times> unit go" where
  "bodyOutsideTX us C st events evs ov c dw =
     (case updateStreamForEntity C c evs ov (fst dw) of
        (d1, Ret _) \<Rightarrow>
          (case insertEvents us C c evs d1 of
             (d2, Ret _) \<Rightarrow> handleTX st c events (d2, snd dw)
           | (d2, r) \<Rightarrow> ((d2, snd dw), r))
      | (d1, r) \<Rightarrow> ((d1, snd dw), r))"

definition saveInTX ::
    "(UUID \<Rightarrow> string) \<Rightarrow> 'd esColls \<Rightarrow> ('d, 'w) mongoSession \<Rightarrow> 'w mongoStore2 \<Rightarrow> (err \<Rightarrow> err) \<Rightarrow> event option list \<Rightarrow>
     evt2 list \<Rightarrow> gint \<Rightarrow> ctx \<Rightarrow> 'd \<times> 'w \<Rightarrow> ('d \<times> 'w) \<times> unit go" where
  "saveInTX us C S st fail events dbEvents ov c dw =
     inTransaction S fail fail (bodyInTX us C st events dbEvents ov) c dw"

definition saveOutsideTX ::
    "(UUID \<Rightarrow> string) \<Rightarrow> 'd esColls \<Rightarrow> ('d, 'w) mongoSession \<Rightarrow> 'w mongoStore2 \<Rightarrow> (err \<Rightarrow> err) \<Rightarrow> event option list \<Rightarrow>
     evt2 list \<Rightarrow> gint \<Rightarrow> ctx \<Rightarrow> 'd \<times> 'w \<Rightarrow> ('d \<times> 'w) \<times> unit go" where
  "saveOutsideTX us C S st fail events dbEvents ov c dw =
     (case updateGlobalPosition C c (length dbEvents) (fst dw) of
        (d1, Fail x) \<Rightarrow> ((d1, snd dw), Fail (fail x))
      | (d1, Panic p) \<Rightarrow> ((d1, snd dw), Panic p)
      | (d1, Ret p) \<Rightarrow>
          inTransaction S fail fail (bodyOutsideTX us C st events (assignPositions p dbEvents) ov) c (d1, snd dw))"

definition mongo2Save ::
    "(UUID \<Rightarrow> string) \<Rightarrow> dataCodec \<Rightarrow> 'd esColls \<Rightarrow> ('d, 'w) mongoSession \<Rightarrow> 'w mongoStore2 \<Rightarrow> ctx \<Rightarrow> event option list \<Rightarrow>
     gint \<Rightarrow> 'd \<times> 'w \<Rightarrow> ('d \<times> 'w) \<times> unit go" where
  "mongo2Save us env C S st c events ov dw =
     (if events = [] then
        (dw, Fail (EventStoreError (Some (Sentinel ErrMissingEvents)) EventStoreOpSave '''' uuid_Nil 0 []))
      else case hd events of
        None \<Rightarrow> (dw, nilDeref)
      | Some e0 \<Rightarrow>
          let aid = aggregateID e0;
              agt = aggregateType e0;
              fail = (\<lambda>e. saveError e agt aid ov events)
          in case buildRecords (newEvt2 env) fail agt aid ov 0 events of
               Fail e \<Rightarrow> (dw, Fail e)
             | Panic p \<Rightarrow> (dw, Panic p)
             | Ret dbEvents \<Rightarrow>
                 (case (case globalPositionStrategy st of
                          GlobalPositionOutsideTX \<Rightarrow> saveOutsideTX us C S st fail events dbEvents ov c dw
                        | GlobalPositionInTX \<Rightarrow> saveInTX us C S st fail events dbEvents ov c dw) of
                    ((d', w'), Ret _) \<Rightarrow>
                      (case handleAfterSave (m2AfterSave st) c events w' of (w2, r) \<Rightarrow> ((d', w2), r))
                  | (dw', r) \<Rightarrow> (dw', r)))"

section \<open>Loading\<close>

definition decodeEvt2 :: "dataCodec \<Rightarrow> evt2 \<Rightarrow> event go" where
  "decodeEvt2 env e = obind (unmarshalData env (eEventType e) (eRawData e)) (\<lambda>d.
     Ret (NewEvent (eEventType e) d (eTimestamp e)
       [ForAggregate (eAggregateType e) (eAggregateID e) (eVersion e), WithMetadata (Some (eMetadata e))]))"

text \<open>The loop over the cursor; \<open>done\<close> holds the events appended so far.\<close>

fun cursorLoop :: "dataCodec \<Rightarrow> UUID \<Rightarrow> event list \<Rightarrow> evt2 go list \<Rightarrow> event list go" where
  "cursorLoop env aid done [] = Ret done"
| "cursorLoop env aid done (r # rs) =
     (case r of
        Fail x \<Rightarrow> Fail (EventStoreError (Some (Wrapf ''could not decode event'' x)) EventStoreOpLoad '''' aid 0 (map Some done))
      | Panic p \<Rightarrow> Panic p
      | Ret e \<Rightarrow>
          (case decodeEvt2 env e of
             Ret ev \<Rightarrow> cursorLoop env aid (done @ [ev]) rs
           | Fail x \<Rightarrow> Fail (EventStoreError (Some x) EventStoreOpLoad (eAggregateType e) aid (eVersion e) (map Some done))
           | Panic p \<Rightarrow> Panic p))"

definition loadFromCursor :: "dataCodec \<Rightarrow> UUID \<Rightarrow> evt2 go list \<Rightarrow> event option list go" where
  "loadFromCursor env aid cursor = obind (cursorLoop env aid [] cursor) (\<lambda>events.
     if events = [] then Fail (EventStoreError (Some (Sentinel ErrAggregateNotFound)) EventStoreOpLoad '''' aid 0 [])
     else Ret (map Some events))"

definition mongo2Find ::
    "dataCodec \<Rightarrow> 'd esColls \<Rightarrow> 'w mongoStore2 \<Rightarrow> ctx \<Rightarrow> UUID \<Rightarrow> gint option \<Rightarrow> 'd \<times> 'w \<Rightarrow> ('d \<times> 'w) \<times> event option list go" where
  "mongo2Find env C st c aid v dw =
     (dw, obind (mapErr (\<lambda>x. EventStoreError (Some (Wrapf ''could not find event'' x)) EventStoreOpLoad '''' aid 0 [])
                  (FindEvents C c aid v (sortEventsOnDB st) (fst dw)))
            (loadFromCursor env aid))"

definition mongo2Load ::
    "dataCodec \<Rightarrow> 'd esColls \<Rightarrow> 'w mongoStore2 \<Rightarrow> ctx \<Rightarrow> UUID \<Rightarrow> 'd \<times> 'w \<Rightarrow> ('d \<times> 'w) \<times> event option list go" where
  "mongo2Load env C st c aid dw = mongo2Find env C st c aid None dw"

definition mongo2LoadFrom ::
    "dataCodec \<Rightarrow> 'd esColls \<Rightarrow> 'w mongoStore2 \<Rightarrow> ctx \<Rightarrow> UUID \<Rightarrow> gint \<Rightarrow> 'd \<times> 'w \<Rightarrow> ('d \<times> 'w) \<times> event option list go" where
  "mongo2LoadFrom env C st c aid v dw = mongo2Find env C st c aid (Some v) dw"

section \<open>Snapshots\<close>

text \<open>
  The coding of snapshots: JSON of the snapshot (decoded into one whose state was created by the
  registered factory), compressed by gzip.
\<close>

record snapEnv =
  snapFactories :: "(UUID \<Rightarrow> EventData) typeRegistry"
  snap_Marshal :: "Snapshot \<Rightarrow> string go"
  snap_Unmarshal :: "string \<Rightarrow> EventData \<Rightarrow> Snapshot go"
  gzip_compress :: "string \<Rightarrow> string go"
  gzip_decompress :: "string \<Rightarrow> string go"

definition snapshotError :: "string \<Rightarrow> UUID \<Rightarrow> err \<Rightarrow> err" where
  "snapshotError op aid x = EventStoreError (Some x) op '''' aid 0 []"

definition mongo2LoadSnapshot :: "snapEnv \<Rightarrow> 'd esColls \<Rightarrow> ctx \<Rightarrow> UUID \<Rightarrow> 'd \<Rightarrow> 'd \<times> Snapshot option go" where
  "mongo2LoadSnapshot env C c aid d =
     (d, case FindSnapshot C c aid d of
           Fail x \<Rightarrow> if errors_Is x MongoErrNoDocuments then Ret None else Fail x
         | Panic p \<Rightarrow> Panic p
         | Ret dec \<Rightarrow>
             (let fail = snapshotError EventStoreOpLoadSnapshot aid in
              obind (mapErr (\<lambda>x. fail (Wrapf ''could not decode snapshot'' x)) dec) (\<lambda>rec.
              obind (mapErr (\<lambda>x. fail (Wrapf ''could not decode snapshot'' x))
                      (CreateSnapshotData (snapFactories env) (srAggregateID rec) (srAggregateType rec))) (\<lambda>st.
              obind (mapErr (\<lambda>x. fail (Wrapf ''could not decompress snapshot'' x)) (gzip_decompress env (srRawData rec))) (\<lambda>raw.
              obind (mapErr (\<lambda>x. fail (Wrapf ''could not decode snapshot'' x)) (snap_Unmarshal env raw st)) (\<lambda>sn.
              Ret (Some sn)))))))"

definition mongo2SaveSnapshot :: "snapEnv \<Rightarrow> 'd esColls \<Rightarrow> time \<Rightarrow> ctx \<Rightarrow> UUID \<Rightarrow> Snapshot \<Rightarrow> 'd \<Rightarrow> 'd \<times> unit go" where
  "mongo2SaveSnapshot env C now c aid snapshot d =
     (if snapAggregateType snapshot = '''' then
        (d, Fail (EventStoreError (Some (NewError ''aggregate type is empty'')) EventStoreOpSaveSnapshot (snapAggregateType snapshot) aid 0 []))
      else if snapState snapshot = None then
        (d, Fail (EventStoreError (Some (NewError ''snapshots state is nil'')) EventStoreOpSaveSnapshot (snapAggregateType snapshot) aid 0 []))
      else case snap_Marshal env snapshot of
        Fail x \<Rightarrow> (d, Fail x)
      | Panic p \<Rightarrow> (d, Panic p)
      | Ret raw \<Rightarrow>
          (case gzip_compress env raw of
             Fail x \<Rightarrow> (d, Fail (snapshotError EventStoreOpSaveSnapshot aid (Wrapf ''could not compress snapshot'' x)))
           | Panic p \<Rightarrow> (d, Panic p)
           | Ret z \<Rightarrow>
               (case InsertSnapshot C c \<lparr>srAggregateID = aid, srRawData = z, srTimestamp = now,
                                         srVersion = snapVersion snapshot, srAggregateType = snapAggregateType snapshot\<rparr> d of
                  (d', r) \<Rightarrow> (d', mapErr (\<lambda>x. snapshotError EventStoreOpSaveSnapshot aid (Wrapf ''could not save snapshot'' x)) r))))"

section \<open>Maintenance\<close>

definition bodyReplace ::
    "dataCodec \<Rightarrow> 'd esColls \<Rightarrow> event \<Rightarrow> ctx \<Rightarrow> 'd \<times> 'w \<Rightarrow> ('d \<times> 'w) \<times> unit go" where
  "bodyReplace env C e c dw =
     (case CountEvents C c (aggregateID e) (fst dw) of
        Fail x \<Rightarrow> (dw, Fail x)
      | Panic p \<Rightarrow> (dw, Panic p)
      | Ret n \<Rightarrow>
          if n = 0 then (dw, Fail (Sentinel ErrAggregateNotFound))
          else
            (case obind (newEvt2 env e) (\<lambda>v.
                    obind (mapErr (\<lambda>x. if errors_Is x MongoErrNoDocuments then Sentinel ErrEventNotFound
                                        else Wrapf ''could not find original event'' x)
                            (FindEvent C c (aggregateID e) (version e) (fst dw))) (\<lambda>dec.
                    obind (mapErr (Wrapf ''could not decode event'') dec) (\<lambda>old.
                    Ret (atPosition (ePosition old) v)))) of
               Fail x \<Rightarrow> (dw, Fail x)
             | Panic p \<Rightarrow> (dw, Panic p)
             | Ret v \<Rightarrow>
                 (case ReplaceEvent C c (aggregateID e) (version e) v (fst dw) of
                    (d', Fail x) \<Rightarrow> ((d', snd dw), Fail x)
                  | (d', Panic p) \<Rightarrow> ((d', snd dw), Panic p)
                  | (d', Ret m) \<Rightarrow>
                      ((d', snd dw), if m = 0 then Fail (NewError ''could not find original event to replace'') else Ret ()))))"

definition mongo2Replace ::
    "dataCodec \<Rightarrow> 'd esColls \<Rightarrow> ('d, 'w) mongoSession \<Rightarrow> ctx \<Rightarrow> event option \<Rightarrow> 'd \<times> 'w \<Rightarrow> ('d \<times> 'w) \<times> unit go" where
  "mongo2Replace env C S c event dw =
     (case event of
        None \<Rightarrow> (dw, nilDeref)
      | Some e \<Rightarrow>
          inTransaction S
            (\<lambda>x. EventStoreError (Some x) EventStoreOpSave (aggregateType e) (aggregateID e) (version e) [Some e])
            (\<lambda>x. EventStoreError (Some x) EventStoreOpReplace (aggregateType e) (aggregateID e) (version e) [Some e])
            (bodyReplace env C e) c dw)"

definition mongo2RenameEvent :: "'d esColls \<Rightarrow> ctx \<Rightarrow> string \<Rightarrow> string \<Rightarrow> 'd \<Rightarrow> 'd \<times> unit go" where
  "mongo2RenameEvent C c from to d =
     (case RenameEvents C c from to d of
        (d', r) \<Rightarrow> (d', mapErr (\<lambda>x. EventStoreError
           (Some (Wrapf (''could not update events of type '' @ [CHR 0x27] @ from @ [CHR 0x27]) x))
           EventStoreOpRename '''' uuid_Nil 0 []) r))"

definition mongo2Clear :: "'d esColls \<Rightarrow> ctx \<Rightarrow> 'd \<Rightarrow> 'd \<times> unit go" where
  "mongo2Clear C c d =
     (case DropEvents C c d of
        (d1, Fail x) \<Rightarrow> (d1, Fail (EventStoreError (Some (Wrapf ''could not clear events collection'' x)) '''' '''' uuid_Nil 0 []))
      | (d1, Panic p) \<Rightarrow> (d1, Panic p)
      | (d1, Ret _) \<Rightarrow>
          (case DropStreams C c d1 of
             (d2, r) \<Rightarrow> (d2, mapErr (\<lambda>x. EventStoreError (Some (Wrapf ''could not clear streams collection'' x)) '''' '''' uuid_Nil 0 []) r)))"

section \<open>The driver's promises\<close>

text \<open>
  What the store sees of the database: the position of the \<^verbatim>\<open>$all\<close> document if there is one, the
  event documents in the order of their insertion, the stream documents and the snapshots.
  \<open>recode\<close> is what an event document becomes when it is encoded and decoded.
\<close>

record m2view =
  vAll :: "gint option"
  vEvents :: "evt2 list"
  vStreams :: "UUID \<Rightarrow> stream2 option"
  vSnapshots :: "SnapshotRecord list"

text \<open>\<^verbatim>\<open>FindOneAndUpdate\<close> with \<^verbatim>\<open>$inc\<close> is atomic and returns the document as it was before.\<close>

definition incLaw :: "'d esColls \<Rightarrow> ('d \<Rightarrow> m2view) \<Rightarrow> bool" where
  "incLaw C view \<longleftrightarrow> (\<forall>c n d d' r. IncAllPosition C c n d = (d', r) \<longrightarrow>
     (if is_Ret r then \<exists>p. vAll (view d) = Some p \<and> view d' = (view d)\<lparr>vAll := Some (p + n)\<rparr> \<and> (\<forall>q. r = Ret (Ret q) \<longrightarrow> q = p)
      else view d' = view d))"

definition insertEventsLaw :: "'d esColls \<Rightarrow> ('d \<Rightarrow> m2view) \<Rightarrow> (evt2 \<Rightarrow> evt2) \<Rightarrow> bool" where
  "insertEventsLaw C view recode \<longleftrightarrow> (\<forall>c es d d' ids. InsertEvents C c es d = (d', Ret ids) \<longrightarrow>
     view d' = (view d)\<lparr>vEvents := vEvents (view d) @ map recode es\<rparr>)"

definition insertStreamLaw :: "'d esColls \<Rightarrow> ('d \<Rightarrow> m2view) \<Rightarrow> bool" where
  "insertStreamLaw C view \<longleftrightarrow> (\<forall>c s d d'. InsertStream C c s d = (d', Ret ()) \<longrightarrow>
     vStreams (view d) (sID s) = None \<and>
     (\<exists>t. view d' = (view d)\<lparr>vStreams := (vStreams (view d))(sID s \<mapsto> s\<lparr>sUpdatedAt := t\<rparr>)\<rparr>))"

definition updateStreamLaw :: "'d esColls \<Rightarrow> ('d \<Rightarrow> m2view) \<Rightarrow> bool" where
  "updateStreamLaw C view \<longleftrightarrow> (\<forall>c i v p u n d d' m. UpdateStream C c i v p u n d = (d', Ret m) \<and> m \<noteq> 0 \<longrightarrow>
     (\<exists>s t. vStreams (view d) i = Some s \<and> sVersion s = v \<and>
        view d' = (view d)\<lparr>vStreams := (vStreams (view d))(i \<mapsto> s\<lparr>sPosition := p, sVersion := v + n, sUpdatedAt := t\<rparr>)\<rparr>))"

text \<open>
  A query delivers the matching documents, sorted by version if that was asked for, else in
  an order of the server's choice.
\<close>

definition findEventsLaw :: "'d esColls \<Rightarrow> ('d \<Rightarrow> m2view) \<Rightarrow> bool" where
  "findEventsLaw C view \<longleftrightarrow> (\<forall>c aid v sorting d. \<exists>es. FindEvents C c aid v sorting d = Ret (map Ret es) \<and>
     mset es = mset (filter (\<lambda>e. eAggregateID e = aid \<and> (\<forall>m. v = Some m \<longrightarrow> m <=s eVersion e)) (vEvents (view d))) \<and>
     (sorting \<longrightarrow> sorted (map (sint \<circ> eVersion) es)))"

definition m2Laws :: "'d esColls \<Rightarrow> ('d \<Rightarrow> m2view) \<Rightarrow> (evt2 \<Rightarrow> evt2) \<Rightarrow> bool" where
  "m2Laws C view recode \<longleftrightarrow> incLaw C view \<and> insertEventsLaw C view recode \<and> insertStreamLaw C view \<and>
     updateStreamLaw C view \<and> findEventsLaw C view \<and>
     (\<forall>e. ePosition (recode e) = ePosition e \<and> eAggregateID (recode e) = eAggregateID e \<and> eVersion (recode e) = eVersion e)"

lemma m2Laws_recode:
  assumes "m2Laws C view recode"
  shows "ePosition (recode e) = ePosition e" "eAggregateID (recode e) = eAggregateID e" "eVersion (recode e) = eVersion e"
  using assms by (auto simp: m2Laws_def)

section \<open>Effect of a save\<close>

definition streamWith :: "gint \<Rightarrow> evt2 list \<Rightarrow> (UUID \<Rightarrow> stream2 option) \<Rightarrow> time \<Rightarrow> UUID \<Rightarrow> stream2 option" where
  "streamWith ov evs ss t =
     (let l = last evs in ss(eAggregateID l \<mapsto>
        (case ss (eAggregateID l) of
           None \<Rightarrow> \<lparr>sID = eAggregateID l, sPosition = ePosition l, sAggregateType = eAggregateType l,
                    sVersion = eVersion l, sUpdatedAt = t\<rparr>
         | Some s \<Rightarrow> s\<lparr>sPosition := ePosition l, sVersion := ov + of_nat (length evs), sUpdatedAt := t\<rparr>)))"

lemma updateStreamForEntity_effect:
  assumes "m2Laws C view recode" and "updateStreamForEntity C c evs ov d = (d', Ret u)"
  shows "(case vStreams (view d) (eAggregateID (last evs)) of None \<Rightarrow> ov = 0 | Some s \<Rightarrow> ov \<noteq> 0 \<and> sVersion s = ov) \<and>
    (\<exists>t. view d' = (view d)\<lparr>vStreams := streamWith ov evs (vStreams (view d)) t\<rparr>)"
proof (cases "ov = 0")
  case True
  with assms(2) have ins: "InsertStream C c \<lparr>sID = eAggregateID (last evs), sPosition = ePosition (last evs),
      sAggregateType = eAggregateType (last evs), sVersion = eVersion (last evs), sUpdatedAt = eTimestamp (last evs)\<rparr> d = (d', Ret ())"
    by (auto simp: updateStreamForEntity_def Let_def split: prod.splits outcome.splits)
  have "insertStreamLaw C view" using assms(1) by (simp add: m2Laws_def)
  note law = this [unfolded insertStreamLaw_def, rule_format, OF ins]
  then obtain t where "view d' = (view d)\<lparr>vStreams := (vStreams (view d))(eAggregateID (last evs) \<mapsto>
      \<lparr>sID = eAggregateID (last evs), sPosition = ePosition (last evs),
       sAggregateType = eAggregateType (last evs), sVersion = eVersion (last evs), sUpdatedAt = t\<rparr>)\<rparr>" by auto
  then have "view d' = (view d)\<lparr>vStreams := streamWith ov evs (vStreams (view d)) t\<rparr>"
    using law by (simp add: streamWith_def Let_def)
  with law True show ?thesis by auto
next
  case False
  with assms(2) obtain m where upd: "UpdateStream C c (eAggregateID (last evs)) ov (ePosition (last evs))
      (eTimestamp (last evs)) (of_nat (length evs)) d = (d', Ret m)" "m \<noteq> 0"
    by (auto simp: updateStreamForEntity_def Let_def split: prod.splits outcome.splits if_splits)
  have "updateStreamLaw C view" using assms(1) by (simp add: m2Laws_def)
  with upd obtain s t where "vStreams (view d) (eAggregateID (last evs)) = Some s" "sVersion s = ov"
    "view d' = (view d)\<lparr>vStreams := (vStreams (view d))(eAggregateID (last evs) \<mapsto>
       s\<lparr>sPosition := ePosition (last evs), sVersion := ov + of_nat (length evs), sUpdatedAt := t\<rparr>)\<rparr>"
    unfolding updateStreamLaw_def by blast
  with False show ?thesis by (auto simp: streamWith_def Let_def)
qed

lemma insertEvents_effect:
  assumes "m2Laws C view recode" and "insertEvents us C c evs d = (d', Ret u)"
  shows "view d' = (view d)\<lparr>vEvents := vEvents (view d) @ map recode evs\<rparr>"
proof -
  from assms(2) obtain ids where "InsertEvents C c evs d = (d', Ret ids)"
    by (auto simp: insertEvents_def split: prod.splits outcome.splits)
  with assms(1) show ?thesis unfolding m2Laws_def insertEventsLaw_def by blast
qed

lemma updateGlobalPosition_effect:
  assumes "m2Laws C view recode" and "updateGlobalPosition C c n d = (d', r)"
  shows "view d' = view d \<and> \<not> is_Ret r \<or>
    (\<exists>p. vAll (view d) = Some p \<and> view d' = (view d)\<lparr>vAll := Some (p + of_nat n)\<rparr> \<and> (\<forall>q. r = Ret q \<longrightarrow> q = p))"
proof -
  obtain d1 r1 where inc: "IncAllPosition C c (of_nat n) d = (d1, r1)" by fastforce
  have "incLaw C view" using assms(1) by (simp add: m2Laws_def)
  with inc have law: "if is_Ret r1 then \<exists>p. vAll (view d) = Some p \<and> view d1 = (view d)\<lparr>vAll := Some (p + of_nat n)\<rparr> \<and>
      (\<forall>q. r1 = Ret (Ret q) \<longrightarrow> q = p) else view d1 = view d"
    unfolding incLaw_def by blast
  show ?thesis
  proof (cases r1)
    case (Ret r2)
    with inc assms(2) have "d' = d1" "r = mapErr (Wrapf ''could not decode global position'') r2"
      by (auto simp: updateGlobalPosition_def)
    with law Ret show ?thesis by auto
  qed (use inc assms(2) law in \<open>auto simp: updateGlobalPosition_def\<close>)
qed

text \<open>The view after a save of the documents \<open>evs\<close>, at positions from \<open>p\<close> on.\<close>

definition savedView :: "(evt2 \<Rightarrow> evt2) \<Rightarrow> gint \<Rightarrow> gint \<Rightarrow> evt2 list \<Rightarrow> time \<Rightarrow> m2view \<Rightarrow> m2view" where
  "savedView recode p ov vs t v = v\<lparr>vAll := Some (p + of_nat (length vs)),
     vEvents := vEvents v @ map recode (assignPositions p vs),
     vStreams := streamWith ov (assignPositions p vs) (vStreams v) t\<rparr>"

lemma assignPositions_length [simp]: "length (assignPositions p vs) = length vs"
  by (induction vs arbitrary: p) auto

lemma assignPositions_Nil_iff [simp]: "assignPositions p vs = [] \<longleftrightarrow> vs = []"
  by (cases vs) auto

lemma assignPositions_nth: "i < length vs \<Longrightarrow> assignPositions p vs ! i = atPosition (p + of_nat (Suc i)) (vs ! i)"
proof (induction vs arbitrary: p i)
  case (Cons v vs)
  then show ?case by (cases i) (simp_all add: ac_simps)
qed simp

lemma atPosition_simps [simp]:
  "ePosition (atPosition p e) = p" "eAggregateID (atPosition p e) = eAggregateID e" "eVersion (atPosition p e) = eVersion e"
  by (simp_all add: atPosition_def)

lemma handleTX_fst: "handleTX st c events dw = (dw', r) \<Longrightarrow> fst dw' = fst dw"
  by (auto simp: handleTX_def split: option.splits prod.splits)

definition streamAt :: "gint \<Rightarrow> UUID \<Rightarrow> m2view \<Rightarrow> bool" where
  "streamAt ov aid v \<longleftrightarrow> (case vStreams v aid of None \<Rightarrow> ov = 0 | Some s \<Rightarrow> ov \<noteq> 0 \<and> sVersion s = ov)"

lemma saveInTX_effect:
  assumes "m2Laws C view recode" and "transactional S view" and "vs \<noteq> []"
    and "saveInTX us C S st fail events vs ov c (d, w) = ((d', w'), r)"
  shows "if r = Ret () then \<exists>p t. vAll (view d) = Some p \<and> streamAt ov (eAggregateID (last (assignPositions p vs))) (view d) \<and>
      view d' = savedView recode p ov vs t (view d)
    else view d' = view d"
proof -
  note eff = inTransaction_effect [OF assms(2) assms(4) [unfolded saveInTX_def]]
  show ?thesis
  proof (cases "r = Ret ()")
    case True
    with eff obtain c1 d1 w1 where d1: "view d1 = view d"
      and run: "bodyInTX us C st events vs ov c1 (d1, w1) = ((d', w'), Ret ())" by auto
    from run obtain d2 p d3 d4 u1 u2 where pos: "updateGlobalPosition C c1 (length vs) d1 = (d2, Ret p)"
      and ins: "insertEvents us C c1 (assignPositions p vs) d2 = (d3, Ret u1)"
      and upd: "updateStreamForEntity C c1 (assignPositions p vs) ov d3 = (d4, Ret u2)"
      and h: "handleTX st c1 events (d4, w1) = ((d', w'), Ret ())"
      by (auto simp: bodyInTX_def Let_def split: prod.splits outcome.splits)
    have "d' = d4" using handleTX_fst [OF h] by simp
    from updateGlobalPosition_effect [OF assms(1) pos] d1
    have v2: "vAll (view d) = Some p" "view d2 = (view d)\<lparr>vAll := Some (p + of_nat (length vs))\<rparr>" by auto
    have v3: "view d3 = (view d2)\<lparr>vEvents := vEvents (view d2) @ map recode (assignPositions p vs)\<rparr>"
      by (rule insertEvents_effect [OF assms(1) ins])
    from updateStreamForEntity_effect [OF assms(1) upd] obtain t where
      "streamAt ov (eAggregateID (last (assignPositions p vs))) (view d3)"
      "view d4 = (view d3)\<lparr>vStreams := streamWith ov (assignPositions p vs) (vStreams (view d3)) t\<rparr>"
      by (auto simp: streamAt_def)
    with v2 v3 \<open>d' = d4\<close> True show ?thesis by (auto simp: savedView_def streamAt_def)
  next
    case False
    with eff show ?thesis by simp
  qed
qed

text \<open>Outside the transaction the counter can move although the save fails.\<close>

lemma saveOutsideTX_effect:
  assumes "m2Laws C view recode" and "transactional S view" and "vs \<noteq> []"
    and "saveOutsideTX us C S st fail events vs ov c (d, w) = ((d', w'), r)"
  shows "if r = Ret () then \<exists>p t. vAll (view d) = Some p \<and> streamAt ov (eAggregateID (last (assignPositions p vs))) (view d) \<and>
      view d' = savedView recode p ov vs t (view d)
    else view d' = view d \<or> (\<exists>p. vAll (view d) = Some p \<and> view d' = (view d)\<lparr>vAll := Some (p + of_nat (length vs))\<rparr>)"
proof -
  obtain d1 r1 where pos: "updateGlobalPosition C c (length vs) d = (d1, r1)" by fastforce
  note peff = updateGlobalPosition_effect [OF assms(1) pos]
  show ?thesis
  proof (cases r1)
    case (Ret p)
    with peff have v1: "vAll (view d) = Some p" "view d1 = (view d)\<lparr>vAll := Some (p + of_nat (length vs))\<rparr>" by auto
    from Ret pos assms(4) have tx: "inTransaction S fail fail (bodyOutsideTX us C st events (assignPositions p vs) ov) c (d1, w) = ((d', w'), r)"
      by (simp add: saveOutsideTX_def)
    note eff = inTransaction_effect [OF assms(2) tx]
    show ?thesis
    proof (cases "r = Ret ()")
      case True
      with eff obtain c1 d2 w2 where d2: "view d2 = view d1"
        and run: "bodyOutsideTX us C st events (assignPositions p vs) ov c1 (d2, w2) = ((d', w'), Ret ())" by auto
      from run obtain d3 d4 u1 u2 where upd: "updateStreamForEntity C c1 (assignPositions p vs) ov d2 = (d3, Ret u1)"
        and ins: "insertEvents us C c1 (assignPositions p vs) d3 = (d4, Ret u2)"
        and h: "handleTX st c1 events (d4, w2) = ((d', w'), Ret ())"
        by (auto simp: bodyOutsideTX_def split: prod.splits outcome.splits)
      have "d' = d4" using handleTX_fst [OF h] by simp
      from updateStreamForEntity_effect [OF assms(1) upd] obtain t where
        "streamAt ov (eAggregateID (last (assignPositions p vs))) (view d2)"
        "view d3 = (view d2)\<lparr>vStreams := streamWith ov (assignPositions p vs) (vStreams (view d2)) t\<rparr>"
        by (auto simp: streamAt_def)
      then have "view d' = savedView recode p ov vs t (view d)"
        using v1 d2 insertEvents_effect [OF assms(1) ins] \<open>d' = d4\<close> by (cases "view d") (simp add: savedView_def)
      moreover have "streamAt ov (eAggregateID (last (assignPositions p vs))) (view d)"
        using \<open>streamAt ov (eAggregateID (last (assignPositions p vs))) (view d2)\<close> d2 v1 by (simp add: streamAt_def)
      ultimately show ?thesis using True v1 by auto
    next
      case False
      with eff v1 show ?thesis by auto
    qed
  qed (use pos peff assms(4) in \<open>auto simp: saveOutsideTX_def\<close>)
qed

section \<open>Positions and histories\<close>

text \<open>
  Events carry positions from 1 up to the counter of \<^verbatim>\<open>$all\<close>, growing in the order of insertion;
  without gaps where the counter moves in the transaction of the save.
\<close>

definition posInv :: "bool \<Rightarrow> m2view \<Rightarrow> bool" where
  "posInv gapfree v \<longleftrightarrow> (\<exists>ks n. vAll v = Some (of_nat n) \<and> map ePosition (vEvents v) = map of_nat ks \<and>
     sorted_wrt (<) ks \<and> (\<forall>k \<in> set ks. 0 < k \<and> k \<le> n) \<and> (gapfree \<longrightarrow> ks = [1..<Suc n]))"

definition docsOf :: "UUID \<Rightarrow> m2view \<Rightarrow> evt2 list" where
  "docsOf aid v = filter (\<lambda>e. eAggregateID e = aid) (vEvents v)"

definition decoded2 :: "dataCodec \<Rightarrow> evt2 \<Rightarrow> event" where
  "decoded2 env e = (case decodeEvt2 env e of Ret ev \<Rightarrow> ev | _ \<Rightarrow> NewEvent '''' None 0 [])"

definition m2Stream :: "dataCodec \<Rightarrow> m2view \<Rightarrow> UUID \<Rightarrow> event list" where
  "m2Stream env v aid = map (decoded2 env) (docsOf aid v)"

definition histInv :: "dataCodec \<Rightarrow> m2view \<Rightarrow> bool" where
  "histInv env v \<longleftrightarrow> (\<forall>aid.
     (\<forall>i < length (docsOf aid v). eVersion (docsOf aid v ! i) = of_nat (Suc i) \<and> is_Ret (decodeEvt2 env (docsOf aid v ! i))) \<and>
     (case vStreams v aid of None \<Rightarrow> docsOf aid v = []
      | Some s \<Rightarrow> docsOf aid v \<noteq> [] \<and> sVersion s = of_nat (length (docsOf aid v))))"

definition m2Inv :: "dataCodec \<Rightarrow> bool \<Rightarrow> m2view \<Rightarrow> bool" where
  "m2Inv env gapfree v \<longleftrightarrow> posInv gapfree v \<and> histInv env v"

text \<open>An event as it is loaded after it was stored at a position; \<open>pv\<close> is how the number reads back.\<close>

definition loadedAt :: "(gint \<Rightarrow> gvalue) \<Rightarrow> gint \<Rightarrow> event \<Rightarrow> event" where
  "loadedAt pv p e =
     e\<lparr>metadata := Some ((case metadata e of None \<Rightarrow> Map.empty | Some m \<Rightarrow> m)(''position'' \<mapsto> pv p))\<rparr>"

fun loadedFrom :: "(gint \<Rightarrow> gvalue) \<Rightarrow> gint \<Rightarrow> event list \<Rightarrow> event list" where
  "loadedFrom pv p [] = []"
| "loadedFrom pv p (e # es) = loadedAt pv (p + 1) e # loadedFrom pv (p + 1) es"

definition m2Storable :: "dataCodec \<Rightarrow> (evt2 \<Rightarrow> evt2) \<Rightarrow> (gint \<Rightarrow> gvalue) \<Rightarrow> event \<Rightarrow> bool" where
  "m2Storable env recode pv e \<longleftrightarrow>
     (\<exists>v. newEvt2 env e = Ret v \<and> (\<forall>p. decodeEvt2 env (recode (atPosition p v)) = Ret (loadedAt pv p e)))"

text \<open>Apart from its position, a loaded event is the saved one.\<close>

lemma CompareEvents_loadedAt: "CompareEvents (loadedAt pv p e) e [IgnorePositionMetadata] = Ret ()"
  by (simp add: CompareEvents_def loadedAt_def IgnorePositionMetadata_def dropPosition_def Let_def
      split: option.splits)

lemma CompareEventSlices_loadedFrom: "CompareEventSlices (loadedFrom pv p es) es [IgnorePositionMetadata]"
  by (induction es arbitrary: p) (simp_all add: CompareEventSlices_def CompareEvents_loadedAt)

lemma newEvt2_fields:
  "newEvt2 env e = Ret v \<Longrightarrow> eAggregateID v = aggregateID e \<and> eVersion v = version e"
  by (auto simp: newEvt2_def outcome_simps)

lemma loadedFrom_length [simp]: "length (loadedFrom pv p es) = length es"
  by (induction es arbitrary: p) auto

lemma loadedFrom_Nil_iff [simp]: "loadedFrom pv p es = [] \<longleftrightarrow> es = []"
  by (cases es) auto

lemma loadedFrom_nth: "i < length es \<Longrightarrow> loadedFrom pv p es ! i = loadedAt pv (p + of_nat (Suc i)) (es ! i)"
proof (induction es arbitrary: p i)
  case (Cons e es)
  then show ?case by (cases i) (simp_all add: ac_simps)
qed simp

text \<open>The documents of a valid save: all of one aggregate, decodable, numbered by version and position.\<close>

lemma savedDocs:
  assumes "m2Laws C view recode" and "\<forall>e \<in> set es. m2Storable env recode pv e" and "serialFrom agt aid ov es"
    and "list_all2 (\<lambda>e v. newEvt2 env e = Ret v) es vs" and i: "i < length vs"
  shows "eAggregateID (recode (assignPositions p vs ! i)) = aid \<and>
    eVersion (recode (assignPositions p vs ! i)) = ov + of_nat (Suc i) \<and>
    ePosition (recode (assignPositions p vs ! i)) = p + of_nat (Suc i) \<and>
    decodeEvt2 env (recode (assignPositions p vs ! i)) = Ret (loadedFrom pv p es ! i)"
proof -
  have len: "length vs = length es" using assms(4) by (simp add: list_all2_lengthD)
  from i assms(4) have nv: "newEvt2 env (es ! i) = Ret (vs ! i)" by (simp add: list_all2_conv_all_nth)
  from i len assms(2) have "m2Storable env recode pv (es ! i)" by simp
  then obtain v where "newEvt2 env (es ! i) = Ret v"
    and dec: "\<forall>p. decodeEvt2 env (recode (atPosition p v)) = Ret (loadedAt pv p (es ! i))"
    unfolding m2Storable_def by blast
  with nv have v: "v = vs ! i" by simp
  from i len assms(3) have ser: "aggregateID (es ! i) = aid" "version (es ! i) = ov + of_nat (Suc i)"
    by (simp_all add: serialFrom_def)
  from i len newEvt2_fields [OF nv] ser dec v show ?thesis
    by (simp add: assignPositions_nth loadedFrom_nth m2Laws_recode [OF assms(1)])
qed

text \<open>The counter and the positions after a save.\<close>

lemma posInv_saved:
  assumes "posInv gapfree v" and "vAll v = Some p" and "vEvents v' = vEvents v @ new" and "vAll v' = Some (p + of_nat (length new))"
    and "\<And>i. i < length new \<Longrightarrow> ePosition (new ! i) = p + of_nat (Suc i)"
  shows "posInv gapfree v'"
proof -
  from assms(1) obtain ks n where kn: "vAll v = Some (of_nat n)" "map ePosition (vEvents v) = map of_nat ks"
    "sorted_wrt (<) ks" "\<forall>k \<in> set ks. 0 < k \<and> k \<le> n" "gapfree \<longrightarrow> ks = [1..<Suc n]"
    unfolding posInv_def by blast
  let ?ks = "ks @ [Suc n..<Suc n + length new]"
  have p: "p = of_nat n" using assms(2) kn(1) by simp
  have "map ePosition new = map of_nat [Suc n..<Suc n + length new]"
    by (rule nth_equalityI) (simp_all add: assms(5) p del: upt_Suc)
  then have "map ePosition (vEvents v') = map of_nat ?ks" using assms(3) kn(2) by simp
  moreover have "sorted_wrt (<) ?ks" using kn(3,4) by (fastforce simp: sorted_wrt_append)
  moreover have "\<forall>k \<in> set ?ks. 0 < k \<and> k \<le> n + length new" using kn(4) by fastforce
  moreover have "gapfree \<longrightarrow> ?ks = [1..<Suc (n + length new)]"
    using kn(5) upt_add_eq_append [of 1 "Suc n" "length new"] by auto
  moreover have "vAll v' = Some (of_nat (n + length new))" using assms(4) p by simp
  ultimately show ?thesis unfolding posInv_def by blast
qed

lemma docsOf_append:
  assumes "vEvents v' = vEvents v @ new" and "\<And>i. i < length new \<Longrightarrow> eAggregateID (new ! i) = aid"
  shows "docsOf x v' = (if x = aid then docsOf aid v @ new else docsOf x v)"
proof -
  have "\<forall>e \<in> set new. eAggregateID e = aid" using assms(2) by (auto simp: in_set_conv_nth)
  then show ?thesis using assms(1) by (auto simp: docsOf_def filter_empty_conv filter_id_conv)
qed

lemma histInv_saved:
  assumes inv: "histInv env v" and ev: "vEvents v' = vEvents v @ new" and "new \<noteq> []"
    and st: "vStreams v' = (vStreams v)(aid \<mapsto> s)" "sVersion s = of_nat (length (docsOf aid v)) + of_nat (length new)"
    and new: "\<And>i. i < length new \<Longrightarrow> eAggregateID (new ! i) = aid \<and>
      eVersion (new ! i) = of_nat (length (docsOf aid v)) + of_nat (Suc i) \<and> is_Ret (decodeEvt2 env (new ! i))"
  shows "histInv env v'"
  unfolding histInv_def
proof (rule allI, rule conjI)
  fix x
  have docs: "docsOf x v' = (if x = aid then docsOf aid v @ new else docsOf x v)"
    by (rule docsOf_append [OF ev]) (use new in blast)
  show "\<forall>i < length (docsOf x v'). eVersion (docsOf x v' ! i) = of_nat (Suc i) \<and> is_Ret (decodeEvt2 env (docsOf x v' ! i))"
  proof (intro allI impI)
    fix i assume i: "i < length (docsOf x v')"
    show "eVersion (docsOf x v' ! i) = of_nat (Suc i) \<and> is_Ret (decodeEvt2 env (docsOf x v' ! i))"
    proof (cases "x = aid \<and> \<not> i < length (docsOf aid v)")
      case True
      with i docs have "i - length (docsOf aid v) < length new" by auto
      from new [OF this] True docs show ?thesis
        by (auto simp: nth_append simp flip: of_nat_add of_nat_Suc)
    next
      case False
      with i docs inv show ?thesis by (auto simp: histInv_def nth_append)
    qed
  qed
  show "case vStreams v' x of None \<Rightarrow> docsOf x v' = []
    | Some s \<Rightarrow> docsOf x v' \<noteq> [] \<and> sVersion s = of_nat (length (docsOf x v'))"
    unfolding docs using inv [unfolded histInv_def, THEN spec, of x] st \<open>new \<noteq> []\<close> by simp
qed

text \<open>What a successful write makes of a view that keeps the invariant.\<close>

lemma savedView_inv:
  assumes laws: "m2Laws C view recode" and inv: "m2Inv env gapfree v" and p: "vAll v = Some p"
    and es: "es \<noteq> []" "\<forall>e \<in> set es. m2Storable env recode pv e"
    and ser: "serialFrom agt aid (of_nat (length (docsOf aid v))) es"
    and vs: "list_all2 (\<lambda>e v. newEvt2 env e = Ret v) es vs"
    and v': "v' = savedView recode p (of_nat (length (docsOf aid v))) vs t v"
  shows "m2Inv env gapfree v' \<and>
    m2Stream env v' = (m2Stream env v)(aid := m2Stream env v aid @ loadedFrom pv p es)"
proof -
  let ?new = "map recode (assignPositions p vs)" and ?ov = "of_nat (length (docsOf aid v)) :: gint"
  have len: "length vs = length es" using vs by (simp add: list_all2_lengthD)
  note docs = savedDocs [OF laws es(2) ser vs]
  have ev: "vEvents v' = vEvents v @ ?new" and all: "vAll v' = Some (p + of_nat (length ?new))"
    and ss: "vStreams v' = streamWith ?ov (assignPositions p vs) (vStreams v) t"
    using v' by (simp_all add: savedView_def)
  have ne: "vs \<noteq> []" using es(1) len by auto
  have last: "last (assignPositions p vs) = assignPositions p vs ! (length vs - 1)"
    using ne by (simp add: last_conv_nth)
  have l: "eAggregateID (last (assignPositions p vs)) = aid" "eVersion (last (assignPositions p vs)) = ?ov + of_nat (length vs)"
    using docs [of "length vs - 1" p] ne m2Laws_recode [OF laws] last by (simp_all flip: of_nat_Suc)
  obtain s where s: "vStreams v' = (vStreams v)(aid \<mapsto> s)" "sVersion s = ?ov + of_nat (length ?new)"
    using ss l by (auto simp: streamWith_def Let_def split: option.splits)
  have dec: "decodeEvt2 env (?new ! i) = Ret (loadedFrom pv p es ! i)" if "i < length ?new" for i
    using docs [of i p] that by simp
  have "posInv gapfree v'"
    by (rule posInv_saved [OF _ p ev all]) (use inv docs in \<open>auto simp: m2Inv_def\<close>)
  moreover have "histInv env v'"
    by (rule histInv_saved [OF _ ev _ s]) (use inv docs ne in \<open>auto simp: m2Inv_def\<close>)
  moreover have "map (decoded2 env) ?new = loadedFrom pv p es"
    by (rule nth_equalityI) (use len dec in \<open>auto simp: decoded2_def\<close>)
  then have "m2Stream env v' = (m2Stream env v)(aid := m2Stream env v aid @ loadedFrom pv p es)"
    using docsOf_append [OF ev, of aid] docs by (auto simp: m2Stream_def fun_eq_iff)
  ultimately show ?thesis by (simp add: m2Inv_def)
qed

lemma posInv_skip:
  assumes "posInv False v" and "vAll v = Some p"
  shows "posInv False (v\<lparr>vAll := Some (p + of_nat n)\<rparr>)"
proof -
  from assms(1) obtain ks m where kn: "vAll v = Some (of_nat m)" "map ePosition (vEvents v) = map of_nat ks"
    "sorted_wrt (<) ks" "\<forall>k \<in> set ks. 0 < k \<and> k \<le> m"
    unfolding posInv_def by blast
  moreover have "\<forall>k \<in> set ks. 0 < k \<and> k \<le> m + n" using kn(4) by fastforce
  moreover have "p + of_nat n = of_nat (m + n)" using assms(2) kn(1) by simp
  ultimately show ?thesis unfolding posInv_def by (intro exI [of _ ks] exI [of _ "m + n"]) simp
qed

lemma docsOf_skip [simp]: "docsOf aid (v\<lparr>vAll := a\<rparr>) = docsOf aid v"
  by (simp add: docsOf_def)

lemma m2Stream_skip [simp]: "m2Stream env (v\<lparr>vAll := a\<rparr>) = m2Stream env v"
  by (simp add: m2Stream_def fun_eq_iff)

lemma histInv_skip [simp]: "histInv env (v\<lparr>vAll := a\<rparr>) = histInv env v"
  unfolding histInv_def docsOf_skip by simp

section \<open>Save and load\<close>

text \<open>What a save does, whatever events and version it is given.\<close>

lemma mongo2Save_view:
  assumes "m2Laws C view recode" and "transactional S view"
    and "mongo2Save us env C S st c events ov (d, w) = ((d', w'), r)"
  shows "(view d' = view d \<or> globalPositionStrategy st = GlobalPositionOutsideTX \<and>
       (\<exists>p. vAll (view d) = Some p \<and> view d' = (view d)\<lparr>vAll := Some (p + of_nat (length events))\<rparr>)) \<and> r \<noteq> Ret () \<or>
    (\<exists>es aid agt vs p t. events = map Some es \<and> es \<noteq> [] \<and> serialFrom agt aid ov es \<and>
       list_all2 (\<lambda>e v. newEvt2 env e = Ret v) es vs \<and> vAll (view d) = Some p \<and>
       streamAt ov (eAggregateID (last (assignPositions p vs))) (view d) \<and> view d' = savedView recode p ov vs t (view d))"
    (is "?failed \<or> ?stored")
proof (cases "events = [] \<or> hd events = None")
  case True
  with assms(3) have "d' = d \<and> r \<noteq> Ret ()" by (cases "events = []") (auto simp: mongo2Save_def)
  then show ?thesis by simp
next
  case False
  then obtain e0 where e0: "events \<noteq> []" "hd events = Some e0" by auto
  define fail where "fail = (\<lambda>e. saveError e (aggregateType e0) (aggregateID e0) ov events)"
  have run: "(case buildRecords (newEvt2 env) fail (aggregateType e0) (aggregateID e0) ov 0 events of
      Fail e \<Rightarrow> ((d, w), Fail e) | Panic p \<Rightarrow> ((d, w), Panic p)
    | Ret vs \<Rightarrow>
        (case (case globalPositionStrategy st of
                 GlobalPositionOutsideTX \<Rightarrow> saveOutsideTX us C S st fail events vs ov c (d, w)
               | GlobalPositionInTX \<Rightarrow> saveInTX us C S st fail events vs ov c (d, w)) of
           ((d', w'), Ret _) \<Rightarrow> (case handleAfterSave (m2AfterSave st) c events w' of (w2, r) \<Rightarrow> ((d', w2), r))
         | (dw', r) \<Rightarrow> (dw', r))) = ((d', w'), r)"
    using assms(3) e0 unfolding fail_def by (simp add: mongo2Save_def Let_def)
  show ?thesis
  proof (cases "buildRecords (newEvt2 env) fail (aggregateType e0) (aggregateID e0) ov 0 events")
    case (Ret vs)
    then obtain es where es: "events = map Some es" "serialFrom (aggregateType e0) (aggregateID e0) ov es"
      "list_all2 (\<lambda>e v. newEvt2 env e = Ret v) es vs"
      by (auto simp: buildRecords_Ret_iff)
    then have len: "length events = length vs" and ne: "vs \<noteq> []" "es \<noteq> []"
      using e0(1) by (auto simp: list_all2_lengthD)
    obtain d1 w1 r1 where sv: "(case globalPositionStrategy st of
          GlobalPositionOutsideTX \<Rightarrow> saveOutsideTX us C S st fail events vs ov c (d, w)
        | GlobalPositionInTX \<Rightarrow> saveInTX us C S st fail events vs ov c (d, w)) = ((d1, w1), r1)"
      by (metis surj_pair)
    then have "d' = d1" and rr: "r1 \<noteq> Ret () \<Longrightarrow> r = r1"
      using run Ret by (cases r1; auto split: prod.splits)+
    have eff: "if r1 = Ret () then \<exists>p t. vAll (view d) = Some p \<and>
          streamAt ov (eAggregateID (last (assignPositions p vs))) (view d) \<and> view d1 = savedView recode p ov vs t (view d)
        else view d1 = view d \<or> globalPositionStrategy st = GlobalPositionOutsideTX \<and>
          (\<exists>p. vAll (view d) = Some p \<and> view d1 = (view d)\<lparr>vAll := Some (p + of_nat (length events))\<rparr>)"
      using sv saveInTX_effect [OF assms(1,2) ne(1)] saveOutsideTX_effect [OF assms(1,2) ne(1)]
      unfolding len by (cases "globalPositionStrategy st") fastforce+
    show ?thesis
    proof (cases "r1 = Ret ()")
      case True
      with eff \<open>d' = d1\<close> es ne have ?stored by auto
      then show ?thesis ..
    next
      case False
      with eff \<open>d' = d1\<close> rr show ?thesis by auto
    qed
  qed (use run in auto)
qed

text \<open>Loading with the events sorted by the database gives the history.\<close>

lemma cursorLoop_all:
  "(\<And>e. e \<in> set es \<Longrightarrow> is_Ret (decodeEvt2 env e)) \<Longrightarrow>
   cursorLoop env aid done (map Ret es) = Ret (done @ map (decoded2 env) es)"
proof (induction es arbitrary: "done")
  case (Cons e es)
  from Cons.prems [of e] obtain ev where "decodeEvt2 env e = Ret ev" by (auto simp: is_Ret_iff)
  with Cons show ?case by (simp add: decoded2_def)
qed simp

lemma sorted_docsOf:
  assumes "histInv env v" and "length (docsOf aid v) < 2 ^ 63"
  shows "sorted (map (sint \<circ> eVersion) (docsOf aid v)) \<and> inj_on (sint \<circ> eVersion) (set (docsOf aid v))"
proof -
  let ?es = "docsOf aid v"
  have ver: "sint (eVersion (?es ! i)) = int (Suc i)" if "i < length ?es" for i
    using assms that sint_of_nat_gint [of "Suc i"] by (simp add: histInv_def)
  have "map (sint \<circ> eVersion) ?es = map (\<lambda>i. int (Suc i)) [0..<length ?es]"
    by (rule nth_equalityI) (simp_all add: ver)
  then have "sorted (map (sint \<circ> eVersion) ?es)" "distinct (map (sint \<circ> eVersion) ?es)"
    by (auto simp: sorted_iff_nth_mono distinct_map inj_on_def)
  then show ?thesis by (simp add: distinct_map)
qed

lemma mongo2Load_stream:
  assumes "m2Laws C view recode" and "histInv env (view d)" and "sortEventsOnDB st"
    and "m2Stream env (view d) aid \<noteq> []" and "length (m2Stream env (view d) aid) < 2 ^ 63"
  shows "mongo2Load env C st c aid (d, w) = ((d, w), Ret (map Some (m2Stream env (view d) aid)))"
proof -
  let ?ds = "docsOf aid (view d)"
  have "findEventsLaw C view" using assms(1) by (simp add: m2Laws_def)
  note law = this [unfolded findEventsLaw_def, THEN spec, THEN spec, THEN spec, THEN spec, THEN spec, of c aid None True d]
  then obtain es where fnd: "FindEvents C c aid None True d = Ret (map Ret es)" and ms: "mset es = mset ?ds"
    and so: "sorted (map (sint \<circ> eVersion) es)"
    by (auto simp: docsOf_def)
  have len: "length ?ds < 2 ^ 63" using assms(5) by (simp add: m2Stream_def)
  note sd = sorted_docsOf [OF assms(2) len]
  have "es = ?ds"
    using sort_key_inj_key_eq [OF ms [symmetric], of "sint \<circ> eVersion"] sort_key_id_if_sorted [of "sint \<circ> eVersion" ?ds] sd so
    by simp
  moreover have "is_Ret (decodeEvt2 env e)" if "e \<in> set ?ds" for e
    using assms(2) that by (auto simp: histInv_def in_set_conv_nth)
  ultimately have "cursorLoop env aid [] (map Ret es) = Ret (m2Stream env (view d) aid)"
    using cursorLoop_all [of es env aid "[]"] by (simp add: m2Stream_def)
  with fnd assms(3,4) show ?thesis by (simp add: mongo2Load_def mongo2Find_def loadFromCursor_def)
qed

section \<open>Concrete collections\<close>

text \<open>The view itself as a database.\<close>

definition demoColls :: "m2view esColls" where
  "demoColls = \<lparr>
     EnsureIndex = (\<lambda>_ _ _. Ret ()),
     FindAllStream = (\<lambda>_ d. if vAll d = None then Fail (Sentinel MongoErrNoDocuments) else Ret ()),
     InsertAllStream = (\<lambda>_ p d. (d\<lparr>vAll := Some p\<rparr>, Ret ())),
     IncAllPosition = (\<lambda>_ n d. case vAll d of None \<Rightarrow> (d, Fail (Sentinel MongoErrNoDocuments))
       | Some p \<Rightarrow> (d\<lparr>vAll := Some (p + n)\<rparr>, Ret (Ret p))),
     InsertEvents = (\<lambda>_ es d. (d\<lparr>vEvents := vEvents d @ es\<rparr>, Ret (map (Int64 \<circ> ePosition) es))),
     InsertStream = (\<lambda>_ s d. if vStreams d (sID s) = None then (d\<lparr>vStreams := (vStreams d)(sID s \<mapsto> s)\<rparr>, Ret ())
       else (d, Fail (NewError ''duplicate key''))),
     UpdateStream = (\<lambda>_ i v p u n d. case vStreams d i of None \<Rightarrow> (d, Ret 0)
       | Some s \<Rightarrow> if sVersion s = v
           then (d\<lparr>vStreams := (vStreams d)(i \<mapsto> s\<lparr>sPosition := p, sVersion := v + n, sUpdatedAt := u\<rparr>)\<rparr>, Ret 1)
           else (d, Ret 0)),
     IsDuplicateKeyError = (\<lambda>x. x = NewError ''duplicate key''),
     FindEvents = (\<lambda>_ aid v sorting d.
       let es = filter (\<lambda>e. eAggregateID e = aid \<and> (\<forall>m. v = Some m \<longrightarrow> m <=s eVersion e)) (vEvents d)
       in Ret (map Ret (if sorting then sort_key (sint \<circ> eVersion) es else es))),
     CountEvents = (\<lambda>_ aid d. Ret (of_nat (length (docsOf aid d)))),
     FindEvent = (\<lambda>_ aid v d. case find (\<lambda>e. eVersion e = v) (docsOf aid d) of
       None \<Rightarrow> Fail (Sentinel MongoErrNoDocuments) | Some e \<Rightarrow> Ret (Ret e)),
     ReplaceEvent = (\<lambda>_ aid v e d. (d\<lparr>vEvents := map (\<lambda>x. if eAggregateID x = aid \<and> eVersion x = v then e else x) (vEvents d)\<rparr>, Ret 1)),
     RenameEvents = (\<lambda>_ a b d. (d\<lparr>vEvents := map (\<lambda>x. if eEventType x = a then x\<lparr>eEventType := b\<rparr> else x) (vEvents d)\<rparr>, Ret ())),
     DropEvents = (\<lambda>_ d. (d\<lparr>vEvents := []\<rparr>, Ret ())),
     DropStreams = (\<lambda>_ d. (d\<lparr>vAll := None, vStreams := Map.empty\<rparr>, Ret ())),
     InsertSnapshot = (\<lambda>_ r d. (d\<lparr>vSnapshots := r # vSnapshots d\<rparr>, Ret ())),
     FindSnapshot = (\<lambda>_ aid d. case sort_key (\<lambda>r. - sint (srVersion r)) (filter (\<lambda>r. srAggregateID r = aid) (vSnapshots d)) of
       [] \<Rightarrow> Fail (Sentinel MongoErrNoDocuments) | r # _ \<Rightarrow> Ret (Ret r))\<rparr>"

lemma demoColls_laws: "m2Laws demoColls id id"
proof -
  have "incLaw demoColls id" by (auto simp: incLaw_def demoColls_def split: option.splits)
  moreover have "insertEventsLaw demoColls id id" by (auto simp: insertEventsLaw_def demoColls_def)
  moreover have "insertStreamLaw demoColls id"
    unfolding insertStreamLaw_def
  proof (intro allI impI)
    fix c s d d' assume "InsertStream demoColls c s d = (d', Ret ())"
    then have "vStreams d (sID s) = None" "d' = d\<lparr>vStreams := (vStreams d)(sID s \<mapsto> s)\<rparr>"
      by (auto simp: demoColls_def split: if_splits)
    then show "vStreams (id d) (sID s) = None \<and>
        (\<exists>t. id d' = (id d)\<lparr>vStreams := (vStreams (id d))(sID s \<mapsto> s\<lparr>sUpdatedAt := t\<rparr>)\<rparr>)"
      by (auto intro!: exI [of _ "sUpdatedAt s"])
  qed
  moreover have "updateStreamLaw demoColls id"
    by (fastforce simp: updateStreamLaw_def demoColls_def split: option.splits if_splits)
  moreover have "findEventsLaw demoColls id"
    unfolding findEventsLaw_def
    by (intro allI, rule_tac x = "(let es = filter (\<lambda>e. eAggregateID e = aid \<and> (\<forall>m. v = Some m \<longrightarrow> m <=s eVersion e)) (vEvents d)
         in if sorting then sort_key (sint \<circ> eVersion) es else es)" in exI) (auto simp: demoColls_def Let_def)
  ultimately show ?thesis by (simp add: m2Laws_def)
qed

definition demo2View :: m2view where
  "demo2View = \<lparr>vAll = Some 0, vEvents = [], vStreams = Map.empty, vSnapshots = []\<rparr>"

definition demo2Store :: "GlobalPositionStrategy \<Rightarrow> nat mongoStore2" where
  "demo2Store gps = \<lparr>m2Ownership = internalClient, m2Events = ''events'', m2Streams = ''streams'', m2Snapshots = ''snapshots'',
     m2AfterSave = None, m2InTX = Some (\<lambda>c e n. (Suc n, Ret ())), sortEventsOnDB = True, globalPositionStrategy = gps\<rparr>"

definition demo2Bson :: dataCodec where
  "demo2Bson = \<lparr>dcFactories = newTypeRegistry ''event'', dc_Marshal = (\<lambda>_. Ret ''raw''), dc_Unmarshal = (\<lambda>_ d. Ret d)\<rparr>"

definition demo2Event :: "nat \<Rightarrow> event" where
  "demo2Event v = \<lparr>eventType = ''Created'', data = None, timestamp = 5, aggregateType = ''Demo'',
     aggregateID = 7, version = of_nat v, metadata = None\<rparr>"

lemma demo2Event_storable: "m2Storable demo2Bson id GInt (demo2Event v)"
  by (simp add: m2Storable_def newEvt2_def decodeEvt2_def marshalData_def unmarshalData_def demo2Event_def
      NewEvent_def ForAggregate_def WithMetadata_def loadedAt_def atPosition_def)

lemma demo2View_inv: "m2Inv demo2Bson gapfree demo2View"
proof -
  have "posInv gapfree demo2View"
    unfolding posInv_def by (rule exI [of _ "[]"], rule exI [of _ 0]) (simp add: demo2View_def)
  then show ?thesis by (simp add: m2Inv_def histInv_def docsOf_def demo2View_def)
qed

section \<open>Properties\<close>



text \<open>
  C22: optimistic concurrency in the MongoDB event store with global positions. A save whose
  original version is not the version of the aggregate's stream fails and stores nothing. With
  the counter in the transaction nothing at all changes; with the counter outside of it the
  counter may have moved, which leaves a gap in the positions.
\<close>

theorem mongo2Save_stale:
  assumes "m2Laws C view recode" and "transactional S view"
    and "vStreams (view d) (aggregateID e) = Some s" and "ov = 0 \<or> sVersion s \<noteq> ov"
    and "mongo2Save us env C S st c (Some e # evs) ov (d, w) = ((d', w'), r)"
  shows "r \<noteq> Ret () \<and> vEvents (view d') = vEvents (view d) \<and> vStreams (view d') = vStreams (view d) \<and>
    (globalPositionStrategy st = GlobalPositionInTX \<longrightarrow> view d' = view d)"
proof -
  from mongo2Save_view [OF assms(1,2,5)] show ?thesis
  proof
    assume "\<exists>es aid agt vs p t. Some e # evs = map Some es \<and> es \<noteq> [] \<and> serialFrom agt aid ov es \<and>
       list_all2 (\<lambda>e v. newEvt2 env e = Ret v) es vs \<and> vAll (view d) = Some p \<and>
       streamAt ov (eAggregateID (last (assignPositions p vs))) (view d) \<and> view d' = savedView recode p ov vs t (view d)"
    then obtain es aid agt vs p where es: "Some e # evs = map Some es" "serialFrom agt aid ov es"
      and vs: "list_all2 (\<lambda>e v. newEvt2 env e = Ret v) es vs"
      and at: "streamAt ov (eAggregateID (last (assignPositions p vs))) (view d)"
      by (elim exE conjE) (rule that)
    from es have "es \<noteq> []" and aid: "aggregateID e = aid" by (auto simp: Cons_eq_map_conv serialFrom_Cons)
    with vs have ne: "vs \<noteq> []" by auto
    then have i: "length vs - 1 < length vs" by simp
    with vs have "newEvt2 env (es ! (length vs - 1)) = Ret (vs ! (length vs - 1))" and "length vs - 1 < length es"
      by (auto simp: list_all2_conv_all_nth)
    with es(2) newEvt2_fields have "eAggregateID (vs ! (length vs - 1)) = aid" by (auto simp: serialFrom_def)
    then have "eAggregateID (last (assignPositions p vs)) = aid"
      using ne i by (simp add: last_conv_nth assignPositions_nth)
    with at aid assms(3,4) show ?thesis by (simp add: streamAt_def)
  qed (use assms in auto)
qed

text \<open>
  C37: after \<^verbatim>\<open>Clear\<close> the store accepts no save: dropping the streams collection also drops the
  \<^verbatim>\<open>$all\<close> document, which only the constructor creates, so every save fails to increment the
  global position.
\<close>

theorem mongo2Clear_stops_saving:
  assumes "m2Laws C view recode" and "transactional S view"
    and "\<And>d d'. DropStreams C c d = (d', Ret ()) \<Longrightarrow> vAll (view d') = None"
    and "mongo2Clear C c d = (d1, Ret ())"
    and "mongo2Save us env C S st c' events ov (d1, w) = ((d2, w2), r)"
  shows "r \<noteq> Ret () \<and> view d2 = view d1"
proof -
  from assms(4) obtain d0 where "DropStreams C c d0 = (d1, Ret ())"
    by (auto simp: mongo2Clear_def split: prod.splits outcome.splits)
  then have "vAll (view d1) = None" by (rule assms(3))
  with mongo2Save_view [OF assms(1,2,5)] show ?thesis by auto
qed

theorem mongo2Save_stale_witness:
  "\<exists>d' w' r. mongo2Save (\<lambda>_. ''u'') demo2Bson demoColls demoSession (demo2Store GlobalPositionOutsideTX) context_Background
       [Some (demo2Event 1)] 0
       (demo2View\<lparr>vStreams := [7 \<mapsto> \<lparr>sID = 7, sPosition = 1, sAggregateType = ''Demo'', sVersion = 1, sUpdatedAt = 0\<rparr>]\<rparr>, 0) =
       ((d', w'), r) \<and> r \<noteq> Ret () \<and> vEvents d' = [] \<and> vAll d' = Some 1"
proof -
  let ?d = "demo2View\<lparr>vStreams := [7 \<mapsto> \<lparr>sID = 7, sPosition = 1, sAggregateType = ''Demo'', sVersion = 1, sUpdatedAt = 0\<rparr>]\<rparr>"
  let ?st = "demo2Store GlobalPositionOutsideTX"
  obtain d' w' r where run: "mongo2Save (\<lambda>_. ''u'') demo2Bson demoColls demoSession ?st context_Background
       [Some (demo2Event 1)] 0 (?d, 0) = ((d', w'), r)" by (metis surj_pair)
  then have "vAll d' = Some 1"
    by (auto simp: mongo2Save_def saveOutsideTX_def inTransaction_def demoSession_def bodyOutsideTX_def updateGlobalPosition_def
        updateStreamForEntity_def newEvt2_def marshalData_def demo2Store_def demoColls_def demo2View_def demo2Event_def
        atPosition_def Let_def)
  with run mongo2Save_stale [OF demoColls_laws demoSession_transactional _ _ run] show ?thesis
    by (auto simp: demo2Event_def demo2View_def)
qed

theorem mongo2Clear_stops_saving_witness:
  "\<exists>d1 d2 w2 r. mongo2Clear demoColls context_Background demo2View = (d1, Ret ()) \<and>
     mongo2Save (\<lambda>_. ''u'') demo2Bson demoColls demoSession (demo2Store GlobalPositionInTX) context_Background
       [Some (demo2Event 1)] 0 (d1, 0) = ((d2, w2), r) \<and> r \<noteq> Ret ()"
proof -
  obtain d1 where clr: "mongo2Clear demoColls context_Background demo2View = (d1, Ret ())"
    by (simp add: mongo2Clear_def demoColls_def)
  obtain d2 w2 r where run: "mongo2Save (\<lambda>_. ''u'') demo2Bson demoColls demoSession (demo2Store GlobalPositionInTX)
      context_Background [Some (demo2Event 1)] 0 (d1, 0) = ((d2, w2), r)" by (metis surj_pair)
  have drop: "vAll (id d') = None" if "DropStreams demoColls context_Background d = (d', Ret ())" for d d'
    using that by (auto simp: demoColls_def)
  have "r \<noteq> Ret () \<and> id d2 = id d1"
    by (rule mongo2Clear_stops_saving [OF demoColls_laws demoSession_transactional _ clr run]) (rule drop)
  with clr run show ?thesis by blast
qed


definition demoSnapEnv :: snapEnv where
  "demoSnapEnv = \<lparr>snapFactories = \<lparr>items = [''Demo'' \<mapsto> (\<lambda>_. None)], regName = ''aggregate''\<rparr>,
     snap_Marshal = (\<lambda>_. Ret ''json''),
     snap_Unmarshal = (\<lambda>_ _. Ret \<lparr>snapVersion = 3, snapAggregateType = ''Demo'', snapTimestamp = 9, snapState = Some (GInt 1)\<rparr>),
     gzip_compress = (\<lambda>s. Ret (s @ ''.gz'')), gzip_decompress = (\<lambda>s. Ret (take (length s - 3) s))\<rparr>"


end
