(* ===== verification/Scheduler_Command.thy ===== *)
theory Scheduler_Command
  imports CommandHandlers Repo Codec
begin

text \<open>
  The command scheduler middleware (\<^verbatim>\<open>middleware/commandhandler/scheduler\<close>): commands with an execution
  time are persisted in a repository and queued; the run loop starts one goroutine per queued
  command, which waits for its time, for its cancellation or for the scheduler to stop. The
  methods are functions on the scheduler and the repository; the run loop, the goroutines, the
  callers and the reader of the error channel interleave as a step relation. Handlers act on a
  world \<open>'w\<close>, the repository on \<open>'r\<close>.
\<close>

section \<open>State\<close>

abbreviation ScheduledCommandsQueueSize :: nat where "ScheduledCommandsQueueSize \<equiv> 100"
abbreviation schedErrSize :: nat where "schedErrSize \<equiv> 100"

record PersistedCommand =
  pcID :: UUID
  pcIDStr :: string
  pcRawCommand :: string
  pcExecuteAt :: time

record scheduledCommand =
  scID :: UUID
  scCtx :: ctx
  scCmd :: command
  scExecuteAt :: time

text \<open>
  \<open>cancelScheduling\<close> maps IDs to channels, here numbers below \<open>shNext\<close>; \<open>shClosed\<close> holds the closed
  ones. \<open>shCctx\<close> is \<^const>\<open>None\<close> before \<^verbatim>\<open>Start\<close>, else whether the context is cancelled.
\<close>

record 'w Scheduler =
  shHandler :: "'w CommandHandlerFn option"
  shCmdCh :: "scheduledCommand list"
  shCancelScheduling :: "UUID \<rightharpoonup> nat"
  shClosed :: "nat set"
  shNext :: nat
  shErrCh :: "err list"
  shCctx :: "bool option"

record cmdCodec =
  MarshalCommand :: "ctx \<Rightarrow> command \<Rightarrow> string go"
  UnmarshalCommand :: "ctx \<Rightarrow> string \<Rightarrow> (command \<times> ctx) go"

text \<open>A persisted command as an entity, and the type assertion back.\<close>

definition pcEntity :: "PersistedCommand \<Rightarrow> entity" where
  "pcEntity pc = \<lparr>entityID = pcID pc, entityVersion = None,
     entityBody = gstructPtr ''PersistedCommand'' [pubField ''IDStr'' (GString (pcIDStr pc)),
       pubField ''RawCommand'' (GString (pcRawCommand pc)), pubField ''ExecuteAt'' (GTime (pcExecuteAt pc))]\<rparr>"

definition asPersisted :: "entity \<Rightarrow> PersistedCommand option" where
  "asPersisted e =
     (case asStructPtr ''PersistedCommand'' (Some (entityBody e)) of
        Some [GField _ _ _ _ (GString s), GField _ _ _ _ (GString b), GField _ _ _ _ (GTime t)] \<Rightarrow>
          Some \<lparr>pcID = entityID e, pcIDStr = s, pcRawCommand = b, pcExecuteAt = t\<rparr>
      | _ \<Rightarrow> None)"

lemma asPersisted_pcEntity [simp]: "asPersisted (pcEntity pc) = Some pc"
  by (simp add: asPersisted_def pcEntity_def)

section \<open>Methods\<close>

definition NewScheduler :: "'w Scheduler" where
  "NewScheduler = \<lparr>shHandler = None, shCmdCh = [], shCancelScheduling = Map.empty, shClosed = {}, shNext = 0,
     shErrCh = [], shCctx = None\<rparr>"

definition setHandler :: "'w CommandHandlerFn \<Rightarrow> 'w Scheduler \<Rightarrow> 'w Scheduler go" where
  "setHandler h s =
     (if shHandler s \<noteq> None then Panic ''eventhorizon: handler already set for outbox''
      else Ret (s\<lparr>shHandler := Some h\<rparr>))"

text \<open>\<open>newID\<close> is what \<^verbatim>\<open>uuid.New\<close> returns; \<open>us\<close> prints a UUID.\<close>

definition ScheduleCommand ::
    "(UUID \<Rightarrow> string) \<Rightarrow> cmdCodec \<Rightarrow> 'r Repo \<Rightarrow> UUID \<Rightarrow> ctx \<Rightarrow> command \<Rightarrow> time \<Rightarrow> 'w Scheduler \<times> 'r \<Rightarrow>
     ('w Scheduler \<times> 'r) \<times> UUID go" where
  "ScheduleCommand us codec repo newID c cmd executeAt sr =
     (case MarshalCommand codec c cmd of
        Fail x \<Rightarrow> (sr, Fail (CommandError (Wrapf ''could not marshal command'' x) c cmd))
      | Panic p \<Rightarrow> (sr, Panic p)
      | Ret b \<Rightarrow>
          (let i = (case cmdID cmd of Some i \<Rightarrow> i | None \<Rightarrow> newID);
               pc = \<lparr>pcID = i, pcIDStr = us i, pcRawCommand = b, pcExecuteAt = executeAt\<rparr>
           in case rSave repo c (pcEntity pc) (snd sr) of
                (r', Fail x) \<Rightarrow> ((fst sr, r'), Fail (CommandError (Wrapf ''could not persist command'' x) c cmd))
              | (r', Panic p) \<Rightarrow> ((fst sr, r'), Panic p)
              | (r', Ret _) \<Rightarrow>
                  if length (shCmdCh (fst sr)) < ScheduledCommandsQueueSize
                  then (((fst sr)\<lparr>shCmdCh := shCmdCh (fst sr) @ [\<lparr>scID = i, scCtx = c, scCmd = cmd, scExecuteAt = executeAt\<rparr>]\<rparr>, r'),
                        Ret i)
                  else ((fst sr, r'), Fail (CommandError (NewError ''command queue full'') c cmd))))"

text \<open>
  The middleware. \<open>executeAt\<close> gives the execution time of a command that has an \<^verbatim>\<open>ExecuteAt\<close> method,
  with the inner command where it was made by \<^verbatim>\<open>CommandWithExecuteTime\<close>.
\<close>

definition schedulerMiddleware ::
    "(UUID \<Rightarrow> string) \<Rightarrow> cmdCodec \<Rightarrow> 'r Repo \<Rightarrow> UUID \<Rightarrow> (command \<Rightarrow> (time \<times> command) option) \<Rightarrow> 'w CommandHandlerFn \<Rightarrow>
     ctx \<Rightarrow> command option \<Rightarrow> ('w Scheduler \<times> 'r) \<times> 'w \<Rightarrow> (('w Scheduler \<times> 'r) \<times> 'w) \<times> unit go" where
  "schedulerMiddleware us codec repo newID executeAt h c cmd srw =
     (case (case cmd of None \<Rightarrow> None | Some cm \<Rightarrow> executeAt cm) of
        Some (t, inner) \<Rightarrow>
          if time_IsZero t then (case h c cmd (snd srw) of (w', r) \<Rightarrow> ((fst srw, w'), r))
          else (case ScheduleCommand us codec repo newID c inner t (fst srw) of
                  (sr', r) \<Rightarrow> ((sr', snd srw), obind r (\<lambda>_. Ret ())))
      | None \<Rightarrow> (case h c cmd (snd srw) of (w', r) \<Rightarrow> ((fst srw, w'), r)))"

definition CommandWithExecuteTime ::
    "(command \<Rightarrow> (time \<times> command) option) \<Rightarrow> command \<Rightarrow> command \<Rightarrow> time \<Rightarrow> (command \<Rightarrow> (time \<times> command) option)" where
  "CommandWithExecuteTime executeAt wrapped cmd t = executeAt(wrapped := Some (t, cmd))"

text \<open>\<^verbatim>\<open>Commands\<close>: \<open>parse\<close> is \<^verbatim>\<open>uuid.Parse\<close>.\<close>

definition loadPersisted ::
    "(string \<Rightarrow> UUID go) \<Rightarrow> cmdCodec \<Rightarrow> ctx \<Rightarrow> entity \<Rightarrow> scheduledCommand go" where
  "loadPersisted parse codec c e =
     (case asPersisted e of
        None \<Rightarrow> Fail (NewError ''command is not schedulable'')
      | Some pc \<Rightarrow>
          obind (mapErr (Wrapf ''could not unmarshal command'') (UnmarshalCommand codec c (pcRawCommand pc))) (\<lambda>(cmd, c').
          obind (if pcIDStr pc \<noteq> '''' then mapErr (Wrapf ''could not parse command ID'') (parse (pcIDStr pc)) else Ret (pcID pc)) (\<lambda>i.
          Ret \<lparr>scID = i, scCtx = c', scCmd = cmd, scExecuteAt = pcExecuteAt pc\<rparr>)))"

definition Commands ::
    "(string \<Rightarrow> UUID go) \<Rightarrow> cmdCodec \<Rightarrow> 'r Repo \<Rightarrow> ctx \<Rightarrow> 'r \<Rightarrow> 'r \<times> scheduledCommand list go" where
  "Commands parse codec repo c r =
     (case rFindAll repo c r of
        (r', es) \<Rightarrow> (r', obind (mapErr (Wrapf ''could not load scheduled commands'') es) (otraverse (loadPersisted parse codec c))))"

fun enqueueAll :: "scheduledCommand list \<Rightarrow> scheduledCommand list \<Rightarrow> scheduledCommand list \<times> unit go" where
  "enqueueAll [] q = (q, Ret ())"
| "enqueueAll (sc # scs) q =
     (if length q < ScheduledCommandsQueueSize then enqueueAll scs (q @ [sc])
      else (q, Fail (NewError ''could not schedule command, command queue full'')))"

definition schedLoad ::
    "(string \<Rightarrow> UUID go) \<Rightarrow> cmdCodec \<Rightarrow> 'r Repo \<Rightarrow> ctx \<Rightarrow> 'w Scheduler \<times> 'r \<Rightarrow> ('w Scheduler \<times> 'r) \<times> unit go" where
  "schedLoad parse codec repo c sr =
     (case Commands parse codec repo c (snd sr) of
        (r', Fail x) \<Rightarrow> ((fst sr, r'), Fail (Wrapf ''could not load scheduled commands'' x))
      | (r', Panic p) \<Rightarrow> ((fst sr, r'), Panic p)
      | (r', Ret scs) \<Rightarrow>
          (case enqueueAll scs (shCmdCh (fst sr)) of (q, r) \<Rightarrow> (((fst sr)\<lparr>shCmdCh := q\<rparr>, r'), r)))"

definition schedStart :: "'w Scheduler \<Rightarrow> 'w Scheduler \<times> unit go" where
  "schedStart s =
     (if shHandler s = None then (s, Fail (NewError ''command handler not set''))
      else (s\<lparr>shCctx := Some False\<rparr>, Ret ()))"

text \<open>\<^verbatim>\<open>Stop\<close> up to the point where it waits for the run loop; a nil cancel function panics.\<close>

definition schedStop :: "'w Scheduler \<Rightarrow> 'w Scheduler \<times> unit go" where
  "schedStop s = (if shCctx s = None then (s, nilDeref) else (s\<lparr>shCctx := Some True\<rparr>, Ret ()))"

definition CancelCommand :: "(UUID \<Rightarrow> string) \<Rightarrow> UUID \<Rightarrow> 'w Scheduler \<Rightarrow> 'w Scheduler \<times> unit go" where
  "CancelCommand us i s =
     (case shCancelScheduling s i of
        None \<Rightarrow> (s, Fail (NewError (''command '' @ us i @ '' not scheduled'')))
      | Some ch \<Rightarrow>
          if ch \<in> shClosed s then (s, Panic ''close of closed channel'')
          else (s\<lparr>shClosed := insert ch (shClosed s)\<rparr>, Ret ()))"

section \<open>The running scheduler\<close>

text \<open>
  A goroutine: its command, its cancel channel and what it does next. Sending on the error
  channel blocks while the channel is full. \<open>Removing\<close> tells whether the command was cancelled.
\<close>

datatype phase = Waiting | Sending err phase | Removing bool | Finished

text \<open>The run loop receives, waits for the goroutines after it saw the stop, and is done.\<close>

datatype runLoop = Receiving | Draining | Done

record worker =
  wkCmd :: scheduledCommand
  wkChan :: nat
  wkPhase :: phase

record ('r, 'w) schedSys =
  sysSched :: "'w Scheduler"
  sysLoop :: runLoop
  sysWorkers :: "worker list"
  sysRepo :: 'r
  sysWorld :: 'w

definition schedError :: "err \<Rightarrow> scheduledCommand \<Rightarrow> err" where
  "schedError x sc = CommandError x (scCtx sc) (scCmd sc)"

text \<open>What follows the call of the handler, and what follows the removal of the persisted command.\<close>

definition afterHandle :: "scheduledCommand \<Rightarrow> unit go \<Rightarrow> phase" where
  "afterHandle sc r = (case r of Fail x \<Rightarrow> Sending (schedError x sc) (Removing False) | _ \<Rightarrow> Removing False)"

definition afterRemove :: "scheduledCommand \<Rightarrow> bool \<Rightarrow> unit go \<Rightarrow> phase" where
  "afterRemove sc canceled r =
     (let rest = (if canceled then Sending (schedError (Sentinel ErrCanceled) sc) Finished else Finished)
      in case r of Fail x \<Rightarrow> Sending (schedError (Wrapf ''could not remove persisted command'' x) sc) rest | _ \<Rightarrow> rest)"

datatype schedLabel = SAccept UUID | SExec nat UUID time | SCancel nat UUID | SDone | SOther

text \<open>
  One step. A panic of a handler ends the program, so there is no step for it. The time of a step
  is arbitrary: only the timer compares it with the execution time.
\<close>

inductive schedStep ::
    "(UUID \<Rightarrow> string) \<Rightarrow> cmdCodec \<Rightarrow> 'r Repo \<Rightarrow> schedLabel \<Rightarrow> ('r, 'w) schedSys \<Rightarrow> ('r, 'w) schedSys \<Rightarrow> bool"
  for us codec repo where
  schedule_ok:
    "ScheduleCommand us codec repo newID c cmd t (sysSched s, sysRepo s) = ((sh, r'), Ret i) \<Longrightarrow>
     schedStep us codec repo (SAccept i) s (s\<lparr>sysSched := sh, sysRepo := r'\<rparr>)"
| schedule_err:
    "ScheduleCommand us codec repo newID c cmd t (sysSched s, sysRepo s) = ((sh, r'), Fail x) \<Longrightarrow>
     schedStep us codec repo SOther s (s\<lparr>sysSched := sh, sysRepo := r'\<rparr>)"
| receive:
    "sysLoop s = Receiving \<Longrightarrow> shCmdCh (sysSched s) = sc # scs \<Longrightarrow>
     schedStep us codec repo SOther s
       (s\<lparr>sysSched := (sysSched s)\<lparr>shCmdCh := scs, shNext := Suc (shNext (sysSched s)),
             shCancelScheduling := (shCancelScheduling (sysSched s))(scID sc \<mapsto> shNext (sysSched s))\<rparr>,
          sysWorkers := sysWorkers s @ [\<lparr>wkCmd = sc, wkChan = shNext (sysSched s), wkPhase = Waiting\<rparr>]\<rparr>)"
| loop_break:
    "sysLoop s = Receiving \<Longrightarrow> shCctx (sysSched s) = Some True \<Longrightarrow> schedStep us codec repo SOther s (s\<lparr>sysLoop := Draining\<rparr>)"
| loop_done:
    "sysLoop s = Draining \<Longrightarrow> (\<forall>wk \<in> set (sysWorkers s). wkPhase wk = Finished) \<Longrightarrow>
     schedStep us codec repo SDone s (s\<lparr>sysLoop := Done\<rparr>)"
| fire:
    "j < length (sysWorkers s) \<Longrightarrow> sysWorkers s ! j = wk \<Longrightarrow> wkPhase wk = Waiting \<Longrightarrow> scExecuteAt (wkCmd wk) \<le> now \<Longrightarrow>
     shHandler (sysSched s) = Some h \<Longrightarrow>
     h (scCtx (wkCmd wk)) (Some (scCmd (wkCmd wk))) (sysWorld s) = (w', r) \<Longrightarrow> (\<And>p. r \<noteq> Panic p) \<Longrightarrow>
     schedStep us codec repo (SExec j (scID (wkCmd wk)) now) s
       (s\<lparr>sysWorkers := (sysWorkers s)[j := wk\<lparr>wkPhase := afterHandle (wkCmd wk) r\<rparr>], sysWorld := w'\<rparr>)"
| cancelled:
    "j < length (sysWorkers s) \<Longrightarrow> sysWorkers s ! j = wk \<Longrightarrow> wkPhase wk = Waiting \<Longrightarrow> wkChan wk \<in> shClosed (sysSched s) \<Longrightarrow>
     schedStep us codec repo (SCancel j (scID (wkCmd wk))) s
       (s\<lparr>sysWorkers := (sysWorkers s)[j := wk\<lparr>wkPhase := Removing True\<rparr>]\<rparr>)"
| stopped:
    "j < length (sysWorkers s) \<Longrightarrow> sysWorkers s ! j = wk \<Longrightarrow> wkPhase wk = Waiting \<Longrightarrow> shCctx (sysSched s) = Some True \<Longrightarrow>
     schedStep us codec repo SOther s (s\<lparr>sysWorkers := (sysWorkers s)[j := wk\<lparr>wkPhase := Finished\<rparr>]\<rparr>)"
| removal:
    "j < length (sysWorkers s) \<Longrightarrow> sysWorkers s ! j = wk \<Longrightarrow> wkPhase wk = Removing canceled \<Longrightarrow>
     rRemove repo (scCtx (wkCmd wk)) (scID (wkCmd wk)) (sysRepo s) = (r', res) \<Longrightarrow> (\<And>p. res \<noteq> Panic p) \<Longrightarrow>
     schedStep us codec repo SOther s
       (s\<lparr>sysWorkers := (sysWorkers s)[j := wk\<lparr>wkPhase := afterRemove (wkCmd wk) canceled res\<rparr>], sysRepo := r'\<rparr>)"
| send:
    "j < length (sysWorkers s) \<Longrightarrow> sysWorkers s ! j = wk \<Longrightarrow> wkPhase wk = Sending x k \<Longrightarrow>
     length (shErrCh (sysSched s)) < schedErrSize \<Longrightarrow>
     schedStep us codec repo SOther s
       (s\<lparr>sysWorkers := (sysWorkers s)[j := wk\<lparr>wkPhase := k\<rparr>],
          sysSched := (sysSched s)\<lparr>shErrCh := shErrCh (sysSched s) @ [x]\<rparr>\<rparr>)"
| read_error:
    "shErrCh (sysSched s) = x # xs \<Longrightarrow>
     schedStep us codec repo SOther s (s\<lparr>sysSched := (sysSched s)\<lparr>shErrCh := xs\<rparr>\<rparr>)"
| cancel_call:
    "CancelCommand us i (sysSched s) = (sh, r) \<Longrightarrow> (\<And>p. r \<noteq> Panic p) \<Longrightarrow>
     schedStep us codec repo SOther s (s\<lparr>sysSched := sh\<rparr>)"
| stop_call:
    "schedStop (sysSched s) = (sh, Ret ()) \<Longrightarrow> schedStep us codec repo SOther s (s\<lparr>sysSched := sh\<rparr>)"

text \<open>Runs from \<open>s0\<close>, with the labels of the steps in order.\<close>

inductive schedRun ::
    "(UUID \<Rightarrow> string) \<Rightarrow> cmdCodec \<Rightarrow> 'r Repo \<Rightarrow> ('r, 'w) schedSys \<Rightarrow> schedLabel list \<Rightarrow> ('r, 'w) schedSys \<Rightarrow> bool"
  for us codec repo s0 where
  run_start: "schedRun us codec repo s0 [] s0"
| run_step: "schedRun us codec repo s0 tr s \<Longrightarrow> schedStep us codec repo l s s' \<Longrightarrow> schedRun us codec repo s0 (tr @ [l]) s'"

section \<open>Invariants\<close>

fun byWorker :: "nat \<Rightarrow> schedLabel \<Rightarrow> bool" where
  "byWorker j (SExec k i t) \<longleftrightarrow> j = k"
| "byWorker j (SCancel k i) \<longleftrightarrow> j = k"
| "byWorker j _ \<longleftrightarrow> False"

fun handles :: "UUID \<Rightarrow> schedLabel \<Rightarrow> bool" where
  "handles i (SExec k i' t) \<longleftrightarrow> i = i'"
| "handles i (SCancel k i') \<longleftrightarrow> i = i'"
| "handles i _ \<longleftrightarrow> False"

text \<open>Whether a goroutine still waits for its time, and whether it will still remove its command.\<close>

fun waits :: "phase \<Rightarrow> bool" where
  "waits Waiting = True"
| "waits (Sending x k) = waits k"
| "waits _ = False"

fun removes :: "phase \<Rightarrow> bool" where
  "removes (Removing c) = True"
| "removes (Sending x k) = removes k"
| "removes _ = False"

text \<open>
  Every goroutine has been executed or cancelled at most once in total, not at all while it
  waits, and never executed too early; one that removes its command has been.
\<close>

definition workerInv :: "schedLabel list \<Rightarrow> nat \<Rightarrow> worker \<Rightarrow> bool" where
  "workerInv tr j wk \<longleftrightarrow>
     length (filter (byWorker j) tr) \<le> (if waits (wkPhase wk) then 0 else 1) \<and>
     (\<forall>i t. SExec j i t \<in> set tr \<longrightarrow> i = scID (wkCmd wk) \<and> scExecuteAt (wkCmd wk) \<le> t) \<and>
     (removes (wkPhase wk) \<longrightarrow> (\<exists>l \<in> set tr. handles (scID (wkCmd wk)) l))"

definition workersInv :: "schedLabel list \<Rightarrow> worker list \<Rightarrow> bool" where
  "workersInv tr ws \<longleftrightarrow> (\<forall>j < length ws. workerInv tr j (ws ! j)) \<and> (\<forall>l \<in> set tr. \<forall>j. byWorker j l \<longrightarrow> j < length ws)"

lemma waits_after [simp]: "waits (afterHandle sc r) = False" "waits (afterRemove sc c r) = False"
  by (auto simp: afterHandle_def afterRemove_def Let_def split: outcome.split)

lemma removes_after [simp]: "removes (afterHandle sc r)" "removes (afterRemove sc c r) = False"
  by (auto simp: afterHandle_def afterRemove_def Let_def split: outcome.split)

text \<open>A step that no goroutine takes part in, one that starts a goroutine, and one of a goroutine.\<close>

lemma workersInv_idle:
  "workersInv tr ws \<Longrightarrow> (\<And>j. \<not> byWorker j l) \<Longrightarrow> workersInv (tr @ [l]) ws"
  by (cases l) (auto simp: workersInv_def workerInv_def)

lemma workersInv_start:
  assumes "workersInv tr ws"
  shows "workersInv tr (ws @ [\<lparr>wkCmd = sc, wkChan = n, wkPhase = Waiting\<rparr>])"
proof -
  from assms have "filter (byWorker (length ws)) tr = []" and "SExec (length ws) i t \<notin> set tr" for i t
    by (auto simp: workersInv_def filter_empty_conv)
  with assms show ?thesis by (auto simp: workersInv_def workerInv_def nth_append less_Suc_eq)
qed

lemma workersInv_act:
  assumes "workersInv tr ws" "j < length ws" "wkPhase (ws ! j) = Waiting" "\<not> waits k"
    and "l = SExec j (scID (wkCmd (ws ! j))) t \<and> scExecuteAt (wkCmd (ws ! j)) \<le> t \<or> l = SCancel j (scID (wkCmd (ws ! j)))"
  shows "workersInv (tr @ [l]) (ws[j := (ws ! j)\<lparr>wkPhase := k\<rparr>])"
  using assms by (auto simp: workersInv_def workerInv_def nth_list_update)

lemma workersInv_move:
  assumes "workersInv tr ws" "j < length ws" "waits k \<longrightarrow> waits (wkPhase (ws ! j))" "removes k \<longrightarrow> removes (wkPhase (ws ! j))"
  shows "workersInv tr (ws[j := (ws ! j)\<lparr>wkPhase := k\<rparr>])"
proof -
  from assms have "workerInv tr j ((ws ! j)\<lparr>wkPhase := k\<rparr>)"
    by (auto simp: workersInv_def workerInv_def split: if_splits)
  with assms(1,2) show ?thesis by (auto simp: workersInv_def nth_list_update)
qed

lemma workersInv_step:
  assumes "schedStep us codec repo l s s'" "workersInv tr (sysWorkers s)"
  shows "workersInv (tr @ [l]) (sysWorkers s')"
  using assms
proof cases
  case (fire j wk now h w' r)
  with assms(2) show ?thesis by (auto intro!: workersInv_act)
next
  case (cancelled j wk)
  with assms(2) show ?thesis by (auto intro!: workersInv_act)
qed (auto intro!: workersInv_idle workersInv_start workersInv_move assms(2))

lemma schedRun_workersInv:
  "schedRun us codec repo s0 tr s \<Longrightarrow> sysWorkers s0 = [] \<Longrightarrow> workersInv tr (sysWorkers s)"
  by (induction rule: schedRun.induct) (auto simp: workersInv_def [of "[]"] intro: workersInv_step)


text \<open>The effect of a step on the repository: a save, the removal of a goroutine's command, or none.\<close>

lemma ScheduleCommand_repo:
  assumes "ScheduleCommand us codec repo newID c cmd t (s, r) = ((s', r'), res)"
  shows "(\<exists>b i x. MarshalCommand codec c cmd = Ret b \<and>
            rSave repo c (pcEntity \<lparr>pcID = i, pcIDStr = us i, pcRawCommand = b, pcExecuteAt = t\<rparr>) r = (r', x) \<and>
            (\<forall>i'. res = Ret i' \<longrightarrow> i' = i \<and> x = Ret ())) \<or> r' = r \<and> (\<forall>i. res \<noteq> Ret i)"
proof (cases "MarshalCommand codec c cmd")
  case (Ret b)
  define i where "i = (case cmdID cmd of Some i \<Rightarrow> i | None \<Rightarrow> newID)"
  obtain r1 x where sv: "rSave repo c (pcEntity \<lparr>pcID = i, pcIDStr = us i, pcRawCommand = b, pcExecuteAt = t\<rparr>) r = (r1, x)"
    by fastforce
  with Ret assms have "r' = r1 \<and> (\<forall>i'. res = Ret i' \<longrightarrow> i' = i \<and> x = Ret ())"
    unfolding ScheduleCommand_def by (cases x) (auto simp: Let_def i_def [symmetric] split: if_splits)
  with Ret sv show ?thesis by blast
qed (use assms in \<open>auto simp: ScheduleCommand_def\<close>)

lemma schedStep_repo:
  assumes "schedStep us codec repo l s s'"
  shows "(\<exists>c cmd b i t x. MarshalCommand codec c cmd = Ret b \<and>
            rSave repo c (pcEntity \<lparr>pcID = i, pcIDStr = us i, pcRawCommand = b, pcExecuteAt = t\<rparr>) (sysRepo s) = (sysRepo s', x) \<and>
            (\<forall>i'. l = SAccept i' \<longrightarrow> i' = i \<and> x = Ret ())) \<or>
         (\<exists>wk \<in> set (sysWorkers s). \<exists>c x. removes (wkPhase wk) \<and> l = SOther \<and> rRemove repo c (scID (wkCmd wk)) (sysRepo s) = (sysRepo s', x)) \<or>
         sysRepo s' = sysRepo s \<and> (\<forall>i. l \<noteq> SAccept i)"
  using assms
proof cases
  case (schedule_ok newID c cmd t sh r' i)
  from ScheduleCommand_repo [OF schedule_ok(3)] schedule_ok(1,2) show ?thesis by force
next
  case (schedule_err newID c cmd t sh r' x)
  from ScheduleCommand_repo [OF schedule_err(3)] schedule_err(1,2) show ?thesis by force
next
  case (removal j wk c r' res)
  then have "wk \<in> set (sysWorkers s)" "removes (wkPhase wk)" by auto
  with removal show ?thesis by fastforce
qed auto

subsection \<open>Persistence\<close>

context write_repo
begin

text \<open>What is in the repository stays there until it is executed or cancelled.\<close>

lemma schedStep_keeps:
  assumes step: "schedStep us codec repo l s s'" and repo: "rSave repo = save" "rRemove repo = remove"
    and storable: "\<And>c cmd b i t. MarshalCommand codec c cmd = Ret b \<Longrightarrow>
      storable (pcEntity \<lparr>pcID = i, pcIDStr = us i, pcRawCommand = b, pcExecuteAt = t\<rparr>)"
    and inv: "invar (sysRepo s)" "workersInv tr (sysWorkers s)"
  shows "invar (sysRepo s') \<and> (\<forall>i. l = SAccept i \<or> view (sysRepo s) i \<noteq> None \<and> (\<forall>l \<in> set tr. \<not> handles i l) \<longrightarrow>
    view (sysRepo s') i \<noteq> None)"
  using schedStep_repo [OF step, unfolded repo]
proof (elim disjE exE conjE bexE, goal_cases)
  case (1 c cmd b i t x)
  with save_effect [OF inv(1) storable, OF 1(1) 1(2)] show ?case by (auto simp: pcEntity_def)
next
  case (2 wk c x)
  from 2(1,2) inv(2) obtain l' where "l' \<in> set tr" "handles (scID (wkCmd wk)) l'"
    by (auto simp: in_set_conv_nth [of wk] workersInv_def workerInv_def)
  with remove_effect [OF inv(1) 2(4)] 2(3) show ?case by auto
next
  case 3
  with inv(1) show ?case by simp
qed

lemma schedRun_keeps:
  assumes "schedRun us codec repo s0 tr s" and repo: "rSave repo = save" "rRemove repo = remove"
    and storable: "\<And>c cmd b i t. MarshalCommand codec c cmd = Ret b \<Longrightarrow>
      storable (pcEntity \<lparr>pcID = i, pcIDStr = us i, pcRawCommand = b, pcExecuteAt = t\<rparr>)"
    and "invar (sysRepo s0)" "sysWorkers s0 = []"
  shows "invar (sysRepo s) \<and> (\<forall>i. (SAccept i \<in> set tr \<or> view (sysRepo s0) i \<noteq> None) \<and> (\<forall>l \<in> set tr. \<not> handles i l) \<longrightarrow>
    view (sysRepo s) i \<noteq> None)"
  using assms(1)
proof (induction rule: schedRun.induct)
  case (run_step tr s l s')
  from schedStep_keeps [OF run_step(2) repo storable _ schedRun_workersInv [OF run_step(1) assms(6)]] run_step(3)
  show ?case by auto
qed (use assms(5) in auto)

end

subsection \<open>Example\<close>

text \<open>A codec for one command, a document format for its IDs and times, and a started scheduler.\<close>

definition pingCommand :: command where
  "pingCommand = \<lparr>cmdAggregateID = 1, cmdAggregateType = ''T'', cmdType = ''Ping'', cmdID = Some 5, cmdValue = GBool True\<rparr>"

definition pingCodec :: cmdCodec where
  "pingCodec = \<lparr>MarshalCommand = (\<lambda>c cmd. if cmd = pingCommand then Ret ''ping'' else Fail (NewError ''unknown command'')),
     UnmarshalCommand = (\<lambda>c b. if b = ''ping'' then Ret (pingCommand, c) else Fail (NewError ''unknown command''))\<rparr>"

definition unaryParse :: "string \<Rightarrow> UUID go" where
  "unaryParse s = Ret (of_nat (length s))"

definition pingPersisted :: "UUID \<Rightarrow> time \<Rightarrow> entity" where
  "pingPersisted i t = pcEntity \<lparr>pcID = i, pcIDStr = unaryID i, pcRawCommand = ''ping'', pcExecuteAt = t\<rparr>"

definition pingJson :: jsonEnv where
  "pingJson = \<lparr>json_Marshal = (\<lambda>e. case asPersisted e of
         None \<Rightarrow> Fail (NewError ''unknown entity'')
       | Some pc \<Rightarrow> Ret (unaryID (pcID pc) @ replicate (nat (pcExecuteAt pc)) (CHR ''+'') @ replicate (nat (- pcExecuteAt pc)) (CHR ''-''))),
     json_Unmarshal = (\<lambda>b fresh. let count = (\<lambda>x. length (filter (\<lambda>y. y = x) b)) in
       Ret (pingPersisted (of_nat (count (CHR ''i''))) (int (count (CHR ''+'')) - int (count (CHR ''-'')))))\<rparr>"

definition pingFresh :: entity where
  "pingFresh = pingPersisted 0 0"

definition pingSys :: "(memRepo, nat) schedSys" where
  "pingSys = \<lparr>sysSched = NewScheduler\<lparr>shHandler := Some (\<lambda>c cmd w. (Suc w, Ret ())), shCctx := Some False\<rparr>, sysLoop = Receiving,
     sysWorkers = [], sysRepo = memSetEntityFactory NewMemRepo pingFresh, sysWorld = 0\<rparr>"

lemma ping_storable: "MarshalCommand pingCodec c cmd = Ret b \<Longrightarrow>
    jsonStorable pingJson pingFresh (pcEntity \<lparr>pcID = i, pcIDStr = unaryID i, pcRawCommand = b, pcExecuteAt = t\<rparr>)"
  by (auto simp: pingCodec_def pingJson_def jsonStorable_def pingPersisted_def unaryID_def Let_def split: if_splits)

lemma ping_empty [simp]:
  "sysWorkers pingSys = []" "sysRepo pingSys = memSetEntityFactory NewMemRepo pingFresh"
  "memRepoInv pingJson pingFresh (memSetEntityFactory NewMemRepo pingFresh)"
  "memView pingJson pingFresh (memSetEntityFactory NewMemRepo pingFresh) i = None"
  by (simp_all add: pingSys_def memRepoInv_def memView_def memSetEntityFactory_def NewMemRepo_def)

lemma pcEntity_ID [simp]: "entityID (pcEntity pc) = pcID pc"
  by (simp add: pcEntity_def)

lemma ping_schedule:
  assumes "length (shCmdCh s) < 100"
  shows "\<exists>r'. ScheduleCommand unaryID pingCodec (memRepoOps pingJson) 0 context_Background pingCommand 9 (s, sysRepo pingSys) =
     ((s\<lparr>shCmdCh := shCmdCh s @ [\<lparr>scID = 5, scCtx = context_Background, scCmd = pingCommand, scExecuteAt = 9\<rparr>]\<rparr>, r'), Ret 5)"
proof -
  let ?e = "pcEntity \<lparr>pcID = 5, pcIDStr = unaryID 5, pcRawCommand = ''ping'', pcExecuteAt = 9\<rparr>"
  have m: "MarshalCommand pingCodec context_Background pingCommand = Ret ''ping''" by (simp add: pingCodec_def)
  obtain r' x where sv: "memRepoSave pingJson context_Background ?e (sysRepo pingSys) = (r', x)" by fastforce
  from memRepoSave_ok [OF _ ping_storable [OF m] _ sv] have "x = Ret ()" by simp
  moreover have "cmdID pingCommand = Some 5" by (simp add: pingCommand_def)
  ultimately show ?thesis using sv assms by (simp add: ScheduleCommand_def m memRepoOps_def)
qed

lemma ping_run:
  "\<exists>s. schedRun unaryID pingCodec (memRepoOps pingJson) pingSys [SAccept 5, SOther, SExec 0 5 9] s \<and> sysWorld s = 1"
proof -
  let ?sc = "\<lparr>scID = 5, scCtx = context_Background, scCmd = pingCommand, scExecuteAt = 9\<rparr>"
  let ?step = "schedStep unaryID pingCodec (memRepoOps pingJson)"
  obtain r1 where "ScheduleCommand unaryID pingCodec (memRepoOps pingJson) 0 context_Background pingCommand 9 (sysSched pingSys, sysRepo pingSys) =
      (((sysSched pingSys)\<lparr>shCmdCh := [?sc]\<rparr>, r1), Ret 5)"
    using ping_schedule [of "sysSched pingSys"] by (auto simp: pingSys_def NewScheduler_def)
  from schedule_ok [OF this] obtain s1 where s1: "?step (SAccept 5) pingSys s1" "sysLoop s1 = Receiving" "sysWorkers s1 = []"
      "shCmdCh (sysSched s1) = [?sc]" "shHandler (sysSched s1) = Some (\<lambda>c cmd w. (Suc w, Ret ()))" "sysWorld s1 = 0"
    by (auto simp: pingSys_def)
  from receive [OF s1(2,4), of unaryID pingCodec "memRepoOps pingJson"] s1(3,5,6)
  obtain s2 where s2: "?step SOther s1 s2" "sysWorkers s2 = [\<lparr>wkCmd = ?sc, wkChan = shNext (sysSched s1), wkPhase = Waiting\<rparr>]"
      "shHandler (sysSched s2) = Some (\<lambda>c cmd w. (Suc w, Ret ()))" "sysWorld s2 = 0"
    by auto
  from fire [of 0 s2 "\<lparr>wkCmd = ?sc, wkChan = shNext (sysSched s1), wkPhase = Waiting\<rparr>" 9 _ 1 "Ret ()" unaryID pingCodec "memRepoOps pingJson"] s2(2,3,4)
  obtain s3 where "?step (SExec 0 5 9) s2 s3" "sysWorld s3 = 1" by auto
  with run_step [OF run_step [OF run_step [OF run_start s1(1)] s2(1)]] show ?thesis by fastforce
qed

section \<open>Properties\<close>



text \<open>
  C16: Durability of the command scheduler on the in-memory repository: a command that was
  accepted, or was in the repository before, is still in the repository as long as no goroutine
  has executed or cancelled it, in every run.
\<close>

theorem scheduler_keeps_commands:
  assumes "schedRun us codec (memRepoOps env) s0 tr s" and "sysWorkers s0 = []" and "memRepoInv env fresh (sysRepo s0)"
    and "\<And>c cmd b i t. MarshalCommand codec c cmd = Ret b \<Longrightarrow>
      jsonStorable env fresh (pcEntity \<lparr>pcID = i, pcIDStr = us i, pcRawCommand = b, pcExecuteAt = t\<rparr>)"
    and "SAccept i \<in> set tr \<or> memView env fresh (sysRepo s0) i \<noteq> None" and "\<forall>l \<in> set tr. \<not> handles i l"
  shows "memView env fresh (sysRepo s) i \<noteq> None"
  using memw.schedRun_keeps [OF assms(1) _ _ assms(4,3,2)] assms(5,6) by (simp add: memRepoOps_def)


theorem scheduler_keeps_commands_witness:
  "\<exists>s. schedRun unaryID pingCodec (memRepoOps pingJson) pingSys [SAccept 5] s \<and> memView pingJson pingFresh (sysRepo s) 5 \<noteq> None"
proof -
  from ping_schedule [of "sysSched pingSys"] obtain r' sh where
    "ScheduleCommand unaryID pingCodec (memRepoOps pingJson) 0 context_Background pingCommand 9 (sysSched pingSys, sysRepo pingSys) = ((sh, r'), Ret 5)"
    by (auto simp: pingSys_def NewScheduler_def)
  from schedule_ok [OF this] run_step [OF run_start] obtain s where
    run: "schedRun unaryID pingCodec (memRepoOps pingJson) pingSys [SAccept 5] s" by fastforce
  have "memView pingJson pingFresh (sysRepo s) 5 \<noteq> None"
    by (rule scheduler_keeps_commands [OF run _ _ ping_storable]) simp_all
  with run show ?thesis by blast
qed

text \<open>
  C24: After the command scheduler's run loop has closed \<^verbatim>\<open>done\<close>, and so after \<^verbatim>\<open>Stop\<close> has returned, no
  command is executed or cancelled, whatever is scheduled or cancelled later.
\<close>

theorem scheduler_stopped_is_quiet:
  assumes "schedRun us codec repo s0 (tr1 @ SDone # tr2) s"
  shows "\<forall>l \<in> set tr2. \<forall>j. \<not> byWorker j l"
proof -
  have "(SDone \<in> set tr \<longrightarrow> sysLoop s = Done \<and> (\<forall>wk \<in> set (sysWorkers s). wkPhase wk = Finished)) \<and>
      (\<forall>tr1 tr2. tr = tr1 @ SDone # tr2 \<longrightarrow> (\<forall>l \<in> set tr2. \<forall>j. \<not> byWorker j l))"
    if "schedRun us codec repo s0 tr s" for tr
    using that
  proof (induction rule: schedRun.induct)
    case (run_step tr s l s')
    have step: "SDone \<in> set tr \<Longrightarrow> sysLoop s' = Done \<and> sysWorkers s' = sysWorkers s \<and> (\<forall>j. \<not> byWorker j l)"
      using run_step(2) run_step(3) by cases (auto simp: all_set_conv_all_nth)
    moreover have "l = SDone \<Longrightarrow> sysLoop s' = Done \<and> (\<forall>wk \<in> set (sysWorkers s'). wkPhase wk = Finished)"
      using run_step(2) by cases auto
    moreover have "\<forall>l' \<in> set tr2. \<forall>j. \<not> byWorker j l'" if "tr @ [l] = tr1 @ SDone # tr2" for tr1 tr2
      using that run_step(3) step by (cases tr2 rule: rev_cases) auto
    ultimately show ?case using run_step(3) by auto
  qed simp
  from this [OF assms] show ?thesis by blast
qed

theorem scheduler_stopped_is_quiet_witness:
  "\<exists>s. schedRun unaryID pingCodec (memRepoOps pingJson) pingSys ([SOther, SOther] @ SDone # [SOther]) s \<and>
     (\<forall>l \<in> set [SOther]. \<forall>j. \<not> byWorker j l)"
proof -
  let ?repo = "memRepoOps pingJson"
  let ?step = "schedStep unaryID pingCodec ?repo"
  let ?s1 = "pingSys\<lparr>sysSched := (sysSched pingSys)\<lparr>shCctx := Some True\<rparr>\<rparr>"
  let ?s2 = "?s1\<lparr>sysLoop := Draining\<rparr>"
  let ?s3 = "?s2\<lparr>sysLoop := Done\<rparr>"
  have stop: "schedStop (sysSched ?s3) = (sysSched ?s3, Ret ())" by (simp add: schedStop_def)
  have "?step SOther pingSys ?s1" by (rule stop_call) (simp add: schedStop_def pingSys_def)
  moreover have "?step SOther ?s1 ?s2" by (rule loop_break) (simp_all add: pingSys_def)
  moreover have "?step SDone ?s2 ?s3" by (rule loop_done) simp_all
  ultimately have "schedRun unaryID pingCodec ?repo pingSys ((([] @ [SOther]) @ [SOther]) @ [SDone]) ?s3"
    by (intro run_step [OF run_step [OF run_step [OF run_start]]])
  from run_step [OF this stop_call [OF stop]] obtain s where
    run: "schedRun unaryID pingCodec ?repo pingSys ([SOther, SOther] @ SDone # [SOther]) s" by auto
  from scheduler_stopped_is_quiet [OF run] run show ?thesis by blast
qed

text \<open>
  C25: \<^verbatim>\<open>ScheduleCommand\<close> and \<^verbatim>\<open>Commands\<close> of the command scheduler are inverse on the in-memory
  repository: when a command is accepted under a new ID, the commands that can be loaded
  afterwards are those that could be loaded before and, last, this command with its ID and
  execution time.
\<close>

theorem schedule_then_load:
  assumes "memRepoInv env fresh r"
    and "ScheduleCommand us codec (memRepoOps env) newID c cmd t (s, r) = ((s', r'), Ret i)" and "memView env fresh r i = None"
    and "Commands parse codec (memRepoOps env) c' r = (r, Ret scs)"
    and "\<And>b. MarshalCommand codec c cmd = Ret b \<Longrightarrow>
      jsonStorable env fresh (pcEntity \<lparr>pcID = i, pcIDStr = us i, pcRawCommand = b, pcExecuteAt = t\<rparr>) \<and>
      UnmarshalCommand codec c' b = Ret (cmd, c'')"
    and "parse (us i) = Ret i"
  shows "Commands parse codec (memRepoOps env) c' r' = (r', Ret (scs @ [\<lparr>scID = i, scCtx = c'', scCmd = cmd, scExecuteAt = t\<rparr>]))"
proof -
  from ScheduleCommand_repo [OF assms(2)] obtain b where b: "MarshalCommand codec c cmd = Ret b"
    and sv: "memRepoSave env c (pcEntity \<lparr>pcID = i, pcIDStr = us i, pcRawCommand = b, pcExecuteAt = t\<rparr>) r = (r', Ret ())"
    by (auto simp: memRepoOps_def)
  let ?e = "pcEntity \<lparr>pcID = i, pcIDStr = us i, pcRawCommand = b, pcExecuteAt = t\<rparr>"
  have i: "entityID ?e = i" by (simp add: pcEntity_def)
  with sv assms(1) have nz: "i \<noteq> uuid_Nil" by (auto simp: memRepoSave_def memRepoInv_def Let_def)
  from memRepoSave_ok [OF assms(1) _ _ sv] assms(5) [OF b] i nz
  have r': "memRepoInv env fresh r'" "memView env fresh r' = (memView env fresh r)(i \<mapsto> ?e)" by auto
  from assms(1,3) have new: "rDb r i = None" "i \<notin> set (rIds r)" using memView_None_iff [OF assms(1), of i]
    by (auto simp: memRepoInv_def)
  with sv i have ids: "rIds r' = rIds r @ [i]"
    by (auto simp: memRepoSave_def Let_def split: option.splits if_splits outcome.splits)
  from new(2) have all: "map (\<lambda>j. the (memView env fresh r' j)) (rIds r') = map (\<lambda>j. the (memView env fresh r j)) (rIds r) @ [?e]"
    unfolding ids r'(2) by auto
  have "loadPersisted parse codec c' ?e = Ret \<lparr>scID = i, scCtx = c'', scCmd = cmd, scExecuteAt = t\<rparr>"
    using assms(5) [OF b] assms(6) by (simp add: loadPersisted_def)
  with assms(4) show ?thesis
    by (simp add: Commands_def memRepoOps_def memFindAll_view [OF assms(1)] memFindAll_view [OF r'(1)] all
        otraverse_Ret_iff list_all2_appendI)
qed

theorem schedule_then_load_witness:
  "\<exists>s' r'. ScheduleCommand unaryID pingCodec (memRepoOps pingJson) 0 context_Background pingCommand 9 (sysSched pingSys, sysRepo pingSys) =
       ((s', r'), Ret 5) \<and>
     Commands unaryParse pingCodec (memRepoOps pingJson) context_Background r' =
       (r', Ret ([] @ [\<lparr>scID = 5, scCtx = context_Background, scCmd = pingCommand, scExecuteAt = 9\<rparr>]))"
proof -
  from ping_schedule [of "sysSched pingSys"] obtain r' sh where
    s: "ScheduleCommand unaryID pingCodec (memRepoOps pingJson) 0 context_Background pingCommand 9 (sysSched pingSys, sysRepo pingSys) = ((sh, r'), Ret 5)"
    by (auto simp: pingSys_def NewScheduler_def)
  have "Commands unaryParse pingCodec (memRepoOps pingJson) context_Background (sysRepo pingSys) = (sysRepo pingSys, Ret [])"
    by (simp add: Commands_def memRepoOps_def memFindAll_view [of pingJson pingFresh]) (simp add: memSetEntityFactory_def NewMemRepo_def)
  note loaded = this
  have parse: "unaryParse (unaryID 5) = Ret 5" by (simp add: unaryParse_def unaryID_def)
  have codec: "UnmarshalCommand pingCodec context_Background b = Ret (pingCommand, context_Background)"
    if "MarshalCommand pingCodec context_Background pingCommand = Ret b" for b
    using that by (simp add: pingCodec_def)
  have "Commands unaryParse pingCodec (memRepoOps pingJson) context_Background r' =
      (r', Ret ([] @ [\<lparr>scID = 5, scCtx = context_Background, scCmd = pingCommand, scExecuteAt = 9\<rparr>]))"
    by (rule schedule_then_load [where fresh = pingFresh, OF _ s _ loaded]) (use ping_storable codec parse in simp_all)
  with s show ?thesis by blast
qed

text \<open>
  Cancelling a command twice closes its channel twice, which panics: the channel stays in the map
  after the first cancellation.
\<close>

lemma cancel_twice_panics:
  "CancelCommand us i s = (s', Ret ()) \<Longrightarrow> CancelCommand us i s' = (s', Panic ''close of closed channel'')"
  by (auto simp: CancelCommand_def split: option.splits if_splits)

text \<open>With a full queue the caller gets an error although the command has been persisted.\<close>

lemma ScheduleCommand_queue_full:
  assumes "MarshalCommand codec c cmd = Ret b" "cmdID cmd = Some i" "length (shCmdCh s) = ScheduledCommandsQueueSize"
    and "rSave repo c (pcEntity \<lparr>pcID = i, pcIDStr = us i, pcRawCommand = b, pcExecuteAt = t\<rparr>) r = (r', Ret ())"
  shows "ScheduleCommand us codec repo newID c cmd t (s, r) = ((s, r'), Fail (CommandError (NewError ''command queue full'') c cmd))"
  using assms by (simp add: ScheduleCommand_def)

end
