(* ===== verification/Repo_Mongo.thy ===== *)
theory Repo_Mongo
  imports Mongo Repo "HOL-Library.AList"
begin

text \<open>
  The MongoDB repository (\<^verbatim>\<open>repo/mongodb\<close>). A document is a map from field names to encoded
  values; the driver's collection and the BSON coding of entities are parameters. \<^verbatim>\<open>Save\<close> is an
  update with \<^verbatim>\<open>$set\<close> and upsert, so it merges the fields of the entity into the stored document.
  Under the documented behaviour of the driver the repository meets the contract of read and
  write repositories for entities whose encoding always has the same fields.
\<close>

section \<open>State and parameters\<close>

type_synonym doc = "string \<rightharpoonup> string"

abbreviation RepoOpFindQuery :: string where "RepoOpFindQuery \<equiv> ''find query''"
abbreviation RepoOpClear :: string where "RepoOpClear \<equiv> ''clear''"

text \<open>
  Encoding an entity, and decoding a document onto an entity: the entity as far as it was filled,
  with the error if there was one. \<open>uuidString\<close> prints a UUID.
\<close>

record entCodec =
  uuidString :: "UUID \<Rightarrow> string"
  encodeEntity :: "entity \<Rightarrow> doc go"
  decodeEntity :: "doc \<Rightarrow> entity \<Rightarrow> entity \<times> err option"

text \<open>
  A cursor: the documents it will deliver before \<^verbatim>\<open>Next\<close> returns false, and what closing it returns.
  \<open>ecUpdateSet\<close> is \<^verbatim>\<open>UpdateOne\<close> with \<^verbatim>\<open>$set\<close> and upsert; \<open>ecDeleteOne\<close> returns the deleted count.
\<close>

record cursor =
  curDocs :: "doc list"
  curClose :: "unit go"

record 'd entColl =
  ecFindOne :: "ctx \<Rightarrow> string \<Rightarrow> 'd \<Rightarrow> doc go"
  ecFind :: "ctx \<Rightarrow> 'd \<Rightarrow> cursor go"
  ecUpdateSet :: "ctx \<Rightarrow> string \<Rightarrow> doc \<Rightarrow> 'd \<Rightarrow> 'd \<times> unit go"
  ecDeleteOne :: "ctx \<Rightarrow> string \<Rightarrow> 'd \<Rightarrow> 'd \<times> nat go"
  ecDrop :: "ctx \<Rightarrow> 'd \<Rightarrow> 'd \<times> unit go"
  ecCreateIndex :: "ctx \<Rightarrow> string \<Rightarrow> 'd \<Rightarrow> 'd \<times> unit go"

record mongoRepo =
  mrOwnership :: clientOwnership
  mrCollection :: string
  mrNewEntity :: "entity option"
  mrConnectionCheck :: bool

section \<open>Construction\<close>

type_synonym mongoRepoOption = "mongoRepo \<Rightarrow> mongoRepo go"

definition WithConnectionCheck :: mongoRepoOption where
  "WithConnectionCheck r = Ret (r\<lparr>mrConnectionCheck := True\<rparr>)"

fun applyRepoOptions :: "mongoRepoOption list \<Rightarrow> mongoRepo \<Rightarrow> mongoRepo go" where
  "applyRepoOptions [] r = Ret r"
| "applyRepoOptions (opt # opts) r =
     obind (mapErr (Wrapf ''error while applying option'') (opt r)) (applyRepoOptions opts)"

definition newRepoWithClient ::
    "'c option \<Rightarrow> clientOwnership \<Rightarrow> unit go \<Rightarrow> string \<Rightarrow> mongoRepoOption list \<Rightarrow> mongoRepo go" where
  "newRepoWithClient client owner ping collection options =
     (case client of
        None \<Rightarrow> Fail (NewError ''missing DB client'')
      | Some _ \<Rightarrow>
          obind (applyRepoOptions options
                  \<lparr>mrOwnership = owner, mrCollection = collection, mrNewEntity = None, mrConnectionCheck = False\<rparr>) (\<lambda>r.
          obind (if mrConnectionCheck r then mapErr (Wrapf ''could not connect to MongoDB'') ping else Ret ()) (\<lambda>_.
          Ret r)))"

definition NewMongoRepo :: "'c go \<Rightarrow> unit go \<Rightarrow> string \<Rightarrow> mongoRepoOption list \<Rightarrow> mongoRepo go" where
  "NewMongoRepo connect ping collection options =
     obind (mapErr (Wrapf ''could not connect to DB'') connect) (\<lambda>client.
       newRepoWithClient (Some client) internalClient ping collection options)"

definition NewMongoRepoWithClient :: "'c option \<Rightarrow> unit go \<Rightarrow> string \<Rightarrow> mongoRepoOption list \<Rightarrow> mongoRepo go" where
  "NewMongoRepoWithClient client ping collection options =
     newRepoWithClient client externalClient ping collection options"

definition mrSetEntityFactory :: "mongoRepo \<Rightarrow> entity \<Rightarrow> mongoRepo" where
  "mrSetEntityFactory r f = r\<lparr>mrNewEntity := Some f\<rparr>"

definition mrClose :: "unit go \<Rightarrow> mongoRepo \<Rightarrow> unit go" where
  "mrClose disconnect r = closeClient (mrOwnership r) disconnect"

section \<open>Reading\<close>

text \<open>\<^verbatim>\<open>FindOne(...).Decode(entity)\<close>, where not finding a document is a missing entity.\<close>

definition decodeOne :: "entCodec \<Rightarrow> doc go \<Rightarrow> entity \<Rightarrow> entity go" where
  "decodeOne codec res fresh =
     mapErr (\<lambda>x. if errors_Is x MongoErrNoDocuments then Sentinel ErrEntityNotFound else x)
       (obind res (\<lambda>doc. case decodeEntity codec doc fresh of
                           (e, None) \<Rightarrow> Ret e
                         | (_, Some x) \<Rightarrow> Fail x))"

definition mrFind :: "entCodec \<Rightarrow> 'd entColl \<Rightarrow> mongoRepo \<Rightarrow> ctx \<Rightarrow> UUID \<Rightarrow> 'd \<Rightarrow> 'd \<times> entity go" where
  "mrFind codec C r c i d =
     (d, case mrNewEntity r of
           None \<Rightarrow> Fail (RepoError (Some (Sentinel ErrRepoModelNotSet)) RepoOpFind i)
         | Some fresh \<Rightarrow>
             mapErr (\<lambda>x. RepoError (Some x) RepoOpFind i)
               (decodeOne codec (ecFindOne C c (uuidString codec i) d) fresh))"

text \<open>The loop over a cursor: every document is decoded onto a fresh entity.\<close>

fun cursorEntities :: "entCodec \<Rightarrow> entity \<Rightarrow> doc list \<Rightarrow> entity list go" where
  "cursorEntities codec fresh [] = Ret []"
| "cursorEntities codec fresh (doc # docs) =
     (case decodeEntity codec doc fresh of
        (_, Some x) \<Rightarrow> Fail (Wrapf ''could not unmarshal'' x)
      | (e, None) \<Rightarrow> obind (cursorEntities codec fresh docs) (\<lambda>es. Ret (e # es)))"

definition readCursor :: "entCodec \<Rightarrow> string \<Rightarrow> entity \<Rightarrow> cursor \<Rightarrow> entity list go" where
  "readCursor codec op fresh cur =
     mapErr (\<lambda>x. RepoError (Some x) op uuid_Nil)
       (obind (cursorEntities codec fresh (curDocs cur)) (\<lambda>es.
        obind (mapErr (Wrapf ''could not close cursor'') (curClose cur)) (\<lambda>_. Ret es)))"

definition mrFindAll :: "entCodec \<Rightarrow> 'd entColl \<Rightarrow> mongoRepo \<Rightarrow> ctx \<Rightarrow> 'd \<Rightarrow> 'd \<times> entity list go" where
  "mrFindAll codec C r c d =
     (d, case mrNewEntity r of
           None \<Rightarrow> Fail (RepoError (Some (Sentinel ErrRepoModelNotSet)) RepoOpFindAll uuid_Nil)
         | Some fresh \<Rightarrow>
             obind (mapErr (\<lambda>x. RepoError (Some (Wrapf ''could not find'' x)) RepoOpFindAll uuid_Nil) (ecFind C c d))
               (readCursor codec RepoOpFindAll fresh))"

text \<open>The custom queries: \<open>f\<close> is the callback on the collection.\<close>

definition customCursor ::
    "mongoRepo \<Rightarrow> (ctx \<Rightarrow> 'd \<Rightarrow> 'd \<times> cursor option go) \<Rightarrow> ctx \<Rightarrow> 'd \<Rightarrow> 'd \<times> (entity \<times> cursor) go" where
  "customCursor r f c d =
     (case mrNewEntity r of
        None \<Rightarrow> (d, Fail (RepoError (Some (Sentinel ErrRepoModelNotSet)) RepoOpFindQuery uuid_Nil))
      | Some fresh \<Rightarrow>
          (case f c d of
             (d', Fail x) \<Rightarrow> (d', Fail (RepoError (Some (Wrapf ''could not find'' x)) RepoOpFindQuery uuid_Nil))
           | (d', Panic p) \<Rightarrow> (d', Panic p)
           | (d', Ret None) \<Rightarrow> (d', Fail (RepoError (Some (Sentinel ErrNoCursor)) RepoOpFindQuery uuid_Nil))
           | (d', Ret (Some cur)) \<Rightarrow> (d', Ret (fresh, cur))))"

definition mrFindCustom ::
    "entCodec \<Rightarrow> mongoRepo \<Rightarrow> (ctx \<Rightarrow> 'd \<Rightarrow> 'd \<times> cursor option go) \<Rightarrow> ctx \<Rightarrow> 'd \<Rightarrow> 'd \<times> entity list go" where
  "mrFindCustom codec r f c d =
     (case customCursor r f c d of
        (d', res) \<Rightarrow> (d', obind res (\<lambda>(fresh, cur). readCursor codec RepoOpFindQuery fresh cur)))"

definition mrFindOneCustom ::
    "entCodec \<Rightarrow> mongoRepo \<Rightarrow> (ctx \<Rightarrow> 'd \<Rightarrow> 'd \<times> doc go) \<Rightarrow> ctx \<Rightarrow> 'd \<Rightarrow> 'd \<times> entity go" where
  "mrFindOneCustom codec r f c d =
     (case mrNewEntity r of
        None \<Rightarrow> (d, Fail (RepoError (Some (Sentinel ErrRepoModelNotSet)) RepoOpFindQuery uuid_Nil))
      | Some fresh \<Rightarrow>
          (case f c d of (d', res) \<Rightarrow>
             (d', mapErr (\<lambda>x. RepoError (Some x) RepoOpFind uuid_Nil) (decodeOne codec res fresh))))"

text \<open>The iterator of \<^verbatim>\<open>FindCustomIter\<close>.\<close>

record iter =
  itCursor :: cursor
  itData :: "entity option"
  itNewEntity :: entity
  itDecodeErr :: "err option"

definition mrFindCustomIter ::
    "mongoRepo \<Rightarrow> (ctx \<Rightarrow> 'd \<Rightarrow> 'd \<times> cursor option go) \<Rightarrow> ctx \<Rightarrow> 'd \<Rightarrow> 'd \<times> iter go" where
  "mrFindCustomIter r f c d =
     (case customCursor r f c d of
        (d', res) \<Rightarrow> (d', obind res (\<lambda>(fresh, cur).
           Ret \<lparr>itCursor = cur, itData = None, itNewEntity = fresh, itDecodeErr = None\<rparr>)))"

definition iterNext :: "entCodec \<Rightarrow> iter \<Rightarrow> iter \<times> bool" where
  "iterNext codec it =
     (case curDocs (itCursor it) of
        [] \<Rightarrow> (it, False)
      | doc # docs \<Rightarrow>
          (case decodeEntity codec doc (itNewEntity it) of (item, e) \<Rightarrow>
             (it\<lparr>itCursor := (itCursor it)\<lparr>curDocs := docs\<rparr>, itDecodeErr := e, itData := Some item\<rparr>, True)))"

definition iterValue :: "iter \<Rightarrow> entity option" where
  "iterValue it = itData it"

definition iterClose :: "iter \<Rightarrow> unit go" where
  "iterClose it =
     obind (curClose (itCursor it)) (\<lambda>_. case itDecodeErr it of None \<Rightarrow> Ret () | Some x \<Rightarrow> Fail x)"

text \<open>A client's loop: values until \<^verbatim>\<open>Next\<close> returns false.\<close>

function iterLoop :: "entCodec \<Rightarrow> iter \<Rightarrow> iter \<times> entity option list" where
  "iterLoop codec it =
     (case iterNext codec it of
        (it', False) \<Rightarrow> (it', [])
      | (it', True) \<Rightarrow> (case iterLoop codec it' of (it'', vs) \<Rightarrow> (it'', iterValue it' # vs)))"
  by auto
termination
  by (relation "measure (\<lambda>(_, it). length (curDocs (itCursor it)))")
    (auto simp: iterNext_def split: list.splits prod.splits)

declare iterLoop.simps [simp del]

section \<open>Writing\<close>

definition mrSave :: "entCodec \<Rightarrow> 'd entColl \<Rightarrow> ctx \<Rightarrow> entity \<Rightarrow> 'd \<Rightarrow> 'd \<times> unit go" where
  "mrSave codec C c e d =
     (let i = entityID e in
      if i = uuid_Nil then (d, Fail (RepoError (Some (NewError ''missing entity ID'')) RepoOpSave uuid_Nil))
      else (case (case encodeEntity codec e of
                    Ret doc \<Rightarrow> ecUpdateSet C c (uuidString codec i) doc d
                  | Fail x \<Rightarrow> (d, Fail x)
                  | Panic p \<Rightarrow> (d, Panic p)) of
              (d', r) \<Rightarrow> (d', mapErr (\<lambda>x. RepoError (Some (Wrapf ''could not save/update'' x)) RepoOpSave i) r)))"

definition mrRemove :: "entCodec \<Rightarrow> 'd entColl \<Rightarrow> ctx \<Rightarrow> UUID \<Rightarrow> 'd \<Rightarrow> 'd \<times> unit go" where
  "mrRemove codec C c i d =
     (case ecDeleteOne C c (uuidString codec i) d of
        (d', r) \<Rightarrow> (d', obind (mapErr (\<lambda>x. RepoError (Some x) RepoOpRemove i) r) (\<lambda>n.
           if n = 0 then Fail (RepoError (Some (Sentinel ErrEntityNotFound)) RepoOpRemove i) else Ret ())))"

definition mrCollectionDo :: "(ctx \<Rightarrow> 'd \<Rightarrow> 'd \<times> unit go) \<Rightarrow> ctx \<Rightarrow> 'd \<Rightarrow> 'd \<times> unit go" where
  "mrCollectionDo f c d = (case f c d of (d', r) \<Rightarrow> (d', mapErr (\<lambda>x. RepoError (Some x) '''' uuid_Nil) r))"

definition mrCreateIndex :: "'d entColl \<Rightarrow> ctx \<Rightarrow> string \<Rightarrow> 'd \<Rightarrow> 'd \<times> unit go" where
  "mrCreateIndex C c field d =
     (case ecCreateIndex C c field d of (d', r) \<Rightarrow> (d', mapErr (Wrapf ''could not create index'') r))"

definition mrClear :: "'d entColl \<Rightarrow> ctx \<Rightarrow> 'd \<Rightarrow> 'd \<times> unit go" where
  "mrClear C c d =
     (case ecDrop C c d of
        (d', r) \<Rightarrow> (d', mapErr (\<lambda>x. RepoError (Some (Wrapf ''could not drop collection'' x)) RepoOpClear uuid_Nil) r))"

definition mongoRepoOps :: "entCodec \<Rightarrow> 'd entColl \<Rightarrow> mongoRepo \<Rightarrow> 'd Repo" where
  "mongoRepoOps codec C r =
     \<lparr>rFind = mrFind codec C r, rFindAll = mrFindAll codec C r, rSave = mrSave codec C, rRemove = mrRemove codec C\<rparr>"

section \<open>The collection's promises\<close>

text \<open>
  \<open>docs\<close> gives the documents by \<^verbatim>\<open>_id\<close>. An update with \<^verbatim>\<open>$set\<close> sets the given fields of the matching
  document; where none matches, the upsert inserts a document with the filter's \<^verbatim>\<open>_id\<close> and them.
  A write that returns an error changes nothing, and the database answers reads.
\<close>

definition setFields :: "string \<Rightarrow> doc \<Rightarrow> doc option \<Rightarrow> doc" where
  "setFields i u old = (case old of Some o' \<Rightarrow> o' ++ u | None \<Rightarrow> [''_id'' \<mapsto> i] ++ u)"

definition setLaw :: "'d entColl \<Rightarrow> ('d \<Rightarrow> string \<Rightarrow> doc option) \<Rightarrow> bool" where
  "setLaw C docs \<longleftrightarrow> (\<forall>c i u d d' r. ecUpdateSet C c i u d = (d', r) \<longrightarrow>
     docs d' = (if r = Ret () then (docs d)(i \<mapsto> setFields i u (docs d i)) else docs d))"

definition deleteLaw :: "'d entColl \<Rightarrow> ('d \<Rightarrow> string \<Rightarrow> doc option) \<Rightarrow> bool" where
  "deleteLaw C docs \<longleftrightarrow> (\<forall>c i d d' r. ecDeleteOne C c i d = (d', r) \<longrightarrow>
     (if is_Ret r then docs d' = (docs d)(i := None) \<and> r = Ret (if docs d i = None then 0 else 1)
      else docs d' = docs d))"

definition findLaw :: "'d entColl \<Rightarrow> ('d \<Rightarrow> string \<Rightarrow> doc option) \<Rightarrow> bool" where
  "findLaw C docs \<longleftrightarrow> (\<forall>c i d. ecFindOne C c i d =
     (case docs d i of Some doc \<Rightarrow> Ret doc | None \<Rightarrow> Fail (Sentinel MongoErrNoDocuments)))"

definition entLaws :: "'d entColl \<Rightarrow> ('d \<Rightarrow> string \<Rightarrow> doc option) \<Rightarrow> bool" where
  "entLaws C docs \<longleftrightarrow> setLaw C docs \<and> deleteLaw C docs \<and> findLaw C docs"

text \<open>A database that also answers writes.\<close>

definition writesSucceed :: "'d entColl \<Rightarrow> bool" where
  "writesSucceed C \<longleftrightarrow> (\<forall>c i u d. snd (ecUpdateSet C c i u d) = Ret ()) \<and> (\<forall>c i d. is_Ret (snd (ecDeleteOne C c i d)))"

section \<open>Contract\<close>

text \<open>
  Entities whose encoding has the fields \<open>F\<close>, with the entity's ID if \<^verbatim>\<open>_id\<close> is among them, and
  decodes back.
\<close>

definition bsonStorable :: "entCodec \<Rightarrow> string set \<Rightarrow> entity \<Rightarrow> entity \<Rightarrow> bool" where
  "bsonStorable codec F fresh e \<longleftrightarrow>
     (case encodeEntity codec e of
        Ret u \<Rightarrow> insert ''_id'' (dom u) = F \<and> (u ''_id'' = None \<or> u ''_id'' = Some (uuidString codec (entityID e))) \<and>
          decodeEntity codec (setFields (uuidString codec (entityID e)) u None) fresh = (e, None)
      | _ \<Rightarrow> False)"

definition mrInv :: "entCodec \<Rightarrow> string set \<Rightarrow> entity \<Rightarrow> (string \<Rightarrow> doc option) \<Rightarrow> bool" where
  "mrInv codec F fresh ds \<longleftrightarrow> (\<forall>i doc. ds i = Some doc \<longrightarrow> dom doc = F \<and> doc ''_id'' = Some i \<and>
     (\<exists>e. decodeEntity codec doc fresh = (e, None) \<and> uuidString codec (entityID e) = i))"

definition mrView :: "entCodec \<Rightarrow> entity \<Rightarrow> (string \<Rightarrow> doc option) \<Rightarrow> UUID \<Rightarrow> entity option" where
  "mrView codec fresh ds i = map_option (\<lambda>doc. fst (decodeEntity codec doc fresh)) (ds (uuidString codec i))"

text \<open>With all fields set, what the document held before does not matter.\<close>

lemma setFields_same:
  assumes "dom old = F" "old ''_id'' = Some i" "insert ''_id'' (dom u) = F" "u ''_id'' = None \<or> u ''_id'' = Some i"
  shows "setFields i u (Some old) = setFields i u None"
proof
  fix k
  have "k \<in> dom old \<longleftrightarrow> k = ''_id'' \<or> k \<in> dom u" unfolding assms(1) assms(3) [symmetric] by simp
  with assms(2,4) show "setFields i u (Some old) k = setFields i u None k"
    by (cases "k = ''_id''"; cases "u k") (auto simp: setFields_def map_add_def domIff)
qed

lemma mrSave_effect:
  assumes laws: "setLaw C docs" and inj: "inj (uuidString codec)" and inv: "mrInv codec F fresh (docs d)"
    and st: "bsonStorable codec F fresh e" and sv: "mrSave codec C c e d = (d', r)"
  shows "mrInv codec F fresh (docs d') \<and>
    mrView codec fresh (docs d') = (if r = Ret () then (mrView codec fresh (docs d))(entityID e \<mapsto> e) else mrView codec fresh (docs d))"
proof (cases "entityID e = uuid_Nil")
  case True
  with sv inv show ?thesis by (auto simp: mrSave_def)
next
  case False
  let ?i = "uuidString codec (entityID e)"
  from st obtain u where u: "encodeEntity codec e = Ret u" "insert ''_id'' (dom u) = F"
    "u ''_id'' = None \<or> u ''_id'' = Some ?i" "decodeEntity codec (setFields ?i u None) fresh = (e, None)"
    by (auto simp: bsonStorable_def split: outcome.splits)
  obtain r0 where up: "ecUpdateSet C c ?i u d = (d', r0)" "r = Ret () \<longleftrightarrow> r0 = Ret ()"
    using sv u(1) False by (auto simp: mrSave_def Let_def split: prod.splits)
  show ?thesis
  proof (cases "r = Ret ()")
    case True
    have "setFields ?i u (docs d ?i) = setFields ?i u None"
      using inv setFields_same [OF _ _ u(2,3)] by (cases "docs d ?i") (auto simp: mrInv_def)
    with laws up True have ds: "docs d' = (docs d)(?i \<mapsto> setFields ?i u None)"
      unfolding setLaw_def by metis
    have "dom (setFields ?i u None) = F" "setFields ?i u None ''_id'' = Some ?i"
      using u(2,3) by (auto simp: setFields_def map_add_def split: option.splits)
    with inv u(4) ds have "mrInv codec F fresh (docs d')" by (auto simp: mrInv_def)
    moreover have "mrView codec fresh (docs d') = (mrView codec fresh (docs d))(entityID e \<mapsto> e)"
      using ds u(4) inj by (auto simp: mrView_def fun_eq_iff inj_eq)
    ultimately show ?thesis using True by simp
  next
    case False
    with laws up have "docs d' = docs d" unfolding setLaw_def by metis
    with inv False show ?thesis by simp
  qed
qed

lemma mrRemove_effect:
  assumes laws: "deleteLaw C docs" and inj: "inj (uuidString codec)" and inv: "mrInv codec F fresh (docs d)"
    and rm: "mrRemove codec C c i d = (d', r)"
  shows "mrInv codec F fresh (docs d') \<and>
    mrView codec fresh (docs d') = (if r = Ret () then (mrView codec fresh (docs d))(i := None) else mrView codec fresh (docs d))"
proof -
  let ?i = "uuidString codec i"
  obtain r0 where del: "ecDeleteOne C c ?i d = (d', r0)"
      "r = obind (mapErr (\<lambda>x. RepoError (Some x) RepoOpRemove i) r0)
        (\<lambda>n. if n = 0 then Fail (RepoError (Some (Sentinel ErrEntityNotFound)) RepoOpRemove i) else Ret ())"
    using rm by (auto simp: mrRemove_def split: prod.splits)
  show ?thesis
  proof (cases r0)
    case (Ret n)
    with laws del have ds: "docs d' = (docs d)(?i := None)" "n = (if docs d ?i = None then 0 else 1)"
      unfolding deleteLaw_def by fastforce+
    then have "mrInv codec F fresh (docs d')" using inv by (auto simp: mrInv_def)
    moreover have "mrView codec fresh (docs d') = (mrView codec fresh (docs d))(i := None)"
      using ds inj by (auto simp: mrView_def fun_eq_iff inj_eq)
    moreover have "mrView codec fresh (docs d) i = None" if "n = 0"
      using ds(2) that by (auto simp: mrView_def split: if_splits)
    ultimately show ?thesis using del(2) Ret by (cases "n = 0") (auto simp: fun_upd_idem)
  next
    case (Fail x)
    with laws del(1) have "docs d' = docs d" unfolding deleteLaw_def by fastforce
    with Fail del(2) inv show ?thesis by simp
  next
    case (Panic p)
    with laws del(1) have "docs d' = docs d" unfolding deleteLaw_def by fastforce
    with Panic del(2) inv show ?thesis by simp
  qed
qed

lemma mrRemove_result:
  assumes "deleteLaw C docs" "writesSucceed C" "mrRemove codec C c i d = (d', r)"
  shows "r = (if mrView codec fresh (docs d) i = None then Fail (RepoError (Some (Sentinel ErrEntityNotFound)) RepoOpRemove i) else Ret ())"
proof -
  obtain d1 r0 where del: "ecDeleteOne C c (uuidString codec i) d = (d1, r0)" by fastforce
  with assms(2) have "is_Ret r0" unfolding writesSucceed_def by (metis snd_conv)
  with assms(1) del have "r0 = Ret (if docs d (uuidString codec i) = None then 0 else 1)" unfolding deleteLaw_def by metis
  with assms(3) del show ?thesis by (auto simp: mrRemove_def mrView_def)
qed

text \<open>Every repository over a database that keeps the laws meets the contract for writing clients.\<close>

lemma mongo_write_repo:
  assumes "entLaws C docs" and "inj (uuidString codec)"
  shows "write_repo (mrSave codec C) (mrRemove codec C) (\<lambda>d. mrView codec fresh (docs d))
    (bsonStorable codec F fresh) (\<lambda>d. mrInv codec F fresh (docs d))"
  by unfold_locales
    (rule mrSave_effect [where docs = docs] mrRemove_effect [where docs = docs]; use assms in \<open>simp add: entLaws_def\<close>)+

text \<open>And with a database that answers writes, the contract of read and write repositories.\<close>

lemma mrFind_view:
  assumes "findLaw C docs" "mrNewEntity r = Some fresh" "mrInv codec F fresh (docs d)"
  shows "mrFind codec C r c i d = (d, case mrView codec fresh (docs d) i of
      Some e \<Rightarrow> Ret e | None \<Rightarrow> Fail (RepoError (Some (Sentinel ErrEntityNotFound)) RepoOpFind i))"
  using assms
  by (cases "docs d (uuidString codec i)")
    (fastforce simp: mrFind_def decodeOne_def findLaw_def mrView_def mrInv_def)+

lemma mongo_rw_repo:
  assumes laws: "entLaws C docs" "writesSucceed C" and inj: "inj (uuidString codec)" and model: "mrNewEntity r = Some fresh"
  shows "rw_repo (mrFind codec C r) (mrSave codec C) (mrRemove codec C) (\<lambda>d. mrView codec fresh (docs d))
    (bsonStorable codec F fresh) (\<lambda>d. mrInv codec F fresh (docs d))"
proof (unfold_locales, goal_cases)
  case (1 d c i d' o')
  with laws(1) model show ?case by (simp add: mrFind_def)
next
  case (2 d i e c d' o')
  with laws(1) mrFind_view [where docs = docs, OF _ model 2(1)] show ?case by (auto simp: entLaws_def)
next
  case (3 d i c d' o')
  with laws(1) mrFind_view [where docs = docs, OF _ model 3(1)] show ?case by (auto simp: entLaws_def)
next
  case (4 d e c d' res)
  from 4(2) obtain u where "encodeEntity codec e = Ret u" by (auto simp: bsonStorable_def split: outcome.splits)
  with 4(3,4) laws(2) have "res = Ret ()"
    by (auto simp: mrSave_def Let_def writesSucceed_def split: prod.splits) (metis mapErr.simps(1) snd_conv)
  with 4 laws(1) inj mrSave_effect [of C docs codec F fresh d e c d' res] show ?case by (auto simp: entLaws_def)
next
  case (5 d i c d' res)
  with mrRemove_result [of C docs codec c i d d' res fresh] mrRemove_effect [of C docs codec F fresh d c i d' res] laws inj
  show ?case by (auto simp: entLaws_def)
next
  case (6 d i c d' res)
  with mrRemove_result [of C docs codec c i d d' res fresh] mrRemove_effect [of C docs codec F fresh d c i d' res] laws inj
  show ?case by (auto simp: entLaws_def)
qed

text \<open>\<^verbatim>\<open>Find\<close> on the collection delivers every document once, as long as the cursor does not fail.\<close>

definition findAllLaw :: "'d entColl \<Rightarrow> ('d \<Rightarrow> string \<Rightarrow> doc option) \<Rightarrow> bool" where
  "findAllLaw C docs \<longleftrightarrow> (\<forall>c d. \<exists>ids. distinct ids \<and> set ids = dom (docs d) \<and>
     ecFind C c d = Ret \<lparr>curDocs = map (\<lambda>i. the (docs d i)) ids, curClose = Ret ()\<rparr>)"

lemma cursorEntities_Ret:
  "(\<And>i. i \<in> set ids \<Longrightarrow> decodeEntity codec (f i) fresh = (g i, None)) \<Longrightarrow> cursorEntities codec fresh (map f ids) = Ret (map g ids)"
  by (induction ids) auto

subsection \<open>The iterator\<close>

lemma iterLoop_eq:
  "iterLoop codec \<lparr>itCursor = \<lparr>curDocs = ds, curClose = cl\<rparr>, itData = dt, itNewEntity = fresh, itDecodeErr = de\<rparr> =
     (\<lparr>itCursor = \<lparr>curDocs = [], curClose = cl\<rparr>,
       itData = (if ds = [] then dt else Some (fst (decodeEntity codec (last ds) fresh))), itNewEntity = fresh,
       itDecodeErr = (if ds = [] then de else snd (decodeEntity codec (last ds) fresh))\<rparr>,
      map (\<lambda>doc. Some (fst (decodeEntity codec doc fresh))) ds)"
proof (induction ds arbitrary: dt de)
  case (Cons doc ds)
  then show ?case
    by (cases "decodeEntity codec doc fresh") (subst iterLoop.simps, simp add: iterNext_def iterValue_def)
qed (subst iterLoop.simps, simp add: iterNext_def)

section \<open>Example\<close>

text \<open>A database that is a list of documents by ID, and a codec for entities with a version.\<close>

definition listColl :: "(string \<times> doc) list entColl" where
  "listColl = \<lparr>ecFindOne = (\<lambda>c i d. case map_of d i of Some doc \<Rightarrow> Ret doc | None \<Rightarrow> Fail (Sentinel MongoErrNoDocuments)),
     ecFind = (\<lambda>c d. Ret \<lparr>curDocs = map (\<lambda>i. the (map_of d i)) (remdups (map fst d)), curClose = Ret ()\<rparr>),
     ecUpdateSet = (\<lambda>c i u d. (AList.update i (setFields i u (map_of d i)) d, Ret ())),
     ecDeleteOne = (\<lambda>c i d. (AList.delete i d, Ret (if map_of d i = None then 0 else 1))),
     ecDrop = (\<lambda>c d. ([], Ret ())), ecCreateIndex = (\<lambda>c f d. (d, Ret ()))\<rparr>"

lemma listColl_laws: "entLaws listColl map_of" "writesSucceed listColl"
  by (auto simp: listColl_def entLaws_def setLaw_def deleteLaw_def findLaw_def writesSucceed_def update_conv' delete_conv')

lemma listColl_findAll: "findAllLaw listColl map_of"
  unfolding findAllLaw_def
proof (intro allI exI conjI)
  fix d :: "(string \<times> doc) list" and c
  show "distinct (remdups (map fst d))" by simp
  show "set (remdups (map fst d)) = dom (map_of d)" by (simp add: dom_map_of_conv_image_fst)
  show "ecFind listColl c d = Ret \<lparr>curDocs = map (\<lambda>i. the (map_of d i)) (remdups (map fst d)), curClose = Ret ()\<rparr>"
    by (simp add: listColl_def)
qed

definition counterCodec :: entCodec where
  "counterCodec = \<lparr>uuidString = (\<lambda>i. replicate (unat i) (CHR ''i'')),
     encodeEntity = (\<lambda>e. Ret [''_id'' \<mapsto> replicate (unat (entityID e)) (CHR ''i''),
        ''version'' \<mapsto> replicate (unat (the (entityVersion e))) (CHR ''v'')]),
     decodeEntity = (\<lambda>doc fresh. (fresh\<lparr>entityID := of_nat (length (the (doc ''_id''))),
        entityVersion := Some (of_nat (length (the (doc ''version''))))\<rparr>, None))\<rparr>"

definition counterEntity :: "UUID \<Rightarrow> gint \<Rightarrow> entity" where
  "counterEntity i v = \<lparr>entityID = i, entityVersion = Some v, entityBody = GBool True\<rparr>"

lemma counterCodec_inj: "inj (uuidString counterCodec)"
  by (auto simp: counterCodec_def inj_def replicate_eq_replicate unsigned_word_eqI)

lemma counter_storable: "bsonStorable counterCodec {''_id'', ''version''} (counterEntity 0 0) (counterEntity i v)"
  by (auto simp: bsonStorable_def counterCodec_def counterEntity_def setFields_def)

section \<open>Properties\<close>

text \<open>
  C13: the MongoDB repository over a database with the documented behaviour: when \<^verbatim>\<open>Save\<close> of an entity
  that has all fields of the collection's documents returns no error, \<^verbatim>\<open>Find\<close> returns this entity
  and every other entity is found as before; the documents stay well formed.
\<close>

theorem mongoRepo_save_find:
  assumes "entLaws C docs" and "inj (uuidString codec)" and "mrNewEntity r = Some fresh"
    and "mrInv codec F fresh (docs d)" and "bsonStorable codec F fresh e"
    and "mrSave codec C c e d = (d', Ret ())"
  shows "mrFind codec C r c' (entityID e) d' = (d', Ret e) \<and>
    (i \<noteq> entityID e \<longrightarrow> snd (mrFind codec C r c' i d') = snd (mrFind codec C r c' i d)) \<and> mrInv codec F fresh (docs d')"
proof -
  from assms(1) have laws: "setLaw C docs" "findLaw C docs" by (simp_all add: entLaws_def)
  from mrSave_effect [where docs = docs, OF laws(1) assms(2,4-6)]
  have inv: "mrInv codec F fresh (docs d')" and v: "mrView codec fresh (docs d') = (mrView codec fresh (docs d))(entityID e \<mapsto> e)"
    by simp_all
  show ?thesis
    using inv by (simp add: mrFind_view [where docs = docs, OF laws(2) assms(3) inv] mrFind_view [where docs = docs, OF laws(2) assms(3,4)] v)
qed

theorem mongoRepo_save_find_witness:
  "\<exists>d' r. NewMongoRepoWithClient (Some ()) (Ret ()) ''counters'' [] = Ret r \<and>
     mrSave counterCodec listColl context_Background (counterEntity 3 2) [] = (d', Ret ()) \<and>
     mrFind counterCodec listColl (mrSetEntityFactory r (counterEntity 0 0)) context_Background 3 d' = (d', Ret (counterEntity 3 2))"
proof -
  obtain r where r: "NewMongoRepoWithClient (Some ()) (Ret ()) ''counters'' [] = Ret r"
    by (simp add: NewMongoRepoWithClient_def newRepoWithClient_def)
  have "entityID (counterEntity 3 2) = 3" by (simp add: counterEntity_def)
  moreover obtain d' where sv: "mrSave counterCodec listColl context_Background (counterEntity 3 2) [] = (d', Ret ())"
    by (simp add: mrSave_def counterCodec_def counterEntity_def listColl_def)
  moreover have "mrNewEntity (mrSetEntityFactory r (counterEntity 0 0)) = Some (counterEntity 0 0)"
    by (simp add: mrSetEntityFactory_def)
  moreover have "mrInv counterCodec {''_id'', ''version''} (counterEntity 0 0) (map_of [])" by (simp add: mrInv_def)
  ultimately show ?thesis
    using r mongoRepo_save_find [OF listColl_laws(1) counterCodec_inj _ _ counter_storable sv, of _ context_Background] by metis
qed


text \<open>An entity whose version is left out of the document when it is zero.\<close>

definition omitCodec :: entCodec where
  "omitCodec = counterCodec\<lparr>encodeEntity := \<lambda>e. Ret (if the (entityVersion e) = 0
     then [''_id'' \<mapsto> replicate (unat (entityID e)) (CHR ''i'')]
     else [''_id'' \<mapsto> replicate (unat (entityID e)) (CHR ''i''),
           ''version'' \<mapsto> replicate (unat (the (entityVersion e))) (CHR ''v'')])\<rparr>"


text \<open>
  C40: an iterator over a custom query delivers one value per document of the cursor, but \<^verbatim>\<open>Close\<close>
  reports only the decode error of the last document: the errors of the others are lost, and their
  partly filled entities have been delivered as values.
\<close>

theorem iterator_reports_last_error:
  "\<exists>it'. iterLoop codec \<lparr>itCursor = \<lparr>curDocs = ds @ [doc], curClose = Ret ()\<rparr>, itData = None, itNewEntity = fresh, itDecodeErr = None\<rparr> =
     (it', map (\<lambda>doc. Some (fst (decodeEntity codec doc fresh))) (ds @ [doc])) \<and>
   iterClose it' = (case snd (decodeEntity codec doc fresh) of None \<Rightarrow> Ret () | Some x \<Rightarrow> Fail x)"
  by (simp add: iterLoop_eq iterClose_def)

text \<open>All entities, each once, when the cursor does not fail.\<close>

lemma mongoRepo_findAll:
  assumes "findAllLaw C docs" and "mrNewEntity r = Some fresh" and "mrInv codec F fresh (docs d)" and "inj (uuidString codec)"
  shows "\<exists>es. mrFindAll codec C r c d = (d, Ret es) \<and> distinct es \<and>
    set es = {e. mrView codec fresh (docs d) (entityID e) = Some e}"
proof -
  from assms(1) obtain ids where ids: "distinct ids" "set ids = dom (docs d)"
      "ecFind C c d = Ret \<lparr>curDocs = map (\<lambda>i. the (docs d i)) ids, curClose = Ret ()\<rparr>"
    unfolding findAllLaw_def by blast
  define g where "g i = fst (decodeEntity codec (the (docs d i)) fresh)" for i
  have g: "decodeEntity codec (the (docs d i)) fresh = (g i, None) \<and> uuidString codec (entityID (g i)) = i \<and> docs d i \<noteq> None"
    if "i \<in> set ids" for i
    using that ids(2) assms(3) by (fastforce simp: mrInv_def g_def)
  then have "cursorEntities codec fresh (map (\<lambda>i. the (docs d i)) ids) = Ret (map g ids)"
    by (intro cursorEntities_Ret) blast
  with ids(3) assms(2) have "mrFindAll codec C r c d = (d, Ret (map g ids))"
    by (simp add: mrFindAll_def readCursor_def)
  moreover have "distinct (map g ids)" using ids(1) g by (auto simp: distinct_map inj_on_def) metis
  moreover have "set (map g ids) = {e. mrView codec fresh (docs d) (entityID e) = Some e}"
  proof (intro set_eqI iffI; clarsimp)
    fix i assume "i \<in> set ids"
    from g [OF this] show "mrView codec fresh (docs d) (entityID (g i)) = Some (g i)"
      by (auto simp: mrView_def g_def)
  next
    fix e assume "mrView codec fresh (docs d) (entityID e) = Some e"
    then have "uuidString codec (entityID e) \<in> set ids" "e = g (uuidString codec (entityID e))"
      using ids(2) by (auto simp: mrView_def g_def)
    then show "e \<in> g ` set ids" by blast
  qed
  ultimately show ?thesis by blast
qed

end
