(* ===== verification/Outbox_Mongo.thy ===== *)
theory Outbox_Mongo
  imports Mongo Outbox_Memory
begin

text \<open>
  The MongoDB outbox (\<^verbatim>\<open>outbox/mongodb\<close>). The outboxes of several hosts share one collection; each
  watches the collection's change stream and sweeps it periodically. The driver's operations and
  the event codec are parameters. The operations of a host are functions on the outbox, the
  database and the world of its handlers; the hosts interleave between database operations, which
  the step relation describes. Handler registration and the loop over the handlers of a document
  are as in the in-memory outbox.
\<close>

section \<open>State\<close>

text \<open>
  A document. \<open>odTakenAt\<close> is \<^const>\<open>None\<close> where the field is absent, as it is for the zero time.
\<close>

record odoc =
  odID :: nat
  odEvent :: string
  odHandlers :: "string list"
  odWatchToken :: string
  odCreatedAt :: time
  odTakenAt :: "time option"

text \<open>
  The queries on the collection: insertion returns the new ID, \<open>obTake\<close> is the update that sets
  \<^verbatim>\<open>taken_at\<close> if the document may be taken, \<open>obPullAll\<close> the one that drops handler names (both
  return the matched count), \<open>obFind\<close> the query of the sweep, as the results of decoding the
  documents of its cursor.
\<close>

record 'd obColl =
  obInsert :: "ctx \<Rightarrow> odoc \<Rightarrow> 'd \<Rightarrow> 'd \<times> nat go"
  obTake :: "ctx \<Rightarrow> nat \<Rightarrow> time \<Rightarrow> 'd \<Rightarrow> 'd \<times> nat go"
  obDelete :: "ctx \<Rightarrow> nat \<Rightarrow> 'd \<Rightarrow> 'd \<times> unit go"
  obPullAll :: "ctx \<Rightarrow> nat \<Rightarrow> string list \<Rightarrow> 'd \<Rightarrow> 'd \<times> nat go"
  obFind :: "ctx \<Rightarrow> time \<Rightarrow> 'd \<Rightarrow> odoc go list go"
  obCloseCursor :: "ctx \<Rightarrow> unit go"

record 'w mongoOutbox =
  moOwnership :: clientOwnership
  moCollection :: string
  moHandlers :: "'w matcherHandler list"
  moWatchToken :: string
  moErrs :: "err list"

section \<open>Construction and registration\<close>

type_synonym 'w outboxOption = "'w mongoOutbox \<Rightarrow> 'w mongoOutbox go"

definition WithWatchToken :: "string \<Rightarrow> 'w outboxOption" where
  "WithWatchToken token ob = Ret (ob\<lparr>moWatchToken := token\<rparr>)"

definition WithOutboxCollection :: "string \<Rightarrow> 'w outboxOption" where
  "WithOutboxCollection name ob =
     obind (mapErr (Wrapf ''outbox collection'') (CheckCollectionName name)) (\<lambda>_. Ret (ob\<lparr>moCollection := name\<rparr>))"

fun applyOutboxOptions :: "'w outboxOption list \<Rightarrow> 'w mongoOutbox \<Rightarrow> 'w mongoOutbox go" where
  "applyOutboxOptions [] ob = Ret ob"
| "applyOutboxOptions (opt # opts) ob =
     obind (mapErr (Wrapf ''error while applying option'') (opt ob)) (applyOutboxOptions opts)"

definition newOutboxWithClient ::
    "'c option \<Rightarrow> clientOwnership \<Rightarrow> unit go \<Rightarrow> 'w outboxOption list \<Rightarrow> 'w mongoOutbox go" where
  "newOutboxWithClient client owner ping options =
     (case client of
        None \<Rightarrow> Fail (NewError ''missing DB client'')
      | Some _ \<Rightarrow>
          obind (applyOutboxOptions options
                  \<lparr>moOwnership = owner, moCollection = ''outbox'', moHandlers = [], moWatchToken = '''', moErrs = []\<rparr>) (\<lambda>ob.
          obind (mapErr (Wrapf ''could not connect to MongoDB'') ping) (\<lambda>_. Ret ob)))"

definition NewMongoOutbox :: "'c go \<Rightarrow> unit go \<Rightarrow> 'w outboxOption list \<Rightarrow> 'w mongoOutbox go" where
  "NewMongoOutbox connect ping options =
     obind (mapErr (Wrapf ''could not connect to DB'') connect) (\<lambda>client. newOutboxWithClient (Some client) internalClient ping options)"

definition NewMongoOutboxWithClient :: "'c option \<Rightarrow> unit go \<Rightarrow> 'w outboxOption list \<Rightarrow> 'w mongoOutbox go" where
  "NewMongoOutboxWithClient client ping options = newOutboxWithClient client externalClient ping options"

definition moHandlerType :: string where
  "moHandlerType = ''outbox''"

definition moAddHandler ::
    "(event \<Rightarrow> bool) option \<Rightarrow> 'w EventHandler option \<Rightarrow> 'w mongoOutbox \<Rightarrow> 'w mongoOutbox \<times> unit go" where
  "moAddHandler m h ob =
     (case m of
        None \<Rightarrow> (ob, Fail (Sentinel ErrMissingMatcher))
      | Some mt \<Rightarrow>
          (case h of
             None \<Rightarrow> (ob, Fail (Sentinel ErrMissingHandler))
           | Some hd' \<Rightarrow>
               if handlerFor (moHandlers ob) (HandlerType hd') \<noteq> None
               then (ob, Fail (Sentinel ErrHandlerAlreadyAdded))
               else (ob\<lparr>moHandlers := moHandlers ob @ [\<lparr>mhMatch = mt, mhHandler = hd'\<rparr>]\<rparr>, Ret ())))"

definition moClose :: "unit go \<Rightarrow> 'w mongoOutbox \<Rightarrow> unit go" where
  "moClose disconnect ob = closeClient (moOwnership ob) disconnect"

section \<open>Operations\<close>

text \<open>\<^verbatim>\<open>HandleEvent\<close>: the driver gives the document its ID.\<close>

definition moHandleEvent ::
    "eventCodec \<Rightarrow> 'd obColl \<Rightarrow> time \<Rightarrow> ctx \<Rightarrow> event \<Rightarrow> 'w mongoOutbox \<Rightarrow> 'd \<Rightarrow> 'd \<times> nat go" where
  "moHandleEvent codec C now c e ob d =
     (case MarshalEvent codec c (Some e) of
        Fail x \<Rightarrow> (d, Fail (Wrapf ''could not marshal event'' x))
      | Panic p \<Rightarrow> (d, Panic p)
      | Ret b \<Rightarrow>
          (case obInsert C c \<lparr>odID = 0, odEvent = b, odHandlers = matchingHandlers (moHandlers ob) e,
                              odWatchToken = moWatchToken ob, odCreatedAt = now, odTakenAt = None\<rparr> d of
             (d', r) \<Rightarrow> (d', mapErr (Wrapf ''could not queue event'') r)))"

text \<open>
  \<^verbatim>\<open>processOutboxEvent\<close> in three parts: taking the document (no result if another host has it),
  running the handlers, and deleting the document or dropping the processed handlers from it. A
  nil context in an error is the background context here.
\<close>

definition moTake ::
    "eventCodec \<Rightarrow> 'd obColl \<Rightarrow> odoc \<Rightarrow> time \<Rightarrow> 'd \<Rightarrow> 'd \<times> (event \<times> ctx) option go" where
  "moTake codec C r now d =
     (case UnmarshalEvent codec context_Background (odEvent r) of
        Fail x \<Rightarrow> (d, Fail (OutboxError (Some (Wrapf ''could not unmarshal event'' x)) context_Background None))
      | Panic p \<Rightarrow> (d, Panic p)
      | Ret (e, c) \<Rightarrow>
          (case obTake C c (odID r) now d of
             (d', res) \<Rightarrow> (d', obind (mapErr (\<lambda>x. OutboxError (Some (Wrapf ''could not take event for handling'' x)) c (Some e)) res)
               (\<lambda>n. Ret (if n = 0 then None else Some (e, c))))))"

definition moFinish :: "'d obColl \<Rightarrow> ctx \<Rightarrow> event \<Rightarrow> odoc \<Rightarrow> string list \<Rightarrow> 'd \<Rightarrow> 'd \<times> unit go" where
  "moFinish C c e r processed d =
     (if length processed = length (odHandlers r) then
        (case obDelete C c (odID r) d of
           (d', res) \<Rightarrow> (d', mapErr (\<lambda>x. OutboxError (Some (Wrapf ''could not delete outbox event'' x)) c (Some e)) res))
      else if processed \<noteq> [] then
        (case obPullAll C c (odID r) processed d of
           (d', res) \<Rightarrow> (d', obind (mapErr (\<lambda>x. OutboxError (Some (Wrapf ''could not set outbox event as handled'' x)) c (Some e)) res)
             (\<lambda>n. if n = 0 then Fail (OutboxError (Some (NewError ''could not find outbox event to set as handled: %!w(<nil>)'')) c (Some e))
                  else Ret ())))
      else (d, Ret ()))"

definition moProcess ::
    "eventCodec \<Rightarrow> 'd obColl \<Rightarrow> odoc \<Rightarrow> time \<Rightarrow> 'w mongoOutbox \<Rightarrow> 'd \<times> 'w \<Rightarrow> 'w mongoOutbox \<times> ('d \<times> 'w) \<times> unit go" where
  "moProcess codec C r now ob dw =
     (case dw of (d, w) \<Rightarrow>
        (case moTake codec C r now d of
           (d1, Fail x) \<Rightarrow> (ob, (d1, w), Fail x)
         | (d1, Panic p) \<Rightarrow> (ob, (d1, w), Panic p)
         | (d1, Ret None) \<Rightarrow> (ob, (d1, w), Ret ())
         | (d1, Ret (Some (e, c))) \<Rightarrow>
             (case runHandlers (moHandlers ob) c e (odHandlers r) (moErrs ob) w of
                ((errs, w1), Fail x) \<Rightarrow> (ob\<lparr>moErrs := errs\<rparr>, (d1, w1), Fail x)
              | ((errs, w1), Panic p) \<Rightarrow> (ob\<lparr>moErrs := errs\<rparr>, (d1, w1), Panic p)
              | ((errs, w1), Ret ps) \<Rightarrow>
                  (case moFinish C c e r ps d1 of (d2, res) \<Rightarrow> (ob\<lparr>moErrs := errs\<rparr>, (d2, w1), res)))))"

text \<open>
  One event of the change stream: \<open>fullDoc\<close> is its document, or the error of looking it up or
  decoding it; the error is sent to the error channel.
\<close>

definition processStreamEvent ::
    "eventCodec \<Rightarrow> 'd obColl \<Rightarrow> odoc go \<Rightarrow> time \<Rightarrow> 'w mongoOutbox \<Rightarrow> 'd \<times> 'w \<Rightarrow> 'w mongoOutbox \<times> ('d \<times> 'w) \<times> unit go" where
  "processStreamEvent codec C fullDoc now ob dw =
     (case fullDoc of
        Fail x \<Rightarrow> (ob, dw, Fail x)
      | Panic p \<Rightarrow> (ob, dw, Panic p)
      | Ret r \<Rightarrow> (case moProcess codec C r now ob dw of
                    (ob', dw', res) \<Rightarrow> (ob', dw', mapErr (Wrapf ''could not process outbox event'') res)))"

fun moWatchLoop ::
    "eventCodec \<Rightarrow> 'd obColl \<Rightarrow> (odoc go \<times> time) list \<Rightarrow> 'w mongoOutbox \<Rightarrow> 'd \<times> 'w \<Rightarrow> 'w mongoOutbox \<times> ('d \<times> 'w) \<times> unit go" where
  "moWatchLoop codec C [] ob dw = (ob, dw, Ret ())"
| "moWatchLoop codec C ((ev, now) # evs) ob dw =
     (case processStreamEvent codec C ev now ob dw of
        (ob', dw', Ret _) \<Rightarrow> moWatchLoop codec C evs ob' dw'
      | (ob', dw', Fail x) \<Rightarrow> moWatchLoop codec C evs (ob'\<lparr>moErrs := obErrSend (OutboxError (Some x) context_Background None) (moErrs ob')\<rparr>) dw'
      | (ob', dw', Panic p) \<Rightarrow> (ob', dw', Panic p))"

text \<open>One run of \<^verbatim>\<open>processWithWatch\<close>: opening the stream, its events, and its final error.\<close>

definition moProcessWithWatch ::
    "eventCodec \<Rightarrow> 'd obColl \<Rightarrow> unit go \<Rightarrow> (odoc go \<times> time) list \<Rightarrow> unit go \<Rightarrow> 'w mongoOutbox \<Rightarrow> 'd \<times> 'w \<Rightarrow>
     'w mongoOutbox \<times> ('d \<times> 'w) \<times> unit go" where
  "moProcessWithWatch codec C opened evs streamErr ob dw =
     (case opened of
        Fail x \<Rightarrow> (ob, dw, Fail (Wrapf ''could not watch outbox'' x))
      | Panic p \<Rightarrow> (ob, dw, Panic p)
      | Ret _ \<Rightarrow> (case moWatchLoop codec C evs ob dw of
                    (ob', dw', res) \<Rightarrow> (ob', dw', obind res (\<lambda>_. mapErr (Wrapf ''watch error'') streamErr))))"

fun moSweepLoop ::
    "eventCodec \<Rightarrow> 'd obColl \<Rightarrow> odoc go list \<Rightarrow> time \<Rightarrow> 'w mongoOutbox \<Rightarrow> 'd \<times> 'w \<Rightarrow> 'w mongoOutbox \<times> ('d \<times> 'w) \<times> unit go" where
  "moSweepLoop codec C [] now ob dw = (ob, dw, Ret ())"
| "moSweepLoop codec C (x # xs) now ob dw =
     (case x of
        Fail y \<Rightarrow> (ob, dw, Fail (Wrapf ''could not unmarshal outbox event'' y))
      | Panic p \<Rightarrow> (ob, dw, Panic p)
      | Ret r \<Rightarrow>
          (case moProcess codec C r now ob dw of
             (ob', dw', Ret _) \<Rightarrow> moSweepLoop codec C xs now ob' dw'
           | (ob', dw', Fail y) \<Rightarrow> (ob', dw', Fail (Wrapf ''could not process outbox event'' y))
           | (ob', dw', Panic p) \<Rightarrow> (ob', dw', Panic p)))"

definition moProcessFullOutbox ::
    "eventCodec \<Rightarrow> 'd obColl \<Rightarrow> ctx \<Rightarrow> time \<Rightarrow> 'w mongoOutbox \<Rightarrow> 'd \<times> 'w \<Rightarrow> 'w mongoOutbox \<times> ('d \<times> 'w) \<times> unit go" where
  "moProcessFullOutbox codec C c now ob dw =
     (case obFind C c now (fst dw) of
        Fail x \<Rightarrow> (ob, dw, Fail (Wrapf ''could not find outbox event'' x))
      | Panic p \<Rightarrow> (ob, dw, Panic p)
      | Ret xs \<Rightarrow> (case moSweepLoop codec C xs now ob dw of
                     (ob', dw', res) \<Rightarrow> (ob', dw', obind res (\<lambda>_. obCloseCursor C c))))"

text \<open>
  One round of \<^verbatim>\<open>runPeriodicallyUntilCancelled\<close>: whether the loop goes on, and the error channel.
\<close>

definition moRound :: "unit go \<Rightarrow> 'w mongoOutbox \<Rightarrow> 'w mongoOutbox \<times> bool" where
  "moRound res ob =
     (case res of
        Fail x \<Rightarrow> if errors_Is x ErrContextCanceled then (ob, False)
                   else (ob\<lparr>moErrs := obErrSend (OutboxError (Some x) context_Background None) (moErrs ob)\<rparr>, True)
      | _ \<Rightarrow> (ob, True))"

section \<open>The collection's promises\<close>

text \<open>
  \<open>docs\<close> gives the documents by ID and \<open>used\<close> the IDs ever given; object IDs are never given twice.
  \<open>ms\<close> is the rounding of times in the database. A failed write changes nothing.
\<close>

definition mayTake :: "(time \<Rightarrow> time) \<Rightarrow> time \<Rightarrow> odoc \<Rightarrow> bool" where
  "mayTake ms now r \<longleftrightarrow>
     (case odTakenAt r of
        None \<Rightarrow> True
      | Some t \<Rightarrow> t < ms (now - PeriodicSweepAge))"

definition sweepable :: "(time \<Rightarrow> time) \<Rightarrow> time \<Rightarrow> odoc \<Rightarrow> bool" where
  "sweepable ms now r \<longleftrightarrow>
     (case odTakenAt r of
        None \<Rightarrow> odCreatedAt r < ms (now - PeriodicCleanupAge)
      | Some t \<Rightarrow> t < ms (now - PeriodicSweepAge))"

record 'd obView =
  obDocs :: "'d \<Rightarrow> nat \<Rightarrow> odoc option"
  obUsed :: "'d \<Rightarrow> nat set"

definition obInsertLaw :: "'d obColl \<Rightarrow> 'd obView \<Rightarrow> (time \<Rightarrow> time) \<Rightarrow> bool" where
  "obInsertLaw C V ms \<longleftrightarrow> (\<forall>c r d d' res. obInsert C c r d = (d', res) \<longrightarrow>
     (case res of
        Ret i \<Rightarrow> i \<notin> obUsed V d \<and> obUsed V d' = insert i (obUsed V d) \<and>
          obDocs V d' = (obDocs V d)(i \<mapsto> r\<lparr>odID := i, odCreatedAt := ms (odCreatedAt r)\<rparr>)
      | _ \<Rightarrow> obDocs V d' = obDocs V d \<and> obUsed V d' = obUsed V d))"

definition obTakeLaw :: "'d obColl \<Rightarrow> 'd obView \<Rightarrow> (time \<Rightarrow> time) \<Rightarrow> bool" where
  "obTakeLaw C V ms \<longleftrightarrow> (\<forall>c i now d d' res. obTake C c i now d = (d', res) \<longrightarrow> obUsed V d' = obUsed V d \<and>
     (if res = Ret 1
      then \<exists>r. obDocs V d i = Some r \<and> mayTake ms now r \<and> obDocs V d' = (obDocs V d)(i \<mapsto> r\<lparr>odTakenAt := Some (ms now)\<rparr>)
      else obDocs V d' = obDocs V d \<and>
        (is_Ret res \<longrightarrow> res = Ret 0 \<and> (\<forall>r. obDocs V d i = Some r \<longrightarrow> \<not> mayTake ms now r))))"

definition obDeleteLaw :: "'d obColl \<Rightarrow> 'd obView \<Rightarrow> bool" where
  "obDeleteLaw C V \<longleftrightarrow> (\<forall>c i d d' res. obDelete C c i d = (d', res) \<longrightarrow> obUsed V d' = obUsed V d \<and>
     obDocs V d' = (if res = Ret () then (obDocs V d)(i := None) else obDocs V d))"

definition obPullLaw :: "'d obColl \<Rightarrow> 'd obView \<Rightarrow> bool" where
  "obPullLaw C V \<longleftrightarrow> (\<forall>c i hs d d' res. obPullAll C c i hs d = (d', res) \<longrightarrow> obUsed V d' = obUsed V d \<and>
     obDocs V d' = (if is_Ret res
       then (obDocs V d)(i := map_option (\<lambda>r. r\<lparr>odHandlers := filter (\<lambda>h. h \<notin> set hs) (odHandlers r)\<rparr>) (obDocs V d i))
       else obDocs V d) \<and>
     (is_Ret res \<longrightarrow> res = Ret (if obDocs V d i = None then 0 else 1)))"

definition obFindLaw :: "'d obColl \<Rightarrow> 'd obView \<Rightarrow> (time \<Rightarrow> time) \<Rightarrow> bool" where
  "obFindLaw C V ms \<longleftrightarrow> (\<forall>c now d xs r. obFind C c now d = Ret xs \<and> Ret r \<in> set xs \<longrightarrow>
     obDocs V d (odID r) = Some r \<and> sweepable ms now r)"

definition obLaws :: "'d obColl \<Rightarrow> 'd obView \<Rightarrow> (time \<Rightarrow> time) \<Rightarrow> bool" where
  "obLaws C V ms \<longleftrightarrow> mono ms \<and> obInsertLaw C V ms \<and> obTakeLaw C V ms \<and> obDeleteLaw C V \<and> obPullLaw C V \<and> obFindLaw C V ms"

section \<open>Hosts\<close>

text \<open>
  What a host does with a copy of a document: it was fetched, taken, its handlers have run. Several
  jobs of one host may overlap here, although its mutex keeps them apart.
\<close>

datatype jobPhase = JFetched | JTaken event ctx | JHandled event ctx "string list" | JDone

record obJob =
  jbHost :: nat
  jbDoc :: odoc
  jbNow :: time
  jbPhase :: jobPhase

text \<open>\<open>osStream\<close> holds the inserted documents that the change stream may still deliver.\<close>

record ('d, 'w) obSys =
  osDb :: 'd
  osHosts :: "'w mongoOutbox list"
  osStream :: "odoc list"
  osJobs :: "obJob list"
  osWorld :: 'w

datatype moLabel = MAdd nat "string list" | MTake nat time | MHandled nat "string list" | MOther

inductive moStep ::
    "eventCodec \<Rightarrow> 'd obColl \<Rightarrow> 'd obView \<Rightarrow> moLabel \<Rightarrow> ('d, 'w) obSys \<Rightarrow> ('d, 'w) obSys \<Rightarrow> bool"
  for codec C V where
  mo_add:
    "ob \<in> set (osHosts s) \<Longrightarrow> moHandleEvent codec C now c e ob (osDb s) = (d', Ret i) \<Longrightarrow> obDocs V d' i = Some r \<Longrightarrow>
     moStep codec C V (MAdd i (matchingHandlers (moHandlers ob) e)) s (s\<lparr>osDb := d', osStream := osStream s @ [r]\<rparr>)"
| mo_add_fails:
    "ob \<in> set (osHosts s) \<Longrightarrow> moHandleEvent codec C now c e ob (osDb s) = (d', Fail x) \<Longrightarrow>
     moStep codec C V MOther s (s\<lparr>osDb := d'\<rparr>)"
| mo_handler:
    "k < length (osHosts s) \<Longrightarrow> moAddHandler m h (osHosts s ! k) = (ob, res) \<Longrightarrow>
     moStep codec C V MOther s (s\<lparr>osHosts := (osHosts s)[k := ob]\<rparr>)"
| mo_watch:
    "k < length (osHosts s) \<Longrightarrow> r \<in> set (osStream s) \<Longrightarrow>
     moWatchToken (osHosts s ! k) = '''' \<or> moWatchToken (osHosts s ! k) = odWatchToken r \<Longrightarrow>
     moStep codec C V MOther s (s\<lparr>osJobs := osJobs s @ [\<lparr>jbHost = k, jbDoc = r, jbNow = now, jbPhase = JFetched\<rparr>]\<rparr>)"
| mo_sweep:
    "k < length (osHosts s) \<Longrightarrow> obFind C c now (osDb s) = Ret xs \<Longrightarrow> Ret r \<in> set xs \<Longrightarrow>
     moStep codec C V MOther s (s\<lparr>osJobs := osJobs s @ [\<lparr>jbHost = k, jbDoc = r, jbNow = now, jbPhase = JFetched\<rparr>]\<rparr>)"
| mo_take:
    "j < length (osJobs s) \<Longrightarrow> osJobs s ! j = jb \<Longrightarrow> jbPhase jb = JFetched \<Longrightarrow>
     moTake codec C (jbDoc jb) (jbNow jb) (osDb s) = (d', Ret (Some (e, c))) \<Longrightarrow>
     moStep codec C V (MTake (odID (jbDoc jb)) (jbNow jb)) s
       (s\<lparr>osDb := d', osJobs := (osJobs s)[j := jb\<lparr>jbPhase := JTaken e c\<rparr>]\<rparr>)"
| mo_not_taken:
    "j < length (osJobs s) \<Longrightarrow> osJobs s ! j = jb \<Longrightarrow> jbPhase jb = JFetched \<Longrightarrow>
     moTake codec C (jbDoc jb) (jbNow jb) (osDb s) = (d', res) \<Longrightarrow> res = Ret None \<or> res = Fail x \<Longrightarrow>
     moStep codec C V MOther s (s\<lparr>osDb := d', osJobs := (osJobs s)[j := jb\<lparr>jbPhase := JDone\<rparr>]\<rparr>)"
| mo_run:
    "j < length (osJobs s) \<Longrightarrow> osJobs s ! j = jb \<Longrightarrow> jbPhase jb = JTaken e c \<Longrightarrow> jbHost jb < length (osHosts s) \<Longrightarrow>
     osHosts s ! jbHost jb = ob \<Longrightarrow>
     runHandlers (moHandlers ob) c e (odHandlers (jbDoc jb)) (moErrs ob) (osWorld s) = ((errs, w'), Ret ps) \<Longrightarrow>
     moStep codec C V (MHandled (odID (jbDoc jb)) ps) s
       (s\<lparr>osJobs := (osJobs s)[j := jb\<lparr>jbPhase := JHandled e c ps\<rparr>], osWorld := w',
          osHosts := (osHosts s)[jbHost jb := ob\<lparr>moErrs := errs\<rparr>]\<rparr>)"
| mo_finish:
    "j < length (osJobs s) \<Longrightarrow> osJobs s ! j = jb \<Longrightarrow> jbPhase jb = JHandled e c ps \<Longrightarrow>
     moFinish C c e (jbDoc jb) ps (osDb s) = (d', res) \<Longrightarrow>
     moStep codec C V MOther s (s\<lparr>osDb := d', osJobs := (osJobs s)[j := jb\<lparr>jbPhase := JDone\<rparr>]\<rparr>)"
| mo_crash:
    "j < length (osJobs s) \<Longrightarrow> osJobs s ! j = jb \<Longrightarrow>
     moStep codec C V MOther s (s\<lparr>osJobs := (osJobs s)[j := jb\<lparr>jbPhase := JDone\<rparr>]\<rparr>)"

inductive moRun ::
    "eventCodec \<Rightarrow> 'd obColl \<Rightarrow> 'd obView \<Rightarrow> ('d, 'w) obSys \<Rightarrow> moLabel list \<Rightarrow> ('d, 'w) obSys \<Rightarrow> bool"
  for codec C V s0 where
  mo_run_start: "moRun codec C V s0 [] s0"
| mo_run_step: "moRun codec C V s0 tr s \<Longrightarrow> moStep codec C V l s s' \<Longrightarrow> moRun codec C V s0 (tr @ [l]) s'"

text \<open>A start: no jobs, nothing in the change stream, and documents stored under their IDs.\<close>

definition moStart :: "'d obView \<Rightarrow> ('d, 'w) obSys \<Rightarrow> bool" where
  "moStart V s \<longleftrightarrow> osJobs s = [] \<and> osStream s = [] \<and>
     (\<forall>i r. obDocs V (osDb s) i = Some r \<longrightarrow> odID r = i \<and> i \<in> obUsed V (osDb s))"

section \<open>Invariants\<close>

definition handledIn :: "nat \<Rightarrow> moLabel list \<Rightarrow> string set" where
  "handledIn i tr = {h. \<exists>ps. MHandled i ps \<in> set tr \<and> h \<in> set ps}"

definition takesOf :: "nat \<Rightarrow> moLabel list \<Rightarrow> time list" where
  "takesOf i tr = List.map_filter (\<lambda>l. case l of MTake k t \<Rightarrow> if k = i then Some t else None | _ \<Rightarrow> None) tr"

text \<open>A copy of a document lists every handler that has not handled the event yet.\<close>

definition copyOk :: "moLabel list \<Rightarrow> nat set \<Rightarrow> odoc \<Rightarrow> bool" where
  "copyOk tr used r \<longleftrightarrow> odID r \<in> used \<and>
     (\<forall>hs. MAdd (odID r) hs \<in> set tr \<longrightarrow> set hs \<subseteq> handledIn (odID r) tr \<union> set (odHandlers r))"

definition jobOk :: "moLabel list \<Rightarrow> nat set \<Rightarrow> obJob \<Rightarrow> bool" where
  "jobOk tr used jb \<longleftrightarrow> copyOk tr used (jbDoc jb) \<and>
     (\<forall>e c ps. jbPhase jb = JHandled e c ps \<longrightarrow> subseq ps (odHandlers (jbDoc jb)) \<and> set ps \<subseteq> handledIn (odID (jbDoc jb)) tr)"

definition docsOk :: "moLabel list \<Rightarrow> nat set \<Rightarrow> (nat \<Rightarrow> odoc option) \<Rightarrow> bool" where
  "docsOk tr used ds \<longleftrightarrow>
     (\<forall>i r. ds i = Some r \<longrightarrow> odID r = i \<and> copyOk tr used r) \<and>
     (\<forall>i hs. MAdd i hs \<in> set tr \<longrightarrow> i \<in> used \<and> (ds i = None \<longrightarrow> set hs \<subseteq> handledIn i tr))"

definition moInv :: "'d obView \<Rightarrow> moLabel list \<Rightarrow> ('d, 'w) obSys \<Rightarrow> bool" where
  "moInv V tr s \<longleftrightarrow> docsOk tr (obUsed V (osDb s)) (obDocs V (osDb s)) \<and>
     (\<forall>r \<in> set (osStream s). copyOk tr (obUsed V (osDb s)) r) \<and>
     (\<forall>jb \<in> set (osJobs s). jobOk tr (obUsed V (osDb s)) jb)"

lemma handledIn_snoc [simp]:
  "handledIn i (tr @ [l]) = handledIn i tr \<union> (case l of MHandled k ps \<Rightarrow> if k = i then set ps else {} | _ \<Rightarrow> {})"
  by (cases l) (auto simp: handledIn_def)

lemma copyOk_mono:
  assumes "copyOk tr used r" "used \<subseteq> used'" "\<And>i hs. l = MAdd i hs \<Longrightarrow> i \<notin> used"
  shows "copyOk (tr @ [l]) used' r"
  using assms by (fastforce simp: copyOk_def)

lemma jobOk_mono:
  assumes "jobOk tr used jb" "used \<subseteq> used'" "\<And>i hs. l = MAdd i hs \<Longrightarrow> i \<notin> used"
  shows "jobOk (tr @ [l]) used' jb"
  using assms copyOk_mono [of tr used "jbDoc jb" used' l] by (auto simp: jobOk_def)

lemma docsOk_mono:
  assumes "docsOk tr used ds" "\<And>i hs. l \<noteq> MAdd i hs"
  shows "docsOk (tr @ [l]) used ds"
proof -
  have "copyOk (tr @ [l]) used r" if "ds i = Some r" for i r
    using assms that by (intro copyOk_mono [of tr used]) (auto simp: docsOk_def)
  with assms show ?thesis by (fastforce simp: docsOk_def)
qed

lemma docsOk_update:
  assumes "docsOk tr used ds" "ds i = Some r" "odID r' = odID r" "set (odHandlers r) \<subseteq> handledIn i tr \<union> set (odHandlers r')"
  shows "docsOk tr used (ds(i \<mapsto> r'))"
  using assms by (fastforce simp: docsOk_def copyOk_def)

lemma docsOk_delete:
  assumes "docsOk tr used ds" "\<And>hs. MAdd i hs \<in> set tr \<Longrightarrow> set hs \<subseteq> handledIn i tr"
  shows "docsOk tr used (ds(i := None))"
  using assms by (auto simp: docsOk_def)

lemma docsOk_insert:
  assumes "docsOk tr used ds" "i \<notin> used" "odID r = i" "odHandlers r = hs"
  shows "docsOk (tr @ [MAdd i hs]) (insert i used) (ds(i \<mapsto> r))"
proof -
  from assms(1,2) have new: "MAdd i hs' \<notin> set tr" for hs' by (auto simp: docsOk_def)
  have "copyOk (tr @ [MAdd i hs]) (insert i used) r'" if "ds k = Some r'" for k r'
    using assms that by (intro copyOk_mono [of tr used]) (auto simp: docsOk_def)
  moreover have "copyOk (tr @ [MAdd i hs]) (insert i used) r" using assms(3,4) new by (auto simp: copyOk_def)
  ultimately show ?thesis using assms(1,3) new by (auto simp: docsOk_def)
qed

text \<open>The database after the operations of a host.\<close>

lemma moHandleEvent_effect:
  assumes "obLaws C V ms" "moHandleEvent codec C now c e ob d = (d', res)"
  shows "case res of
      Ret i \<Rightarrow> \<exists>r. i \<notin> obUsed V d \<and> obUsed V d' = insert i (obUsed V d) \<and> odID r = i \<and> odTakenAt r = None \<and>
        odHandlers r = matchingHandlers (moHandlers ob) e \<and> obDocs V d' = (obDocs V d)(i \<mapsto> r)
    | _ \<Rightarrow> obDocs V d' = obDocs V d \<and> obUsed V d' = obUsed V d"
proof (cases "MarshalEvent codec c (Some e)")
  case (Ret b)
  let ?r = "\<lparr>odID = 0, odEvent = b, odHandlers = matchingHandlers (moHandlers ob) e,
      odWatchToken = moWatchToken ob, odCreatedAt = now, odTakenAt = None\<rparr>"
  obtain d1 r1 where ins: "obInsert C c ?r d = (d1, r1)" by fastforce
  with Ret assms(2) have eq: "d' = d1" "res = mapErr (Wrapf ''could not queue event'') r1" by (auto simp: moHandleEvent_def)
  from assms(1) ins have "case r1 of
      Ret i \<Rightarrow> i \<notin> obUsed V d \<and> obUsed V d1 = insert i (obUsed V d) \<and>
        obDocs V d1 = (obDocs V d)(i \<mapsto> ?r\<lparr>odID := i, odCreatedAt := ms (odCreatedAt ?r)\<rparr>)
    | _ \<Rightarrow> obDocs V d1 = obDocs V d \<and> obUsed V d1 = obUsed V d"
    unfolding obLaws_def obInsertLaw_def by blast
  with eq show ?thesis by (cases r1) (auto intro!: exI [of _ "?r\<lparr>odID := i, odCreatedAt := ms now\<rparr>" for i])
qed (use assms(2) in \<open>auto simp: moHandleEvent_def\<close>)

lemma moTake_effect:
  assumes "obLaws C V ms" "moTake codec C r now d = (d', res)"
  shows "obUsed V d' = obUsed V d \<and>
    (if \<exists>ec. res = Ret (Some ec) then \<exists>r0. obDocs V d (odID r) = Some r0 \<and> mayTake ms now r0 \<and>
        obDocs V d' = (obDocs V d)(odID r \<mapsto> r0\<lparr>odTakenAt := Some (ms now)\<rparr>)
     else obDocs V d' = obDocs V d)"
proof (cases "UnmarshalEvent codec context_Background (odEvent r)")
  case (Ret ec)
  obtain e c where ec: "ec = (e, c)" by fastforce
  obtain d1 n where tk: "obTake C c (odID r) now d = (d1, n)" by fastforce
  with Ret ec assms(2) have eq: "d' = d1"
      "res = obind (mapErr (\<lambda>x. OutboxError (Some (Wrapf ''could not take event for handling'' x)) c (Some e)) n)
        (\<lambda>n. Ret (if n = 0 then None else Some (e, c)))" by (auto simp: moTake_def)
  from assms(1) tk have law: "obUsed V d1 = obUsed V d \<and>
     (if n = Ret 1 then \<exists>r0. obDocs V d (odID r) = Some r0 \<and> mayTake ms now r0 \<and>
        obDocs V d1 = (obDocs V d)(odID r \<mapsto> r0\<lparr>odTakenAt := Some (ms now)\<rparr>)
      else obDocs V d1 = obDocs V d \<and> (is_Ret n \<longrightarrow> n = Ret 0 \<and> (\<forall>r0. obDocs V d (odID r) = Some r0 \<longrightarrow> \<not> mayTake ms now r0)))"
    unfolding obLaws_def obTakeLaw_def by blast
  have "(\<exists>ec. res = Ret (Some ec)) \<longleftrightarrow> n = Ret 1"
    using eq(2) law by (cases n) (auto split: if_splits)
  with law eq(1) show ?thesis by (cases "n = Ret 1") auto
qed (use assms(2) in \<open>auto simp: moTake_def\<close>)

lemma moFinish_effect:
  assumes "obLaws C V ms" "moFinish C c e r ps d = (d', res)"
  shows "obUsed V d' = obUsed V d \<and>
    (obDocs V d' = obDocs V d \<or>
     length ps = length (odHandlers r) \<and> obDocs V d' = (obDocs V d)(odID r := None) \<or>
     obDocs V d' = (obDocs V d)(odID r := map_option (\<lambda>r0. r0\<lparr>odHandlers := filter (\<lambda>h. h \<notin> set ps) (odHandlers r0)\<rparr>) (obDocs V d (odID r))))"
proof -
  have del: "obUsed V d1 = obUsed V d \<and> obDocs V d1 = (if r1 = Ret () then (obDocs V d)(odID r := None) else obDocs V d)"
    if "obDelete C c (odID r) d = (d1, r1)" for d1 r1
    using assms(1) that unfolding obLaws_def obDeleteLaw_def by blast
  have pull: "obUsed V d1 = obUsed V d \<and> obDocs V d1 = (if is_Ret r1
      then (obDocs V d)(odID r := map_option (\<lambda>r0. r0\<lparr>odHandlers := filter (\<lambda>h. h \<notin> set ps) (odHandlers r0)\<rparr>) (obDocs V d (odID r)))
      else obDocs V d)" if "obPullAll C c (odID r) ps d = (d1, r1)" for d1 r1
    using assms(1) that unfolding obLaws_def obPullLaw_def by blast
  consider (all) "length ps = length (odHandlers r)" | (some) "length ps \<noteq> length (odHandlers r)" "ps \<noteq> []"
    | (none) "length ps \<noteq> length (odHandlers r)" "ps = []" by blast
  then show ?thesis
  proof cases
    case all
    obtain d1 r1 where "obDelete C c (odID r) d = (d1, r1)" by fastforce
    with all assms(2) del [OF this] show ?thesis by (cases "r1 = Ret ()") (auto simp: moFinish_def)
  next
    case some
    obtain d1 r1 where "obPullAll C c (odID r) ps d = (d1, r1)" by fastforce
    with some assms(2) pull [OF this] show ?thesis by (cases "is_Ret r1") (auto simp: moFinish_def)
  qed (use assms(2) in \<open>auto simp: moFinish_def\<close>)
qed

lemma moInv_job:
  assumes "moInv V tr s" "j < length (osJobs s)" "osJobs s ! j = jb"
  shows "jobOk tr (obUsed V (osDb s)) jb"
  using assms by (auto simp: moInv_def)

text \<open>A step that only changes jobs, and the database within the invariant.\<close>

lemma moInv_move:
  assumes "moInv V tr s" "\<And>i hs. l \<noteq> MAdd i hs" "obUsed V (osDb s') = obUsed V (osDb s)" "osStream s' = osStream s"
    and "docsOk (tr @ [l]) (obUsed V (osDb s)) (obDocs V (osDb s'))"
    and "\<And>jb. jb \<in> set (osJobs s') \<Longrightarrow> jb \<in> set (osJobs s) \<or> jobOk (tr @ [l]) (obUsed V (osDb s)) jb"
  shows "moInv V (tr @ [l]) s'"
  unfolding moInv_def assms(3,4)
proof (intro conjI ballI)
  fix r assume "r \<in> set (osStream s)"
  with assms(1) show "copyOk (tr @ [l]) (obUsed V (osDb s)) r"
    by (intro copyOk_mono [of tr "obUsed V (osDb s)"]) (auto simp: moInv_def assms(2))
next
  fix jb assume "jb \<in> set (osJobs s')"
  with assms(1,6) jobOk_mono [of tr "obUsed V (osDb s)" jb "obUsed V (osDb s)" l] show "jobOk (tr @ [l]) (obUsed V (osDb s)) jb"
    by (auto simp: moInv_def assms(2))
qed (rule assms(5))

lemma set_list_updateD: "x \<in> set (xs[i := y]) \<Longrightarrow> x \<in> set xs \<or> x = y"
  using set_update_subset_insert [of xs i y] by auto

lemma jobOk_phase: "jobOk tr used jb \<Longrightarrow> (\<And>e c ps. ph \<noteq> JHandled e c ps) \<Longrightarrow> jobOk tr used (jb\<lparr>jbPhase := ph\<rparr>)"
  by (simp add: jobOk_def)


lemma moStep_inv:
  assumes laws: "obLaws C V ms" and step: "moStep codec C V l s s'" and inv: "moInv V tr s"
  shows "moInv V (tr @ [l]) s'"
  using step
proof cases
  case (mo_add ob now c e d' i r)
  from moHandleEvent_effect [OF laws mo_add(4)] obtain r' where r': "i \<notin> obUsed V (osDb s)"
      "obUsed V d' = insert i (obUsed V (osDb s))" "odID r' = i" "odHandlers r' = matchingHandlers (moHandlers ob) e"
      "obDocs V d' = (obDocs V (osDb s))(i \<mapsto> r')"
    by auto
  with mo_add(5) have "r = r'" by simp
  have new: "\<And>k hs. l = MAdd k hs \<Longrightarrow> k \<notin> obUsed V (osDb s)" using mo_add(1) r'(1) by simp
  have "docsOk (tr @ [l]) (obUsed V d') (obDocs V d')"
    unfolding r' mo_add(1) by (rule docsOk_insert) (use inv r' in \<open>auto simp: moInv_def\<close>)
  moreover have "copyOk (tr @ [l]) (obUsed V d') x" if "x \<in> set (osStream s)" for x
    using inv that r'(2) new by (intro copyOk_mono [of tr "obUsed V (osDb s)"]) (auto simp: moInv_def)
  moreover have "jobOk (tr @ [l]) (obUsed V d') jb" if "jb \<in> set (osJobs s)" for jb
    using inv that r'(2) new by (intro jobOk_mono [of tr "obUsed V (osDb s)"]) (auto simp: moInv_def)
  moreover have "copyOk (tr @ [l]) (obUsed V d') r"
    using calculation(1) r'(5) \<open>r = r'\<close> unfolding docsOk_def by (metis fun_upd_same)
  ultimately show ?thesis by (auto simp: moInv_def mo_add(2))
next
  case (mo_add_fails ob now c e d' x)
  from moHandleEvent_effect [OF laws mo_add_fails(4)] inv show ?thesis
    by (intro moInv_move [OF inv]) (auto simp: mo_add_fails moInv_def intro: docsOk_mono)
next
  case (mo_handler k m h ob res)
  with inv show ?thesis by (intro moInv_move [OF inv]) (auto simp: moInv_def intro: docsOk_mono)
next
  case (mo_watch k r now)
  have "jobOk (tr @ [l]) (obUsed V (osDb s)) \<lparr>jbHost = k, jbDoc = r, jbNow = now, jbPhase = JFetched\<rparr>"
    using inv mo_watch(1,4) by (auto simp: jobOk_def moInv_def intro: copyOk_mono)
  with inv mo_watch show ?thesis by (intro moInv_move [OF inv]) (auto simp: moInv_def intro: docsOk_mono)
next
  case (mo_sweep k c now xs r)
  then have "obDocs V (osDb s) (odID r) = Some r" using laws unfolding obLaws_def obFindLaw_def by blast
  with inv have "copyOk tr (obUsed V (osDb s)) r" unfolding moInv_def docsOk_def by blast
  then have "jobOk (tr @ [l]) (obUsed V (osDb s)) \<lparr>jbHost = k, jbDoc = r, jbNow = now, jbPhase = JFetched\<rparr>"
    using mo_sweep(1) by (auto simp: jobOk_def intro: copyOk_mono)
  with inv mo_sweep show ?thesis by (intro moInv_move [OF inv]) (auto simp: moInv_def intro: docsOk_mono)
next
  case (mo_take j jb d' e c)
  note job = jobOk_phase [OF jobOk_mono [OF moInv_job [OF inv mo_take(3,4)]], of _ l "JTaken e c"]
  from moTake_effect [OF laws mo_take(6)] obtain r0 where r0: "obUsed V d' = obUsed V (osDb s)"
      "obDocs V (osDb s) (odID (jbDoc jb)) = Some r0"
      "obDocs V d' = (obDocs V (osDb s))(odID (jbDoc jb) \<mapsto> r0\<lparr>odTakenAt := Some (ms (jbNow jb))\<rparr>)" by auto
  have "docsOk (tr @ [l]) (obUsed V (osDb s)) (obDocs V d')"
    unfolding r0(3) by (rule docsOk_update [OF docsOk_mono]) (use inv r0(2) mo_take(1) in \<open>auto simp: moInv_def\<close>)
  with job r0(1) show ?thesis by (intro moInv_move [OF inv]) (auto simp: mo_take(1,2) dest!: set_list_updateD)
next
  case (mo_not_taken j jb d' res x)
  note job = jobOk_phase [OF jobOk_mono [OF moInv_job [OF inv mo_not_taken(3,4)]], of _ l JDone]
  from moTake_effect [OF laws mo_not_taken(6)] mo_not_taken(7) have "obUsed V d' = obUsed V (osDb s)" "obDocs V d' = obDocs V (osDb s)"
    by auto
  with job inv show ?thesis
    by (intro moInv_move [OF inv]) (auto simp: mo_not_taken(1,2) moInv_def intro: docsOk_mono dest!: set_list_updateD)
next
  case (mo_run j jb e c ob errs w' ps)
  from runHandlers_subseq mo_run(8) have "subseq ps (odHandlers (jbDoc jb))" by (metis snd_conv)
  with jobOk_mono [OF moInv_job [OF inv mo_run(3,4)], of _ l] mo_run(1)
  have "jobOk (tr @ [l]) (obUsed V (osDb s)) (jb\<lparr>jbPhase := JHandled e c ps\<rparr>)" by (auto simp: jobOk_def)
  with inv show ?thesis by (intro moInv_move [OF inv]) (auto simp: mo_run(1,2) moInv_def intro: docsOk_mono dest!: set_list_updateD)
next
  case (mo_finish j jb e c ps d' res)
  from moInv_job [OF inv mo_finish(3,4)] have jb: "jobOk tr (obUsed V (osDb s)) jb" .
  have l: "\<And>i hs. l \<noteq> MAdd i hs" using mo_finish(1) by simp
  note job = jobOk_phase [OF jobOk_mono [OF jb], of _ l JDone]
  from jb mo_finish(5) have ps: "subseq ps (odHandlers (jbDoc jb))" "set ps \<subseteq> handledIn (odID (jbDoc jb)) tr"
    and copy: "copyOk tr (obUsed V (osDb s)) (jbDoc jb)" by (auto simp: jobOk_def)
  have ok: "docsOk tr (obUsed V (osDb s)) (obDocs V (osDb s))" using inv by (simp add: moInv_def)
  from moFinish_effect [OF laws mo_finish(6)] have used: "obUsed V d' = obUsed V (osDb s)"
    and d': "obDocs V d' = obDocs V (osDb s) \<or>
     length ps = length (odHandlers (jbDoc jb)) \<and> obDocs V d' = (obDocs V (osDb s))(odID (jbDoc jb) := None) \<or>
     obDocs V d' = (obDocs V (osDb s))(odID (jbDoc jb) := map_option (\<lambda>r0. r0\<lparr>odHandlers := filter (\<lambda>h. h \<notin> set ps) (odHandlers r0)\<rparr>)
       (obDocs V (osDb s) (odID (jbDoc jb))))" by blast+
  from d' have "docsOk tr (obUsed V (osDb s)) (obDocs V d')"
  proof (elim disjE conjE)
    assume "length ps = length (odHandlers (jbDoc jb))" and eq: "obDocs V d' = (obDocs V (osDb s))(odID (jbDoc jb) := None)"
    then have "ps = odHandlers (jbDoc jb)" using ps(1) by (simp add: subseq_same_length)
    with ps(2) copy have "\<And>hs. MAdd (odID (jbDoc jb)) hs \<in> set tr \<Longrightarrow> set hs \<subseteq> handledIn (odID (jbDoc jb)) tr"
      by (auto simp: copyOk_def)
    then show ?thesis unfolding eq by (rule docsOk_delete [OF ok])
  next
    assume eq: "obDocs V d' = (obDocs V (osDb s))(odID (jbDoc jb) := map_option (\<lambda>r0. r0\<lparr>odHandlers := filter (\<lambda>h. h \<notin> set ps) (odHandlers r0)\<rparr>)
       (obDocs V (osDb s) (odID (jbDoc jb))))"
    show ?thesis
    proof (cases "obDocs V (osDb s) (odID (jbDoc jb))")
      case None
      with eq ok show ?thesis by (simp add: fun_upd_idem)
    next
      case (Some r0)
      with eq ps(2) show ?thesis by (auto intro!: docsOk_update [OF ok Some])
    qed
  qed (use ok in simp)
  with job used l show ?thesis by (intro moInv_move [OF inv]) (auto simp: mo_finish(2) intro: docsOk_mono dest!: set_list_updateD)
next
  case (mo_crash j jb)
  note job = jobOk_phase [OF jobOk_mono [OF moInv_job [OF inv mo_crash(3,4)]], of _ l JDone]
  with inv show ?thesis by (intro moInv_move [OF inv]) (auto simp: mo_crash(1,2) moInv_def intro: docsOk_mono dest!: set_list_updateD)
qed

lemma moRun_inv:
  "moRun codec C V s0 tr s \<Longrightarrow> obLaws C V ms \<Longrightarrow> moStart V s0 \<Longrightarrow> moInv V tr s"
  by (induction rule: moRun.induct)
    (auto simp: moInv_def [of _ "[]"] moStart_def docsOk_def copyOk_def intro: moStep_inv)

subsection \<open>Leases\<close>

lemma takesOf_snoc [simp]:
  "takesOf i (tr @ [l]) = takesOf i tr @ (case l of MTake k t \<Rightarrow> if k = i then [t] else [] | _ \<Rightarrow> [])"
  by (cases l) (auto simp: takesOf_def map_filter_def)

definition leaseInv :: "(time \<Rightarrow> time) \<Rightarrow> moLabel list \<Rightarrow> nat set \<Rightarrow> (nat \<Rightarrow> odoc option) \<Rightarrow> bool" where
  "leaseInv ms tr used ds \<longleftrightarrow> (\<forall>i. sorted_wrt (\<lambda>t1 t2. t1 + PeriodicSweepAge < t2) (takesOf i tr) \<and>
     (takesOf i tr \<noteq> [] \<longrightarrow> i \<in> used \<and> (\<forall>r. ds i = Some r \<longrightarrow> odTakenAt r = Some (ms (last (takesOf i tr))))))"

lemma leaseInv_take:
  assumes "mono ms" "leaseInv ms tr used ds" "ds i = Some r" "i \<in> used" "mayTake ms now r"
  shows "leaseInv ms (tr @ [MTake i now]) used (ds(i \<mapsto> r\<lparr>odTakenAt := Some (ms now)\<rparr>))"
proof -
  let ?ts = "takesOf i tr"
  have "t + PeriodicSweepAge < now" if "t \<in> set ?ts" for t
  proof -
    from that have "?ts \<noteq> []" by auto
    with assms(2,3) have "odTakenAt r = Some (ms (last ?ts))" unfolding leaseInv_def by blast
    with assms(5) have "ms (last ?ts) < ms (now - PeriodicSweepAge)" by (simp add: mayTake_def)
    with assms(1) have "last ?ts < now - PeriodicSweepAge" by (meson leD leI monoD)
    moreover have "t \<le> last ?ts"
    proof (cases ?ts rule: rev_cases)
      case (snoc ys y)
      with assms(2) have "sorted_wrt (\<lambda>t1 t2. t1 + PeriodicSweepAge < t2) (ys @ [y])" unfolding leaseInv_def by metis
      with that snoc show ?thesis by (auto simp: sorted_wrt_append)
    qed (use that in simp)
    ultimately show ?thesis by simp
  qed
  with assms(2,4) show ?thesis by (auto simp: leaseInv_def sorted_wrt_append)
qed

lemma leaseInv_keep:
  assumes "leaseInv ms tr used ds" "\<And>i t. l \<noteq> MTake i t" "used \<subseteq> used'"
    and "\<And>i r. ds' i = Some r \<Longrightarrow> i \<notin> used \<or> (\<exists>r0. ds i = Some r0 \<and> odTakenAt r = odTakenAt r0)"
  shows "leaseInv ms (tr @ [l]) used' ds'"
proof -
  from assms(2) have tk: "takesOf i (tr @ [l]) = takesOf i tr" for i by (cases l) auto
  show ?thesis
    unfolding leaseInv_def tk
  proof (intro allI conjI impI)
    fix i r assume "takesOf i tr \<noteq> []" "ds' i = Some r"
    with assms(1) assms(4) [of i r] show "odTakenAt r = Some (ms (last (takesOf i tr)))" by (auto simp: leaseInv_def)
  qed (use assms(1,3) in \<open>auto simp: leaseInv_def\<close>)
qed

lemma moStep_lease:
  assumes laws: "obLaws C V ms" and step: "moStep codec C V l s s'" and inv: "moInv V tr s"
    and lease: "leaseInv ms tr (obUsed V (osDb s)) (obDocs V (osDb s))"
  shows "leaseInv ms (tr @ [l]) (obUsed V (osDb s')) (obDocs V (osDb s'))"
  using step
proof cases
  case (mo_add ob now c e d' i r)
  from moHandleEvent_effect [OF laws mo_add(4)] lease show ?thesis
    by (intro leaseInv_keep [OF lease]) (auto simp: mo_add(1,2) split: if_splits)
next
  case (mo_add_fails ob now c e d' x)
  from moHandleEvent_effect [OF laws mo_add_fails(4)] show ?thesis by (intro leaseInv_keep [OF lease]) (auto simp: mo_add_fails(1,2))
next
  case (mo_take j jb d' e c)
  from moTake_effect [OF laws mo_take(6)] obtain r0 where r0: "obUsed V d' = obUsed V (osDb s)"
      "obDocs V (osDb s) (odID (jbDoc jb)) = Some r0" "mayTake ms (jbNow jb) r0"
      "obDocs V d' = (obDocs V (osDb s))(odID (jbDoc jb) \<mapsto> r0\<lparr>odTakenAt := Some (ms (jbNow jb))\<rparr>)" by auto
  moreover from r0(2) inv have "odID (jbDoc jb) \<in> obUsed V (osDb s)" unfolding moInv_def docsOk_def copyOk_def by metis
  ultimately show ?thesis using laws leaseInv_take [OF _ lease, of "odID (jbDoc jb)" r0 "jbNow jb"]
    by (simp add: mo_take(1,2) obLaws_def)
next
  case (mo_not_taken j jb d' res x)
  from moTake_effect [OF laws mo_not_taken(6)] mo_not_taken(7) show ?thesis
    by (intro leaseInv_keep [OF lease]) (auto simp: mo_not_taken(1,2))
next
  case (mo_finish j jb e c ps d' res)
  from moFinish_effect [OF laws mo_finish(6)] show ?thesis
    by (intro leaseInv_keep [OF lease]) (auto simp: mo_finish(1,2) split: if_splits)
qed (auto intro!: leaseInv_keep [OF lease])

lemma moRun_lease:
  "moRun codec C V s0 tr s \<Longrightarrow> obLaws C V ms \<Longrightarrow> moStart V s0 \<Longrightarrow> leaseInv ms tr (obUsed V (osDb s)) (obDocs V (osDb s))"
proof (induction rule: moRun.induct)
  case mo_run_start
  then show ?case by (simp add: leaseInv_def takesOf_def map_filter_def)
next
  case (mo_run_step tr s l s')
  then show ?case using moStep_lease moRun_inv by blast
qed

section \<open>Example\<close>

text \<open>A database that is a list of documents, the ID being the place, and a host with one handler.\<close>

definition listDocs :: "odoc option list \<Rightarrow> nat \<Rightarrow> odoc option" where
  "listDocs d i = (if i < length d then d ! i else None)"

definition listObColl :: "odoc option list obColl" where
  "listObColl =
     \<lparr>obInsert = (\<lambda>c r d. (d @ [Some (r\<lparr>odID := length d\<rparr>)], Ret (length d))),
      obTake = (\<lambda>c i now d. case listDocs d i of
         Some r \<Rightarrow> if mayTake id now r then (d[i := Some (r\<lparr>odTakenAt := Some now\<rparr>)], Ret 1) else (d, Ret 0)
       | None \<Rightarrow> (d, Ret 0)),
      obDelete = (\<lambda>c i d. (d[i := None], Ret ())),
      obPullAll = (\<lambda>c i hs d. (d[i := map_option (\<lambda>r. r\<lparr>odHandlers := filter (\<lambda>h. h \<notin> set hs) (odHandlers r)\<rparr>) (listDocs d i)],
         Ret (if listDocs d i = None then 0 else 1))),
      obFind = (\<lambda>c now d. Ret (map Ret (filter (\<lambda>r. listDocs d (odID r) = Some r \<and> sweepable id now r) (List.map_filter id d)))),
      obCloseCursor = (\<lambda>c. Ret ())\<rparr>"

definition listObView :: "odoc option list obView" where
  "listObView = \<lparr>obDocs = listDocs, obUsed = (\<lambda>d. {..<length d})\<rparr>"

lemma listDocs_update [simp]: "listDocs (d[i := x]) = (if i < length d then (listDocs d)(i := x) else listDocs d)"
  by (auto simp: listDocs_def fun_eq_iff)

lemma listDocs_snoc [simp]: "listDocs (d @ [x]) = (listDocs d)(length d := x)"
  by (auto simp: listDocs_def fun_eq_iff nth_append)

lemma listDocs_outside: "\<not> i < length d \<Longrightarrow> listDocs d i = None"
  by (simp add: listDocs_def)

lemma listOb_laws: "obLaws listObColl listObView id"
  unfolding obLaws_def
proof (intro conjI)
  show "mono (id :: time \<Rightarrow> time)" by (simp add: mono_def)
  show "obInsertLaw listObColl listObView id"
    by (auto simp: obInsertLaw_def listObColl_def listObView_def lessThan_Suc)
  show "obTakeLaw listObColl listObView id"
    by (auto simp: obTakeLaw_def listObColl_def listObView_def listDocs_outside split: option.splits if_splits)
  show "obDeleteLaw listObColl listObView"
    by (auto simp: obDeleteLaw_def listObColl_def listObView_def listDocs_outside fun_upd_idem)
  show "obPullLaw listObColl listObView"
    by (auto simp: obPullLaw_def listObColl_def listObView_def listDocs_outside fun_upd_idem)
  show "obFindLaw listObColl listObView id"
    by (auto simp: obFindLaw_def listObColl_def listObView_def)
qed

definition demoEventCodec :: eventCodec where
  "demoEventCodec = \<lparr>MarshalEvent = (\<lambda>c e. Ret ''event''), UnmarshalEvent = (\<lambda>c b. Ret (demoEvent ''Closed'' 1, c))\<rparr>"

definition demoHost :: "nat mongoOutbox" where
  "demoHost = \<lparr>moOwnership = externalClient, moCollection = ''outbox'', moHandlers = [demoMh], moWatchToken = '''', moErrs = []\<rparr>"

definition demoObSys :: "(odoc option list, nat) obSys" where
  "demoObSys = \<lparr>osDb = [], osHosts = [demoHost], osStream = [], osJobs = [], osWorld = 0\<rparr>"

definition demoODoc :: odoc where
  "demoODoc = \<lparr>odID = 0, odEvent = ''event'', odHandlers = [''h''], odWatchToken = '''', odCreatedAt = 3, odTakenAt = None\<rparr>"

lemma demoOb_start: "moStart listObView demoObSys"
  by (simp add: moStart_def demoObSys_def listObView_def listDocs_def)

lemma demoOb_add:
  "moRun demoEventCodec listObColl listObView demoObSys ([] @ [MAdd 0 [''h'']])
     (demoObSys\<lparr>osDb := [Some demoODoc], osStream := [demoODoc]\<rparr>)"
proof (rule mo_run_step [OF mo_run_start])
  have "moHandleEvent demoEventCodec listObColl 3 context_Background (demoEvent ''Closed'' 1) demoHost (osDb demoObSys) = ([Some demoODoc], Ret 0)"
    by (simp add: moHandleEvent_def demoEventCodec_def listObColl_def demoObSys_def demoHost_def demoODoc_def matchingHandlers_def demoMh_def)
  from mo_add [OF _ this, where V = listObView, of demoODoc]
  show "moStep demoEventCodec listObColl listObView (MAdd 0 [''h'']) demoObSys (demoObSys\<lparr>osDb := [Some demoODoc], osStream := [demoODoc]\<rparr>)"
    by (simp add: demoObSys_def demoHost_def listObView_def listDocs_def matchingHandlers_def demoMh_def)
qed

lemma demoOb_take:
  "\<exists>s. moRun demoEventCodec listObColl listObView demoObSys [MAdd 0 [''h''], MOther, MTake 0 7] s"
proof -
  let ?s1 = "demoObSys\<lparr>osDb := [Some demoODoc], osStream := [demoODoc]\<rparr>"
  let ?jb = "\<lparr>jbHost = 0, jbDoc = demoODoc, jbNow = 7, jbPhase = JFetched\<rparr>"
  let ?s2 = "?s1\<lparr>osJobs := osJobs ?s1 @ [?jb]\<rparr>"
  have w: "moStep demoEventCodec listObColl listObView MOther ?s1 ?s2"
    by (rule mo_watch) (simp_all add: demoObSys_def demoHost_def)
  have t: "moTake demoEventCodec listObColl (jbDoc ?jb) (jbNow ?jb) (osDb ?s2) =
      ([Some (demoODoc\<lparr>odTakenAt := Some 7\<rparr>)], Ret (Some (demoEvent ''Closed'' 1, context_Background)))"
    by (simp add: moTake_def demoEventCodec_def listObColl_def listDocs_def mayTake_def demoODoc_def)
  from mo_take [where V = listObView, of 0 ?s2 ?jb, OF _ _ _ t]
  obtain s3 where "moStep demoEventCodec listObColl listObView (MTake 0 7) ?s2 s3" by (auto simp: demoObSys_def demoODoc_def)
  with mo_run_step [OF mo_run_step [OF demoOb_add w]] show ?thesis by fastforce
qed

section \<open>Properties\<close>





text \<open>
  C14: progress of the MongoDB outbox. When processing a stored document that may be taken returns
  no error, and all its handlers are registered, match and accept the event, the document is gone
  afterwards and no error has been reported.
\<close>

theorem mongoOutbox_progress:
  assumes laws: "obLaws C V ms" and stored: "obDocs V d (odID r) = Some r" and may: "mayTake ms now r"
    and dec: "UnmarshalEvent codec context_Background (odEvent r) = Ret (e, c)"
    and acc: "\<forall>t \<in> set (odHandlers r). \<exists>mh. handlerFor (moHandlers ob) t = Some mh \<and> mhMatch mh e \<and>
      (\<forall>w. snd (HandleEvent (mhHandler mh) c (Some e) w) = Ret ())"
    and proc: "moProcess codec C r now ob (d, w) = (ob', (d', w'), Ret ())"
  shows "obDocs V d' (odID r) = None \<and> moErrs ob' = moErrs ob"
proof -
  obtain d1 n where tk: "obTake C c (odID r) now d = (d1, n)" by fastforce
  with laws stored may have n: "n = Ret 1 \<or> \<not> is_Ret n" unfolding obLaws_def obTakeLaw_def by metis
  from runHandlers_all [of "odHandlers r" "moHandlers ob" e c "moErrs ob" w] acc
  obtain w1 where run: "runHandlers (moHandlers ob) c e (odHandlers r) (moErrs ob) w = ((moErrs ob, w1), Ret (odHandlers r))" by blast
  obtain d2 x where del: "obDelete C c (odID r) d1 = (d2, x)" by fastforce
  from n proc tk dec have "n = Ret 1" by (cases n) (auto simp: moProcess_def moTake_def)
  with proc tk dec run del have "x = Ret ()" "d' = d2" "moErrs ob' = moErrs ob"
    by (auto simp: moProcess_def moTake_def moFinish_def)
  moreover have "obDocs V d2 (odID r) = None" using laws del \<open>x = Ret ()\<close> unfolding obLaws_def obDeleteLaw_def by fastforce
  ultimately show ?thesis by simp
qed

theorem mongoOutbox_progress_witness:
  "\<exists>ob' d' w'. moProcess demoEventCodec listObColl demoODoc 7 demoHost ([Some demoODoc], 0) = (ob', (d', w'), Ret ()) \<and>
     listDocs d' 0 = None"
proof -
  obtain ob' d' w' where p: "moProcess demoEventCodec listObColl demoODoc 7 demoHost ([Some demoODoc], 0) = (ob', (d', w'), Ret ())"
    by (simp add: moProcess_def moTake_def moFinish_def demoEventCodec_def listObColl_def listDocs_def mayTake_def demoODoc_def
        demoHost_def handlerFor_def demoMh_def)
  have "obDocs listObView d' (odID demoODoc) = None \<and> moErrs ob' = moErrs demoHost"
    by (rule mongoOutbox_progress [OF listOb_laws _ _ _ _ p])
      (simp_all add: listObView_def listDocs_def demoODoc_def mayTake_def demoEventCodec_def demoHost_def handlerFor_def demoMh_def)
  with p show ?thesis by (auto simp: listObView_def demoODoc_def)
qed

end
