(* ===== verification/Transactional_Outbox.thy ===== *)
theory Transactional_Outbox
  imports EventStore_Mongo Outbox_Mongo
begin

text \<open>
  The MongoDB event store with the MongoDB outbox as its event handler in the transaction
  (\<^verbatim>\<open>WithEventHandlerInTX\<close>, as \<^verbatim>\<open>examples/guestlist/outbox\<close> sets them up with one client): the
  aggregates and the outbox are collections of one database, and a transaction covers both.
\<close>

definition outboxInTX ::
    "eventCodec \<Rightarrow> 'b obColl \<Rightarrow> time \<Rightarrow> 'w mongoOutbox \<Rightarrow> 'b HandleEventFn" where
  "outboxInTX codec C now ob c ev b =
     (case ev of
        None \<Rightarrow> (b, nilDeref)
      | Some e \<Rightarrow> (case moHandleEvent codec C now c e ob b of (b', r) \<Rightarrow> (b', obind r (\<lambda>_. Ret ()))))"

text \<open>
  The driver's promise for both collections: without an error, the transaction has the effect of
  one successful run of the function on the documents as they were; with an error, it has none.
  IDs that aborted runs were given stay used.
\<close>

definition jointlyTransactional :: "('d, 'b) mongoSession \<Rightarrow> ('d \<Rightarrow> 'v) \<Rightarrow> 'b obView \<Rightarrow> bool" where
  "jointlyTransactional S docs V \<longleftrightarrow>
     (\<forall>f c d b d' b' r. WithTransaction S f c (d, b) = ((d', b'), r) \<longrightarrow>
        (if r = Ret () then \<exists>c1 d1 b1. docs d1 = docs d \<and> obDocs V b1 = obDocs V b \<and> obUsed V b \<subseteq> obUsed V b1 \<and>
           f c1 (d1, b1) = ((d', b'), Ret ())
         else docs d' = docs d \<and> obDocs V b' = obDocs V b))"

text \<open>\<open>queued ob V es b b'\<close>: exactly one new document per event, for the handlers that match it.\<close>

definition queued :: "'w mongoOutbox \<Rightarrow> 'b obView \<Rightarrow> event list \<Rightarrow> 'b \<Rightarrow> 'b \<Rightarrow> bool" where
  "queued ob V es b b' \<longleftrightarrow> (\<exists>is. length is = length es \<and> distinct is \<and> set is \<inter> obUsed V b = {} \<and>
     set is \<subseteq> obUsed V b' \<and> obUsed V b \<subseteq> obUsed V b' \<and>
     (\<forall>i. i \<notin> set is \<longrightarrow> obDocs V b' i = obDocs V b i) \<and>
     (\<forall>k < length es. \<exists>r. obDocs V b' (is ! k) = Some r \<and> odID r = is ! k \<and> odTakenAt r = None \<and>
        odHandlers r = matchingHandlers (moHandlers ob) (es ! k)))"

lemma outboxInTX_Some [simp]:
  "outboxInTX codec C now ob c (Some e) b = (case moHandleEvent codec C now c e ob b of (b', r) \<Rightarrow> (b', obind r (\<lambda>_. Ret ())))"
  by (simp add: outboxInTX_def)

lemma handleInTX_queues:
  assumes "obLaws C V ms"
  shows "handleInTX (outboxInTX codec C now ob) c (map Some es) b = (b', Ret ()) \<Longrightarrow> queued ob V es b b'"
proof (induction es arbitrary: b)
  case Nil
  then show ?case by (simp add: queued_def)
next
  case (Cons e es)
  obtain b1 r1 where h: "moHandleEvent codec C now c e ob b = (b1, r1)" by fastforce
  with Cons.prems obtain i where r1: "r1 = Ret i"
    and rest: "handleInTX (outboxInTX codec C now ob) c (map Some es) b1 = (b', Ret ())"
    by (cases r1) auto
  from moHandleEvent_effect [OF assms h] r1 obtain r where r: "i \<notin> obUsed V b" "obUsed V b1 = insert i (obUsed V b)"
      "odID r = i" "odTakenAt r = None" "odHandlers r = matchingHandlers (moHandlers ob) e" "obDocs V b1 = (obDocs V b)(i \<mapsto> r)"
    by auto
  from Cons.IH [OF rest] obtain "is" where is': "length is = length es" "distinct is" "set is \<inter> obUsed V b1 = {}"
      "set is \<subseteq> obUsed V b'" "obUsed V b1 \<subseteq> obUsed V b'" "\<forall>i. i \<notin> set is \<longrightarrow> obDocs V b' i = obDocs V b1 i"
      "\<forall>k < length es. \<exists>r. obDocs V b' (is ! k) = Some r \<and> odID r = is ! k \<and> odTakenAt r = None \<and>
        odHandlers r = matchingHandlers (moHandlers ob) (es ! k)"
    unfolding queued_def by blast
  from is'(3) r(2) have i: "i \<notin> set is" by auto
  with is'(6) r(6) have "obDocs V b' i = Some r" by simp
  with r(3-5) is'(7) have "\<forall>k < length (e # es). \<exists>r. obDocs V b' ((i # is) ! k) = Some r \<and> odID r = (i # is) ! k \<and> odTakenAt r = None \<and>
        odHandlers r = matchingHandlers (moHandlers ob) ((e # es) ! k)"
    by (auto simp: less_Suc_eq_0_disj)
  then show ?case
    unfolding queued_def
    by (intro exI [of _ "i # is"] conjI) (use is' i r in auto)
qed

lemma queued_start:
  assumes "queued ob V es b1 b'" "obDocs V b1 = obDocs V b" "obUsed V b \<subseteq> obUsed V b1"
  shows "queued ob V es b b'"
  using assms(1) unfolding queued_def assms(2) by (elim exE conjE, intro exI conjI) (use assms(3) in \<open>assumption | blast\<close>)+

section \<open>Property\<close>


text \<open>A session that runs the function once and drops its changes if it fails.\<close>

definition bothSession :: "('d, odoc option list) mongoSession" where
  "bothSession = \<lparr>StartSession = (\<lambda>_. Ret ()),
     WithTransaction = (\<lambda>f c db. case f c db of (db', r) \<Rightarrow> (if r = Ret () then db' else db, r))\<rparr>"

lemma bothSession_joint: "jointlyTransactional bothSession docs V"
  by (auto simp: jointlyTransactional_def bothSession_def split: prod.splits if_splits)

definition outboxStore :: "odoc option list mongoStore" where
  "outboxStore = \<lparr>msOwnership = internalClient, msCollection = ''events'', msAfterSave = None,
     msInTX = Some (outboxInTX demoEventCodec listObColl 3 demoHost)\<rparr>"


end
