(* ===== verification/Event_Middleware.thy ===== *)
theory Event_Middleware
  imports EventStore_Spec CommandHandlers "HOL-Library.Multiset"
begin

text \<open>
  Event handlers and their middlewares (\<^verbatim>\<open>eventhandler.go\<close>, \<^verbatim>\<open>middleware.go\<close>,
  \<^verbatim>\<open>middleware/eventhandler/ephemeral\<close>, \<^verbatim>\<open>observer\<close>, \<^verbatim>\<open>async\<close> and \<^verbatim>\<open>scheduler\<close>), and the async command
  middleware. A handler is a value with the methods that the code looks for by type assertion, so
  that a chain of middlewares can be traversed. The goroutines of the async middlewares and of the
  event scheduler interleave as step relations.
\<close>

section \<open>Handlers\<close>

text \<open>
  A handler: its type, its function, the answer of its \<^verbatim>\<open>IsEphemeralHandler\<close> method if it has one, and
  the result of its \<^verbatim>\<open>InnerHandler\<close> method if it has one, which can be nil.
\<close>

datatype 'w handler =
  Handler (hdType: string) (hdHandle: "'w HandleEventFn") (hdEphemeral: "bool option")
    (hdInner: "'w handler option option")

text \<open>\<^verbatim>\<open>strings.Split\<close> at a character and \<^verbatim>\<open>strings.ReplaceAll\<close> of a character.\<close>

fun splitAt :: "char \<Rightarrow> string \<Rightarrow> string list" where
  "splitAt sep [] = [[]]"
| "splitAt sep (ch # s) =
     (if ch = sep then [] # splitAt sep s
      else case splitAt sep s of p # ps \<Rightarrow> (ch # p) # ps | [] \<Rightarrow> [[ch]])"

definition replaceChar :: "char \<Rightarrow> char \<Rightarrow> string \<Rightarrow> string" where
  "replaceChar a b s = map (\<lambda>ch. if ch = a then b else ch) s"

text \<open>The type of an \<^verbatim>\<open>EventHandlerFunc\<close>, from the full name of the function.\<close>

definition funcHandlerType :: "string \<Rightarrow> string" where
  "funcHandlerType fullName = replaceChar (CHR ''.'') (CHR ''-'') (last (splitAt (CHR ''/'') fullName))"

definition funcHandler :: "string \<Rightarrow> 'w HandleEventFn \<Rightarrow> 'w handler" where
  "funcHandler fullName f = Handler (funcHandlerType fullName) f None None"

lemma splitAt_nonempty [simp]: "splitAt sep s \<noteq> []"
  by (induction s) (auto split: list.split)

lemma splitAt_no_sep: "p \<in> set (splitAt sep s) \<Longrightarrow> sep \<notin> set p"
  by (induction s arbitrary: p) (auto split: list.splits if_splits)

lemma splitAt_append: "splitAt sep (a @ sep # b) = splitAt sep a @ splitAt sep b"
proof (induction a)
  case (Cons ch a)
  then show ?case by (cases "splitAt sep a") (auto split: list.split)
qed simp

lemma splitAt_single: "sep \<notin> set s \<Longrightarrow> splitAt sep s = [s]"
  by (induction s) auto

section \<open>Middlewares\<close>

definition UseEventHandlerMiddleware :: "'w handler \<Rightarrow> ('w handler \<Rightarrow> 'w handler) list \<Rightarrow> 'w handler" where
  "UseEventHandlerMiddleware h middleware = applyMiddleware h middleware"

definition ephemeralMiddleware :: "'w handler \<Rightarrow> 'w handler" where
  "ephemeralMiddleware h = Handler (hdType h) (hdHandle h) (Some True) (Some (Some h))"

text \<open>The groups of the observer middleware, by the strings they stand for.\<close>

definition NamedGroup :: "string \<Rightarrow> string" where
  "NamedGroup n = n"

definition UUIDGroup :: "(UUID \<Rightarrow> string) \<Rightarrow> UUID \<Rightarrow> string" where
  "UUIDGroup us u = us u"

definition RandomGroup :: "(UUID \<Rightarrow> string) \<Rightarrow> UUID \<Rightarrow> string" where
  "RandomGroup us newID = us newID"

definition HostnameGroup :: "string go \<Rightarrow> string go" where
  "HostnameGroup hostname =
     (case hostname of Ret n \<Rightarrow> Ret n | Fail _ \<Rightarrow> Panic ''could not get hostname for HostnameGroup()'' | Panic p \<Rightarrow> Panic p)"

definition observerMiddleware :: "string \<Rightarrow> 'w handler \<Rightarrow> 'w handler" where
  "observerMiddleware grp h = Handler (hdType h @ ''_'' @ grp) (hdHandle h) None (Some (Some h))"

definition observerMiddlewareRandom :: "(UUID \<Rightarrow> string) \<Rightarrow> UUID \<Rightarrow> 'w handler \<Rightarrow> 'w handler" where
  "observerMiddlewareRandom us newID h = Handler (hdType h @ ''_'' @ RandomGroup us newID) (hdHandle h) None (Some (Some h))"

text \<open>The handler of the event scheduler has no \<^verbatim>\<open>InnerHandler\<close> method.\<close>

definition schedulerEventMiddleware :: "'w handler \<Rightarrow> 'w handler" where
  "schedulerEventMiddleware h = Handler (hdType h) (hdHandle h) None None"

text \<open>The traversal of \<^verbatim>\<open>handlerIsEphemeral\<close> in the NATS event bus.\<close>

fun handlerIsEphemeral :: "'w handler \<Rightarrow> bool" where
  "handlerIsEphemeral (Handler t f (Some b) i) = b"
| "handlerIsEphemeral (Handler t f None (Some (Some h))) = handlerIsEphemeral h"
| "handlerIsEphemeral (Handler t f None (Some None)) = False"
| "handlerIsEphemeral (Handler t f None None) = False"

lemma handlerIsEphemeral_middleware [simp]:
  "handlerIsEphemeral (ephemeralMiddleware h)"
  "handlerIsEphemeral (observerMiddleware g h) = handlerIsEphemeral h"
  "\<not> handlerIsEphemeral (schedulerEventMiddleware h)"
  by (simp_all add: ephemeralMiddleware_def observerMiddleware_def schedulerEventMiddleware_def)

section \<open>Asynchronous handling\<close>

text \<open>
  The goroutines of an async middleware: those that have yet to run the handler, those whose
  handler failed and that wait to send the error, and the error channel. A message \<open>'m\<close> is the context
  with the event or with the command.
\<close>

abbreviation asyncErrSize :: nat where "asyncErrSize \<equiv> 20"

record ('m, 'w) asyncSys =
  asPending :: "'m list"
  asSending :: "('m \<times> err) list"
  asErrCh :: "('m \<times> err) list"
  asWorld :: 'w

text \<open>The middleware's handler starts a goroutine and returns no error.\<close>

definition asyncStart :: "'m \<Rightarrow> ('m, 'w) asyncSys \<Rightarrow> ('m, 'w) asyncSys \<times> unit go" where
  "asyncStart m s = (s\<lparr>asPending := asPending s @ [m]\<rparr>, Ret ())"

definition asyncHandleEvent ::
    "ctx \<Rightarrow> event option \<Rightarrow> (ctx \<times> event option, 'w) asyncSys \<Rightarrow> (ctx \<times> event option, 'w) asyncSys \<times> unit go" where
  "asyncHandleEvent c ev s = asyncStart (c, ev) s"

text \<open>The wrapped handler as a handler on the system's state, for the \<^verbatim>\<open>InnerHandler\<close> method.\<close>

primrec liftHandler :: "'w handler \<Rightarrow> ('m, 'w) asyncSys handler" where
  "liftHandler (Handler t f eph i) =
     Handler t (\<lambda>c ev s. case f c ev (asWorld s) of (w', r) \<Rightarrow> (s\<lparr>asWorld := w'\<rparr>, r)) eph (map_option (map_option liftHandler) i)"

definition asyncEventMiddleware :: "'w handler \<Rightarrow> (ctx \<times> event option, 'w) asyncSys handler" where
  "asyncEventMiddleware h = Handler (hdType h) asyncHandleEvent None (Some (Some (liftHandler h)))"

lemma handlerIsEphemeral_lift [simp]: "handlerIsEphemeral (liftHandler h) = handlerIsEphemeral h"
  by (induction h rule: handlerIsEphemeral.induct) simp_all

definition asyncHandleCommand ::
    "ctx \<Rightarrow> command option \<Rightarrow> (ctx \<times> command option, 'w) asyncSys \<Rightarrow> (ctx \<times> command option, 'w) asyncSys \<times> unit go" where
  "asyncHandleCommand c cmd s = asyncStart (c, cmd) s"

datatype 'm asyncLabel = AAccept 'm | AHandled 'm | AFailed 'm err | ASent | ARead 'm err

text \<open>
  One step; \<open>h\<close> is the inner handler. A goroutine whose handler panics ends the program, so there
  is no step for it. Sending waits for room in the channel.
\<close>

inductive asyncStep :: "('m \<Rightarrow> 'w \<Rightarrow> 'w \<times> unit go) \<Rightarrow> ('m, 'w) asyncSys \<Rightarrow> 'm asyncLabel \<Rightarrow> ('m, 'w) asyncSys \<Rightarrow> bool"
  for h where
  accept: "asyncStart m s = (s', Ret ()) \<Longrightarrow> asyncStep h s (AAccept m) s'"
| handled: "asPending s = ms @ m # ns \<Longrightarrow> h m (asWorld s) = (w', Ret ()) \<Longrightarrow>
    asyncStep h s (AHandled m) (s\<lparr>asPending := ms @ ns, asWorld := w'\<rparr>)"
| failed: "asPending s = ms @ m # ns \<Longrightarrow> h m (asWorld s) = (w', Fail x) \<Longrightarrow>
    asyncStep h s (AFailed m x) (s\<lparr>asPending := ms @ ns, asWorld := w', asSending := (m, x) # asSending s\<rparr>)"
| sent: "asSending s = xs @ e # ys \<Longrightarrow> length (asErrCh s) < asyncErrSize \<Longrightarrow>
    asyncStep h s ASent (s\<lparr>asSending := xs @ ys, asErrCh := asErrCh s @ [e]\<rparr>)"
| read: "asErrCh s = (m, x) # es \<Longrightarrow> asyncStep h s (ARead m x) (s\<lparr>asErrCh := es\<rparr>)"

inductive asyncRun :: "('m \<Rightarrow> 'w \<Rightarrow> 'w \<times> unit go) \<Rightarrow> ('m, 'w) asyncSys \<Rightarrow> 'm asyncLabel list \<Rightarrow> ('m, 'w) asyncSys \<Rightarrow> bool"
  for h s0 where
  async_start: "asyncRun h s0 [] s0"
| async_step: "asyncRun h s0 tr s \<Longrightarrow> asyncStep h s l s' \<Longrightarrow> asyncRun h s0 (tr @ [l]) s'"

definition NewAsync :: "'w \<Rightarrow> ('m, 'w) asyncSys" where
  "NewAsync w = \<lparr>asPending = [], asSending = [], asErrCh = [], asWorld = w\<rparr>"

text \<open>What a run accepted, handled, failed to handle, and reported.\<close>

fun acceptedOf :: "'m asyncLabel \<Rightarrow> 'm list" where
  "acceptedOf (AAccept m) = [m]"
| "acceptedOf _ = []"

fun handledOf :: "'m asyncLabel \<Rightarrow> 'm list" where
  "handledOf (AHandled m) = [m]"
| "handledOf (AFailed m x) = [m]"
| "handledOf _ = []"

fun failedOf :: "'m asyncLabel \<Rightarrow> ('m \<times> err) list" where
  "failedOf (AFailed m x) = [(m, x)]"
| "failedOf _ = []"

fun readOf :: "'m asyncLabel \<Rightarrow> ('m \<times> err) list" where
  "readOf (ARead m x) = [(m, x)]"
| "readOf _ = []"

definition collected :: "('m asyncLabel \<Rightarrow> 'a list) \<Rightarrow> 'm asyncLabel list \<Rightarrow> 'a multiset" where
  "collected f tr = mset (concat (map f tr))"

lemma collected_simps [simp]:
  "collected f [] = {#}"
  "collected f (tr @ [l]) = collected f tr + mset (f l)"
  by (simp_all add: collected_def)

definition asyncInv :: "'m asyncLabel list \<Rightarrow> ('m, 'w) asyncSys \<Rightarrow> bool" where
  "asyncInv tr s \<longleftrightarrow> collected acceptedOf tr = mset (asPending s) + collected handledOf tr \<and>
     collected failedOf tr = mset (asSending s) + mset (asErrCh s) + collected readOf tr \<and>
     length (asErrCh s) \<le> asyncErrSize"

lemma asyncInv_step: "asyncStep h s l s' \<Longrightarrow> asyncInv tr s \<Longrightarrow> asyncInv (tr @ [l]) s'"
  by (induction rule: asyncStep.induct) (auto simp: asyncInv_def asyncStart_def)

lemma asyncRun_inv: "asyncRun h s0 tr s \<Longrightarrow> asyncInv [] s0 \<Longrightarrow> asyncInv tr s"
  by (induction rule: asyncRun.induct) (auto intro: asyncInv_step)

section \<open>The event scheduler\<close>

text \<open>
  Each use of the middleware has an unbuffered channel and a run loop, which receives an event,
  handles it, and ends when the handler fails or the scheduler's context is done. Each call of
  \<^verbatim>\<open>ScheduleEvent\<close> has a goroutine, which waits for the next time and then sends the event to the
  channels that exist at that time, in order; it looks at the contexts only while it waits.
\<close>

datatype evLoop = EvReceiving | EvHandling ctx "event option" | EvEnded "err option"

datatype evSchedule = SchedWaiting | SchedSending "nat list" "event option" | SchedEnded

record evJob =
  ejCtx :: ctx
  ejFunc :: "time \<Rightarrow> event option"
  ejState :: evSchedule

record 'w evSys =
  evHandlers :: "'w HandleEventFn list"
  evLoops :: "evLoop list"
  evJobs :: "evJob list"
  evStopped :: "ctxDone option"
  evWorld :: 'w

definition evNewChannel :: "'w HandleEventFn \<Rightarrow> 'w evSys \<Rightarrow> 'w evSys" where
  "evNewChannel h s = s\<lparr>evHandlers := evHandlers s @ [h], evLoops := evLoops s @ [EvReceiving]\<rparr>"

text \<open>\<^verbatim>\<open>ScheduleEvent\<close>; \<open>parse\<close> is the result of parsing the cron line.\<close>

definition ctxErr :: "ctxDone \<Rightarrow> err" where
  "ctxErr d = (case d of Canceled \<Rightarrow> Sentinel ErrContextCanceled | DeadlineExceeded \<Rightarrow> Sentinel ErrContextDeadlineExceeded)"

definition ScheduleEvent :: "ctx \<Rightarrow> unit go \<Rightarrow> (time \<Rightarrow> event option) \<Rightarrow> 'w evSys \<Rightarrow> 'w evSys \<times> unit go" where
  "ScheduleEvent c parse f s =
     (case evStopped s of
        Some d \<Rightarrow> (s, Fail (ctxErr d))
      | None \<Rightarrow>
          (case parse of
             Ret _ \<Rightarrow> (s\<lparr>evJobs := evJobs s @ [\<lparr>ejCtx = c, ejFunc = f, ejState = SchedWaiting\<rparr>]\<rparr>, Ret ())
           | Fail x \<Rightarrow> (s, Fail x)
           | Panic p \<Rightarrow> (s, Panic p)))"

text \<open>How a run loop ends: cancellation of the context is not an error.\<close>

definition evLoopEnd :: "ctxDone \<Rightarrow> evLoop" where
  "evLoopEnd d = EvEnded (if d = Canceled then None else Some (ctxErr d))"

datatype evLabel = EvTrigger nat time | EvDeliver nat nat "event option" | EvOther

inductive evStep :: "'w evSys \<Rightarrow> evLabel \<Rightarrow> 'w evSys \<Rightarrow> bool" where
  use_middleware: "evStep s EvOther (evNewChannel h s)"
| schedule: "ScheduleEvent c parse f s = (s', r) \<Longrightarrow> evStep s EvOther s'"
| stop: "evStep s EvOther (s\<lparr>evStopped := Some d\<rparr>)"
| trigger: "j < length (evJobs s) \<Longrightarrow> ejState (evJobs s ! j) = SchedWaiting \<Longrightarrow>
    evStep s (EvTrigger j t) (s\<lparr>evJobs := (evJobs s)[j := (evJobs s ! j)
      \<lparr>ejState := SchedSending [0..<length (evLoops s)] (ejFunc (evJobs s ! j) t)\<rparr>]\<rparr>)"
| deliver: "j < length (evJobs s) \<Longrightarrow> ejState (evJobs s ! j) = SchedSending (i # is) ev \<Longrightarrow>
    i < length (evLoops s) \<Longrightarrow> evLoops s ! i = EvReceiving \<Longrightarrow>
    evStep s (EvDeliver j i ev) (s\<lparr>evJobs := (evJobs s)[j := (evJobs s ! j)\<lparr>ejState := SchedSending is ev\<rparr>],
      evLoops := (evLoops s)[i := EvHandling (ejCtx (evJobs s ! j)) ev]\<rparr>)"
| all_sent: "j < length (evJobs s) \<Longrightarrow> ejState (evJobs s ! j) = SchedSending [] ev \<Longrightarrow>
    evStep s EvOther (s\<lparr>evJobs := (evJobs s)[j := (evJobs s ! j)\<lparr>ejState := SchedWaiting\<rparr>]\<rparr>)"
| job_done: "j < length (evJobs s) \<Longrightarrow> ejState (evJobs s ! j) = SchedWaiting \<Longrightarrow>
    ctxDone (ejCtx (evJobs s ! j)) \<noteq> None \<or> evStopped s \<noteq> None \<Longrightarrow>
    evStep s EvOther (s\<lparr>evJobs := (evJobs s)[j := (evJobs s ! j)\<lparr>ejState := SchedEnded\<rparr>]\<rparr>)"
| job_cancel: "j < length (evJobs s) \<Longrightarrow>
    evStep s EvOther (s\<lparr>evJobs := (evJobs s)[j := (evJobs s ! j)\<lparr>ejCtx := (ejCtx (evJobs s ! j))\<lparr>ctxDone := Some d\<rparr>\<rparr>]\<rparr>)"
| loop_handled: "i < length (evLoops s) \<Longrightarrow> evLoops s ! i = EvHandling c ev \<Longrightarrow>
    (evHandlers s ! i) c ev (evWorld s) = (w', Ret ()) \<Longrightarrow>
    evStep s EvOther (s\<lparr>evLoops := (evLoops s)[i := EvReceiving], evWorld := w'\<rparr>)"
| loop_failed: "i < length (evLoops s) \<Longrightarrow> evLoops s ! i = EvHandling c ev \<Longrightarrow>
    (evHandlers s ! i) c ev (evWorld s) = (w', Fail x) \<Longrightarrow>
    evStep s EvOther (s\<lparr>evLoops := (evLoops s)[i := EvEnded (Some x)], evWorld := w'\<rparr>)"
| loop_done: "i < length (evLoops s) \<Longrightarrow> evLoops s ! i = EvReceiving \<Longrightarrow> evStopped s = Some d \<Longrightarrow>
    evStep s EvOther (s\<lparr>evLoops := (evLoops s)[i := evLoopEnd d]\<rparr>)"

inductive evRun :: "'w evSys \<Rightarrow> evLabel list \<Rightarrow> 'w evSys \<Rightarrow> bool" for s0 where
  ev_start: "evRun s0 [] s0"
| ev_step: "evRun s0 tr s \<Longrightarrow> evStep s l s' \<Longrightarrow> evRun s0 (tr @ [l]) s'"

fun evEnded :: "evLoop \<Rightarrow> bool" where
  "evEnded (EvEnded x) = True"
| "evEnded _ = False"

text \<open>A goroutine that sends to a channel whose run loop has ended.\<close>

definition evStuck :: "nat \<Rightarrow> nat \<Rightarrow> 'w evSys \<Rightarrow> bool" where
  "evStuck j i s \<longleftrightarrow> i < length (evLoops s) \<and> evEnded (evLoops s ! i) \<and> j < length (evJobs s) \<and>
     (\<exists>is ev. ejState (evJobs s ! j) = SchedSending (i # is) ev)"

lemma evStuck_step:
  "evStep s l s' \<Longrightarrow> evStuck j i s \<Longrightarrow> evStuck j i s' \<and> (\<forall>t k ev. l \<noteq> EvTrigger j t \<and> l \<noteq> EvDeliver j k ev)"
  by (induction rule: evStep.induct)
    (auto simp: evStuck_def evNewChannel_def ScheduleEvent_def nth_append nth_list_update
      split: option.splits outcome.splits if_splits)

section \<open>Properties\<close>

text \<open>
  The async middlewares lose nothing: in every run, each accepted event or command has been handled
  exactly once or its goroutine has yet to run, each error of the handler has been read, is in the
  error channel or waits to be sent, and the channel holds at most 20 errors.
\<close>

theorem async_no_loss:
  assumes "asyncRun h (NewAsync w) tr s"
  shows "collected acceptedOf tr = mset (asPending s) + collected handledOf tr \<and>
    collected failedOf tr = mset (asSending s) + mset (asErrCh s) + collected readOf tr \<and> length (asErrCh s) \<le> asyncErrSize"
  using asyncRun_inv [OF assms] by (simp add: asyncInv_def NewAsync_def)

theorem async_no_loss_witness:
  "\<exists>s. asyncRun (\<lambda>m w. (Suc w, Fail (NewError m))) (NewAsync 0) [AAccept ''a'', AFailed ''a'' (NewError ''a'')] s \<and>
     mset (asSending s) + mset (asErrCh s) = {#(''a'', NewError ''a'')#}"
proof -
  let ?h = "\<lambda>m w. (Suc w, Fail (NewError m))"
  let ?s1 = "(NewAsync 0)\<lparr>asPending := [''a'']\<rparr>"
  have "asyncStep ?h (NewAsync 0) (AAccept ''a'') ?s1" by (rule accept) (simp add: asyncStart_def NewAsync_def)
  moreover have "asyncStep ?h ?s1 (AFailed ''a'' (NewError ''a'')) (?s1\<lparr>asPending := [] @ [], asWorld := 1,
      asSending := (''a'', NewError ''a'') # asSending ?s1\<rparr>)"
    using failed [of ?s1 "[]" "''a''" "[]" ?h 1 "NewError ''a''"] by (simp add: NewAsync_def)
  ultimately obtain s where run: "asyncRun ?h (NewAsync 0) ([] @ [AAccept ''a''] @ [AFailed ''a'' (NewError ''a'')]) s"
    using async_step [OF async_step [OF async_start]] by fastforce
  from async_no_loss [OF run] have "mset (asSending s) + mset (asErrCh s) = {#(''a'', NewError ''a'')#}"
    by (simp add: collected_def)
  with run show ?thesis by auto
qed

text \<open>
  A failing handler stops the event scheduler: the run loop of a handler that returned an error has
  ended and never receives again, so a schedule that is about to send to it triggers nothing and
  delivers nothing to any handler any more, in every continuation, even after its context is
  cancelled or the scheduler is stopped.
\<close>

theorem event_schedule_blocked:
  assumes "evRun s tr s'" "i < length (evLoops s)" "evLoops s ! i = EvEnded x" "j < length (evJobs s)"
    and "ejState (evJobs s ! j) = SchedSending (i # is) ev"
  shows "(\<forall>l \<in> set tr. \<forall>t k ev'. l \<noteq> EvTrigger j t \<and> l \<noteq> EvDeliver j k ev') \<and> ejState (evJobs s' ! j) \<noteq> SchedEnded"
proof -
  have "evStuck j i s" using assms(2-5) by (auto simp: evStuck_def)
  with assms(1) have "(\<forall>l \<in> set tr. \<forall>t k ev'. l \<noteq> EvTrigger j t \<and> l \<noteq> EvDeliver j k ev') \<and> evStuck j i s'"
    by (induction rule: evRun.induct) (auto dest: evStuck_step)
  then show ?thesis by (auto simp: evStuck_def)
qed

definition stuckSched :: "unit evSys" where
  "stuckSched = \<lparr>evHandlers = [\<lambda>c ev w. (w, Fail (NewError ''no''))], evLoops = [EvEnded (Some (NewError ''no''))],
     evJobs = [\<lparr>ejCtx = context_Background, ejFunc = (\<lambda>t. None), ejState = SchedSending [0] None\<rparr>],
     evStopped = None, evWorld = ()\<rparr>"

theorem event_schedule_blocked_witness:
  "evRun stuckSched [EvOther] (stuckSched\<lparr>evStopped := Some Canceled\<rparr>) \<and>
   ejState (evJobs (stuckSched\<lparr>evStopped := Some Canceled\<rparr>) ! 0) \<noteq> SchedEnded"
proof -
  have run: "evRun stuckSched [EvOther] (stuckSched\<lparr>evStopped := Some Canceled\<rparr>)"
    using ev_step [OF ev_start stop] by fastforce
  with event_schedule_blocked [OF run, of 0 "Some (NewError ''no'')" 0 "[]" None] show ?thesis
    by (simp add: stuckSched_def)
qed

text \<open>
  The type of a handler function is the last part of its full name with dashes for dots, so it
  contains neither slashes nor dots; functions of the same name in packages of the same last path
  element get the same type.
\<close>

theorem func_handler_type:
  "CHR ''/'' \<notin> set (funcHandlerType n) \<and> CHR ''.'' \<notin> set (funcHandlerType n) \<and>
   funcHandlerType (path @ ''/'' @ n) = funcHandlerType n \<and>
   (CHR ''/'' \<notin> set n \<longrightarrow> funcHandlerType n = replaceChar (CHR ''.'') (CHR ''-'') n)"
proof -
  have "CHR ''/'' \<notin> set (last (splitAt (CHR ''/'') n))"
    by (rule splitAt_no_sep [of _ _ n]) simp
  then show ?thesis
    by (auto simp: funcHandlerType_def replaceChar_def splitAt_append splitAt_single)
qed

theorem func_handler_type_witness:
  "funcHandlerType ''github.com/looplab/eventhorizon.Function'' = ''eventhorizon-Function''"
  using func_handler_type [of "''eventhorizon.Function''" "''github.com/looplab''"] by (simp add: replaceChar_def)

text \<open>
  A handler marked as ephemeral is found through observer and async middlewares around it, but not
  through the event scheduler's middleware, which does not show its inner handler.
\<close>

theorem ephemeral_detection:
  "handlerIsEphemeral (UseEventHandlerMiddleware h (map observerMiddleware gs @ [ephemeralMiddleware])) \<and>
   handlerIsEphemeral (asyncEventMiddleware (UseEventHandlerMiddleware h (map observerMiddleware gs @ [ephemeralMiddleware]))) \<and>
   \<not> handlerIsEphemeral (UseEventHandlerMiddleware h (map observerMiddleware gs @ [schedulerEventMiddleware, ephemeralMiddleware]))"
proof -
  have "handlerIsEphemeral (applyMiddleware h' (map observerMiddleware gs)) = handlerIsEphemeral h'" for h' :: "'a handler"
    by (induction gs) simp_all
  then show ?thesis
    by (simp add: UseEventHandlerMiddleware_def applyMiddleware_append asyncEventMiddleware_def)
qed

end
