(* ===== verification/Waiter.thy ===== *)
theory Waiter
  imports EventStore_Spec
begin

text \<open>
  The waiter event handler (\<^verbatim>\<open>eventhandler/waiter\<close>): a handler whose run loop forwards events to
  listeners with a buffer of one event. Callers of the handler and of the listeners and the run loop
  interleave as a step relation; the unbuffered channels \<^verbatim>\<open>register\<close> and \<^verbatim>\<open>unregister\<close> make the caller's
  send and the loop's receive one step.
\<close>

section \<open>State\<close>

record EventListener =
  lsID :: UUID
  lsMatch :: "(event \<Rightarrow> bool) option"
  lsInbox :: "event list"
  lsClosed :: bool

text \<open>The handler's inbox, the listeners that were created, and the loop's map of those registered.\<close>

record waiter =
  wtInbox :: "event list"
  wtListeners :: "EventListener list"
  wtRegistered :: "UUID \<rightharpoonup> nat"

definition NewWaiter :: waiter where
  "NewWaiter = \<lparr>wtInbox = [], wtListeners = [], wtRegistered = Map.empty\<rparr>"

section \<open>Operations\<close>

text \<open>\<^verbatim>\<open>HandleEvent\<close>; \<^const>\<open>None\<close> while it blocks because the inbox is full.\<close>

definition waiterHandleEvent :: "event option \<Rightarrow> waiter \<Rightarrow> (waiter \<times> unit go) option" where
  "waiterHandleEvent ev s =
     (case ev of
        None \<Rightarrow> Some (s, Fail (Sentinel ErrMissingEvent))
      | Some e \<Rightarrow> if length (wtInbox s) < 1 then Some (s\<lparr>wtInbox := wtInbox s @ [e]\<rparr>, Ret ()) else None)"

definition Listen :: "UUID \<Rightarrow> (event \<Rightarrow> bool) option \<Rightarrow> waiter \<Rightarrow> waiter" where
  "Listen newID m s =
     s\<lparr>wtListeners := wtListeners s @ [\<lparr>lsID = newID, lsMatch = m, lsInbox = [], lsClosed = False\<rparr>],
       wtRegistered := (wtRegistered s)(newID \<mapsto> length (wtListeners s))\<rparr>"

definition closeInbox :: "nat \<Rightarrow> waiter \<Rightarrow> waiter go" where
  "closeInbox j s =
     (if lsClosed (wtListeners s ! j) then Panic ''close of closed channel''
      else Ret (s\<lparr>wtListeners := (wtListeners s)[j := (wtListeners s ! j)\<lparr>lsClosed := True\<rparr>]\<rparr>))"

text \<open>\<^verbatim>\<open>Close\<close> of listener \<open>j\<close>, as the run loop handles it.\<close>

definition listenerClose :: "nat \<Rightarrow> waiter \<Rightarrow> waiter go" where
  "listenerClose j s =
     (case wtRegistered s (lsID (wtListeners s ! j)) of
        None \<Rightarrow> Ret s
      | Some _ \<Rightarrow> closeInbox j (s\<lparr>wtRegistered := (wtRegistered s)(lsID (wtListeners s ! j) := None)\<rparr>))"

text \<open>Sending to a listener: an event that exceeds its buffer is dropped.\<close>

definition offer :: "event \<Rightarrow> EventListener \<Rightarrow> EventListener go" where
  "offer e l =
     (if \<not> (case lsMatch l of None \<Rightarrow> True | Some m \<Rightarrow> m e) then Ret l
      else if lsClosed l then Panic ''send on closed channel''
      else if length (lsInbox l) < 1 then Ret (l\<lparr>lsInbox := lsInbox l @ [e]\<rparr>)
      else Ret l)"

text \<open>
  The loop over the map of listeners, in the order of the list of all listeners; the order does
  not matter, since each listener is offered the event once.
\<close>

definition waiterDispatch :: "event \<Rightarrow> waiter \<Rightarrow> waiter go" where
  "waiterDispatch e s =
     obind (otraverse (\<lambda>(j, l). if wtRegistered s (lsID l) = Some j then offer e l else Ret l)
              (enumerate 0 (wtListeners s)))
       (\<lambda>ls. Ret (s\<lparr>wtListeners := ls\<rparr>))"

text \<open>\<^verbatim>\<open>Wait\<close>: \<^const>\<open>None\<close> while it blocks; a closed inbox gives the zero value, a nil event.\<close>

definition waitResults :: "ctx \<Rightarrow> EventListener \<Rightarrow> (EventListener \<times> event option go) set" where
  "waitResults c l =
     (case lsInbox l of e # es \<Rightarrow> {(l\<lparr>lsInbox := es\<rparr>, Ret (Some e))} | [] \<Rightarrow> if lsClosed l then {(l, Ret None)} else {}) \<union>
     (case ctxDone c of
        None \<Rightarrow> {}
      | Some Canceled \<Rightarrow> {(l, Fail (Sentinel ErrContextCanceled))}
      | Some DeadlineExceeded \<Rightarrow> {(l, Fail (Sentinel ErrContextDeadlineExceeded))})"

section \<open>Runs\<close>

datatype waiterLabel = WHandle event | WWait nat "event option go" | WClose nat | WOther

inductive waiterStep :: "waiter \<Rightarrow> waiterLabel \<Rightarrow> waiter go \<Rightarrow> bool" where
  handle: "waiterHandleEvent (Some e) s = Some (s', r) \<Longrightarrow> waiterStep s (WHandle e) (Ret s')"
| listen: "newID \<notin> lsID ` set (wtListeners s) \<Longrightarrow> waiterStep s WOther (Ret (Listen newID m s))"
| close: "j < length (wtListeners s) \<Longrightarrow> waiterStep s (WClose j) (listenerClose j s)"
| dispatch: "wtInbox s = e # es \<Longrightarrow> waiterStep s WOther (waiterDispatch e (s\<lparr>wtInbox := es\<rparr>))"
| wait: "j < length (wtListeners s) \<Longrightarrow> (l', r) \<in> waitResults c (wtListeners s ! j) \<Longrightarrow>
    waiterStep s (WWait j r) (Ret (s\<lparr>wtListeners := (wtListeners s)[j := l']\<rparr>))"

inductive waiterRun :: "waiterLabel list \<Rightarrow> waiter \<Rightarrow> bool" where
  waiter_start: "waiterRun [] NewWaiter"
| waiter_step: "waiterRun tr s \<Longrightarrow> waiterStep s l (Ret s') \<Longrightarrow> waiterRun (tr @ [l]) s'"

inductive_cases waiterStepE: "waiterStep s l r"

section \<open>Invariant\<close>

text \<open>
  IDs are distinct, the map points to listeners of that ID, exactly the registered listeners are
  open, and buffers hold at most one event; inboxes hold events that were handled and, for a
  listener, match.
\<close>

definition listenerOk :: "event set \<Rightarrow> waiter \<Rightarrow> nat \<Rightarrow> EventListener \<Rightarrow> bool" where
  "listenerOk E s j l \<longleftrightarrow> (wtRegistered s (lsID l) = (if lsClosed l then None else Some j)) \<and> length (lsInbox l) \<le> 1 \<and>
     (\<forall>e \<in> set (lsInbox l). e \<in> E \<and> (\<forall>m. lsMatch l = Some m \<longrightarrow> m e))"

definition waiterInv :: "event set \<Rightarrow> waiter \<Rightarrow> bool" where
  "waiterInv E s \<longleftrightarrow> distinct (map lsID (wtListeners s)) \<and> length (wtInbox s) \<le> 1 \<and> set (wtInbox s) \<subseteq> E \<and>
     dom (wtRegistered s) \<subseteq> lsID ` set (wtListeners s) \<and>
     (\<forall>j < length (wtListeners s). listenerOk E s j (wtListeners s ! j))"

lemma waiterInv_mono: "waiterInv E s \<Longrightarrow> E \<subseteq> F \<Longrightarrow> waiterInv F s"
  by (auto simp: waiterInv_def listenerOk_def)

lemma waiterInv_listen:
  assumes "waiterInv E s" "newID \<notin> lsID ` set (wtListeners s)"
  shows "waiterInv E (Listen newID m s)"
proof -
  have "wtRegistered s newID = None" using assms by (auto simp: waiterInv_def)
  moreover have "lsID (wtListeners s ! j) \<noteq> newID" if "j < length (wtListeners s)" for j using assms(2) that by auto
  ultimately show ?thesis using assms
    by (auto simp: waiterInv_def Listen_def listenerOk_def nth_append less_Suc_eq split: if_splits)
qed

lemma same_ID:
  "waiterInv E s \<Longrightarrow> j < length (wtListeners s) \<Longrightarrow> k < length (wtListeners s) \<Longrightarrow>
   lsID (wtListeners s ! j) = lsID (wtListeners s ! k) \<longleftrightarrow> j = k"
  unfolding waiterInv_def by (metis length_map nth_eq_iff_index_eq nth_map)

lemma listenerClose_ok:
  assumes inv: "waiterInv E s" and j: "j < length (wtListeners s)"
  shows "\<exists>s'. listenerClose j s = Ret s' \<and> waiterInv E s'"
proof (cases "lsClosed (wtListeners s ! j)")
  case True
  with assms have "wtRegistered s (lsID (wtListeners s ! j)) = None" by (auto simp: waiterInv_def listenerOk_def)
  with inv show ?thesis by (simp add: listenerClose_def)
next
  case False
  let ?l = "wtListeners s ! j"
  let ?s' = "s\<lparr>wtRegistered := (wtRegistered s)(lsID ?l := None), wtListeners := (wtListeners s)[j := ?l\<lparr>lsClosed := True\<rparr>]\<rparr>"
  from assms False have "wtRegistered s (lsID ?l) = Some j" by (auto simp: waiterInv_def listenerOk_def)
  with False have run: "listenerClose j s = Ret ?s'" by (simp add: listenerClose_def closeInbox_def)
  have ids: "map lsID (wtListeners ?s') = map lsID (wtListeners s)"
    using j by (simp add: map_update list_update_same_conv)
  have "listenerOk E ?s' k (wtListeners ?s' ! k)" if "k < length (wtListeners s)" for k
    using inv that same_ID [OF inv j that] j by (auto simp: waiterInv_def listenerOk_def nth_list_update)
  moreover have "dom (wtRegistered ?s') \<subseteq> set (map lsID (wtListeners ?s'))"
    unfolding ids using inv by (auto simp: waiterInv_def)
  ultimately show ?thesis using inv ids run by (auto simp: waiterInv_def)
qed

text \<open>What the loop leaves in a listener that is registered and open.\<close>

definition offered :: "event \<Rightarrow> EventListener \<Rightarrow> EventListener" where
  "offered e l =
     (if (case lsMatch l of None \<Rightarrow> True | Some m \<Rightarrow> m e) \<and> lsInbox l = [] then l\<lparr>lsInbox := [e]\<rparr> else l)"

lemma offer_open: "\<not> lsClosed l \<Longrightarrow> offer e l = Ret (offered e l)"
  by (auto simp: offer_def offered_def)

lemma offered_fields [simp]:
  "lsID (offered e l) = lsID l" "lsMatch (offered e l) = lsMatch l" "lsClosed (offered e l) = lsClosed l"
  by (auto simp: offered_def)

lemma offered_inbox: "set (lsInbox (offered e l)) \<subseteq> insert e (set (lsInbox l))"
  "length (lsInbox l) \<le> 1 \<Longrightarrow> length (lsInbox (offered e l)) \<le> 1"
  "e' \<in> set (lsInbox (offered e l)) \<Longrightarrow> e' \<in> set (lsInbox l) \<or> e' = e \<and> (\<forall>m. lsMatch l = Some m \<longrightarrow> m e)"
  by (auto simp: offered_def split: if_splits)

lemma waiterDispatch_ok:
  assumes inv: "waiterInv E s" and e: "e \<in> E"
  shows "waiterDispatch e s = Ret (s\<lparr>wtListeners := map (\<lambda>l. if lsClosed l then l else offered e l) (wtListeners s)\<rparr>)"
proof -
  let ?f = "\<lambda>(j, l). if wtRegistered s (lsID l) = Some j then offer e l else Ret l"
  have "?f x = Ret (if lsClosed (snd x) then snd x else offered e (snd x))" if "x \<in> set (enumerate 0 (wtListeners s))" for x
  proof -
    obtain j l where x: "x = (j, l)" by fastforce
    with that have "x = (j, wtListeners s ! j)" "j < length (wtListeners s)" by (auto simp: in_set_enumerate_eq)
    moreover from this inv have "wtRegistered s (lsID (wtListeners s ! j)) = (if lsClosed (wtListeners s ! j) then None else Some j)"
      by (auto simp: waiterInv_def listenerOk_def)
    ultimately show ?thesis by (auto simp: offer_open)
  qed
  then have "otraverse ?f (enumerate 0 (wtListeners s)) =
      Ret (map (\<lambda>x. if lsClosed (snd x) then snd x else offered e (snd x)) (enumerate 0 (wtListeners s)))"
    by (rule otraverse_map_Ret)
  also have "map (\<lambda>x. if lsClosed (snd x) then snd x else offered e (snd x)) (enumerate 0 (wtListeners s)) =
      map (\<lambda>l. if lsClosed l then l else offered e l) (map snd (enumerate 0 (wtListeners s)))"
    by (simp only: map_map comp_def)
  finally show ?thesis by (simp add: waiterDispatch_def)
qed

lemma waiterInv_update:
  assumes "waiterInv E s" "map lsID ls = map lsID (wtListeners s)" "\<And>k. k < length ls \<Longrightarrow> listenerOk E s k (ls ! k)"
  shows "waiterInv E (s\<lparr>wtListeners := ls\<rparr>)"
proof -
  have "lsID ` set ls = lsID ` set (wtListeners s)" using assms(2) by (metis set_map)
  moreover have "listenerOk E (s\<lparr>wtListeners := ls\<rparr>) k l = listenerOk E s k l" for k l by (simp add: listenerOk_def)
  ultimately show ?thesis using assms by (simp add: waiterInv_def)
qed

lemma waiterInv_dispatch:
  assumes inv: "waiterInv E s" and e: "e \<in> E"
  shows "waiterInv E (s\<lparr>wtListeners := map (\<lambda>l. if lsClosed l then l else offered e l) (wtListeners s)\<rparr>)"
proof (rule waiterInv_update [OF inv])
  fix k assume "k < length (map (\<lambda>l. if lsClosed l then l else offered e l) (wtListeners s))"
  then show "listenerOk E s k (map (\<lambda>l. if lsClosed l then l else offered e l) (wtListeners s) ! k)"
    using inv e offered_inbox(2) [of "wtListeners s ! k" e]
    by (auto simp: waiterInv_def listenerOk_def dest!: offered_inbox(3))
qed simp

lemma waiterInv_wait:
  assumes inv: "waiterInv E s" and j: "j < length (wtListeners s)" and r: "(l', r) \<in> waitResults c (wtListeners s ! j)"
  shows "waiterInv E (s\<lparr>wtListeners := (wtListeners s)[j := l']\<rparr>)"
proof -
  have l': "lsID l' = lsID (wtListeners s ! j)" "lsMatch l' = lsMatch (wtListeners s ! j)" "lsClosed l' = lsClosed (wtListeners s ! j)"
    "set (lsInbox l') \<subseteq> set (lsInbox (wtListeners s ! j))" "length (lsInbox l') \<le> length (lsInbox (wtListeners s ! j))"
    using r by (cases "lsInbox (wtListeners s ! j)"; auto simp: waitResults_def split: option.splits ctxDone.splits if_splits)+
  show ?thesis
  proof (rule waiterInv_update [OF inv])
    show "map lsID ((wtListeners s)[j := l']) = map lsID (wtListeners s)"
      using j l'(1) by (simp add: map_update list_update_same_conv)
    fix k assume "k < length ((wtListeners s)[j := l'])"
    then have k: "k < length (wtListeners s)" by simp
    with inv have "listenerOk E s k (wtListeners s ! k)" by (simp add: waiterInv_def)
    with k l' show "listenerOk E s k ((wtListeners s)[j := l'] ! k)"
      unfolding listenerOk_def by (cases "k = j") (use subsetD [OF l'(4)] in auto)
  qed
qed

text \<open>The events that were handled.\<close>

fun handledEvent :: "waiterLabel \<Rightarrow> event set" where
  "handledEvent (WHandle e) = {e}"
| "handledEvent _ = {}"

lemma handledEvent_iff: "e \<in> handledEvent l \<longleftrightarrow> l = WHandle e"
  by (cases l) auto

definition handledEvents :: "waiterLabel list \<Rightarrow> event set" where
  "handledEvents tr = (\<Union>l \<in> set tr. handledEvent l)"

lemma handledEvents_simps [simp]:
  "handledEvents [] = {}" "handledEvents (tr @ [l]) = handledEvents tr \<union> handledEvent l"
  by (auto simp: handledEvents_def)

lemma waiterStep_ok:
  assumes "waiterStep s l r" and inv: "waiterInv E s"
  shows "\<exists>s'. r = Ret s' \<and> waiterInv (E \<union> handledEvent l) s'"
  using assms(1)
proof cases
  case (handle e s' u)
  then have "r = Ret (s\<lparr>wtInbox := [e]\<rparr>)" by (auto simp: waiterHandleEvent_def split: if_splits)
  moreover have "waiterInv (E \<union> {e}) s" by (rule waiterInv_mono [OF inv]) blast
  moreover have "listenerOk F (s\<lparr>wtInbox := [e]\<rparr>) k l = listenerOk F s k l" for F k l by (simp add: listenerOk_def)
  ultimately show ?thesis using handle(1) by (simp add: waiterInv_def)
next
  case (listen newID m)
  with waiterInv_listen [OF inv] show ?thesis by simp
next
  case (close j)
  with listenerClose_ok [OF inv] show ?thesis by simp
next
  case (dispatch e es)
  then have "waiterInv E (s\<lparr>wtInbox := es\<rparr>)" "e \<in> E" using inv by (auto simp: waiterInv_def listenerOk_def)
  from waiterDispatch_ok [OF this] waiterInv_dispatch [OF this] dispatch show ?thesis by simp
next
  case (wait j l' u c)
  with waiterInv_wait [OF inv] show ?thesis by simp
qed

lemma waiterRun_inv: "waiterRun tr s \<Longrightarrow> waiterInv (handledEvents tr) s"
proof (induction rule: waiterRun.induct)
  case (waiter_step tr s l s')
  then show ?case using waiterStep_ok [of s l "Ret s'" "handledEvents tr"] by auto
qed (simp add: waiterInv_def NewWaiter_def)

section \<open>Properties\<close>

text \<open>
  Whatever the callers do, the waiter never panics: no event is sent on a closed channel and no
  channel is closed twice, also when a listener is closed again. A listener holds at most one
  event, only events that were handled, and only matching ones.
\<close>

theorem waiter_safe:
  assumes "waiterRun tr s"
  shows "(waiterStep s l r \<longrightarrow> is_Ret r) \<and>
    (\<forall>j < length (wtListeners s). length (lsInbox (wtListeners s ! j)) \<le> 1 \<and>
       (\<forall>e \<in> set (lsInbox (wtListeners s ! j)). WHandle e \<in> set tr \<and> (\<forall>m. lsMatch (wtListeners s ! j) = Some m \<longrightarrow> m e)))"
proof -
  note inv = waiterRun_inv [OF assms]
  have "WHandle e \<in> set tr" if "e \<in> handledEvents tr" for e
    using that by (auto simp: handledEvents_def handledEvent_iff)
  moreover have "waiterStep s l r \<longrightarrow> is_Ret r" using waiterStep_ok [OF _ inv] by fastforce
  ultimately show ?thesis using inv by (auto simp: waiterInv_def listenerOk_def)
qed

definition waiterEvent :: event where
  "waiterEvent = \<lparr>eventType = ''Done'', data = None, timestamp = 1, aggregateType = ''T'', aggregateID = 2, version = 1, metadata = None\<rparr>"

lemma waiter_demo:
  "waiterRun [WHandle waiterEvent] (NewWaiter\<lparr>wtInbox := [waiterEvent]\<rparr>)"
proof -
  have "waiterStep NewWaiter (WHandle waiterEvent) (Ret (NewWaiter\<lparr>wtInbox := [waiterEvent]\<rparr>))"
    by (rule handle) (simp add: waiterHandleEvent_def NewWaiter_def)
  from waiter_step [OF waiter_start this] show ?thesis by simp
qed

theorem waiter_safe_witness:
  "waiterStep (NewWaiter\<lparr>wtInbox := [waiterEvent]\<rparr>) WOther (waiterDispatch waiterEvent NewWaiter) \<and>
   is_Ret (waiterDispatch waiterEvent NewWaiter)"
proof -
  let ?s = "NewWaiter\<lparr>wtInbox := [waiterEvent]\<rparr>"
  have "waiterStep ?s WOther (waiterDispatch waiterEvent (?s\<lparr>wtInbox := []\<rparr>))" by (rule dispatch) simp
  then have "waiterStep ?s WOther (waiterDispatch waiterEvent NewWaiter)" by (simp add: NewWaiter_def)
  with waiter_safe [OF waiter_demo, of WOther "waiterDispatch waiterEvent NewWaiter"] show ?thesis by blast
qed

text \<open>
  A listener that was closed before an event arrived does not report it: \<^verbatim>\<open>Wait\<close> returns a nil
  event and no error.
\<close>

theorem wait_after_close:
  assumes "waiterRun tr s" "j < length (wtListeners s)" "lsInbox (wtListeners s ! j) = []"
  shows "\<exists>s'. listenerClose j s = Ret s' \<and>
    (\<forall>c. ctxDone c = None \<longrightarrow> waitResults c (wtListeners s' ! j) = {(wtListeners s' ! j, Ret None)})"
proof -
  from listenerClose_ok [OF waiterRun_inv [OF assms(1)] assms(2)] obtain s' where s': "listenerClose j s = Ret s'" by blast
  have "lsClosed (wtListeners s' ! j) \<and> lsInbox (wtListeners s' ! j) = []"
  proof (cases "lsClosed (wtListeners s ! j)")
    case True
    with waiterRun_inv [OF assms(1)] assms(2) have "wtRegistered s (lsID (wtListeners s ! j)) = None"
      by (auto simp: waiterInv_def listenerOk_def)
    with s' True assms(3) show ?thesis by (simp add: listenerClose_def)
  next
    case False
    with waiterRun_inv [OF assms(1)] assms(2) have "wtRegistered s (lsID (wtListeners s ! j)) = Some j"
      by (auto simp: waiterInv_def listenerOk_def)
    with s' False assms(2,3) show ?thesis by (auto simp: listenerClose_def closeInbox_def)
  qed
  with s' show ?thesis by (auto simp: waitResults_def)
qed

theorem wait_after_close_witness:
  "\<exists>s'. listenerClose 0 (Listen 5 None NewWaiter) = Ret s' \<and>
     waitResults context_Background (wtListeners s' ! 0) = {(wtListeners s' ! 0, Ret None)}"
proof -
  have "waiterStep NewWaiter WOther (Ret (Listen 5 None NewWaiter))" by (rule listen) (simp add: NewWaiter_def)
  from waiter_step [OF waiter_start this] have run: "waiterRun [WOther] (Listen 5 None NewWaiter)" by simp
  from wait_after_close [OF run, of 0] show ?thesis by (auto simp: Listen_def NewWaiter_def context_Background_def)
qed

end
