(* ===== verification/EventStore_Recorder.thy ===== *)
theory EventStore_Recorder
  imports EventStore_Memory
begin

text \<open>
  The recording event store (\<^verbatim>\<open>eventstore/recorder\<close>), which wraps an event store and records the
  events of each save with their outcome. Records are pointers in Go: the slice of the recorder and
  the local slice of \<^verbatim>\<open>Save\<close> share them, so they live in a heap here. The wrapped store acts on the
  whole state, since its event handlers can save through the recorder again.
\<close>

section \<open>State\<close>

datatype Status = Pending | Succeeded | Failed

record EventRecord =
  erEvent :: "event option"
  erStatus :: Status
  erErr :: "err option"

record 's recorder =
  recRecording :: bool
  recHeap :: "EventRecord list"
  recRecords :: "nat list"
  recStore :: 's

definition NewRecorder :: "'s option \<Rightarrow> 's recorder option" where
  "NewRecorder store = map_option (\<lambda>s. \<lparr>recRecording = False, recHeap = [], recRecords = [], recStore = s\<rparr>) store"

section \<open>Operations\<close>

text \<open>The loops that set the status and, for a failure, the error of the records at the given addresses.\<close>

fun updateAll :: "(EventRecord \<Rightarrow> EventRecord) \<Rightarrow> nat list \<Rightarrow> EventRecord list \<Rightarrow> EventRecord list" where
  "updateAll f [] h = h"
| "updateAll f (a # addrs) h = updateAll f addrs (h[a := f (h ! a)])"

definition markRecords :: "nat list \<Rightarrow> unit go \<Rightarrow> 's recorder \<Rightarrow> 's recorder" where
  "markRecords addrs r s =
     (case r of
        Ret _ \<Rightarrow> s\<lparr>recHeap := updateAll (\<lambda>rec. rec\<lparr>erStatus := Succeeded\<rparr>) addrs (recHeap s)\<rparr>
      | Fail x \<Rightarrow> s\<lparr>recHeap := updateAll (\<lambda>rec. rec\<lparr>erStatus := Failed, erErr := Some x\<rparr>) addrs (recHeap s)\<rparr>
      | Panic p \<Rightarrow> s)"

definition recSave ::
    "(ctx \<Rightarrow> event option list \<Rightarrow> gint \<Rightarrow> 's recorder \<Rightarrow> 's recorder \<times> unit go) \<Rightarrow>
     ctx \<Rightarrow> event option list \<Rightarrow> gint \<Rightarrow> 's recorder \<Rightarrow> 's recorder \<times> unit go" where
  "recSave inner c events ov s =
     (if \<not> recRecording s then inner c events ov s
      else
        (let addrs = [length (recHeap s)..<length (recHeap s) + length events];
             s1 = s\<lparr>recHeap := recHeap s @ map (\<lambda>e. \<lparr>erEvent = e, erStatus = Pending, erErr = None\<rparr>) events,
                    recRecords := recRecords s @ addrs\<rparr>
         in case inner c events ov s1 of (s2, r) \<Rightarrow> (markRecords addrs r s2, r)))"

definition StartRecording :: "'s recorder \<Rightarrow> 's recorder" where
  "StartRecording s = s\<lparr>recRecording := True\<rparr>"

definition StopRecording :: "'s recorder \<Rightarrow> 's recorder" where
  "StopRecording s = s\<lparr>recRecording := False\<rparr>"

definition FullRecording :: "'s recorder \<Rightarrow> EventRecord list" where
  "FullRecording s = map (\<lambda>a. recHeap s ! a) (recRecords s)"

definition eventsByStatus :: "Status \<Rightarrow> 's recorder \<Rightarrow> event option list" where
  "eventsByStatus st s = map erEvent (filter (\<lambda>r. erStatus r = st) (FullRecording s))"

definition PendingEvents :: "'s recorder \<Rightarrow> event option list" where
  "PendingEvents s = eventsByStatus Pending s"

definition SuccessfulEvents :: "'s recorder \<Rightarrow> event option list" where
  "SuccessfulEvents s = eventsByStatus Succeeded s"

definition FailedEvents :: "'s recorder \<Rightarrow> event option list" where
  "FailedEvents s = eventsByStatus Failed s"

definition ResetTrace :: "'s recorder \<Rightarrow> 's recorder" where
  "ResetTrace s = s\<lparr>recRecords := []\<rparr>"

section \<open>Lemmas\<close>

text \<open>A store that does not save through the recorder.\<close>

definition liftSave ::
    "(ctx \<Rightarrow> event option list \<Rightarrow> gint \<Rightarrow> 's \<Rightarrow> 's \<times> unit go) \<Rightarrow>
     ctx \<Rightarrow> event option list \<Rightarrow> gint \<Rightarrow> 's recorder \<Rightarrow> 's recorder \<times> unit go" where
  "liftSave save c events ov s = (case save c events ov (recStore s) of (st, r) \<Rightarrow> (s\<lparr>recStore := st\<rparr>, r))"

text \<open>The embedded store's other methods.\<close>

definition recLoadFrom ::
    "(ctx \<Rightarrow> UUID \<Rightarrow> gint \<Rightarrow> 's \<Rightarrow> 's \<times> event option list go) \<Rightarrow>
     ctx \<Rightarrow> UUID \<Rightarrow> gint \<Rightarrow> 's recorder \<Rightarrow> 's recorder \<times> event option list go" where
  "recLoadFrom load c i v s = (case load c i v (recStore s) of (st, r) \<Rightarrow> (s\<lparr>recStore := st\<rparr>, r))"

lemma markRecords_store [simp]: "recStore (markRecords addrs r s) = recStore s"
  by (cases r) (simp_all add: markRecords_def)

lemma recSave_transparent:
  "recStore (fst (recSave (liftSave save) c events ov s)) = fst (save c events ov (recStore s)) \<and>
   snd (recSave (liftSave save) c events ov s) = snd (save c events ov (recStore s))"
  by (simp add: recSave_def liftSave_def Let_def split: prod.split)

text \<open>What marking does to the heap.\<close>

lemma updateAll_outside: "a \<notin> set addrs \<Longrightarrow> updateAll f addrs h ! a = h ! a"
  by (induction f addrs h rule: updateAll.induct) auto

lemma updateAll_length [simp]: "length (updateAll f addrs h) = length h"
  by (induction f addrs h rule: updateAll.induct) auto

lemma updateAll_inside:
  "distinct addrs \<Longrightarrow> a \<in> set addrs \<Longrightarrow> a < length h \<Longrightarrow> updateAll f addrs h ! a = f (h ! a)"
proof (induction f addrs h rule: updateAll.induct)
  case (2 f b addrs h)
  then show ?case by (cases "a = b") (auto simp: updateAll_outside)
qed simp

text \<open>The status and error that the outcome of a save gives to its records.\<close>

definition recordOf :: "unit go \<Rightarrow> event option \<Rightarrow> EventRecord" where
  "recordOf r e = (case r of
       Ret _ \<Rightarrow> \<lparr>erEvent = e, erStatus = Succeeded, erErr = None\<rparr>
     | Fail x \<Rightarrow> \<lparr>erEvent = e, erStatus = Failed, erErr = Some x\<rparr>
     | Panic p \<Rightarrow> \<lparr>erEvent = e, erStatus = Pending, erErr = None\<rparr>)"

lemma markRecords_heap:
  assumes "h = recHeap s" "addrs = [n..<n + length es]" "n + length es \<le> length h"
    and "\<And>i. i < length es \<Longrightarrow> h ! (n + i) = \<lparr>erEvent = es ! i, erStatus = Pending, erErr = None\<rparr>"
  shows "length (recHeap (markRecords addrs r s)) = length h \<and>
    (\<forall>a. a < n \<or> n + length es \<le> a \<longrightarrow> recHeap (markRecords addrs r s) ! a = h ! a) \<and>
    (\<forall>i < length es. recHeap (markRecords addrs r s) ! (n + i) = recordOf r (es ! i))"
  using assms by (cases r) (auto simp: markRecords_def recordOf_def updateAll_outside updateAll_inside)

section \<open>The contract\<close>

text \<open>A recorder over an event store is an event store.\<close>

context event_store
begin

lemma recorder_event_store:
  "event_store (recSave (liftSave save)) (recLoadFrom loadFrom) (\<lambda>s. stream (recStore s)) storable (\<lambda>s. invar (recStore s))"
proof unfold_locales
  fix s :: "'s recorder" and es agt aid c s' r
  assume "invar (recStore s)" "es \<noteq> []" "serialFrom agt aid (of_nat (length (stream (recStore s) aid))) es"
    "length (stream (recStore s) aid) < 2 ^ 63" "\<And>e. e \<in> set es \<Longrightarrow> storable e"
    and run: "recSave (liftSave save) c (map Some es) (of_nat (length (stream (recStore s) aid))) s = (s', r)"
  moreover have "save c (map Some es) (of_nat (length (stream (recStore s) aid))) (recStore s) = (recStore s', r)"
    using recSave_transparent [of save c "map Some es" "of_nat (length (stream (recStore s) aid))" s] run by (simp add: prod_eq_iff)
  ultimately show "invar (recStore s') \<and> (stream (recStore s') = (stream (recStore s))(aid := stream (recStore s) aid @ es) \<or>
      stream (recStore s') = stream (recStore s) \<and> r \<noteq> Ret ())"
    by (intro save_effect)
next
  fix s :: "'s recorder" and aid c
  assume "invar (recStore s)" "stream (recStore s) aid = []"
  from load_missing [OF this, of c] show "\<exists>e. recLoadFrom loadFrom c aid 1 s = (s, Fail e) \<and> errors_Is e ErrAggregateNotFound"
    by (auto simp: recLoadFrom_def split: prod.splits)
qed (auto simp: stream_serial load_stream recLoadFrom_def)

end

interpretation recmem: event_store "recSave (liftSave (memSave env))" "recLoadFrom (memLoadFrom env)"
  "\<lambda>s. memStream (esDb (fst (recStore s)))" "faithful env" "\<lambda>s. memInv env (esDb (fst (recStore s)))" for env
  by (rule mem.recorder_event_store)

section \<open>Recording\<close>

text \<open>
  The wrapped store and its handlers leave the records that exist alone and add new ones after
  them, as saves through the recorder do.
\<close>

definition appendsRecords ::
    "(ctx \<Rightarrow> event option list \<Rightarrow> gint \<Rightarrow> 's recorder \<Rightarrow> 's recorder \<times> unit go) \<Rightarrow> bool" where
  "appendsRecords inner \<longleftrightarrow> (\<forall>c es ov s s' r. inner c es ov s = (s', r) \<longrightarrow>
     prefix (recHeap s) (recHeap s') \<and> prefix (recRecords s) (recRecords s'))"

definition recorderOk :: "'s recorder \<Rightarrow> bool" where
  "recorderOk s \<longleftrightarrow> (\<forall>a \<in> set (recRecords s). a < length (recHeap s))"

lemma liftSave_appends: "appendsRecords (liftSave save)"
  by (auto simp: appendsRecords_def liftSave_def split: prod.splits)

lemma markRecords_records [simp]: "recRecords (markRecords addrs r s) = recRecords s"
  by (cases r) (simp_all add: markRecords_def)

lemma recSave_heap:
  assumes "appendsRecords inner" "recRecording s" "recSave inner c es ov s = (s', r)"
  shows "\<exists>more ptrs. recHeap s' = recHeap s @ map (recordOf r) es @ more \<and>
    recRecords s' = recRecords s @ [length (recHeap s)..<length (recHeap s) + length es] @ ptrs"
proof -
  let ?n = "length (recHeap s)"
  let ?addrs = "[?n..<?n + length es]"
  let ?new = "map (\<lambda>e. \<lparr>erEvent = e, erStatus = Pending, erErr = None\<rparr>) es"
  let ?s1 = "s\<lparr>recHeap := recHeap s @ ?new, recRecords := recRecords s @ ?addrs\<rparr>"
  obtain s2 where i: "inner c es ov ?s1 = (s2, r)" and s': "s' = markRecords ?addrs r s2"
    using assms(2,3) by (auto simp: recSave_def Let_def split: prod.splits)
  from assms(1) i have "prefix (recHeap ?s1) (recHeap s2) \<and> prefix (recRecords ?s1) (recRecords s2)"
    unfolding appendsRecords_def by blast
  then obtain more ptrs where h2: "recHeap s2 = recHeap s @ ?new @ more" and p2: "recRecords s2 = recRecords s @ ?addrs @ ptrs"
    by (auto elim!: prefixE)
  have heap: "length (recHeap s') = length (recHeap s2) \<and>
      (\<forall>a. a < ?n \<or> ?n + length es \<le> a \<longrightarrow> recHeap s' ! a = recHeap s2 ! a) \<and>
      (\<forall>i < length es. recHeap s' ! (?n + i) = recordOf r (es ! i))"
    unfolding s' by (rule markRecords_heap) (simp_all add: h2 nth_append)
  have "recHeap s' ! i = (recHeap s @ map (recordOf r) es @ more) ! i" for i
  proof -
    consider "i < ?n" | j where "i = ?n + j" "j < length es" | "?n + length es \<le> i"
      by (metis le_add_diff_inverse nat_add_left_cancel_less not_le)
    then show ?thesis using heap by cases (auto simp: h2 nth_append)
  qed
  moreover have "length (recHeap s') = length (recHeap s @ map (recordOf r) es @ more)" using heap by (simp add: h2)
  ultimately have "recHeap s' = recHeap s @ map (recordOf r) es @ more" by (metis nth_equalityI)
  with p2 show ?thesis by (simp add: s')
qed

lemma recSave_appendsRecords: "appendsRecords inner \<Longrightarrow> appendsRecords (recSave inner)"
  unfolding appendsRecords_def [of "recSave inner"]
proof (intro allI impI)
  fix c es ov s s' r
  assume *: "appendsRecords inner" "recSave inner c es ov s = (s', r)"
  show "prefix (recHeap s) (recHeap s') \<and> prefix (recRecords s) (recRecords s')"
  proof (cases "recRecording s")
    case True
    from recSave_heap [OF *(1) True *(2)] show ?thesis by auto
  next
    case False
    with *(2) have "inner c es ov s = (s', r)" by (simp add: recSave_def)
    with *(1) show ?thesis unfolding appendsRecords_def by blast
  qed
qed

section \<open>Properties\<close>

text \<open>
  The recorder is transparent and its record is truthful: over any event store, whose handlers may save
  through the recorder again, a recorded save adds its events to the record in order, before any that
  were saved while it ran, all marked as succeeded, or all as failed with the error that
  it returned; earlier records keep their order and their status.
\<close>

theorem recorder_records:
  assumes "appendsRecords inner" "recorderOk s" "recRecording s" "recSave inner c es ov s = (s', r)"
  shows "\<exists>later. FullRecording s' = FullRecording s @ map (recordOf r) es @ later"
proof -
  from recSave_heap [OF assms(1,3,4)] obtain more ptrs where
    heap: "recHeap s' = recHeap s @ map (recordOf r) es @ more"
    and recs: "recRecords s' = recRecords s @ [length (recHeap s)..<length (recHeap s) + length es] @ ptrs" by blast
  have "map (\<lambda>a. recHeap s' ! a) (recRecords s) = FullRecording s"
    using assms(2) by (auto simp: FullRecording_def recorderOk_def heap nth_append)
  moreover have "map (\<lambda>a. recHeap s' ! a) [length (recHeap s)..<length (recHeap s) + length es] = map (recordOf r) es"
    by (rule nth_equalityI) (auto simp: heap nth_append)
  ultimately show ?thesis by (simp add: FullRecording_def recs)
qed

theorem recorder_records_witness:
  "\<exists>s'. recSave (liftSave (\<lambda>c es ov n. (Suc n, Fail (NewError ''full'')))) context_Background [None] 0
      \<lparr>recRecording = True, recHeap = [], recRecords = [], recStore = 0 :: nat\<rparr> = (s', Fail (NewError ''full'')) \<and>
      (\<exists>later. FullRecording s' = [\<lparr>erEvent = None, erStatus = Failed, erErr = Some (NewError ''full'')\<rparr>] @ later)"
proof -
  let ?inner = "liftSave (\<lambda>c es ov n. (Suc n, Fail (NewError ''full'')))"
  let ?s = "\<lparr>recRecording = True, recHeap = [], recRecords = [], recStore = 0 :: nat\<rparr>"
  obtain s' where run: "recSave ?inner context_Background [None] 0 ?s = (s', Fail (NewError ''full''))"
    by (simp add: recSave_def liftSave_def Let_def)
  from recorder_records [OF liftSave_appends _ _ run] have "\<exists>later. FullRecording s' =
      FullRecording ?s @ map (recordOf (Fail (NewError ''full''))) [None] @ later"
    by (auto simp: recorderOk_def)
  with run show ?thesis by (simp add: FullRecording_def recordOf_def)
qed

end
