(* ===== verification/EventBus_Broker.thy ===== *)
theory EventBus_Broker
  imports Event_Middleware Codec
begin

text \<open>
  What the event buses over message brokers share (\<^verbatim>\<open>eventbus/kafka\<close>, \<^verbatim>\<open>eventbus/gcp\<close>, \<^verbatim>\<open>eventbus/nats\<close>,
  \<^verbatim>\<open>eventbus/redis\<close>): the state of a bus, the guard of \<^verbatim>\<open>AddHandler\<close>, the processing of one message, and
  the delivery of the messages of one subscription by the broker. The brokers are not part of the
  repository; what they do with a message is the policy of the step relation: how often an
  unacknowledged message may be delivered.
\<close>

section \<open>Buses\<close>

record netBus =
  nbAppID :: string
  nbStream :: string
  nbRegistered :: "string list"
  nbErrCh :: "err list"
  nbCancelled :: bool

definition newNetBus :: "string \<Rightarrow> netBus" where
  "newNetBus appID = \<lparr>nbAppID = appID, nbStream = appID @ ''_events'', nbRegistered = [], nbErrCh = [], nbCancelled = False\<rparr>"

text \<open>A send on the error channel that does not wait: an error beyond its 100 places is only logged.\<close>

definition netReport :: "err \<Rightarrow> 'x netBus_scheme \<Rightarrow> 'x netBus_scheme" where
  "netReport x b = (if length (nbErrCh b) < 100 then b\<lparr>nbErrCh := nbErrCh b @ [x]\<rparr> else b)"

text \<open>The loop over the options of a constructor; a nil option is skipped.\<close>

fun applyBusOptions :: "('b \<Rightarrow> 'b go) option list \<Rightarrow> 'b \<Rightarrow> 'b go" where
  "applyBusOptions [] b = Ret b"
| "applyBusOptions (None # os) b = applyBusOptions os b"
| "applyBusOptions (Some f # os) b =
     obind (mapErr (Wrapf ''error while applying option'') (f b)) (applyBusOptions os)"

text \<open>The guard of \<^verbatim>\<open>AddHandler\<close>: the matcher, the handler, and that its type is new.\<close>

definition addGuard :: "EventMatcher option \<Rightarrow> 'w handler option \<Rightarrow> 'x netBus_scheme \<Rightarrow> (EventMatcher \<times> 'w handler) go" where
  "addGuard m h b =
     (case m of
        None \<Rightarrow> Fail (Sentinel ErrMissingMatcher)
      | Some m' \<Rightarrow>
          (case h of
             None \<Rightarrow> Fail (Sentinel ErrMissingHandler)
           | Some h' \<Rightarrow>
               if hdType h' \<in> set (nbRegistered b) then Fail (Sentinel ErrHandlerAlreadyAdded) else Ret (m', h')))"

definition registerHandler :: "'w handler \<Rightarrow> 'x netBus_scheme \<Rightarrow> 'x netBus_scheme" where
  "registerHandler h b = b\<lparr>nbRegistered := hdType h # nbRegistered b\<rparr>"

section \<open>Processing a message\<close>

text \<open>
  What came of a message: it could not be decoded, it did not match, the handler failed, or it
  was handled.
\<close>

datatype verdict = VBad err | VSkip ctx event | VFailed err ctx event | VDone ctx event

definition processMessage ::
    "eventCodec \<Rightarrow> EventMatcher \<Rightarrow> 'w handler \<Rightarrow> ctx \<Rightarrow> string \<Rightarrow> 'w \<Rightarrow> 'w \<times> verdict go" where
  "processMessage codec m h c b w =
     (case UnmarshalEvent codec c b of
        Fail x \<Rightarrow> (w, Ret (VBad (Wrapf ''could not unmarshal event'' x)))
      | Panic p \<Rightarrow> (w, Panic p)
      | Ret (e, c') \<Rightarrow>
          if \<not> Match m (Some e) then (w, Ret (VSkip c' e))
          else (case hdHandle h c' (Some e) w of
                  (w', Ret _) \<Rightarrow> (w', Ret (VDone c' e))
                | (w', Fail x) \<Rightarrow> (w', Ret (VFailed (Wrapf (''could not handle event ('' @ hdType h @ '')'') x) c' e))
                | (w', Panic p) \<Rightarrow> (w', Panic p)))"

fun settled :: "verdict \<Rightarrow> bool" where
  "settled (VSkip c e) = True"
| "settled (VDone c e) = True"
| "settled _ = False"

text \<open>A message that was handled or that the handler is not interested in.\<close>

definition accepts :: "eventCodec \<Rightarrow> EventMatcher \<Rightarrow> 'w handler \<Rightarrow> ctx \<Rightarrow> string \<Rightarrow> 'w \<Rightarrow> bool" where
  "accepts codec m h c b w \<longleftrightarrow> (case snd (processMessage codec m h c b w) of Ret v \<Rightarrow> settled v | _ \<Rightarrow> False)"

text \<open>The error a bus reports for an unsettled message; a nil context is the background context here.\<close>

fun verdictError :: "verdict \<Rightarrow> err" where
  "verdictError (VBad x) = EventBusError (Some x) context_Background None"
| "verdictError (VFailed x c e) = EventBusError (Some x) c (Some e)"
| "verdictError (VSkip c e) = EventBusError None c (Some e)"
| "verdictError (VDone c e) = EventBusError None c (Some e)"

section \<open>Delivery\<close>

text \<open>
  One subscription: the messages that are not acknowledged, with their payload and the number of
  times they were delivered, and the state \<open>'b\<close> of the consumers.
\<close>

record 'b subscription =
  subMsgs :: "nat \<rightharpoonup> string \<times> nat"
  subNext :: nat
  subState :: 'b

datatype subLabel = SubPublish nat string | SubDeliver nat bool bool

text \<open>
  \<open>react\<close> processes a payload and says whether it was acknowledged; \<open>good\<close> tells the payloads that are
  accepted in a state. The label of a delivery carries whether the message was accepted and whether it
  was acknowledged. A message may be delivered when \<open>policy\<close> holds of the number of deliveries so far.
\<close>

inductive subStep ::
    "(nat \<Rightarrow> bool) \<Rightarrow> (string \<Rightarrow> 'b \<Rightarrow> 'b \<times> bool go) \<Rightarrow> (string \<Rightarrow> 'b \<Rightarrow> bool) \<Rightarrow>
     'b subscription \<Rightarrow> subLabel \<Rightarrow> 'b subscription \<Rightarrow> bool"
  for policy react good where
  sub_publish: "subStep policy react good s (SubPublish (subNext s) b)
    (s\<lparr>subMsgs := (subMsgs s)(subNext s \<mapsto> (b, 0)), subNext := Suc (subNext s)\<rparr>)"
| sub_deliver: "subMsgs s i = Some (b, n) \<Longrightarrow> policy n \<Longrightarrow> react b (subState s) = (st', Ret ack) \<Longrightarrow>
    subStep policy react good s (SubDeliver i (good b (subState s)) ack)
      (s\<lparr>subMsgs := (subMsgs s)(i := if ack then None else Some (b, Suc n)), subState := st'\<rparr>)"

inductive subRun ::
    "(nat \<Rightarrow> bool) \<Rightarrow> (string \<Rightarrow> 'b \<Rightarrow> 'b \<times> bool go) \<Rightarrow> (string \<Rightarrow> 'b \<Rightarrow> bool) \<Rightarrow>
     'b subscription \<Rightarrow> subLabel list \<Rightarrow> 'b subscription \<Rightarrow> bool"
  for policy react good s0 where
  sub_start: "subRun policy react good s0 [] s0"
| sub_step: "subRun policy react good s0 tr s \<Longrightarrow> subStep policy react good s l s' \<Longrightarrow>
    subRun policy react good s0 (tr @ [l]) s'"

definition newSubscription :: "'b \<Rightarrow> 'b subscription" where
  "newSubscription b = \<lparr>subMsgs = Map.empty, subNext = 0, subState = b\<rparr>"

fun deliversTo :: "nat \<Rightarrow> subLabel \<Rightarrow> bool" where
  "deliversTo i (SubDeliver j g a) \<longleftrightarrow> i = j"
| "deliversTo i _ \<longleftrightarrow> False"

definition deliveries :: "nat \<Rightarrow> subLabel list \<Rightarrow> nat" where
  "deliveries i tr = length (filter (deliversTo i) tr)"

lemma deliveries_simps [simp]:
  "deliveries i [] = 0"
  "deliveries i (tr @ [l]) = deliveries i tr + (if deliversTo i l then 1 else 0)"
  by (simp_all add: deliveries_def)

text \<open>The broker's counts are the numbers of deliveries.\<close>

lemma subRun_counts:
  assumes "subRun policy react good (newSubscription b0) tr s"
  shows "(\<forall>i b n. subMsgs s i = Some (b, n) \<longrightarrow> i < subNext s \<and> deliveries i tr = n) \<and>
    (\<forall>i. subNext s \<le> i \<longrightarrow> deliveries i tr = 0)"
  using assms
proof (induction rule: subRun.induct)
  case (sub_step tr s l s')
  from sub_step(2,3) show ?case by cases (fastforce split: if_splits simp: less_Suc_eq)+
qed (simp add: newSubscription_def)

text \<open>No message is delivered more often than the policy allows.\<close>

lemma subRun_bound:
  assumes "subRun policy react good (newSubscription b0) tr s" and "\<And>n. policy n \<Longrightarrow> n < k"
  shows "deliveries i tr \<le> k"
  using assms(1)
proof (induction rule: subRun.induct)
  case (sub_step tr s l s')
  show ?case
  proof (cases "deliversTo i l")
    case True
    from sub_step(2) True obtain b n where "subMsgs s i = Some (b, n)" "policy n" by cases auto
    with subRun_counts [OF sub_step(1)] assms(2) [of n] have "deliveries i tr < k" by auto
    with True show ?thesis by simp
  qed (use sub_step(3) in simp)
qed simp

section \<open>The contract of a bus\<close>

text \<open>
  A bus acknowledges a message only if it was accepted. Then no message is lost, whatever the
  policy of the broker: it is kept until a delivery was accepted.
\<close>

locale acking_bus =
  fixes react :: "string \<Rightarrow> 'b \<Rightarrow> 'b \<times> bool go" and good :: "string \<Rightarrow> 'b \<Rightarrow> bool"
  assumes ack_accepted: "react b st = (st', Ret True) \<Longrightarrow> good b st"
begin

lemma no_loss:
  assumes "subRun policy react good (newSubscription b0) tr s" "SubPublish i b \<in> set tr"
  shows "(\<exists>n. subMsgs s i = Some (b, n)) \<or> SubDeliver i True True \<in> set tr"
  using assms
proof (induction rule: subRun.induct)
  case (sub_step tr s l s')
  have old: "i < subNext s" if "SubPublish i b \<in> set tr" for i b
    using sub_step(1) that
  proof (induction rule: subRun.induct)
    case (sub_step tr s l s')
    from sub_step(2) sub_step(3,4) show ?case by cases auto
  qed simp
  from sub_step(2) show ?case
  proof cases
    case (sub_publish b')
    with sub_step(3,4) old [of i b] show ?thesis by auto
  next
    case (sub_deliver j b' n st' ack)
    with sub_step(3,4) have "(\<exists>n. subMsgs s i = Some (b, n)) \<or> SubDeliver i True True \<in> set tr" by auto
    moreover have "good b' (subState s)" if ack using sub_deliver(5) ack_accepted [of b' "subState s" st'] that by simp
    ultimately show ?thesis using sub_deliver by (cases "i = j"; cases ack) auto
  qed
qed simp

end

section \<open>Example\<close>

text \<open>A codec that knows one event, and a handler that fails on the first event it sees.\<close>

definition netCodec :: eventCodec where
  "netCodec = \<lparr>MarshalEvent = (\<lambda>c ev. Ret ''e''), UnmarshalEvent = (\<lambda>c b. Ret (wireEvent, c))\<rparr>"

definition countingHandler :: "nat handler" where
  "countingHandler = Handler ''counter'' (\<lambda>c ev n. (Suc n, if n = 0 then Fail (NewError ''busy'') else Ret ())) None None"

lemma busyMessage:
  "processMessage netCodec (MatchEvents [''Closed'']) countingHandler context_Background b 0 =
     (1, Ret (VFailed (Wrapf ''could not handle event (counter)'' (NewError ''busy'')) context_Background wireEvent))"
  by (simp add: processMessage_def netCodec_def wireEvent_def countingHandler_def)

lemma subRun_once:
  assumes "policy 0" "react b st0 = (st1, Ret ack)"
  shows "\<exists>s. subRun policy react good (newSubscription st0) [SubPublish 0 b, SubDeliver 0 (good b st0) ack] s \<and>
    subMsgs s 0 = (if ack then None else Some (b, 1)) \<and> subState s = st1"
proof -
  define s1 where "s1 = (newSubscription st0)\<lparr>subMsgs := [0 \<mapsto> (b, 0)], subNext := Suc 0\<rparr>"
  have 1: "subStep policy react good (newSubscription st0) (SubPublish 0 b) s1"
    using sub_publish [of policy react good "newSubscription st0" b] by (simp add: newSubscription_def s1_def)
  have st: "subMsgs s1 0 = Some (b, 0)" "subState s1 = st0" by (simp_all add: s1_def newSubscription_def)
  from sub_deliver [of s1 0 b 0 policy react st1 ack good] assms st
  have "subStep policy react good s1 (SubDeliver 0 (good b st0) ack)
      (s1\<lparr>subMsgs := (subMsgs s1)(0 := if ack then None else Some (b, Suc 0)), subState := st1\<rparr>)" by simp
  from sub_step [OF sub_step [OF sub_start 1] this] show ?thesis by (intro exI conjI) auto
qed

end
