(* ===== verification/EventBus_Kafka.thy ===== *)
theory EventBus_Kafka
  imports EventBus_Broker
begin

text \<open>
  The Kafka event bus (\<^verbatim>\<open>eventbus/kafka\<close>). The replies of the Kafka client are parameters: the results of
  the repeated requests for the topic and the groups, the results of fetching and committing, and
  the writer. The number of rounds of a loop that ends when the bus is closed is the number of
  rounds before that happens.
\<close>

section \<open>Construction\<close>

record kafkaBus = netBus +
  kbAddresses :: "string list"
  kbAutoCreateTopic :: bool
  kbTopicPartitions :: gint
  kbStartOffset :: gint

abbreviation kafkaLastOffset :: gint where "kafkaLastOffset \<equiv> - 1"

type_synonym kafkaOption = "(kafkaBus \<Rightarrow> kafkaBus go) option"

definition WithAutoCreateTopic :: "bool \<Rightarrow> kafkaOption" where
  "WithAutoCreateTopic autoCreate = Some (\<lambda>b. Ret (b\<lparr>kbAutoCreateTopic := autoCreate\<rparr>))"

definition WithStartOffset :: "gint \<Rightarrow> kafkaOption" where
  "WithStartOffset off = Some (\<lambda>b. Ret (b\<lparr>kbStartOffset := off\<rparr>))"

definition WithTopic :: "string \<Rightarrow> kafkaOption" where
  "WithTopic topic = Some (\<lambda>b. Ret (b\<lparr>nbStream := topic\<rparr>))"

definition WithTopicPartitions :: "gint \<Rightarrow> kafkaOption" where
  "WithTopicPartitions n = Some (\<lambda>b.
     if n <s 1 then Fail (NewError ''number of partitions must be greater than 0'')
     else Ret (b\<lparr>kbTopicPartitions := n\<rparr>))"

text \<open>A reply of the client: no broker (with the error), another error, or a response.\<close>

datatype 'r reply = NoBroker err | ReplyError err | Response 'r

text \<open>
  The loop of ten requests. The \<^verbatim>\<open>break\<close> after a response leaves the \<^verbatim>\<open>switch\<close> only, so the loop goes on.
  The state is the response and the error of the latest request.
\<close>

fun topicLoop :: "string \<Rightarrow> 'r reply list \<Rightarrow> 'r option \<times> err option \<Rightarrow> ('r option \<times> err option) go" where
  "topicLoop p [] st = Ret st"
| "topicLoop p (NoBroker x # rs) st = topicLoop p rs (None, Some x)"
| "topicLoop p (ReplyError x # rs) st = Fail (Wrapf p x)"
| "topicLoop p (Response r # rs) st = topicLoop p rs (Some r, None)"

text \<open>\<^verbatim>\<open>fmt.Errorf\<close> with \<^verbatim>\<open>%w\<close> of an error that can be nil.\<close>

definition wrapNil :: "string \<Rightarrow> err option \<Rightarrow> err" where
  "wrapNil p x = (case x of Some e \<Rightarrow> Wrapf p e | None \<Rightarrow> NewError (p @ '': %!w(<nil>)''))"

text \<open>A response to the creation: the error of the topic, if any, and whether it says that the topic exists.\<close>

definition createTopic :: "(err \<times> bool) option reply list \<Rightarrow> unit go" where
  "createTopic replies =
     obind (topicLoop ''error creating Kafka topic'' replies (None, None)) (\<lambda>(resp, err).
       case resp of
         None \<Rightarrow> Fail (wrapNil ''could not create Kafka topic in time'' err)
       | Some (Some (x, topicAlreadyExists)) \<Rightarrow>
           if \<not> topicAlreadyExists then Fail (Wrapf ''invalid Kafka topic'' x) else Ret ()
       | Some None \<Rightarrow> Ret ())"

text \<open>A response with metadata: the number of topics.\<close>

definition verifyTopic :: "nat reply list \<Rightarrow> unit go" where
  "verifyTopic replies =
     obind (topicLoop ''error getting Kafka topic'' replies (None, None)) (\<lambda>(resp, err).
       case resp of
         None \<Rightarrow> Fail (wrapNil ''could not get Kafka topic in time'' err)
       | Some n \<Rightarrow> if n \<noteq> 1 then Fail (wrapNil ''could not get Kafka topic'' err) else Ret ())"

definition NewKafkaBus ::
    "(err \<times> bool) option reply list \<Rightarrow> nat reply list \<Rightarrow> string \<Rightarrow> string \<Rightarrow> kafkaOption list \<Rightarrow> kafkaBus go" where
  "NewKafkaBus creates metas addressList appID options =
     obind (applyBusOptions options
       (netBus.extend (newNetBus appID)
          (kafkaBus.fields (splitAt (CHR '','') addressList) True 5 kafkaLastOffset))) (\<lambda>b.
     obind (if kbAutoCreateTopic b then mapErr (Wrapf ''error creating topic'') (createTopic creates)
            else mapErr (Wrapf ''error verifying topic'') (verifyTopic metas)) (\<lambda>_.
     Ret b))"

section \<open>Publishing\<close>

record kafkaMsg =
  kmKey :: string
  kmValue :: string
  kmHeaders :: "(string \<times> string) list"

definition kafkaHandleEvent ::
    "(UUID \<Rightarrow> string) \<Rightarrow> eventCodec \<Rightarrow> (ctx \<Rightarrow> kafkaMsg \<Rightarrow> 'k \<Rightarrow> 'k \<times> unit go) \<Rightarrow> ctx \<Rightarrow> event option \<Rightarrow> 'k \<Rightarrow> 'k \<times> unit go" where
  "kafkaHandleEvent us codec write c ev k =
     (case MarshalEvent codec c ev of
        Fail x \<Rightarrow> (k, Fail (Wrapf ''could not marshal event'' x))
      | Panic p \<Rightarrow> (k, Panic p)
      | Ret b \<Rightarrow>
          (case ev of
             None \<Rightarrow> (k, nilDeref)
           | Some e \<Rightarrow>
               (case write c \<lparr>kmKey = us (aggregateID e), kmValue = b,
                     kmHeaders = [(''aggregate_type'', aggregateType e), (''event_type'', eventType e)]\<rparr> k of
                  (k', r) \<Rightarrow> (k', mapErr (Wrapf ''could not publish event'') r))))"

section \<open>Handlers\<close>

datatype groupsReply = GroupsError err | GroupsResponseError | Groups "string list"

text \<open>The loop of twenty requests for the groups.\<close>

fun joinLoop :: "string \<Rightarrow> groupsReply list \<Rightarrow> unit go" where
  "joinLoop gid [] = Fail (NewError ''did not join group in time'')"
| "joinLoop gid (GroupsError x # rs) = Fail (Wrapf ''could not list Kafka groups'' x)"
| "joinLoop gid (GroupsResponseError # rs) = Fail (wrapNil ''could not list Kafka groups'' None)"
| "joinLoop gid (Groups gs # rs) = (if gid \<in> set gs then Ret () else joinLoop gid rs)"

text \<open>The goroutine of the handler starts with the registration, before the group is joined.\<close>

definition kafkaAddHandler ::
    "groupsReply list \<Rightarrow> EventMatcher option \<Rightarrow> 'w handler option \<Rightarrow> kafkaBus \<Rightarrow> kafkaBus \<times> unit go" where
  "kafkaAddHandler replies m h b =
     (case addGuard m h b of
        Fail x \<Rightarrow> (b, Fail x)
      | Panic p \<Rightarrow> (b, Panic p)
      | Ret (m', h') \<Rightarrow> (registerHandler h' b, joinLoop (nbAppID b @ ''_'' @ hdType h') replies))"

definition kafkaClose :: "unit go \<Rightarrow> kafkaBus \<Rightarrow> kafkaBus \<times> unit go" where
  "kafkaClose writerClose b = (b\<lparr>nbCancelled := True\<rparr>, writerClose)"

text \<open>\<^verbatim>\<open>handler\<close>: an error, or none if the message may be committed.\<close>

definition kafkaHandler ::
    "eventCodec \<Rightarrow> EventMatcher \<Rightarrow> 'w handler \<Rightarrow> ctx \<Rightarrow> string \<Rightarrow> 'w \<Rightarrow> 'w \<times> err option go" where
  "kafkaHandler codec m h c b w =
     (case processMessage codec m h c b w of
        (w', Ret v) \<Rightarrow> (w', Ret (if settled v then None else Some (verdictError v)))
      | (w', Fail x) \<Rightarrow> (w', Fail x)
      | (w', Panic p) \<Rightarrow> (w', Panic p))"

text \<open>One round of the inner loop: whether the loop is left. The result of the commit is \<open>commit\<close>.\<close>

definition kafkaRound ::
    "eventCodec \<Rightarrow> EventMatcher \<Rightarrow> 'w handler \<Rightarrow> ctx \<Rightarrow> unit go \<Rightarrow> string \<Rightarrow> kafkaBus \<times> 'w \<Rightarrow> (kafkaBus \<times> 'w) \<times> bool go" where
  "kafkaRound codec m h c commit msg bw =
     (case kafkaHandler codec m h c msg (snd bw) of
        (w', Ret (Some x)) \<Rightarrow> ((netReport x (fst bw), w'), Ret False)
      | (w', Ret None) \<Rightarrow>
          (case commit of
             Ret _ \<Rightarrow> ((fst bw, w'), Ret True)
           | Fail x \<Rightarrow> ((netReport (EventBusError (Some (Wrapf ''could not commit message'' x)) context_Background None) (fst bw), w'), Ret True)
           | Panic p \<Rightarrow> ((fst bw, w'), Panic p))
      | (w', Fail x) \<Rightarrow> ((fst bw, w'), Fail x)
      | (w', Panic p) \<Rightarrow> ((fst bw, w'), Panic p))"

text \<open>The inner loop: the result tells whether the message is done, or the bus was closed after \<open>n\<close> rounds.\<close>

fun kafkaRetry ::
    "eventCodec \<Rightarrow> EventMatcher \<Rightarrow> 'w handler \<Rightarrow> ctx \<Rightarrow> unit go \<Rightarrow> nat \<Rightarrow> string \<Rightarrow> kafkaBus \<times> 'w \<Rightarrow> (kafkaBus \<times> 'w) \<times> bool go" where
  "kafkaRetry codec m h c commit 0 msg bw = (bw, Ret False)"
| "kafkaRetry codec m h c commit (Suc n) msg bw =
     (case kafkaRound codec m h c commit msg bw of
        (bw', Ret False) \<Rightarrow> kafkaRetry codec m h c commit n msg bw'
      | r \<Rightarrow> r)"

text \<open>What fetching gives: an error, the cancellation, or a message with the rounds it gets and the result of its commit.\<close>

datatype fetch = FetchError err | FetchCanceled | Fetched string nat "unit go"

text \<open>
  \<^verbatim>\<open>handle\<close> on the results of fetching until the bus is closed; the result lists the messages that were
  done, in order.
\<close>

fun kafkaHandle ::
    "eventCodec \<Rightarrow> EventMatcher \<Rightarrow> 'w handler \<Rightarrow> ctx \<Rightarrow> fetch list \<Rightarrow> kafkaBus \<times> 'w \<Rightarrow> (kafkaBus \<times> 'w) \<times> string list go" where
  "kafkaHandle codec m h c [] bw = (bw, Ret [])"
| "kafkaHandle codec m h c (FetchCanceled # fs) bw = (bw, Ret [])"
| "kafkaHandle codec m h c (FetchError x # fs) bw =
     kafkaHandle codec m h c fs
       (netReport (EventBusError (Some (Wrapf ''could not fetch message'' x)) context_Background None) (fst bw), snd bw)"
| "kafkaHandle codec m h c (Fetched msg n commit # fs) bw =
     (case kafkaRetry codec m h c commit n msg bw of
        (bw', Ret True) \<Rightarrow>
          (case kafkaHandle codec m h c fs bw' of (bw'', r) \<Rightarrow> (bw'', obind r (\<lambda>msgs. Ret (msg # msgs))))
      | (bw', Ret False) \<Rightarrow> (bw', Ret [])
      | (bw', Fail x) \<Rightarrow> (bw', Fail x)
      | (bw', Panic p) \<Rightarrow> (bw', Panic p))"

section \<open>Lemmas\<close>

lemma kafkaHandler_None:
  "kafkaHandler codec m h c b w = (w', Ret None) \<Longrightarrow> accepts codec m h c b w"
  by (auto simp: kafkaHandler_def accepts_def split: prod.splits outcome.splits if_splits)

lemma kafkaRound_True:
  "kafkaRound codec m h c commit msg bw = (bw', Ret True) \<Longrightarrow> accepts codec m h c msg (snd bw)"
  using kafkaHandler_None [of codec m h c msg "snd bw"]
  by (auto simp: kafkaRound_def split: prod.splits outcome.splits option.splits)

lemma kafkaRetry_True:
  "kafkaRetry codec m h c commit n msg bw = (bw', Ret True) \<Longrightarrow> \<exists>w. accepts codec m h c msg w"
  by (induction codec m h c commit n msg bw rule: kafkaRetry.induct)
    (auto split: prod.splits outcome.splits bool.splits dest: kafkaRound_True)

text \<open>
  A delivery to the consumer group: one round, acknowledged if the commit succeeds. The result of a
  commit may depend on the message and the state.
\<close>

definition kafkaReact ::
    "eventCodec \<Rightarrow> EventMatcher \<Rightarrow> 'w handler \<Rightarrow> ctx \<Rightarrow> (string \<Rightarrow> kafkaBus \<times> 'w \<Rightarrow> unit go) \<Rightarrow>
     string \<Rightarrow> kafkaBus \<times> 'w \<Rightarrow> (kafkaBus \<times> 'w) \<times> bool go" where
  "kafkaReact codec m h c commit msg bw =
     (case kafkaRound codec m h c (commit msg bw) msg bw of
        (bw', r) \<Rightarrow> (bw', obind r (\<lambda>fin. Ret (fin \<and> commit msg bw = Ret ()))))"

interpretation kafka: acking_bus "kafkaReact codec m h c commit" "\<lambda>msg bw. accepts codec m h c msg (snd bw)"
  for codec m and h :: "'w handler" and c commit
proof
  fix msg st st'
  assume "kafkaReact codec m h c commit msg st = (st', Ret True)"
  then have "kafkaRound codec m h c (commit msg st) msg st = (st', Ret True)"
    by (auto simp: kafkaReact_def outcome_simps split: prod.splits)
  then show "accepts codec m h c msg (snd st)" by (rule kafkaRound_True)
qed

fun fetchedMsgs :: "fetch list \<Rightarrow> string list" where
  "fetchedMsgs [] = []"
| "fetchedMsgs (Fetched msg n commit # fs) = msg # fetchedMsgs fs"
| "fetchedMsgs (_ # fs) = fetchedMsgs fs"

lemma kafkaHandle_prefix:
  "kafkaHandle codec m h c fs bw = (bw', Ret msgs) \<Longrightarrow>
   prefix msgs (fetchedMsgs fs) \<and> (\<forall>msg \<in> set msgs. \<exists>w. accepts codec m h c msg w)"
proof (induction codec m h c fs bw arbitrary: msgs bw' rule: kafkaHandle.induct)
  case (4 codec m h c msg n commit fs bw)
  obtain bw1 r where rt: "kafkaRetry codec m h c commit n msg bw = (bw1, r)" by fastforce
  show ?case
  proof (cases "r = Ret True")
    case True
    obtain bw2 r2 where rest: "kafkaHandle codec m h c fs bw1 = (bw2, r2)" by fastforce
    with 4(2) rt True obtain msgs' where "r2 = Ret msgs'" "msgs = msg # msgs'" by (auto simp: outcome_simps)
    with 4(1) [OF rt [symmetric] True _ ] rest rt True kafkaRetry_True [of codec m h c commit n msg bw bw1] show ?thesis
      by auto
  next
    case False
    with 4(2) rt show ?thesis by (auto split: outcome.splits bool.splits)
  qed
qed auto

lemma topicLoop_last:
  "(\<forall>x. ReplyError x \<notin> set rs) \<Longrightarrow> rs \<noteq> [] \<Longrightarrow>
   topicLoop p rs st = Ret (case last rs of NoBroker x \<Rightarrow> (None, Some x) | Response r \<Rightarrow> (Some r, None) | ReplyError x \<Rightarrow> (None, None))"
proof (induction p rs st rule: topicLoop.induct)
  case (2 p x rs st)
  then show ?case by (cases "rs = []") auto
next
  case (4 p r rs st)
  then show ?case by (cases "rs = []") auto
qed auto

section \<open>Properties\<close>

text \<open>
  The Kafka bus delivers at least once: an event that was published stays uncommitted in its
  consumer group until the handler has handled it, or it did not match, whatever fails in between
  and however often it is delivered.
\<close>

theorem kafka_at_least_once:
  assumes "subRun policy (kafkaReact codec m h c commit) (\<lambda>msg bw. accepts codec m h c msg (snd bw)) (newSubscription bw0) tr s"
    and "SubPublish i b \<in> set tr"
  shows "(\<exists>n. subMsgs s i = Some (b, n)) \<or> SubDeliver i True True \<in> set tr"
  by (rule kafka.no_loss [OF assms])

definition demoKafka :: kafkaBus where
  "demoKafka = netBus.extend (newNetBus ''app'') (kafkaBus.fields [''localhost''] True 5 kafkaLastOffset)"

theorem kafka_at_least_once_witness:
  "\<exists>s. subRun (\<lambda>n. True) (kafkaReact netCodec (MatchEvents [''Closed'']) countingHandler context_Background (\<lambda>_ _. Ret ()))
      (\<lambda>msg bw. accepts netCodec (MatchEvents [''Closed'']) countingHandler context_Background msg (snd bw))
      (newSubscription (demoKafka, 0)) [SubPublish 0 ''e'', SubDeliver 0 False False] s \<and>
     (\<exists>n. subMsgs s 0 = Some (''e'', n))"
proof -
  let ?m = "MatchEvents [''Closed'']"
  let ?react = "kafkaReact netCodec ?m countingHandler context_Background (\<lambda>_ _. Ret ())"
  let ?good = "\<lambda>msg bw. accepts netCodec ?m countingHandler context_Background msg (snd bw)"
  obtain b' where "?react ''e'' (demoKafka, 0) = ((b', 1), Ret False)"
    by (simp add: kafkaReact_def kafkaRound_def kafkaHandler_def busyMessage)
  moreover have "\<not> ?good ''e'' (demoKafka, 0)" by (simp add: accepts_def busyMessage)
  ultimately obtain s where
    run: "subRun (\<lambda>n. True) ?react ?good (newSubscription (demoKafka, 0)) [SubPublish 0 ''e'', SubDeliver 0 False False] s"
    using subRun_once [of "\<lambda>n. True" ?react "''e''" "(demoKafka, 0)" "(b', 1)" False ?good] by auto
  with kafka_at_least_once [OF run, of 0 "''e''"] show ?thesis by auto
qed

text \<open>
  Order and termination of the Kafka handler loop: the messages that the loop finished are the
  first ones fetched, in order, each one accepted before the next is looked at; a message that keeps
  failing holds up the later ones.
\<close>

theorem kafka_in_order:
  assumes "kafkaHandle codec m h c fs bw = (bw', Ret msgs)"
  shows "prefix msgs (fetchedMsgs fs) \<and> (\<forall>msg \<in> set msgs. \<exists>w. accepts codec m h c msg w)"
  by (rule kafkaHandle_prefix [OF assms])

theorem kafka_in_order_witness:
  "\<exists>bw' msgs. kafkaHandle netCodec (MatchEvents [''Closed'']) countingHandler context_Background
      [Fetched ''e'' 5 (Ret ()), Fetched ''f'' 0 (Ret ())] (demoKafka, 0) = (bw', Ret msgs) \<and>
     prefix msgs [''e'', ''f''] \<and> msgs = [''e'']"
proof -
  have run: "kafkaHandle netCodec (MatchEvents [''Closed'']) countingHandler context_Background
      [Fetched ''e'' 5 (Ret ()), Fetched ''f'' 0 (Ret ())] (demoKafka, 0) =
      ((netReport (EventBusError (Some (Wrapf ''could not handle event (counter)'' (NewError ''busy''))) context_Background (Some wireEvent)) demoKafka, 2), Ret [''e''])"
    by (simp add: numeral_eq_Suc kafkaRound_def kafkaHandler_def processMessage_def netCodec_def wireEvent_def countingHandler_def)
  from kafka_in_order [OF run] run show ?thesis by simp
qed

text \<open>
  Creation of the Kafka topic looks at the last of its ten requests only: after a response the loop
  goes on, so that a topic that was created counts as not created when the broker is not
  available for the last request.
\<close>

theorem kafka_create_last_reply:
  assumes "\<forall>x. ReplyError x \<notin> set replies" "replies \<noteq> []"
  shows "createTopic replies =
    (case last replies of
       NoBroker x \<Rightarrow> Fail (Wrapf ''could not create Kafka topic in time'' x)
     | Response (Some (x, topicAlreadyExists)) \<Rightarrow> if topicAlreadyExists then Ret () else Fail (Wrapf ''invalid Kafka topic'' x)
     | _ \<Rightarrow> Ret ())"
proof (cases "last replies")
  case (ReplyError x)
  with assms last_in_set [of replies] show ?thesis by auto
qed (use assms in \<open>auto simp: createTopic_def topicLoop_last wrapNil_def split: option.splits\<close>)

theorem kafka_create_last_reply_witness:
  "createTopic (replicate 9 (Response None) @ [NoBroker (NewError ''no broker'')]) =
     Fail (Wrapf ''could not create Kafka topic in time'' (NewError ''no broker''))"
  using kafka_create_last_reply [of "replicate 9 (Response None) @ [NoBroker (NewError ''no broker'')]"] by auto

text \<open>
  A handler that could not join its group in time is an error of \<^verbatim>\<open>AddHandler\<close>, but it stays
  registered and runs: adding it again fails because it is there already.
\<close>

theorem kafka_failed_add_stays:
  assumes "kafkaAddHandler replies (Some m) (Some h) b = (b', Fail x)" "hdType h \<notin> set (nbRegistered b)"
  shows "kafkaAddHandler replies' (Some m) (Some h) b' = (b', Fail (Sentinel ErrHandlerAlreadyAdded))"
  using assms by (auto simp: kafkaAddHandler_def addGuard_def registerHandler_def)

theorem kafka_failed_add_stays_witness:
  "\<exists>b' x. kafkaAddHandler [] (Some (MatchAll [])) (Some countingHandler) demoKafka = (b', Fail x) \<and>
     kafkaAddHandler [] (Some (MatchAll [])) (Some countingHandler) b' = (b', Fail (Sentinel ErrHandlerAlreadyAdded))"
proof -
  obtain b' where b': "kafkaAddHandler [] (Some (MatchAll [])) (Some countingHandler) demoKafka =
      (b', Fail (NewError ''did not join group in time''))"
    by (simp add: kafkaAddHandler_def addGuard_def demoKafka_def newNetBus_def netBus.defs kafkaBus.defs)
  have "hdType countingHandler \<notin> set (nbRegistered demoKafka)"
    by (simp add: demoKafka_def newNetBus_def netBus.defs kafkaBus.defs)
  from kafka_failed_add_stays [OF b' this] b' show ?thesis by blast
qed

end
