(* ===== verification/EventBus_Gcp.thy ===== *)
theory EventBus_Gcp
  imports EventBus_Broker
begin

text \<open>
  The GCP Pub/Sub event bus (\<^verbatim>\<open>eventbus/gcp\<close>): construction with its topic, publishing with attributes
  and an ordering key, subscriptions with a filter, and the processing of messages. The replies of the
  Pub/Sub client are parameters. The meaning of a filter is that of the Pub/Sub documentation, on a
  syntax tree whose text is the filter that \<^verbatim>\<open>createFilter\<close> builds.
\<close>

section \<open>Construction\<close>

record gcpBus = netBus +
  gbProjectID :: string
  gbTopicName :: string

text \<open>A lookup by the admin client: not found, another error, or found.\<close>

datatype 'r lookup = NotFound | LookupError err | Found 'r

definition NewGcpBus ::
    "unit go \<Rightarrow> unit lookup \<Rightarrow> unit go \<Rightarrow> string \<Rightarrow> string \<Rightarrow> (gcpBus \<Rightarrow> gcpBus go) option list \<Rightarrow> gcpBus go" where
  "NewGcpBus newClient getTopic create projectID appID options =
     obind (applyBusOptions options (netBus.extend (newNetBus appID) (gcpBus.fields projectID ''''))) (\<lambda>b.
     obind newClient (\<lambda>_.
       let b' = b\<lparr>gbTopicName := ''projects/'' @ projectID @ ''/topics/'' @ appID @ ''_events''\<rparr>
       in case getTopic of
            Found _ \<Rightarrow> Ret b'
          | LookupError x \<Rightarrow> Fail x
          | NotFound \<Rightarrow> obind create (\<lambda>_. Ret b')))"

section \<open>Publishing\<close>

record pubsubMsg =
  pmData :: string
  pmAttributes :: "string \<rightharpoonup> string"
  pmOrderingKey :: string

text \<open>
  The attributes of an event: its aggregate type under \<^verbatim>\<open>aggregate_type\<close>, and its event type as a
  key. The second entry wins if both have the same key.
\<close>

definition eventAttributes :: "event \<Rightarrow> (string \<rightharpoonup> string)" where
  "eventAttributes e = [''aggregate_type'' \<mapsto> aggregateType e, eventType e \<mapsto> '''']"

definition gcpHandleEvent ::
    "(UUID \<Rightarrow> string) \<Rightarrow> eventCodec \<Rightarrow> (ctx \<Rightarrow> pubsubMsg \<Rightarrow> 'k \<Rightarrow> 'k \<times> unit go) \<Rightarrow> ctx \<Rightarrow> event option \<Rightarrow> 'k \<Rightarrow> 'k \<times> unit go" where
  "gcpHandleEvent us codec publish c ev k =
     (case MarshalEvent codec c ev of
        Fail x \<Rightarrow> (k, Fail (Wrapf ''could not marshal event'' x))
      | Panic p \<Rightarrow> (k, Panic p)
      | Ret b \<Rightarrow>
          (case ev of
             None \<Rightarrow> (k, nilDeref)
           | Some e \<Rightarrow>
               (case publish c \<lparr>pmData = b, pmAttributes = eventAttributes e, pmOrderingKey = us (aggregateID e)\<rparr> k of
                  (k', r) \<Rightarrow> (k', mapErr (Wrapf ''could not publish event'') r))))"

section \<open>Filters\<close>

fun createFilter :: "EventMatcher \<Rightarrow> string" where
  "createFilter (MatchEvents ts) = strings_Join (map (\<lambda>et. ''attributes:\"'' @ et @ ''\"'') ts) '' OR ''"
| "createFilter (MatchAggregates ts) =
     strings_Join (map (\<lambda>agt. ''attributes.aggregate_type=\"'' @ agt @ ''\"'') ts) '' OR ''"
| "createFilter (MatchAny ms) = strings_Join (map (\<lambda>sm. ''('' @ createFilter sm @ '')'') ms) '' OR ''"
| "createFilter (MatchAll ms) = strings_Join (map (\<lambda>sm. ''('' @ createFilter sm @ '')'') ms) '' AND ''"
| "createFilter (CustomMatcher f) = ''''"

text \<open>
  Pub/Sub filters: an attribute key is present, an attribute has a value, and conjunctions and
  disjunctions; the empty filter passes every message.
\<close>

datatype pubsubFilter =
    HasKey string
  | HasValue string string
  | FOr "pubsubFilter list"
  | FAnd "pubsubFilter list"
  | FParen pubsubFilter
  | FEmpty

fun filterText :: "pubsubFilter \<Rightarrow> string" where
  "filterText (HasKey k) = ''attributes:\"'' @ k @ ''\"''"
| "filterText (HasValue k v) = ''attributes.'' @ k @ ''=\"'' @ v @ ''\"''"
| "filterText (FOr fs) = strings_Join (map filterText fs) '' OR ''"
| "filterText (FAnd fs) = strings_Join (map filterText fs) '' AND ''"
| "filterText (FParen f) = ''('' @ filterText f @ '')''"
| "filterText FEmpty = ''''"

fun passes :: "pubsubFilter \<Rightarrow> (string \<rightharpoonup> string) \<Rightarrow> bool" where
  "passes (HasKey k) a \<longleftrightarrow> a k \<noteq> None"
| "passes (HasValue k v) a \<longleftrightarrow> a k = Some v"
| "passes (FOr fs) a \<longleftrightarrow> fs = [] \<or> (\<exists>f \<in> set fs. passes f a)"
| "passes (FAnd fs) a \<longleftrightarrow> (\<forall>f \<in> set fs. passes f a)"
| "passes (FParen f) a \<longleftrightarrow> passes f a"
| "passes FEmpty a \<longleftrightarrow> True"

text \<open>The tree of a matcher's filter.\<close>

fun filterOf :: "EventMatcher \<Rightarrow> pubsubFilter" where
  "filterOf (MatchEvents ts) = FOr (map HasKey ts)"
| "filterOf (MatchAggregates ts) = FOr (map (HasValue ''aggregate_type'') ts)"
| "filterOf (MatchAny ms) = FOr (map (\<lambda>sm. FParen (filterOf sm)) ms)"
| "filterOf (MatchAll ms) = FAnd (map (\<lambda>sm. FParen (filterOf sm)) ms)"
| "filterOf (CustomMatcher f) = FEmpty"

text \<open>Matchers without custom parts and without empty alternatives, for which the filter is exact.\<close>

fun filterable :: "EventMatcher \<Rightarrow> bool" where
  "filterable (MatchEvents ts) \<longleftrightarrow> ts \<noteq> [] \<and> ''aggregate_type'' \<notin> set ts"
| "filterable (MatchAggregates ts) \<longleftrightarrow> ts \<noteq> []"
| "filterable (MatchAny ms) \<longleftrightarrow> ms \<noteq> [] \<and> (\<forall>m \<in> set ms. filterable m)"
| "filterable (MatchAll ms) \<longleftrightarrow> (\<forall>m \<in> set ms. filterable m)"
| "filterable (CustomMatcher f) \<longleftrightarrow> False"

lemma filterText_filterOf: "filterText (filterOf m) = createFilter m"
proof (induction m)
  case (MatchAny ms)
  then show ?case by (simp add: comp_def cong: map_cong)
next
  case (MatchAll ms)
  then show ?case by (simp add: comp_def cong: map_cong)
qed (simp_all add: comp_def)

lemma passes_filterOf:
  assumes "eventType e \<noteq> ''aggregate_type''"
  shows "(Match m (Some e) \<longrightarrow> passes (filterOf m) (eventAttributes e)) \<and>
    (filterable m \<longrightarrow> passes (filterOf m) (eventAttributes e) \<longrightarrow> Match m (Some e))"
proof (induction m)
  case (MatchEvents ts)
  then show ?case by (auto simp: matchTypes_iff eventAttributes_def split: if_splits)
next
  case (MatchAggregates ts)
  then show ?case using assms by (auto simp: matchTypes_iff eventAttributes_def)
next
  case (MatchAny ms)
  then show ?case by (auto simp: matchAnyLoop_iff)
next
  case (MatchAll ms)
  then show ?case by (auto simp: matchAllLoop_iff)
qed simp

section \<open>Handlers\<close>

text \<open>The configuration of an existing subscription: its filter and whether it keeps the order.\<close>

definition gcpAddHandler ::
    "(string \<times> bool) lookup \<Rightarrow> unit go \<Rightarrow> EventMatcher option \<Rightarrow> 'w handler option \<Rightarrow> gcpBus \<Rightarrow> gcpBus \<times> unit go" where
  "gcpAddHandler getSub create m h b =
     (case addGuard m h b of
        Fail x \<Rightarrow> (b, Fail x)
      | Panic p \<Rightarrow> (b, Panic p)
      | Ret (m', h') \<Rightarrow>
          (let flt = createFilter m' in
           if 256 \<le> length flt then
             (b, Fail (NewError (''match filter is longer than 256 chars: '' @ show_nat (length flt))))
           else case getSub of
             LookupError x \<Rightarrow> (b, Fail (Wrapf ''could not check existing subscription'' x))
           | NotFound \<Rightarrow>
               (case create of
                  Ret _ \<Rightarrow> (registerHandler h' b, Ret ())
                | Fail x \<Rightarrow> (b, Fail (Wrapf ''could not create subscription'' x))
                | Panic p \<Rightarrow> (b, Panic p))
           | Found (existing, ordered) \<Rightarrow>
               if existing \<noteq> flt then
                 (b, Fail (NewError (''the existing filter for '' @ hdType h' @ '' differs, please remove to recreate'')))
               else if \<not> ordered then
                 (b, Fail (NewError (''message ordering not enabled for subscription '' @ hdType h' @ '', please remove to recreate'')))
               else (registerHandler h' b, Ret ())))"

text \<open>\<^verbatim>\<open>Close\<close> stops publishing and handling, then closes the client.\<close>

definition gcpClose :: "unit go \<Rightarrow> gcpBus \<Rightarrow> gcpBus \<times> unit go" where
  "gcpClose clientClose b = (b\<lparr>nbCancelled := True\<rparr>, clientClose)"

text \<open>\<^verbatim>\<open>handler\<close>: the result tells whether the message is acknowledged.\<close>

definition gcpHandler ::
    "eventCodec \<Rightarrow> EventMatcher \<Rightarrow> 'w handler \<Rightarrow> ctx \<Rightarrow> string \<Rightarrow> gcpBus \<times> 'w \<Rightarrow> (gcpBus \<times> 'w) \<times> bool go" where
  "gcpHandler codec m h c msg bw =
     (case processMessage codec m h c msg (snd bw) of
        (w', Ret v) \<Rightarrow> if settled v then ((fst bw, w'), Ret True) else ((netReport (verdictError v) (fst bw), w'), Ret False)
      | (w', Fail x) \<Rightarrow> ((fst bw, w'), Fail x)
      | (w', Panic p) \<Rightarrow> ((fst bw, w'), Panic p))"

text \<open>
  \<^verbatim>\<open>handle\<close> on the results of \<^verbatim>\<open>Receive\<close>: an error is reported and receiving starts again; without an
  error, after the bus was closed, the loop ends.
\<close>

fun gcpHandle :: "unit go list \<Rightarrow> gcpBus \<Rightarrow> gcpBus \<times> bool" where
  "gcpHandle [] b = (b, False)"
| "gcpHandle (Fail x # rs) b =
     gcpHandle rs (netReport (EventBusError (Some (Wrapf ''could not receive'' x)) context_Background None) b)"
| "gcpHandle (r # rs) b = (b, True)"

interpretation gcp: acking_bus "gcpHandler codec m h c" "\<lambda>msg bw. accepts codec m h c msg (snd bw)"
  for codec m and h :: "'w handler" and c
  by standard (auto simp: gcpHandler_def accepts_def split: prod.splits outcome.splits if_splits)

section \<open>Properties\<close>

text \<open>
  The subscription filter of the GCP bus is equivalent to the matcher: for every matcher of the
  package's own kinds without empty parts, the text that \<^verbatim>\<open>createFilter\<close> builds is that of a Pub/Sub filter
  which passes exactly the published events that the matcher matches. For every other matcher it
  passes at least those, so no event is filtered out that the handler wants. The one exception
  is an event type that has the name of the aggregate type's attribute.
\<close>

theorem gcp_filter_exact:
  assumes "eventType e \<noteq> ''aggregate_type''"
  shows "createFilter m = filterText (filterOf m) \<and>
    (Match m (Some e) \<longrightarrow> passes (filterOf m) (eventAttributes e)) \<and>
    (filterable m \<longrightarrow> passes (filterOf m) (eventAttributes e) = Match m (Some e))"
  using passes_filterOf [OF assms, of m] by (auto simp: filterText_filterOf)

theorem gcp_filter_exact_witness:
  "createFilter (MatchAll [MatchEvents [''Closed''], MatchAggregates [''Door'']]) =
     ''(attributes:\"Closed\") AND (attributes.aggregate_type=\"Door\")'' \<and>
   passes (filterOf (MatchAll [MatchEvents [''Closed''], MatchAggregates [''Door'']])) (eventAttributes wireEvent) =
     Match (MatchAll [MatchEvents [''Closed''], MatchAggregates [''Door'']]) (Some wireEvent)"
  using gcp_filter_exact [of wireEvent "MatchAll [MatchEvents [''Closed''], MatchAggregates [''Door'']]"]
  by (simp add: wireEvent_def)

text \<open>
  An event whose type is \<^verbatim>\<open>aggregate_type\<close> is not delivered to a handler for its aggregate: its
  attribute overwrites the one with the aggregate type.
\<close>

lemma gcp_filter_collision:
  "eventType e = ''aggregate_type'' \<Longrightarrow> aggregateType e \<noteq> '''' \<Longrightarrow>
   Match (MatchAggregates [aggregateType e]) (Some e) \<and>
   \<not> passes (filterOf (MatchAggregates [aggregateType e])) (eventAttributes e)"
  by (simp add: eventAttributes_def)

text \<open>
  The GCP bus delivers at least once: an event that was published stays with the subscription until
  a delivery of it was accepted, and every failure in between is reported or the channel is full.
\<close>

theorem gcp_at_least_once:
  assumes "subRun policy (gcpHandler codec m h c) (\<lambda>msg bw. accepts codec m h c msg (snd bw)) (newSubscription bw0) tr s"
    and "SubPublish i b \<in> set tr"
  shows "(\<exists>n. subMsgs s i = Some (b, n)) \<or> SubDeliver i True True \<in> set tr"
  by (rule gcp.no_loss [OF assms])

definition demoGcp :: gcpBus where
  "demoGcp = netBus.extend (newNetBus ''app'') (gcpBus.fields ''project'' ''topic'')"

theorem gcp_at_least_once_witness:
  "\<exists>s. subRun (\<lambda>n. True) (gcpHandler netCodec (MatchEvents [''Closed'']) countingHandler context_Background)
      (\<lambda>msg bw. accepts netCodec (MatchEvents [''Closed'']) countingHandler context_Background msg (snd bw))
      (newSubscription (demoGcp, 0)) [SubPublish 0 ''e'', SubDeliver 0 False False] s \<and>
     (\<exists>n. subMsgs s 0 = Some (''e'', n))"
proof -
  let ?m = "MatchEvents [''Closed'']"
  let ?react = "gcpHandler netCodec ?m countingHandler context_Background"
  let ?good = "\<lambda>msg bw. accepts netCodec ?m countingHandler context_Background msg (snd bw)"
  obtain b' where "?react ''e'' (demoGcp, 0) = ((b', 1), Ret False)" by (simp add: gcpHandler_def busyMessage)
  moreover have "\<not> ?good ''e'' (demoGcp, 0)" by (simp add: accepts_def busyMessage)
  ultimately obtain s where
    run: "subRun (\<lambda>n. True) ?react ?good (newSubscription (demoGcp, 0)) [SubPublish 0 ''e'', SubDeliver 0 False False] s"
    using subRun_once [of "\<lambda>n. True" ?react "''e''" "(demoGcp, 0)" "(b', 1)" False ?good] by auto
  with gcp_at_least_once [OF run, of 0 "''e''"] show ?thesis by auto
qed

end
