(* ===== verification/EventBus_Nats.thy ===== *)
theory EventBus_Nats
  imports EventBus_Broker
begin

text \<open>
  The NATS Jetstream event bus (\<^verbatim>\<open>eventbus/nats\<close>): construction with its stream, publishing under a
  subject, consumers with a subject pattern, and the processing of messages. The replies of the NATS
  client are parameters; subjects match patterns as NATS documents it, token by token.
\<close>

section \<open>Construction\<close>

record streamConfig =
  scName :: string
  scSubjects :: "string list"

record natsBus = netBus +
  ntStreamConfig :: "streamConfig option"
  ntUnsubscribe :: "string list"

definition WithStreamConfig :: "streamConfig \<Rightarrow> (natsBus \<Rightarrow> natsBus go) option" where
  "WithStreamConfig cfg = Some (\<lambda>b. Ret (b\<lparr>ntStreamConfig := Some cfg\<rparr>))"

text \<open>
  \<open>streamExists\<close> is whether the request for the stream's info succeeds; \<open>addStream\<close> is the result of
  creating the stream with a configuration.
\<close>

definition NewNatsBus ::
    "unit go \<Rightarrow> unit go \<Rightarrow> bool \<Rightarrow> (streamConfig \<Rightarrow> unit go) \<Rightarrow> string \<Rightarrow> (natsBus \<Rightarrow> natsBus go) option list \<Rightarrow> natsBus go" where
  "NewNatsBus connect jetStream streamExists addStream appID options =
     obind (applyBusOptions options (netBus.extend (newNetBus appID) (natsBus.fields None []))) (\<lambda>b.
     obind (mapErr (Wrapf ''could not create NATS connection'') connect) (\<lambda>_.
     obind (mapErr (Wrapf ''could not create Jetstream context'') jetStream) (\<lambda>_.
       if streamExists then Ret b
       else
         (let cfg = (case ntStreamConfig b of
                       Some cfg \<Rightarrow> cfg
                     | None \<Rightarrow> \<lparr>scName = nbStream b, scSubjects = [nbStream b @ ''.*.*'']\<rparr>)
          in obind (mapErr (Wrapf ''could not create NATS stream'') (addStream cfg)) (\<lambda>_. Ret b)))))"

section \<open>Publishing\<close>

definition natsSubject :: "string \<Rightarrow> event \<Rightarrow> string" where
  "natsSubject stream e = stream @ ''.'' @ aggregateType e @ ''.'' @ eventType e"

definition natsHandleEvent ::
    "eventCodec \<Rightarrow> (string \<Rightarrow> string \<Rightarrow> 'k \<Rightarrow> 'k \<times> unit go) \<Rightarrow> ctx \<Rightarrow> event option \<Rightarrow> natsBus \<Rightarrow> 'k \<Rightarrow> 'k \<times> unit go" where
  "natsHandleEvent codec publish c ev b k =
     (case MarshalEvent codec c ev of
        Fail x \<Rightarrow> (k, Fail (Wrapf ''could not marshal event'' x))
      | Panic p \<Rightarrow> (k, Panic p)
      | Ret dat \<Rightarrow>
          (case ev of
             None \<Rightarrow> (k, nilDeref)
           | Some e \<Rightarrow>
               (case publish (natsSubject (nbStream b) e) dat k of
                  (k', r) \<Rightarrow> (k', mapErr (Wrapf ''could not publish event'') r))))"

section \<open>Consumers\<close>

text \<open>The two parts that the \<^verbatim>\<open>switch\<close> on the matcher sets.\<close>

fun consumerParts :: "EventMatcher \<Rightarrow> string \<times> string" where
  "consumerParts (MatchEvents ts) = (''*'', if length ts = 1 then ts ! 0 else ''*'')"
| "consumerParts (MatchAggregates ts) = (if length ts = 1 then ts ! 0 else ''*'', ''*'')"
| "consumerParts _ = (''*'', ''*'')"

definition createConsumerSubject :: "string \<Rightarrow> EventMatcher \<Rightarrow> string" where
  "createConsumerSubject stream m =
     (case consumerParts m of (aggregateMatch, eventMatch) \<Rightarrow> stream @ ''.'' @ aggregateMatch @ ''.'' @ eventMatch)"

text \<open>Whether a pattern matches a subject: a star stands for one token, a final greater-than sign for the rest.\<close>

fun tokensMatch :: "string list \<Rightarrow> string list \<Rightarrow> bool" where
  "tokensMatch [] [] = True"
| "tokensMatch (p # ps) (t # ts) = (p = ''>'' \<and> ps = [] \<or> (p = ''*'' \<or> p = t) \<and> tokensMatch ps ts)"
| "tokensMatch _ _ = False"

definition subjectMatches :: "string \<Rightarrow> string \<Rightarrow> bool" where
  "subjectMatches pat subj = tokensMatch (splitAt (CHR ''.'') pat) (splitAt (CHR ''.'') subj)"

text \<open>The consumers of ephemeral handlers are remembered for the end.\<close>

definition natsAddHandler ::
    "(string \<Rightarrow> string \<Rightarrow> unit go) \<Rightarrow> EventMatcher option \<Rightarrow> 'w handler option \<Rightarrow> natsBus \<Rightarrow> natsBus \<times> unit go" where
  "natsAddHandler subscribe m h b =
     (case addGuard m h b of
        Fail x \<Rightarrow> (b, Fail x)
      | Panic p \<Rightarrow> (b, Panic p)
      | Ret (m', h') \<Rightarrow>
          (let consumerName = nbAppID b @ ''_'' @ hdType h' in
           case subscribe (createConsumerSubject (nbStream b) m') consumerName of
             Fail x \<Rightarrow> (b, Fail (Wrapf ''could not subscribe to queue'' x))
           | Panic p \<Rightarrow> (b, Panic p)
           | Ret _ \<Rightarrow>
               (let b' = (if handlerIsEphemeral h' then b\<lparr>ntUnsubscribe := ntUnsubscribe b @ [consumerName]\<rparr> else b)
                in (registerHandler h' b', Ret ()))))"

text \<open>\<^verbatim>\<open>Close\<close>: the consumers that it unsubscribes, in order.\<close>

definition natsClose :: "natsBus \<Rightarrow> natsBus \<times> string list" where
  "natsClose b = (b\<lparr>nbCancelled := True\<rparr>, ntUnsubscribe b)"

text \<open>\<^verbatim>\<open>handler\<close>: the result tells whether the message is acknowledged.\<close>

definition natsHandler ::
    "eventCodec \<Rightarrow> EventMatcher \<Rightarrow> 'w handler \<Rightarrow> ctx \<Rightarrow> string \<Rightarrow> natsBus \<times> 'w \<Rightarrow> (natsBus \<times> 'w) \<times> bool go" where
  "natsHandler codec m h c msg bw =
     (case processMessage codec m h c msg (snd bw) of
        (w', Ret v) \<Rightarrow> if settled v then ((fst bw, w'), Ret True) else ((netReport (verdictError v) (fst bw), w'), Ret False)
      | (w', Fail x) \<Rightarrow> ((fst bw, w'), Fail x)
      | (w', Panic p) \<Rightarrow> ((fst bw, w'), Panic p))"

text \<open>The limit on deliveries that \<^verbatim>\<open>AddHandler\<close> sets.\<close>

abbreviation natsPolicy :: "nat \<Rightarrow> bool" where "natsPolicy n \<equiv> n < 10"

interpretation nats: acking_bus "natsHandler codec m h c" "\<lambda>msg bw. accepts codec m h c msg (snd bw)"
  for codec m and h :: "'w handler" and c
  by standard (auto simp: natsHandler_def accepts_def split: prod.splits outcome.splits if_splits)

section \<open>Properties\<close>

lemma splitAt_subject:
  "CHR ''.'' \<notin> set a \<Longrightarrow> CHR ''.'' \<notin> set t \<Longrightarrow>
   splitAt (CHR ''.'') (stream @ CHR ''.'' # a @ CHR ''.'' # t) = splitAt (CHR ''.'') stream @ [a, t]"
  by (simp add: splitAt_append splitAt_single)

lemma tokensMatch_same: "tokensMatch qs ts \<Longrightarrow> tokensMatch (ps @ qs) (ps @ ts)"
  by (induction ps) auto

lemma consumerParts_match:
  "Match m (Some e) \<Longrightarrow> consumerParts m = (a, t) \<Longrightarrow> (a = ''*'' \<or> a = aggregateType e) \<and> (t = ''*'' \<or> t = eventType e)"
  by (cases m) (auto simp: matchTypes_iff length_Suc_conv split: if_splits)

text \<open>
  No event is missed by a NATS consumer because of its subject: the subject under which a matching
  event is published matches the pattern of the consumer that is created for the matcher, as long as
  the types contain no dots.
\<close>

theorem nats_subject_complete:
  assumes "Match m (Some e)" "CHR ''.'' \<notin> set (aggregateType e)" "CHR ''.'' \<notin> set (eventType e)"
  shows "subjectMatches (createConsumerSubject stream m) (natsSubject stream e)"
proof -
  obtain a t where parts: "consumerParts m = (a, t)" by fastforce
  note match = consumerParts_match [OF assms(1) parts]
  with assms(2,3) have "CHR ''.'' \<notin> set a" "CHR ''.'' \<notin> set t" by auto
  with assms(2,3) match show ?thesis
    by (auto simp: subjectMatches_def createConsumerSubject_def natsSubject_def parts splitAt_subject intro!: tokensMatch_same)
qed

theorem nats_subject_complete_witness:
  "createConsumerSubject ''app_events'' (MatchEvents [''Closed'']) = ''app_events.*.Closed'' \<and>
   subjectMatches (createConsumerSubject ''app_events'' (MatchEvents [''Closed''])) (natsSubject ''app_events'' wireEvent)"
  using nats_subject_complete [of "MatchEvents [''Closed'']" wireEvent "''app_events''"]
  by (simp add: createConsumerSubject_def wireEvent_def)

text \<open>
  The NATS bus delivers at least once within its limit: an event that was published is kept until a
  delivery was accepted, and it is delivered ten times at most; one that failed ten times is
  never delivered again.
\<close>

theorem nats_at_least_once:
  assumes "subRun natsPolicy (natsHandler codec m h c) (\<lambda>msg bw. accepts codec m h c msg (snd bw)) (newSubscription bw0) tr s"
    and "SubPublish i b \<in> set tr"
  shows "((\<exists>n. subMsgs s i = Some (b, n)) \<or> SubDeliver i True True \<in> set tr) \<and> deliveries i tr \<le> 10"
  using nats.no_loss [OF assms] subRun_bound [OF assms(1), of 10 i] by blast

definition demoNats :: natsBus where
  "demoNats = netBus.extend (newNetBus ''app'') (natsBus.fields None [])"

theorem nats_at_least_once_witness:
  "\<exists>s. subRun natsPolicy (natsHandler netCodec (MatchEvents [''Closed'']) countingHandler context_Background)
      (\<lambda>msg bw. accepts netCodec (MatchEvents [''Closed'']) countingHandler context_Background msg (snd bw))
      (newSubscription (demoNats, 0)) [SubPublish 0 ''e'', SubDeliver 0 False False] s \<and>
     (\<exists>n. subMsgs s 0 = Some (''e'', n))"
proof -
  let ?m = "MatchEvents [''Closed'']"
  let ?react = "natsHandler netCodec ?m countingHandler context_Background"
  let ?good = "\<lambda>msg bw. accepts netCodec ?m countingHandler context_Background msg (snd bw)"
  obtain b' where "?react ''e'' (demoNats, 0) = ((b', 1), Ret False)" by (simp add: natsHandler_def busyMessage)
  moreover have "\<not> ?good ''e'' (demoNats, 0)" by (simp add: accepts_def busyMessage)
  ultimately obtain s where
    run: "subRun natsPolicy ?react ?good (newSubscription (demoNats, 0)) [SubPublish 0 ''e'', SubDeliver 0 False False] s"
    using subRun_once [of natsPolicy ?react "''e''" "(demoNats, 0)" "(b', 1)" False ?good] by auto
  with nats_at_least_once [OF run, of 0 "''e''"] show ?thesis by auto
qed

text \<open>Closing a NATS bus unsubscribes the consumers of exactly the handlers that were added as ephemeral.\<close>

lemma natsAddHandler_unsubscribe:
  "natsAddHandler subscribe (Some m) (Some h) b = (b', Ret ()) \<Longrightarrow>
   snd (natsClose b') = snd (natsClose b) @ (if handlerIsEphemeral h then [nbAppID b @ ''_'' @ hdType h] else [])"
  by (auto simp: natsAddHandler_def natsClose_def addGuard_def registerHandler_def Let_def split: outcome.splits if_splits)

end
