(* ===== verification/EventBus_Redis.thy ===== *)
theory EventBus_Redis
  imports EventBus_Broker
begin

text \<open>
  The Redis streams event bus (\<^verbatim>\<open>eventbus/redis\<close>): construction, publishing to a stream, consumer groups,
  and the processing of messages. The replies of the Redis client are parameters. A consumer reads only
  messages that were never delivered to its group, so the broker delivers each message once.
\<close>

section \<open>Construction\<close>

record redisBus = netBus +
  rbClientID :: string

definition NewRedisBus ::
    "string go \<Rightarrow> string \<Rightarrow> string \<Rightarrow> (redisBus \<Rightarrow> redisBus go) option list \<Rightarrow> redisBus go" where
  "NewRedisBus ping appID clientID options =
     obind (applyBusOptions options (netBus.extend (newNetBus appID) (redisBus.fields clientID))) (\<lambda>b.
       case ping of
         Fail x \<Rightarrow> Fail (Wrapf ''could not check Redis server'' x)
       | Panic p \<Rightarrow> Panic p
       | Ret res \<Rightarrow> if res \<noteq> ''PONG'' then Fail (NewError ''could not check Redis server: %!w(<nil>)'') else Ret b)"

section \<open>Publishing\<close>

definition redisValues :: "event \<Rightarrow> string \<Rightarrow> (string \<rightharpoonup> gvalue)" where
  "redisValues e b =
     [''aggregate_type'' \<mapsto> GString (aggregateType e), ''event_type'' \<mapsto> GString (eventType e), ''data'' \<mapsto> GString b]"

definition redisHandleEvent ::
    "eventCodec \<Rightarrow> (ctx \<Rightarrow> string \<Rightarrow> (string \<rightharpoonup> gvalue) \<Rightarrow> 'k \<Rightarrow> 'k \<times> unit go) \<Rightarrow> ctx \<Rightarrow> event option \<Rightarrow> redisBus \<Rightarrow> 'k \<Rightarrow> 'k \<times> unit go" where
  "redisHandleEvent codec xadd c ev b k =
     (case MarshalEvent codec c ev of
        Fail x \<Rightarrow> (k, Fail (Wrapf ''could not marshal event'' x))
      | Panic p \<Rightarrow> (k, Panic p)
      | Ret dat \<Rightarrow>
          (case ev of
             None \<Rightarrow> (k, nilDeref)
           | Some e \<Rightarrow>
               (case xadd c (nbStream b) (redisValues e dat) k of
                  (k', r) \<Rightarrow> (k', mapErr (Wrapf ''could not publish event'') r))))"

section \<open>Handlers\<close>

text \<open>The reply to the creation of a group; an error is known by its text.\<close>

definition redisAddHandler ::
    "(UUID \<Rightarrow> string) \<Rightarrow> string go \<Rightarrow> EventMatcher option \<Rightarrow> 'w handler option \<Rightarrow> redisBus \<Rightarrow> redisBus \<times> unit go" where
  "redisAddHandler us create m h b =
     (case addGuard m h b of
        Fail x \<Rightarrow> (b, Fail x)
      | Panic p \<Rightarrow> (b, Panic p)
      | Ret (m', h') \<Rightarrow>
          (case create of
             Fail x \<Rightarrow>
               if \<not> prefix ''BUSYGROUP'' (error_string us x) then (b, Fail (Wrapf ''could not create consumer group'' x))
               else (registerHandler h' b, Ret ())
           | Panic p \<Rightarrow> (b, Panic p)
           | Ret res \<Rightarrow>
               if res \<noteq> ''OK'' then (b, Fail (NewError (''could not create consumer group: '' @ res)))
               else (registerHandler h' b, Ret ())))"

definition redisClose :: "unit go \<Rightarrow> redisBus \<Rightarrow> redisBus \<times> unit go" where
  "redisClose clientClose b = (b\<lparr>nbCancelled := True\<rparr>, clientClose)"

text \<open>Acknowledging: whether it succeeded; a failure is reported with the given text.\<close>

definition redisAck :: "unit go \<Rightarrow> string \<Rightarrow> ctx \<Rightarrow> event \<Rightarrow> redisBus \<Rightarrow> redisBus \<times> bool go" where
  "redisAck xack what c e b =
     (case xack of
        Ret _ \<Rightarrow> (b, Ret True)
      | Fail x \<Rightarrow> (netReport (EventBusError (Some (Wrapf what x)) c (Some e)) b, Ret False)
      | Panic p \<Rightarrow> (b, Panic p))"

text \<open>\<^verbatim>\<open>handler\<close> on the values of a message: the result tells whether the message was acknowledged.\<close>

definition redisHandler ::
    "eventCodec \<Rightarrow> EventMatcher \<Rightarrow> 'w handler \<Rightarrow> ctx \<Rightarrow> unit go \<Rightarrow> (string \<rightharpoonup> gvalue) \<Rightarrow> redisBus \<times> 'w \<Rightarrow>
     (redisBus \<times> 'w) \<times> bool go" where
  "redisHandler codec m h c xack vals bw =
     (case asString (vals ''data'') of
        None \<Rightarrow> ((netReport (EventBusError (Some (NewError ''event data is of incorrect type'')) c None) (fst bw), snd bw), Ret False)
      | Some b \<Rightarrow>
          (case processMessage codec m h c b (snd bw) of
             (w', Ret (VSkip c' e)) \<Rightarrow>
               (case redisAck xack ''could not ack non-matching event'' c' e (fst bw) of (bus', r) \<Rightarrow> ((bus', w'), r))
           | (w', Ret (VDone c' e)) \<Rightarrow>
               (case redisAck xack ''could not ack handled event'' c' e (fst bw) of (bus', r) \<Rightarrow> ((bus', w'), r))
           | (w', Ret v) \<Rightarrow> ((netReport (verdictError v) (fst bw), w'), Ret False)
           | (w', Fail x) \<Rightarrow> ((fst bw, w'), Fail x)
           | (w', Panic p) \<Rightarrow> ((fst bw, w'), Panic p)))"

text \<open>
  \<^verbatim>\<open>handle\<close> on the results of reading from the group until it is cancelled; each message comes with the
  result of acknowledging it. The messages of other streams are skipped.
\<close>

datatype groupRead = ReadError err | ReadCanceled | ReadStreams "(string \<times> ((string \<rightharpoonup> gvalue) \<times> unit go) list) list"

fun handleMessages ::
    "eventCodec \<Rightarrow> EventMatcher \<Rightarrow> 'w handler \<Rightarrow> ctx \<Rightarrow> ((string \<rightharpoonup> gvalue) \<times> unit go) list \<Rightarrow> redisBus \<times> 'w \<Rightarrow> (redisBus \<times> 'w) \<times> unit go" where
  "handleMessages codec m h c [] bw = (bw, Ret ())"
| "handleMessages codec m h c ((vals, xack) # ms) bw =
     (case redisHandler codec m h c xack vals bw of
        (bw', Ret _) \<Rightarrow> handleMessages codec m h c ms bw'
      | (bw', Fail x) \<Rightarrow> (bw', Fail x)
      | (bw', Panic p) \<Rightarrow> (bw', Panic p))"

fun redisHandle ::
    "eventCodec \<Rightarrow> EventMatcher \<Rightarrow> 'w handler \<Rightarrow> ctx \<Rightarrow> groupRead list \<Rightarrow> redisBus \<times> 'w \<Rightarrow> (redisBus \<times> 'w) \<times> unit go" where
  "redisHandle codec m h c [] bw = (bw, Ret ())"
| "redisHandle codec m h c (ReadCanceled # rs) bw = (bw, Ret ())"
| "redisHandle codec m h c (ReadError x # rs) bw =
     redisHandle codec m h c rs
       (netReport (EventBusError (Some (Wrapf ''could not receive'' x)) context_Background None) (fst bw), snd bw)"
| "redisHandle codec m h c (ReadStreams ss # rs) bw =
     (case handleMessages codec m h c (concat (map snd (filter (\<lambda>s. fst s = nbStream (fst bw)) ss))) bw of
        (bw', Ret _) \<Rightarrow> redisHandle codec m h c rs bw'
      | r \<Rightarrow> r)"

section \<open>The contract\<close>

text \<open>A delivery to the group, where acknowledging may fail or not with the message and the state.\<close>

definition redisReact ::
    "eventCodec \<Rightarrow> EventMatcher \<Rightarrow> 'w handler \<Rightarrow> ctx \<Rightarrow> (string \<Rightarrow> redisBus \<times> 'w \<Rightarrow> unit go) \<Rightarrow> string \<Rightarrow> redisBus \<times> 'w \<Rightarrow>
     (redisBus \<times> 'w) \<times> bool go" where
  "redisReact codec m h c xack b bw = redisHandler codec m h c (xack b bw) [''data'' \<mapsto> GString b] bw"

abbreviation redisPolicy :: "nat \<Rightarrow> bool" where "redisPolicy n \<equiv> n < 1"

lemma redisHandler_True:
  "redisHandler codec m h c xack [''data'' \<mapsto> GString b] bw = (bw', Ret True) \<Longrightarrow> accepts codec m h c b (snd bw)"
  by (auto simp: redisHandler_def accepts_def split: prod.splits outcome.splits verdict.splits)

interpretation redis: acking_bus "redisReact codec m h c xack" "\<lambda>b bw. accepts codec m h c b (snd bw)"
  for codec m and h :: "'w handler" and c xack
  by standard (auto simp: redisReact_def dest: redisHandler_True)

section \<open>Properties\<close>

text \<open>
  The Redis bus delivers at most once: each published event is delivered to a consumer of a group at
  most once; one whose handling failed stays pending in the group and never comes to any
  handler again.
\<close>

theorem redis_at_most_once:
  assumes "subRun redisPolicy (redisReact codec m h c xack) (\<lambda>b bw. accepts codec m h c b (snd bw)) (newSubscription bw0) tr s"
    and "SubPublish i b \<in> set tr"
  shows "deliveries i tr \<le> 1 \<and> (SubDeliver i False a \<in> set tr \<longrightarrow> (\<exists>n. subMsgs s i = Some (b, n)) \<and> SubDeliver i True True \<notin> set tr)"
proof -
  have le: "deliveries i tr \<le> 1" using subRun_bound [OF assms(1), of 1 i] by blast
  have "SubDeliver i True True \<notin> set tr" if "SubDeliver i False a \<in> set tr"
  proof
    assume "SubDeliver i True True \<in> set tr"
    with that have "{SubDeliver i True True, SubDeliver i False a} \<subseteq> set (filter (deliversTo i) tr)" by auto
    then have "card {SubDeliver i True True, SubDeliver i False a} \<le> length (filter (deliversTo i) tr)"
      by (meson card_length card_mono finite_set le_trans)
    with le show False by (simp add: deliveries_def)
  qed
  with le redis.no_loss [OF assms] show ?thesis by blast
qed

definition demoRedis :: redisBus where
  "demoRedis = netBus.extend (newNetBus ''app'') (redisBus.fields ''client'')"

theorem redis_at_most_once_witness:
  "\<exists>s. subRun redisPolicy (redisReact netCodec (MatchEvents [''Closed'']) countingHandler context_Background (\<lambda>_ _. Ret ()))
      (\<lambda>b bw. accepts netCodec (MatchEvents [''Closed'']) countingHandler context_Background b (snd bw))
      (newSubscription (demoRedis, 0)) [SubPublish 0 ''e'', SubDeliver 0 False False] s \<and>
     (\<exists>n. subMsgs s 0 = Some (''e'', n))"
proof -
  let ?m = "MatchEvents [''Closed'']"
  let ?react = "redisReact netCodec ?m countingHandler context_Background (\<lambda>_ _. Ret ())"
  let ?good = "\<lambda>b bw. accepts netCodec ?m countingHandler context_Background b (snd bw)"
  obtain b' where "?react ''e'' (demoRedis, 0) = ((b', 1), Ret False)"
    by (simp add: redisReact_def redisHandler_def busyMessage)
  moreover have "\<not> ?good ''e'' (demoRedis, 0)" by (simp add: accepts_def busyMessage)
  ultimately obtain s where
    run: "subRun redisPolicy ?react ?good (newSubscription (demoRedis, 0)) [SubPublish 0 ''e'', SubDeliver 0 False False] s"
    using subRun_once [of redisPolicy ?react "''e''" "(demoRedis, 0)" "(b', 1)" False ?good] by auto
  from redis_at_most_once [OF run, of 0 "''e''" False] run show ?thesis by auto
qed

end
