(* ===== verification/Todo.thy ===== *)
theory Todo
  imports AggregateStore_Events Projector
begin

text \<open>
  The todo list domain of the TodoMVC example (\<^verbatim>\<open>examples/todomvc/backend/domains/todo\<close>): an event
  sourced aggregate with its commands and events, and the read model with its projector.
\<close>

section \<open>Commands and events\<close>

abbreviation TodoAggregateType :: string where "TodoAggregateType \<equiv> ''todolist''"

abbreviation TodoCreated :: string where "TodoCreated \<equiv> ''todolist:created''"
abbreviation TodoDeleted :: string where "TodoDeleted \<equiv> ''todolist:deleted''"
abbreviation ItemAdded :: string where "ItemAdded \<equiv> ''todolist:item_added''"
abbreviation ItemRemoved :: string where "ItemRemoved \<equiv> ''todolist:item_removed''"
abbreviation ItemDescriptionSet :: string where "ItemDescriptionSet \<equiv> ''todolist:item_description_set''"
abbreviation ItemChecked :: string where "ItemChecked \<equiv> ''todolist:item_checked''"

definition ItemAddedData :: "gint \<Rightarrow> string \<Rightarrow> gvalue" where
  "ItemAddedData i d = gstructPtr ''ItemAddedData'' [pubField ''ItemID'' (GInt i), pubField ''Description'' (GString d)]"

definition ItemRemovedData :: "gint \<Rightarrow> gvalue" where
  "ItemRemovedData i = gstructPtr ''ItemRemovedData'' [pubField ''ItemID'' (GInt i)]"

definition ItemDescriptionSetData :: "gint \<Rightarrow> string \<Rightarrow> gvalue" where
  "ItemDescriptionSetData i d =
     gstructPtr ''ItemDescriptionSetData'' [pubField ''ItemID'' (GInt i), pubField ''Description'' (GString d)]"

definition ItemCheckedData :: "gint \<Rightarrow> bool \<Rightarrow> gvalue" where
  "ItemCheckedData i b = gstructPtr ''ItemCheckedData'' [pubField ''ItemID'' (GInt i), pubField ''Checked'' (GBool b)]"

definition todoCommand :: "string \<Rightarrow> string \<Rightarrow> UUID \<Rightarrow> gfield list \<Rightarrow> command" where
  "todoCommand t st i fs =
     \<lparr>cmdAggregateID = i, cmdAggregateType = TodoAggregateType, cmdType = t, cmdID = None,
      cmdValue = gstructPtr st (pubField ''ID'' (GUUID i) # fs)\<rparr>"

definition Create :: "UUID \<Rightarrow> command" where
  "Create i = todoCommand ''todolist:create'' ''Create'' i []"

definition Delete :: "UUID \<Rightarrow> command" where
  "Delete i = todoCommand ''todolist:delete'' ''Delete'' i []"

definition AddItem :: "UUID \<Rightarrow> string \<Rightarrow> command" where
  "AddItem i d = todoCommand ''todolist:add_item'' ''AddItem'' i [pubField ''Description'' (GString d)]"

definition RemoveItem :: "UUID \<Rightarrow> gint \<Rightarrow> command" where
  "RemoveItem i n = todoCommand ''todolist:remove_item'' ''RemoveItem'' i [pubField ''ItemID'' (GInt n)]"

definition RemoveCompletedItems :: "UUID \<Rightarrow> command" where
  "RemoveCompletedItems i = todoCommand ''todolist:remove_completed_items'' ''RemoveCompletedItems'' i []"

definition SetItemDescription :: "UUID \<Rightarrow> gint \<Rightarrow> string \<Rightarrow> command" where
  "SetItemDescription i n d = todoCommand ''todolist:set_item_description'' ''SetItemDescription'' i
     [pubField ''ItemID'' (GInt n), pubField ''Description'' (GString d)]"

definition CheckItem :: "UUID \<Rightarrow> gint \<Rightarrow> bool \<Rightarrow> command" where
  "CheckItem i n b = todoCommand ''todolist:check_item'' ''CheckItem'' i
     [pubField ''ItemID'' (GInt n), pubField ''Checked'' (GBool b)]"

definition CheckAllItems :: "UUID \<Rightarrow> bool \<Rightarrow> command" where
  "CheckAllItems i b = todoCommand ''todolist:check_all_items'' ''CheckAllItems'' i [pubField ''Checked'' (GBool b)]"

section \<open>The aggregate\<close>

record TodoItem =
  tiID :: gint
  tiDescription :: string
  tiCompleted :: bool

record todoList =
  tdCreated :: bool
  tdNextItemID :: gint
  tdItems :: "TodoItem list"

definition NewTodoAggregate :: "UUID \<Rightarrow> todoList aggregate" where
  "NewTodoAggregate i =
     \<lparr>aggBase = NewAggregateBase TodoAggregateType i,
      aggState = \<lparr>tdCreated = False, tdNextItemID = 0, tdItems = []\<rparr>\<rparr>"

text \<open>
  \<^verbatim>\<open>HandleCommand\<close>. The loops that look for an item stop at the first one with the ID; the loops over
  all items append one event per item, in order. \<open>now\<close> is what \<^verbatim>\<open>TimeNow\<close> returns.
\<close>

fun findItem :: "gint \<Rightarrow> TodoItem list \<Rightarrow> TodoItem option" where
  "findItem i [] = None"
| "findItem i (it # its) = (if tiID it = i then Some it else findItem i its)"

fun appendLoop :: "(TodoItem \<Rightarrow> (string \<times> EventData) option) \<Rightarrow> time \<Rightarrow> TodoItem list \<Rightarrow> todoList aggregate \<Rightarrow> todoList aggregate" where
  "appendLoop f now [] a = a"
| "appendLoop f now (it # its) a =
     appendLoop f now its (case f it of None \<Rightarrow> a | Some (t, d) \<Rightarrow> fst (AppendEvent t d now [] a))"

definition todoHandleCommand ::
    "time \<Rightarrow> ctx \<Rightarrow> command \<Rightarrow> todoList aggregate \<Rightarrow> todoList aggregate \<times> unit go" where
  "todoHandleCommand now c cmd a =
     (let s = aggState a;
          append = (\<lambda>t d. (fst (AppendEvent t d now [] a), Ret ()));
          missing = (\<lambda>i. (a, Fail (NewError (''item does not exist: '' @ show_gint i))));
          fields = (\<lambda>t. asStructPtr t (Some (cmdValue cmd)))
      in if isCmd ''Create'' cmd \<and> tdCreated s then (a, Fail (NewError ''already created''))
         else if \<not> isCmd ''Create'' cmd \<and> \<not> tdCreated s then (a, Fail (NewError ''not created''))
         else if isCmd ''Create'' cmd then append TodoCreated None
         else if isCmd ''Delete'' cmd then append TodoDeleted None
         else case fields ''AddItem'' of
           Some fs \<Rightarrow> append ItemAdded (Some (ItemAddedData (tdNextItemID s) (stringField ''Description'' fs)))
         | None \<Rightarrow>
           (case fields ''RemoveItem'' of
              Some fs \<Rightarrow>
                (if findItem (intField ''ItemID'' fs) (tdItems s) = None then missing (intField ''ItemID'' fs)
                 else append ItemRemoved (Some (ItemRemovedData (intField ''ItemID'' fs))))
            | None \<Rightarrow>
              if isCmd ''RemoveCompletedItems'' cmd then
                (appendLoop (\<lambda>it. if tiCompleted it then Some (ItemRemoved, Some (ItemRemovedData (tiID it))) else None)
                   now (tdItems s) a, Ret ())
              else case fields ''SetItemDescription'' of
                Some fs \<Rightarrow>
                  (case findItem (intField ''ItemID'' fs) (tdItems s) of
                     None \<Rightarrow> missing (intField ''ItemID'' fs)
                   | Some it \<Rightarrow>
                       if tiDescription it = stringField ''Description'' fs then (a, Ret ())
                       else append ItemDescriptionSet
                         (Some (ItemDescriptionSetData (intField ''ItemID'' fs) (stringField ''Description'' fs))))
              | None \<Rightarrow>
                (case fields ''CheckItem'' of
                   Some fs \<Rightarrow>
                     (case findItem (intField ''ItemID'' fs) (tdItems s) of
                        None \<Rightarrow> missing (intField ''ItemID'' fs)
                      | Some it \<Rightarrow>
                          if tiCompleted it = boolField ''Checked'' fs then (a, Ret ())
                          else append ItemChecked
                            (Some (ItemCheckedData (intField ''ItemID'' fs) (boolField ''Checked'' fs))))
                 | None \<Rightarrow>
                   (case fields ''CheckAllItems'' of
                      Some fs \<Rightarrow>
                        (appendLoop (\<lambda>it. if tiCompleted it \<noteq> boolField ''Checked'' fs
                             then Some (ItemChecked, Some (ItemCheckedData (tiID it) (boolField ''Checked'' fs))) else None)
                           now (tdItems s) a, Ret ())
                    | None \<Rightarrow> (a, Fail (NewError (''could not handle command: '' @ cmdType cmd)))))))"

text \<open>The loops over the items that applying and projecting events share.\<close>

fun removeItem :: "gint \<Rightarrow> TodoItem list \<Rightarrow> TodoItem list" where
  "removeItem i [] = []"
| "removeItem i (it # its) = (if tiID it = i then its else it # removeItem i its)"

definition setDescription :: "gint \<Rightarrow> string \<Rightarrow> TodoItem list \<Rightarrow> TodoItem list" where
  "setDescription i d its = map (\<lambda>it. if tiID it = i then it\<lparr>tiDescription := d\<rparr> else it) its"

definition setChecked :: "gint \<Rightarrow> bool \<Rightarrow> TodoItem list \<Rightarrow> TodoItem list" where
  "setChecked i b its = map (\<lambda>it. if tiID it = i then it\<lparr>tiCompleted := b\<rparr> else it) its"

definition newItem :: "gfield list \<Rightarrow> TodoItem" where
  "newItem fs = \<lparr>tiID = intField ''ItemID'' fs, tiDescription = stringField ''Description'' fs, tiCompleted = False\<rparr>"

definition todoApplyEvent ::
    "ctx \<Rightarrow> event \<Rightarrow> todoList aggregate \<Rightarrow> todoList aggregate \<times> unit go" where
  "todoApplyEvent c e a =
     (let s = aggState a;
          withData = (\<lambda>t f. case asStructPtr t (data e) of
             Some fs \<Rightarrow> (a\<lparr>aggState := f fs\<rparr>, Ret ()) | None \<Rightarrow> (a, Fail (NewError ''invalid event data'')))
      in if eventType e = TodoCreated then (a\<lparr>aggState := s\<lparr>tdCreated := True\<rparr>\<rparr>, Ret ())
         else if eventType e = TodoDeleted then (a\<lparr>aggState := s\<lparr>tdCreated := False\<rparr>\<rparr>, Ret ())
         else if eventType e = ItemAdded then withData ''ItemAddedData''
           (\<lambda>fs. s\<lparr>tdItems := tdItems s @ [newItem fs], tdNextItemID := tdNextItemID s + 1\<rparr>)
         else if eventType e = ItemRemoved then withData ''ItemRemovedData''
           (\<lambda>fs. s\<lparr>tdItems := removeItem (intField ''ItemID'' fs) (tdItems s)\<rparr>)
         else if eventType e = ItemDescriptionSet then withData ''ItemDescriptionSetData''
           (\<lambda>fs. s\<lparr>tdItems := setDescription (intField ''ItemID'' fs) (stringField ''Description'' fs) (tdItems s)\<rparr>)
         else if eventType e = ItemChecked then withData ''ItemCheckedData''
           (\<lambda>fs. s\<lparr>tdItems := setChecked (intField ''ItemID'' fs) (boolField ''Checked'' fs) (tdItems s)\<rparr>)
         else (a, Fail (NewError (''could not apply event: '' @ eventType e))))"

definition todoEnv :: "todoList aggEnv" where
  "todoEnv = \<lparr>aggFactories = (case RegisterAggregate AggregateType (newTypeRegistry ''aggregate'') 1
         (\<lambda>i. Some (NewTodoAggregate i)) of Ret r \<Rightarrow> r | _ \<Rightarrow> newTypeRegistry ''aggregate''),
     isVersioned = (\<lambda>a. True), ApplyEvent = todoApplyEvent, isSnapshotable = (\<lambda>a. False),
     CreateSnapshot = (\<lambda>a. None), ApplySnapshot = (\<lambda>s a. a)\<rparr>"

lemma ApplyEvent_todoEnv [simp]: "ApplyEvent todoEnv = todoApplyEvent"
  by (simp add: todoEnv_def)

lemma isVersioned_todoEnv [simp]: "isVersioned todoEnv a"
  by (simp add: todoEnv_def)

lemma CreateAggregate_todoEnv [simp]:
  "CreateAggregate (aggFactories todoEnv) TodoAggregateType i = Ret (Some (NewTodoAggregate i))"
  by (simp add: todoEnv_def RegisterAggregate_def register_def newTypeRegistry_def
      CreateAggregate_def registry_get_def AggregateType_def NewTodoAggregate_def NewAggregateBase_def)

lemma todoApplyEvent_base: "aggBase (fst (todoApplyEvent c e a)) = aggBase a"
  by (simp add: todoApplyEvent_def Let_def split: option.split)

interpretation todo: event_sourced_aggregate todoEnv TodoAggregateType
proof
  fix c e and a a' :: "todoList aggregate" and r
  assume "ApplyEvent todoEnv c e a = (a', r)"
  then show "aggBase a' = aggBase a" using todoApplyEvent_base [of c e a] by simp
next
  show "\<exists>a. CreateAggregate (aggFactories todoEnv) TodoAggregateType aid = Ret (Some a) \<and>
      aggBase a = NewAggregateBase TodoAggregateType aid \<and> isVersioned todoEnv a" for aid
    by (simp add: NewTodoAggregate_def)
qed (simp add: todoApplyEvent_def)

section \<open>Items\<close>

text \<open>
  The IDs of the items are distinct numbers below the next ID, of which at most \<open>n\<close> were given.
\<close>

definition todoInv :: "nat \<Rightarrow> todoList \<Rightarrow> bool" where
  "todoInv n s \<longleftrightarrow> (\<exists>k \<le> n. tdNextItemID s = of_nat k \<and> distinct (map tiID (tdItems s)) \<and>
     (\<forall>it \<in> set (tdItems s). \<exists>j < k. tiID it = of_nat j))"

lemma todoInv_mono: "todoInv n s \<Longrightarrow> n \<le> m \<Longrightarrow> todoInv m s"
  by (auto simp: todoInv_def intro: order_trans)

lemma todoInv_items:
  assumes "todoInv n s" "tdNextItemID s' = tdNextItemID s" "distinct (map tiID (tdItems s'))"
    and "tiID ` set (tdItems s') \<subseteq> tiID ` set (tdItems s)"
  shows "todoInv n s'"
proof -
  from assms(1) obtain k where k: "k \<le> n" "tdNextItemID s = of_nat k" "\<forall>i \<in> tiID ` set (tdItems s). \<exists>j < k. i = of_nat j"
    by (auto simp: todoInv_def)
  moreover have "\<forall>i \<in> tiID ` set (tdItems s'). \<exists>j < k. i = of_nat j" using k(3) assms(4) by blast
  ultimately show ?thesis using assms(2,3) by (auto simp: todoInv_def)
qed

lemma removeItem_IDs:
  "set (removeItem i its) \<subseteq> set its" "distinct (map tiID its) \<Longrightarrow> distinct (map tiID (removeItem i its))"
proof (induction its)
  case (Cons it its)
  { case 1 show ?case using Cons by auto }
  { case 2 with Cons show ?case by (auto simp: subset_iff) }
qed auto

lemma todoInv_distinct: "todoInv n s \<Longrightarrow> distinct (map tiID (tdItems s))"
  by (auto simp: todoInv_def)

lemma set_items_IDs [simp]:
  "map tiID (setDescription i d its) = map tiID its" "map tiID (setChecked i b its) = map tiID its"
  by (simp_all add: setDescription_def setChecked_def)

lemma set_items_IDs_image [simp]:
  "tiID ` set (setDescription i d its) = tiID ` set its" "tiID ` set (setChecked i b its) = tiID ` set its"
  by (metis set_items_IDs set_map)+

lemma todoApply_items:
  assumes "todoApplyEvent c e a = (a', r)" "eventType e \<noteq> ItemAdded"
  shows "tdNextItemID (aggState a') = tdNextItemID (aggState a) \<and>
    (\<exists>i d b. tdItems (aggState a') = tdItems (aggState a) \<or> tdItems (aggState a') = removeItem i (tdItems (aggState a)) \<or>
       tdItems (aggState a') = setDescription i d (tdItems (aggState a)) \<or> tdItems (aggState a') = setChecked i b (tdItems (aggState a)))"
  using assms by (auto simp: todoApplyEvent_def Let_def split: if_splits option.splits) blast+

lemma todoApply_other:
  assumes "todoApplyEvent c e a = (a', r)" "todoInv n (aggState a)" "eventType e \<noteq> ItemAdded"
  shows "todoInv n (aggState a')"
proof -
  let ?its = "tdItems (aggState a)"
  have next': "tdNextItemID (aggState a') = tdNextItemID (aggState a)" using todoApply_items [OF assms(1,3)] by blast
  have "distinct (map tiID (tdItems (aggState a'))) \<and> tiID ` set (tdItems (aggState a')) \<subseteq> tiID ` set ?its"
    using todoApply_items [OF assms(1,3)] todoInv_distinct [OF assms(2)]
  proof (elim conjE exE disjE)
    fix i assume "tdItems (aggState a') = removeItem i ?its"
    with todoInv_distinct [OF assms(2)] removeItem_IDs [where i = i and its = ?its] show ?thesis
      by (simp add: image_mono)
  qed simp_all
  with todoInv_items [OF assms(2) next'] show ?thesis by blast
qed

lemma todoApply_added:
  assumes "todoApplyEvent c e a = (a', r)" "todoInv n (aggState a)" "n < 2 ^ 64" "eventType e = ItemAdded"
    and "data e = Some (ItemAddedData (tdNextItemID (aggState a)) d)"
  shows "todoInv (Suc n) (aggState a')"
proof -
  let ?s = "aggState a"
  from assms(2) obtain k where k: "k \<le> n" "tdNextItemID ?s = of_nat k" "distinct (map tiID (tdItems ?s))"
    "\<forall>it \<in> set (tdItems ?s). \<exists>j < k. tiID it = of_nat j"
    by (auto simp: todoInv_def)
  from assms(1,4,5) have s': "tdNextItemID (aggState a') = of_nat k + 1"
    "\<exists>x. tdItems (aggState a') = tdItems ?s @ [x] \<and> tiID x = of_nat k"
    by (auto simp: todoApplyEvent_def ItemAddedData_def newItem_def intField_def structField_def k(2) Let_def)
  have "tiID it \<noteq> of_nat k" if "it \<in> set (tdItems ?s)" for it
  proof -
    from k(4) that obtain j where "j < k" "tiID it = of_nat j" by blast
    with gint_of_nat_inj [of j k] k(1) assms(3) show ?thesis by simp
  qed
  then have "of_nat k \<notin> tiID ` set (tdItems ?s)" by fastforce
  moreover have "\<exists>j < Suc k. tiID it = of_nat j" if "it \<in> set (tdItems (aggState a'))" for it
  proof -
    from that s'(2) have "tiID it = of_nat k \<or> it \<in> set (tdItems ?s)" by auto
    with k(4) show ?thesis using less_SucI by blast
  qed
  moreover have "tdNextItemID (aggState a') = of_nat (Suc k)" using s'(1) by (simp add: ac_simps)
  moreover have "distinct (map tiID (tdItems (aggState a')))" using s'(2) k(3) calculation(1) by auto
  ultimately show ?thesis unfolding todoInv_def using k(1) by (intro exI [of _ "Suc k"]) simp
qed

text \<open>The events of a command: one new item under the next ID, or none that adds an item.\<close>

lemma appendLoop_state [simp]: "aggState (appendLoop f now its a) = aggState a"
  by (induction f now its a rule: appendLoop.induct) (auto split: option.split)

lemma appendLoop_events:
  assumes "\<And>it t d. f it = Some (t, d) \<Longrightarrow> t \<noteq> ItemAdded"
  shows "e \<in> set (UncommittedEvents (appendLoop f now its a)) \<Longrightarrow> e \<in> set (UncommittedEvents a) \<or> eventType e \<noteq> ItemAdded"
  using assms
proof (induction f now its a rule: appendLoop.induct)
  case (2 f now it its a)
  let ?b = "case f it of None \<Rightarrow> a | Some (t, d) \<Rightarrow> fst (AppendEvent t d now [] a)"
  have "e \<in> set (UncommittedEvents ?b) \<or> eventType e \<noteq> ItemAdded" using 2 by simp
  moreover have "e \<in> set (UncommittedEvents ?b) \<Longrightarrow> e \<in> set (UncommittedEvents a) \<or> eventType e \<noteq> ItemAdded"
    using 2(3) [of it] by (auto split: option.splits)
  ultimately show ?case by blast
qed simp

lemma todoHandleCommand_events:
  assumes "UncommittedEvents a = []" "todoHandleCommand now c cmd a = (a1, r)"
  shows "aggState a1 = aggState a \<and>
    ((\<exists>e d. UncommittedEvents a1 = [e] \<and> eventType e = ItemAdded \<and> data e = Some (ItemAddedData (tdNextItemID (aggState a)) d)) \<or>
     (\<forall>e \<in> set (UncommittedEvents a1). eventType e \<noteq> ItemAdded))"
proof -
  have some: "\<exists>d'. ItemAddedData i d = ItemAddedData i d'" for i d by blast
  let ?rm = "\<lambda>it. if tiCompleted it then Some (ItemRemoved, Some (ItemRemovedData (tiID it))) else None"
  let ?ck = "\<lambda>b it. if tiCompleted it \<noteq> b then Some (ItemChecked, Some (ItemCheckedData (tiID it) b)) else None"
  have "\<forall>e \<in> set (UncommittedEvents (appendLoop ?rm now (tdItems (aggState a)) a)). eventType e \<noteq> ItemAdded"
    using appendLoop_events [of ?rm] assms(1) by (fastforce split: if_splits)
  moreover have "\<forall>e \<in> set (UncommittedEvents (appendLoop (?ck b) now (tdItems (aggState a)) a)). eventType e \<noteq> ItemAdded" for b
    using appendLoop_events [of "?ck b"] assms(1) by (fastforce split: if_splits)
  ultimately have "aggState (fst (todoHandleCommand now c cmd a)) = aggState a \<and>
    ((\<exists>e d. UncommittedEvents (fst (todoHandleCommand now c cmd a)) = [e] \<and> eventType e = ItemAdded \<and>
        data e = Some (ItemAddedData (tdNextItemID (aggState a)) d)) \<or>
     (\<forall>e \<in> set (UncommittedEvents (fst (todoHandleCommand now c cmd a))). eventType e \<noteq> ItemAdded))"
    unfolding todoHandleCommand_def Let_def using assms(1) some by (simp split: option.split)
  with assms(2) show ?thesis by simp
qed

section \<open>Reachable lists\<close>

text \<open>
  The states that handled commands lead to, as saving does it: the events of a command that was
  handled without an error are committed and applied. The number counts the commands.
\<close>

inductive todoReach :: "(UUID \<Rightarrow> string) \<Rightarrow> nat \<Rightarrow> todoList aggregate \<Rightarrow> bool" for us where
  todoReach_New: "todoReach us 0 (NewTodoAggregate i)"
| todoReach_Command:
    "todoReach us n a \<Longrightarrow> todoHandleCommand now c cmd a = (a1, Ret ()) \<Longrightarrow>
     applyEvents us todoEnv c (ClearUncommittedEvents a1) (map Some (UncommittedEvents a1)) = (a2, Ret ()) \<Longrightarrow>
     todoReach us (Suc n) a2"

lemma todoReach_fresh: "todoReach us n a \<Longrightarrow> UncommittedEvents a = []"
proof (induction rule: todoReach.induct)
  case (todoReach_New i)
  then show ?case by (simp add: UncommittedEvents_def NewTodoAggregate_def NewAggregateBase_def)
next
  case (todoReach_Command n a now c cmd a1 a2)
  from todo.applyEvents_base [OF todoReach_Command(3)] show ?case by simp
qed

lemma applyEvents_todoInv:
  assumes "applyEvents us todoEnv c a (map Some es) = (a', Ret ())" "todoInv n (aggState a)" "\<forall>e \<in> set es. eventType e \<noteq> ItemAdded"
  shows "todoInv n (aggState a')"
  using assms
proof (induction es arbitrary: a)
  case (Cons e es)
  obtain a1 r1 where ap: "todoApplyEvent c e a = (a1, r1)" by fastforce
  with Cons.prems(1) have rest: "applyEvents us todoEnv c (SetAggregateVersion (version e) a1) (map Some es) = (a', Ret ())"
    by (cases r1) (auto split: if_splits)
  from todoApply_other [OF ap Cons.prems(2)] Cons.prems(3) have "todoInv n (aggState (SetAggregateVersion (version e) a1))" by simp
  with Cons.IH [OF rest] Cons.prems(3) show ?case by simp
qed simp

lemma todoReach_inv: "todoReach us n a \<Longrightarrow> n < 2 ^ 64 \<Longrightarrow> todoInv n (aggState a)"
proof (induction rule: todoReach.induct)
  case (todoReach_New i)
  then show ?case by (simp add: todoInv_def NewTodoAggregate_def)
next
  case (todoReach_Command n a now c cmd a1 a2)
  note inv = todoReach_Command(4) [OF Suc_lessD [OF todoReach_Command(5)]]
  from todoHandleCommand_events [OF todoReach_fresh [OF todoReach_Command(1)] todoReach_Command(2)]
  have st: "aggState a1 = aggState a" and evs: "(\<exists>e d. UncommittedEvents a1 = [e] \<and> eventType e = ItemAdded \<and>
      data e = Some (ItemAddedData (tdNextItemID (aggState a)) d)) \<or> (\<forall>e \<in> set (UncommittedEvents a1). eventType e \<noteq> ItemAdded)"
    by auto
  from evs show ?case
  proof
    assume "\<exists>e d. UncommittedEvents a1 = [e] \<and> eventType e = ItemAdded \<and> data e = Some (ItemAddedData (tdNextItemID (aggState a)) d)"
    then obtain e d where e: "UncommittedEvents a1 = [e]" "eventType e = ItemAdded" "data e = Some (ItemAddedData (tdNextItemID (aggState a)) d)"
      by blast
    obtain b r where ap: "todoApplyEvent c e (ClearUncommittedEvents a1) = (b, r)" by fastforce
    with todoReach_Command(3) e(1) have "aggState a2 = aggState b" by (cases r) (auto split: if_splits)
    moreover have "todoInv (Suc n) (aggState b)"
      by (rule todoApply_added [OF ap]) (use inv st e todoReach_Command(5) in auto)
    ultimately show ?thesis by simp
  next
    assume "\<forall>e \<in> set (UncommittedEvents a1). eventType e \<noteq> ItemAdded"
    from applyEvents_todoInv [OF todoReach_Command(3) _ this, of n] inv st show ?thesis by (auto intro: todoInv_mono)
  qed
qed

section \<open>The read model\<close>

text \<open>A nil and an empty slice of items are the same here.\<close>

record TodoList =
  tlID :: UUID
  tlVersion :: gint
  tlItems :: "TodoItem list"
  tlCreatedAt :: time
  tlUpdatedAt :: time

text \<open>The model as an entity, and the type assertion \<^verbatim>\<open>entity.(*TodoList)\<close>.\<close>

definition itemValue :: "TodoItem \<Rightarrow> gvalue" where
  "itemValue it = gstructPtr ''TodoItem'' [pubField ''ID'' (GInt (tiID it)),
     pubField ''Description'' (GString (tiDescription it)), pubField ''Completed'' (GBool (tiCompleted it))]"

definition valueItem :: "gvalue \<Rightarrow> TodoItem option" where
  "valueItem v =
     (case asStructPtr ''TodoItem'' (Some v) of
        Some fs \<Rightarrow> Some \<lparr>tiID = intField ''ID'' fs, tiDescription = stringField ''Description'' fs, tiCompleted = boolField ''Completed'' fs\<rparr>
      | None \<Rightarrow> None)"

definition todoEntity :: "TodoList \<Rightarrow> entity" where
  "todoEntity l = \<lparr>entityID = tlID l, entityVersion = Some (tlVersion l),
     entityBody = gstructPtr ''TodoList'' [pubField ''Items'' (GSlice (Some (map itemValue (tlItems l)))),
       pubField ''CreatedAt'' (GTime (tlCreatedAt l)), pubField ''UpdatedAt'' (GTime (tlUpdatedAt l))]\<rparr>"

definition asTodoList :: "entity \<Rightarrow> TodoList option" where
  "asTodoList e =
     (case (asStructPtr ''TodoList'' (Some (entityBody e)), entityVersion e) of
        (Some [GField _ _ _ _ (GSlice (Some vs)), GField _ _ _ _ (GTime t1), GField _ _ _ _ (GTime t2)], Some v) \<Rightarrow>
          Some \<lparr>tlID = entityID e, tlVersion = v, tlItems = List.map_filter valueItem vs, tlCreatedAt = t1, tlUpdatedAt = t2\<rparr>
      | _ \<Rightarrow> None)"

lemma valueItem_itemValue [simp]: "valueItem (itemValue it) = Some it"
  by (simp add: valueItem_def itemValue_def intField_def stringField_def boolField_def structField_def)

lemma asTodoList_todoEntity [simp]: "asTodoList (todoEntity l) = Some l"
  by (simp add: asTodoList_def todoEntity_def List.map_filter_def comp_def)

text \<open>The factory \<^verbatim>\<open>&TodoList{}\<close>.\<close>

definition newTodoList :: TodoList where
  "newTodoList = \<lparr>tlID = uuid_Nil, tlVersion = 0, tlItems = [], tlCreatedAt = 0, tlUpdatedAt = 0\<rparr>"

text \<open>\<^verbatim>\<open>Project\<close>. \<^const>\<open>None\<close> is the nil entity, which removes the model.\<close>

definition todoProject :: "time \<Rightarrow> ctx \<Rightarrow> event \<Rightarrow> entity \<Rightarrow> entity option go" where
  "todoProject now c e en =
     (case asTodoList en of
        None \<Rightarrow> Fail (NewError ''model is of incorrect type'')
      | Some model \<Rightarrow>
          (let fin = (\<lambda>m. Ret (Some (todoEntity (m\<lparr>tlVersion := tlVersion m + 1, tlUpdatedAt := now\<rparr>))));
               withData = (\<lambda>t f. case asStructPtr t (data e) of
                  Some fs \<Rightarrow> fin (model\<lparr>tlItems := f fs\<rparr>) | None \<Rightarrow> Fail (NewError ''invalid event data''))
           in if eventType e = TodoCreated then fin (model\<lparr>tlID := aggregateID e, tlItems := [], tlCreatedAt := now\<rparr>)
              else if eventType e = TodoDeleted then Ret None
              else if eventType e = ItemAdded then withData ''ItemAddedData'' (\<lambda>fs. tlItems model @ [newItem fs])
              else if eventType e = ItemRemoved then withData ''ItemRemovedData''
                (\<lambda>fs. removeItem (intField ''ItemID'' fs) (tlItems model))
              else if eventType e = ItemDescriptionSet then withData ''ItemDescriptionSetData''
                (\<lambda>fs. setDescription (intField ''ItemID'' fs) (stringField ''Description'' fs) (tlItems model))
              else if eventType e = ItemChecked then withData ''ItemCheckedData''
                (\<lambda>fs. setChecked (intField ''ItemID'' fs) (boolField ''Checked'' fs) (tlItems model))
              else Fail (NewError (''could not project event: '' @ eventType e))))"

definition todoProjectorHandler :: "time \<Rightarrow> 's Repo \<Rightarrow> 's projHandler" where
  "todoProjectorHandler now repo =
     projSetEntityFactory (NewProjectorHandler TodoAggregateType (todoProject now) repo []) (todoEntity newTodoList)"

text \<open>Projecting a list of events, until one fails or removes the model.\<close>

fun projectAll :: "time \<Rightarrow> ctx \<Rightarrow> event list \<Rightarrow> entity \<Rightarrow> entity option go" where
  "projectAll now c [] en = Ret (Some en)"
| "projectAll now c (e # es) en =
     obind (todoProject now c e en) (\<lambda>m. case m of None \<Rightarrow> Ret None | Some en' \<Rightarrow> projectAll now c es en')"

text \<open>An event that the aggregate applies, other than creation and deletion, is projected with the same effect.\<close>

lemma todoProject_sim:
  assumes "todoApplyEvent c e a = (a', Ret ())" "tlItems l = tdItems (aggState a)" "eventType e \<notin> {TodoCreated, TodoDeleted}"
  shows "\<exists>l'. todoProject now c e (todoEntity l) = Ret (Some (todoEntity l')) \<and> tlItems l' = tdItems (aggState a') \<and>
    tlID l' = tlID l \<and> tlVersion l' = tlVersion l + 1"
  using assms by (auto simp: todoProject_def todoApplyEvent_def Let_def split: if_splits option.splits)

lemma projectAll_sim:
  assumes "applyEvents us todoEnv c a (map Some es) = (a', Ret ())" "tlItems l = tdItems (aggState a)"
    and "\<forall>e \<in> set es. eventType e \<notin> {TodoCreated, TodoDeleted}"
  shows "\<exists>l'. projectAll now c es (todoEntity l) = Ret (Some (todoEntity l')) \<and> tlItems l' = tdItems (aggState a') \<and>
    tlID l' = tlID l \<and> tlVersion l' = tlVersion l + of_nat (length es)"
  using assms
proof (induction es arbitrary: a l)
  case (Cons e es)
  obtain a1 r1 where ap: "todoApplyEvent c e a = (a1, r1)" by fastforce
  with Cons.prems(1) have r1: "r1 = Ret ()"
    and rest: "applyEvents us todoEnv c (SetAggregateVersion (version e) a1) (map Some es) = (a', Ret ())"
    by (cases r1; auto split: if_splits)+
  from todoProject_sim [OF ap [unfolded r1] Cons.prems(2), of now] Cons.prems(3) obtain l1 where
    l1: "todoProject now c e (todoEntity l) = Ret (Some (todoEntity l1))" "tlItems l1 = tdItems (aggState a1)"
      "tlID l1 = tlID l" "tlVersion l1 = tlVersion l + 1" by auto
  with Cons.IH [OF rest, of l1] Cons.prems(3) show ?case by (auto simp: ac_simps)
qed auto

section \<open>Properties\<close>

text \<open>
  The items of a todo list have distinct IDs, whatever commands it is sent, also when it is deleted and
  created again, up to \<open>2 ^ 64\<close> commands, where the counter of item IDs would wrap around.
\<close>

theorem todo_item_ids_distinct:
  assumes "todoReach us n a" "n < 2 ^ 64"
  shows "distinct (map tiID (tdItems (aggState a)))"
  by (rule todoInv_distinct [OF todoReach_inv [OF assms]])

lemma todo_demo:
  "todoReach us (Suc 0) (SetAggregateVersion 1 ((NewTodoAggregate 7)\<lparr>aggState := \<lparr>tdCreated = True, tdNextItemID = 0, tdItems = []\<rparr>\<rparr>))"
proof -
  let ?a = "NewTodoAggregate 7" and ?c = context_Background
  let ?a1 = "fst (AppendEvent TodoCreated None 0 [] ?a)"
  have "todoHandleCommand 0 ?c (Create 7) ?a = (?a1, Ret ())"
    by (simp add: todoHandleCommand_def NewTodoAggregate_def Create_def todoCommand_def isCmd_def)
  moreover have "UncommittedEvents ?a = []" by (simp add: NewTodoAggregate_def NewAggregateBase_def UncommittedEvents_def)
  moreover have "applyEvents us todoEnv ?c (ClearUncommittedEvents ?a1) (map Some [snd (AppendEvent TodoCreated None 0 [] ?a)]) =
      (SetAggregateVersion 1 (?a\<lparr>aggState := \<lparr>tdCreated = True, tdNextItemID = 0, tdItems = []\<rparr>\<rparr>), Ret ())"
    by (simp add: AppendEvent_event event_simps todoApplyEvent_def NewEventForAggregate_def NewEvent_def ForAggregate_def
        NewTodoAggregate_def NewAggregateBase_def ClearUncommittedEvents_def AggregateType_def AggregateVersion_def UncommittedEvents_def
        AppendEvent_def Let_def)
  ultimately show ?thesis using todoReach_Command [OF todoReach_New, of 0 ?c "Create 7" 7 ?a1 us] by auto
qed

theorem todo_item_ids_distinct_witness:
  "\<exists>a. todoReach (\<lambda>_. ''u'') (Suc 0) a \<and> tdCreated (aggState a) \<and> distinct (map tiID (tdItems (aggState a)))"
proof -
  let ?a = "SetAggregateVersion 1 ((NewTodoAggregate 7)\<lparr>aggState := \<lparr>tdCreated = True, tdNextItemID = 0, tdItems = []\<rparr>\<rparr>)"
  from todo_item_ids_distinct [OF todo_demo] todo_demo have "todoReach (\<lambda>_. ''u'') (Suc 0) ?a" "distinct (map tiID (tdItems (aggState ?a)))"
    by simp_all
  then show ?thesis by (intro exI [of _ ?a]) simp
qed

text \<open>
  The read model of a todo list refines the aggregate: over the history of a list that was created
  and not deleted, projecting the events gives a model with exactly the items of the aggregate, its ID, and the
  number of events as its version.
\<close>

theorem todo_read_model_refines:
  assumes "applyEvents us todoEnv c (NewTodoAggregate i) (map Some (e # es)) = (a, Ret ())"
    and "eventType e = TodoCreated" "aggregateID e = i" "\<forall>e' \<in> set es. eventType e' \<notin> {TodoCreated, TodoDeleted}"
  shows "\<exists>l. projectAll now c (e # es) (todoEntity newTodoList) = Ret (Some (todoEntity l)) \<and>
    tlItems l = tdItems (aggState a) \<and> tlID l = i \<and> tlVersion l = of_nat (Suc (length es))"
proof -
  obtain a1 where a1: "todoApplyEvent c e (NewTodoAggregate i) = (a1, Ret ())" "tdItems (aggState a1) = []"
    using assms(2) by (simp add: todoApplyEvent_def NewTodoAggregate_def)
  from assms(1) a1(1) have rest: "applyEvents us todoEnv c (SetAggregateVersion (version e) a1) (map Some es) = (a, Ret ())"
    by (auto split: if_splits)
  let ?l = "newTodoList\<lparr>tlID := i, tlItems := [], tlCreatedAt := now, tlVersion := tlVersion newTodoList + 1, tlUpdatedAt := now\<rparr>"
  have "todoProject now c e (todoEntity newTodoList) = Ret (Some (todoEntity ?l))"
    using assms(2,3) by (simp add: todoProject_def newTodoList_def)
  with projectAll_sim [OF rest, of ?l now] a1(2) assms(4) show ?thesis by (auto simp: newTodoList_def ac_simps)
qed

definition todoEvent :: "string \<Rightarrow> EventData \<Rightarrow> gint \<Rightarrow> event" where
  "todoEvent t d v = \<lparr>eventType = t, data = d, timestamp = 1, aggregateType = TodoAggregateType, aggregateID = 7, version = v, metadata = None\<rparr>"

theorem todo_read_model_refines_witness:
  "\<exists>l. projectAll 5 context_Background [todoEvent TodoCreated None 1, todoEvent ItemAdded (Some (ItemAddedData 0 ''milk'')) 2]
       (todoEntity newTodoList) = Ret (Some (todoEntity l)) \<and>
     tlItems l = [\<lparr>tiID = 0, tiDescription = ''milk'', tiCompleted = False\<rparr>] \<and> tlVersion l = 2"
proof -
  let ?es = "[todoEvent TodoCreated None 1, todoEvent ItemAdded (Some (ItemAddedData 0 ''milk'')) 2]"
  obtain a where "applyEvents (\<lambda>_. ''u'') todoEnv context_Background (NewTodoAggregate 7) (map Some ?es) = (a, Ret ())"
    "tdItems (aggState a) = [\<lparr>tiID = 0, tiDescription = ''milk'', tiCompleted = False\<rparr>]"
    by (simp add: todoEvent_def todoApplyEvent_def NewTodoAggregate_def NewAggregateBase_def AggregateType_def SetAggregateVersion_def
        ItemAddedData_def newItem_def intField_def stringField_def structField_def)
  with todo_read_model_refines [of "\<lambda>_. ''u''" context_Background 7 "todoEvent TodoCreated None 1"
      "[todoEvent ItemAdded (Some (ItemAddedData 0 ''milk'')) 2]" a 5]
  show ?thesis by (auto simp: todoEvent_def)
qed

text \<open>
  A todo list that is created again after its deletion has no read model: on a repository that has no
  model of the list, the projector refuses every later event of the list with the error that the model was
  removed, although the aggregate accepts commands again.
\<close>

theorem todo_recreated_not_projected:
  assumes "memRepoInv env fresh s" "memView env fresh s (aggregateID e) = None" "1 <s version e"
  shows "\<exists>s' x. projHandleEvent now slept (todoProjectorHandler t (memRepoOps env)) c (Some e) s = (s', Fail x) \<and>
    errors_Is x ErrModelRemoved \<and> memView env fresh s' = memView env fresh s"
proof -
  let ?h = "todoProjectorHandler t (memRepoOps env)"
  have h: "projFactory ?h = Some (todoEntity newTodoList)" "entityLookupFn ?h e = aggregateID e"
    "rFind (projRepo ?h) = memFind env" "\<not> useRetryOnce ?h" "\<not> useIrregularVersioning ?h" "projectorType ?h = TodoAggregateType"
    by (simp_all add: todoProjectorHandler_def projSetEntityFactory_def NewProjectorHandler_def defaultEntityLookupFn_def memRepoOps_def)
  from memr.projAttempt_fresh [OF assms(1) h(3), of e "todoEntity newTodoList" "fst now" False c] assms(2) h(1,2)
  obtain s1 where s1: "memView env fresh s1 = memView env fresh s"
    "projAttempt (fst now) ?h False c e s = projCheck ?h False c e (aggregateID e) (todoEntity newTodoList) s1" by auto
  have "\<not> version e <=s 0" "version e \<noteq> 1" using assms(3) by (auto simp: word_sless_alt word_sle_eq)
  with h(4,5) assms(3) have "projCheck ?h False c e (aggregateID e) (todoEntity newTodoList) s1 =
      (s1, projError ?h (Sentinel ErrModelRemoved) e (aggregateID e) 0)"
    by (simp add: projCheck_def todoEntity_def newTodoList_def)
  with s1 show ?thesis by (simp add: projHandleEvent_def projError_def)
qed

theorem todo_recreated_not_projected_witness:
  "\<exists>s' x. projHandleEvent (0, 0) id (todoProjectorHandler 5 (memRepoOps countJson)) context_Background
      (Some (todoEvent TodoCreated None 3)) (memSetEntityFactory NewMemRepo (todoEntity newTodoList)) = (s', Fail x) \<and>
    errors_Is x ErrModelRemoved"
proof -
  let ?s = "memSetEntityFactory NewMemRepo (todoEntity newTodoList)"
  have inv: "memRepoInv countJson (todoEntity newTodoList) ?s" and none: "memView countJson (todoEntity newTodoList) ?s i = None" for i
    by (simp_all add: memRepoInv_def memView_def memSetEntityFactory_def NewMemRepo_def)
  have less: "1 <s version (todoEvent TodoCreated None 3)" by (simp add: todoEvent_def word_sless_alt)
  from todo_recreated_not_projected [OF inv none less, of "(0, 0)" id 5 context_Background]
  obtain s' x where "projHandleEvent (0, 0) id (todoProjectorHandler 5 (memRepoOps countJson)) context_Background
      (Some (todoEvent TodoCreated None 3)) ?s = (s', Fail x)" "errors_Is x ErrModelRemoved" by (elim exE conjE)
  then show ?thesis by (intro exI conjI)
qed

end
