(* ===== verification/Guestlist_Views.thy ===== *)
theory Guestlist_Views
  imports Guestlist Projector
begin

text \<open>
  The read models and the saga of the guest list example: the projector of single invitations, the event
  handler that counts the guests in a repository, and the saga that confirms or denies accepted
  invitations, also with several runs of it at the same time.
\<close>

section \<open>The invitation read model\<close>

record Invitation =
  imID :: UUID
  imVersion :: gint
  imName :: string
  imAge :: gint
  imStatus :: string

definition invitationEntity :: "Invitation \<Rightarrow> entity" where
  "invitationEntity i = \<lparr>entityID = imID i, entityVersion = Some (imVersion i),
     entityBody = gstructPtr ''Invitation'' [pubField ''Name'' (GString (imName i)),
       pubField ''Age'' (GInt (imAge i)), pubField ''Status'' (GString (imStatus i))]\<rparr>"

text \<open>The type assertion \<^verbatim>\<open>entity.(*Invitation)\<close>.\<close>

definition asInvitation :: "entity \<Rightarrow> Invitation option" where
  "asInvitation e =
     (case (asStructPtr ''Invitation'' (Some (entityBody e)), entityVersion e) of
        (Some fs, Some v) \<Rightarrow> Some \<lparr>imID = entityID e, imVersion = v, imName = stringField ''Name'' fs,
          imAge = intField ''Age'' fs, imStatus = stringField ''Status'' fs\<rparr>
      | _ \<Rightarrow> None)"

lemma asInvitation_invitationEntity [simp]: "asInvitation (invitationEntity i) = Some i"
  by (simp add: asInvitation_def invitationEntity_def stringField_def intField_def structField_def)

text \<open>The factory \<^verbatim>\<open>&Invitation{}\<close>.\<close>

definition newInvitation :: Invitation where
  "newInvitation = \<lparr>imID = uuid_Nil, imVersion = 0, imName = '''', imAge = 0, imStatus = ''''\<rparr>"

text \<open>\<^verbatim>\<open>Project\<close>. \<open>show\<close> formats a value with the \<^verbatim>\<open>%v\<close> verb and an event with \<^verbatim>\<open>%s\<close>.\<close>

definition invProject :: "(EventData \<Rightarrow> string) \<Rightarrow> (event \<Rightarrow> string) \<Rightarrow> ctx \<Rightarrow> event \<Rightarrow> entity \<Rightarrow> entity option go" where
  "invProject showData showEvent c e en =
     (case asInvitation en of
        None \<Rightarrow> Fail (NewError ''model is of incorrect type'')
      | Some i \<Rightarrow>
          (let fin = (\<lambda>i. Ret (Some (invitationEntity (i\<lparr>imVersion := imVersion i + 1\<rparr>)))) in
           if eventType e = InviteCreatedEvent then
             (case asStructPtr ''InviteCreatedData'' (data e) of
                None \<Rightarrow> Fail (NewError (''projector: invalid event data type: '' @ showData (data e)))
              | Some fs \<Rightarrow> fin (i\<lparr>imID := aggregateID e, imName := stringField ''Name'' fs, imAge := intField ''Age'' fs\<rparr>))
           else if eventType e = InviteAcceptedEvent then fin (i\<lparr>imStatus := ''accepted''\<rparr>)
           else if eventType e = InviteDeclinedEvent then fin (i\<lparr>imStatus := ''declined''\<rparr>)
           else if eventType e = InviteConfirmedEvent then fin (i\<lparr>imStatus := ''confirmed''\<rparr>)
           else if eventType e = InviteDeniedEvent then fin (i\<lparr>imStatus := ''denied''\<rparr>)
           else Fail (NewError (''could not handle event: '' @ showEvent e))))"

definition invitationProjectorHandler ::
    "(EventData \<Rightarrow> string) \<Rightarrow> (event \<Rightarrow> string) \<Rightarrow> 's Repo \<Rightarrow> 's projHandler" where
  "invitationProjectorHandler showData showEvent repo =
     projSetEntityFactory (NewProjectorHandler InvitationAggregateType (invProject showData showEvent) repo [])
       (invitationEntity newInvitation)"

text \<open>The projector over a history, until it fails.\<close>

fun invProjectAll ::
    "(EventData \<Rightarrow> string) \<Rightarrow> (event \<Rightarrow> string) \<Rightarrow> ctx \<Rightarrow> event list \<Rightarrow> entity \<Rightarrow> entity option go" where
  "invProjectAll sd se c [] en = Ret (Some en)"
| "invProjectAll sd se c (e # es) en =
     obind (invProject sd se c e en) (\<lambda>m. case m of None \<Rightarrow> Ret None | Some en' \<Rightarrow> invProjectAll sd se c es en')"

text \<open>
  What the model tells of the aggregate: name and age, and a status that the aggregate has
  reached; a model without a status is that of an unanswered invitation.
\<close>

definition shows_invitation :: "Invitation \<Rightarrow> invitation \<Rightarrow> bool" where
  "shows_invitation i s \<longleftrightarrow> imName i = invName s \<and> imAge i = invAge s \<and>
     (imStatus i = '''' \<and> \<not> accepted s \<and> \<not> declined s \<and> \<not> confirmed s \<and> \<not> denied s \<or>
      imStatus i = ''accepted'' \<and> accepted s \<or> imStatus i = ''declined'' \<and> declined s \<or>
      imStatus i = ''confirmed'' \<and> confirmed s \<or> imStatus i = ''denied'' \<and> denied s)"

definition invitationEvent :: "event \<Rightarrow> bool" where
  "invitationEvent e \<longleftrightarrow>
     (if eventType e = InviteCreatedEvent then asStructPtr ''InviteCreatedData'' (data e) \<noteq> None
      else eventType e \<in> {InviteAcceptedEvent, InviteDeclinedEvent, InviteConfirmedEvent, InviteDeniedEvent})"

lemma invProject_sim:
  assumes "invApplyEvent c e a = (a', r)" "shows_invitation i (aggState a)" "invitationEvent e"
  shows "\<exists>i'. invProject sd se c e (invitationEntity i) = Ret (Some (invitationEntity i')) \<and>
    shows_invitation i' (aggState a') \<and> imVersion i' = imVersion i + 1 \<and>
    imID i' = (if eventType e = InviteCreatedEvent then aggregateID e else imID i)"
proof (cases "eventType e = InviteCreatedEvent")
  case True
  with assms(3) obtain fs where fs: "asStructPtr ''InviteCreatedData'' (data e) = Some fs" by (auto simp: invitationEvent_def)
  with True assms(1) have "aggState a' = (aggState a)\<lparr>invName := stringField ''Name'' fs, invAge := intField ''Age'' fs\<rparr>"
    by (auto simp: invApplyEvent_def)
  with True fs assms(2) show ?thesis
    by (intro exI [of _ "i\<lparr>imID := aggregateID e, imName := stringField ''Name'' fs, imAge := intField ''Age'' fs,
        imVersion := imVersion i + 1\<rparr>"]) (simp add: invProject_def shows_invitation_def)
next
  case False
  with assms(3) consider "eventType e = InviteAcceptedEvent" | "eventType e = InviteDeclinedEvent"
    | "eventType e = InviteConfirmedEvent" | "eventType e = InviteDeniedEvent" by (auto simp: invitationEvent_def)
  then show ?thesis
  proof cases
    case 1
    with assms(1) have "aggState a' = (aggState a)\<lparr>accepted := True\<rparr>" by (auto simp: invApplyEvent_def)
    with 1 assms(2) show ?thesis by (intro exI [of _ "i\<lparr>imStatus := ''accepted'', imVersion := imVersion i + 1\<rparr>"])
      (simp add: invProject_def shows_invitation_def)
  next
    case 2
    with assms(1) have "aggState a' = (aggState a)\<lparr>declined := True\<rparr>" by (auto simp: invApplyEvent_def)
    with 2 assms(2) show ?thesis by (intro exI [of _ "i\<lparr>imStatus := ''declined'', imVersion := imVersion i + 1\<rparr>"])
      (simp add: invProject_def shows_invitation_def)
  next
    case 3
    with assms(1) have "aggState a' = (aggState a)\<lparr>confirmed := True\<rparr>" by (auto simp: invApplyEvent_def)
    with 3 assms(2) show ?thesis by (intro exI [of _ "i\<lparr>imStatus := ''confirmed'', imVersion := imVersion i + 1\<rparr>"])
      (simp add: invProject_def shows_invitation_def)
  next
    case 4
    with assms(1) have "aggState a' = (aggState a)\<lparr>denied := True\<rparr>" by (auto simp: invApplyEvent_def)
    with 4 assms(2) show ?thesis by (intro exI [of _ "i\<lparr>imStatus := ''denied'', imVersion := imVersion i + 1\<rparr>"])
      (simp add: invProject_def shows_invitation_def)
  qed
qed

lemma invProjectAll_sim:
  assumes "applyEvents us invEnv c a (map Some es) = (a', Ret ())" "shows_invitation i (aggState a)"
    and "\<forall>e \<in> set es. invitationEvent e \<and> aggregateID e = aid" "imID i = aid"
  shows "\<exists>i'. invProjectAll sd se c es (invitationEntity i) = Ret (Some (invitationEntity i')) \<and>
    shows_invitation i' (aggState a') \<and> imVersion i' = imVersion i + of_nat (length es) \<and> imID i' = aid"
  using assms
proof (induction es arbitrary: a i)
  case (Cons e es)
  obtain a1 where ap: "invApplyEvent c e a = (a1, Ret ())" using invApplyEvent_Ret [of c e a] by (metis prod.collapse)
  with Cons.prems(1) have rest: "applyEvents us invEnv c (SetAggregateVersion (version e) a1) (map Some es) = (a', Ret ())"
    by (auto split: if_splits)
  from invProject_sim [OF ap Cons.prems(2), of sd se] Cons.prems(3,4) obtain i1 where
    "invProject sd se c e (invitationEntity i) = Ret (Some (invitationEntity i1))" "shows_invitation i1 (aggState a1)"
    "imVersion i1 = imVersion i + 1" "imID i1 = aid" by (auto split: if_splits)
  with Cons.IH [OF rest, of i1] Cons.prems(3) show ?case by (auto simp: ac_simps)
qed auto

section \<open>The guest list read model\<close>

record GuestList =
  glID :: UUID
  NumGuests :: gint
  NumAccepted :: gint
  NumDeclined :: gint
  NumConfirmed :: gint
  NumDenied :: gint

definition guestListEntity :: "GuestList \<Rightarrow> entity" where
  "guestListEntity g = \<lparr>entityID = glID g, entityVersion = None,
     entityBody = gstructPtr ''GuestList'' [pubField ''NumGuests'' (GInt (NumGuests g)),
       pubField ''NumAccepted'' (GInt (NumAccepted g)), pubField ''NumDeclined'' (GInt (NumDeclined g)),
       pubField ''NumConfirmed'' (GInt (NumConfirmed g)), pubField ''NumDenied'' (GInt (NumDenied g))]\<rparr>"

definition asGuestList :: "entity \<Rightarrow> GuestList option" where
  "asGuestList e =
     (case asStructPtr ''GuestList'' (Some (entityBody e)) of
        Some fs \<Rightarrow> Some \<lparr>glID = entityID e, NumGuests = intField ''NumGuests'' fs, NumAccepted = intField ''NumAccepted'' fs,
          NumDeclined = intField ''NumDeclined'' fs, NumConfirmed = intField ''NumConfirmed'' fs, NumDenied = intField ''NumDenied'' fs\<rparr>
      | None \<Rightarrow> None)"

lemma asGuestList_guestListEntity [simp]: "asGuestList (guestListEntity g) = Some g"
  by (simp add: asGuestList_def guestListEntity_def intField_def structField_def)

definition newGuestList :: "UUID \<Rightarrow> GuestList" where
  "newGuestList i = \<lparr>glID = i, NumGuests = 0, NumAccepted = 0, NumDeclined = 0, NumConfirmed = 0, NumDenied = 0\<rparr>"

text \<open>The switch of \<^verbatim>\<open>HandleEvent\<close> on the event type; \<^const>\<open>None\<close> is its default branch.\<close>

definition countGuest :: "string \<Rightarrow> GuestList \<Rightarrow> GuestList option" where
  "countGuest t g =
     (if t = InviteAcceptedEvent then Some (g\<lparr>NumAccepted := NumAccepted g + 1, NumGuests := NumGuests g + 1\<rparr>)
      else if t = InviteDeclinedEvent then Some (g\<lparr>NumDeclined := NumDeclined g + 1, NumGuests := NumGuests g + 1\<rparr>)
      else if t = InviteConfirmedEvent then Some (g\<lparr>NumConfirmed := NumConfirmed g + 1\<rparr>)
      else if t = InviteDeniedEvent then Some (g\<lparr>NumDenied := NumDenied g + 1\<rparr>)
      else None)"

text \<open>
  \<^verbatim>\<open>HandleEvent\<close> of the guest list projector over the repository \<open>repo\<close> and the list \<open>eventID\<close>. It holds its
  mutex from the read to the write, so one call is one step.
\<close>

definition guestListHandleEvent :: "(event \<Rightarrow> string) \<Rightarrow> 's Repo \<Rightarrow> UUID \<Rightarrow> 's HandleEventFn" where
  "guestListHandleEvent showEvent repo eventID c ev s =
     (let counted = (\<lambda>g s. case ev of
            None \<Rightarrow> (s, nilDeref)
          | Some e \<Rightarrow>
              (case countGuest (eventType e) g of
                 None \<Rightarrow> (s, Fail (NewError (''projector: unsupported event type: '' @ showEvent e)))
               | Some g' \<Rightarrow>
                   (case rSave repo c (guestListEntity g') s of
                      (s', r) \<Rightarrow> (s', mapErr (Wrapf ''projector: could not save'') r))))
      in case rFind repo c eventID s of
           (s1, Panic p) \<Rightarrow> (s1, Panic p)
         | (s1, Fail x) \<Rightarrow>
             if errors_Is x ErrEntityNotFound then counted (newGuestList eventID) s1 else (s1, Fail x)
         | (s1, Ret m) \<Rightarrow>
             (case asGuestList m of
                None \<Rightarrow> (s1, Fail (NewError ''projector: incorrect entity type''))
              | Some g \<Rightarrow> counted g s1))"

text \<open>Delivering a list of events, and the list with every event counted.\<close>

fun guestListAll :: "(event \<Rightarrow> string) \<Rightarrow> 's Repo \<Rightarrow> UUID \<Rightarrow> ctx \<Rightarrow> event list \<Rightarrow> 's \<Rightarrow> 's \<times> unit go list" where
  "guestListAll se repo i c [] s = (s, [])"
| "guestListAll se repo i c (e # es) s =
     (case guestListHandleEvent se repo i c (Some e) s of
        (s1, r) \<Rightarrow> (case guestListAll se repo i c es s1 of (s2, rs) \<Rightarrow> (s2, r # rs)))"

definition tally :: "string \<Rightarrow> event list \<Rightarrow> gint" where
  "tally t es = of_nat (length (filter (\<lambda>e. eventType e = t) es))"

definition addTally :: "event list \<Rightarrow> GuestList \<Rightarrow> GuestList" where
  "addTally es g = g\<lparr>NumGuests := NumGuests g + tally InviteAcceptedEvent es + tally InviteDeclinedEvent es,
     NumAccepted := NumAccepted g + tally InviteAcceptedEvent es, NumDeclined := NumDeclined g + tally InviteDeclinedEvent es,
     NumConfirmed := NumConfirmed g + tally InviteConfirmedEvent es, NumDenied := NumDenied g + tally InviteDeniedEvent es\<rparr>"

definition answerEvent :: "event \<Rightarrow> bool" where
  "answerEvent e \<longleftrightarrow> eventType e \<in> {InviteAcceptedEvent, InviteDeclinedEvent, InviteConfirmedEvent, InviteDeniedEvent}"

lemma tally_simps [simp]: "tally t [] = 0" "tally t (e # es) = (if eventType e = t then 1 + tally t es else tally t es)"
  by (simp_all add: tally_def)

lemma glID_addTally [simp]: "glID (addTally es g) = glID g" "addTally [] g = g"
  by (simp_all add: addTally_def)

lemma countGuest_tally:
  assumes "answerEvent e"
  shows "\<exists>g1. countGuest (eventType e) g = Some g1 \<and> glID g1 = glID g \<and> addTally es g1 = addTally (e # es) g"
proof -
  from assms consider "eventType e = InviteAcceptedEvent" | "eventType e = InviteDeclinedEvent"
    | "eventType e = InviteConfirmedEvent" | "eventType e = InviteDeniedEvent" unfolding answerEvent_def by blast
  then show ?thesis by cases (simp_all add: countGuest_def addTally_def add.assoc add.left_commute)
qed

context rw_repo
begin

text \<open>Over any repository that keeps its contract the stored list counts the delivered events.\<close>

lemma guestList_counts:
  assumes ops: "rFind repo = fnd" "rSave repo = save" and i: "i \<noteq> uuid_Nil"
    and store: "\<And>g. storable (guestListEntity g)"
  shows "\<lbrakk>invar s; \<forall>e \<in> set es. answerEvent e; es \<noteq> []; glID g = i;
      view s i = None \<and> g = newGuestList i \<or> view s i = Some (guestListEntity g)\<rbrakk> \<Longrightarrow>
    \<exists>s'. guestListAll se repo i c es s = (s', replicate (length es) (Ret ())) \<and> invar s' \<and>
      view s' = (view s)(i \<mapsto> guestListEntity (addTally es g))"
proof (induction es arbitrary: s g)
  case (Cons e es)
  from countGuest_tally [of e g es] Cons.prems(2,4) obtain g1 where
    g1: "countGuest (eventType e) g = Some g1" "glID g1 = i" "addTally es g1 = addTally (e # es) g" by auto
  obtain s1 o1 where f: "fnd c i s = (s1, o1)" by fastforce
  obtain s2 r2 where sv: "save c (guestListEntity g1) s1 = (s2, r2)" by fastforce
  have s1: "invar s1" "view s1 = view s" using find_state [OF Cons.prems(1) f] by auto
  have s2: "r2 = Ret ()" "invar s2" "view s2 = (view s)(i \<mapsto> guestListEntity g1)"
    using save_ok [OF s1(1) store _ sv] g1(2) i s1(2) by (auto simp: guestListEntity_def)
  have h: "guestListHandleEvent se repo i c (Some e) s = (s2, Ret ())"
    using Cons.prems(5)
  proof
    assume "view s i = None \<and> g = newGuestList i"
    with find_none [OF Cons.prems(1) _ f] f ops g1 sv s2 show ?thesis by (auto simp: guestListHandleEvent_def)
  next
    assume "view s i = Some (guestListEntity g)"
    with find_some [OF Cons.prems(1) _ f] f ops g1 sv s2 show ?thesis by (auto simp: guestListHandleEvent_def)
  qed
  show ?case
  proof (cases es)
    case Nil
    with h s2 g1 show ?thesis by auto
  next
    case (Cons e' es')
    then have "es \<noteq> []" by simp
    moreover have "\<forall>e \<in> set es. answerEvent e" using Cons.prems(2) by simp
    moreover have "view s2 i = Some (guestListEntity g1)" using s2(3) by simp
    ultimately obtain s3 where "guestListAll se repo i c es s2 = (s3, replicate (length es) (Ret ()))" "invar s3"
      "view s3 = (view s2)(i \<mapsto> guestListEntity (addTally es g1))" using Cons.IH [OF s2(2) _ _ g1(2)] by blast
    with h s2(3) g1(3) show ?thesis by (simp add: fun_eq_iff)
  qed
qed simp

end

section \<open>The response saga\<close>

abbreviation ResponseSagaType :: string where "ResponseSagaType \<equiv> ''ResponseSaga''"

text \<open>The keys of the map of accepted guests, all of which hold \<^verbatim>\<open>true\<close>, and the limit.\<close>

record ResponseSaga =
  acceptedGuests :: "UUID list"
  guestLimit :: gint

definition NewResponseSaga :: "gint \<Rightarrow> ResponseSaga" where
  "NewResponseSaga limit = \<lparr>acceptedGuests = [], guestLimit = limit\<rparr>"

definition sagaFull :: "ResponseSaga \<Rightarrow> bool" where
  "sagaFull s \<longleftrightarrow> sint (guestLimit s) \<le> int (length (acceptedGuests s))"

definition sagaAdmit :: "UUID \<Rightarrow> ResponseSaga \<Rightarrow> ResponseSaga" where
  "sagaAdmit g s = s\<lparr>acceptedGuests := List.insert g (acceptedGuests s)\<rparr>"

text \<open>\<^verbatim>\<open>RunSaga\<close>, run alone. The world is the saga with the world of the command handler.\<close>

definition responseRunSaga ::
    "ctx \<Rightarrow> event \<Rightarrow> (ResponseSaga \<times> 'w) CommandHandlerFn \<Rightarrow> ResponseSaga \<times> 'w \<Rightarrow> (ResponseSaga \<times> 'w) \<times> unit go" where
  "responseRunSaga c e h sw =
     (if eventType e = InviteAcceptedEvent then
        (if aggregateID e \<in> set (acceptedGuests (fst sw)) then (sw, Ret ())
         else if sagaFull (fst sw) then h c (Some (DenyInvite (aggregateID e))) sw
         else h c (Some (ConfirmInvite (aggregateID e))) (sagaAdmit (aggregateID e) (fst sw), snd sw))
      else (sw, Ret ()))"

definition responseSagaHandler :: "(ResponseSaga \<times> 'w) CommandHandlerFn \<Rightarrow> (ResponseSaga \<times> 'w) sagaHandler" where
  "responseSagaHandler h = \<lparr>sagaType = ResponseSagaType, runSaga = responseRunSaga, sagaCommandHandler = h\<rparr>"

text \<open>A command handler beside the saga that also keeps the list of the commands it was given.\<close>

definition loggingHandler :: "'w CommandHandlerFn \<Rightarrow> (ResponseSaga \<times> command list \<times> 'w) CommandHandlerFn" where
  "loggingHandler h c cmd w =
     (case h c cmd (snd (snd w)) of
        (w', r) \<Rightarrow> ((fst w, (fst (snd w) @ (case cmd of Some cm \<Rightarrow> [cm] | None \<Rightarrow> []), w')), r))"

fun sagaAll :: "'w sagaHandler \<Rightarrow> ctx \<Rightarrow> event list \<Rightarrow> 'w \<Rightarrow> 'w \<times> unit go list" where
  "sagaAll h c [] w = (w, [])"
| "sagaAll h c (e # es) w =
     (case sagaHandleEvent h c (Some e) w of (w1, r) \<Rightarrow> (case sagaAll h c es w1 of (w2, rs) \<Rightarrow> (w2, r # rs)))"

definition confirmedBy :: "command list \<Rightarrow> UUID list" where
  "confirmedBy cmds = map cmdAggregateID (filter (isCmd ''ConfirmInvite'') cmds)"

lemma confirmedBy_simps [simp]:
  "confirmedBy [] = []" "confirmedBy (xs @ ys) = confirmedBy xs @ confirmedBy ys"
  "confirmedBy [ConfirmInvite g] = [g]" "confirmedBy [DenyInvite g] = []"
  by (simp_all add: confirmedBy_def isCmd_def ConfirmInvite_def DenyInvite_def inviteCommand_def)

definition sagaInv :: "gint \<Rightarrow> ResponseSaga \<times> command list \<times> 'w \<Rightarrow> bool" where
  "sagaInv limit w \<longleftrightarrow> guestLimit (fst w) = limit \<and> distinct (acceptedGuests (fst w)) \<and>
     int (length (acceptedGuests (fst w))) \<le> max 0 (sint limit) \<and>
     distinct (confirmedBy (fst (snd w))) \<and> set (confirmedBy (fst (snd w))) = set (acceptedGuests (fst w))"

lemma sagaInv_step:
  assumes "sagaInv limit w" "sagaHandleEvent (responseSagaHandler (loggingHandler h)) c (Some e) w = (w', r)"
  shows "sagaInv limit w'"
proof -
  obtain s log w0 where w: "w = (s, log, w0)" by (cases w) auto
  let ?g = "aggregateID e"
  have w': "w' = fst (responseRunSaga c e (loggingHandler h) (s, log, w0))"
    using assms(2) by (auto simp: w sagaHandleEvent_def responseSagaHandler_def split: prod.splits)
  consider (none) "eventType e \<noteq> InviteAcceptedEvent \<or> ?g \<in> set (acceptedGuests s)"
    | (deny) "eventType e = InviteAcceptedEvent" "?g \<notin> set (acceptedGuests s)" "sagaFull s"
    | (confirm) "eventType e = InviteAcceptedEvent" "?g \<notin> set (acceptedGuests s)" "\<not> sagaFull s" by blast
  then show ?thesis
  proof cases
    case none
    with assms(1) w' show ?thesis by (auto simp: w responseRunSaga_def)
  next
    case deny
    with assms(1) w' show ?thesis by (simp add: w responseRunSaga_def loggingHandler_def sagaInv_def split: prod.splits)
  next
    case confirm
    with assms(1) w' show ?thesis
      by (simp add: w responseRunSaga_def loggingHandler_def sagaInv_def sagaAdmit_def sagaFull_def List.insert_def split: prod.splits)
  qed
qed

lemma sagaAll_inv:
  "sagaInv limit w \<Longrightarrow> sagaAll (responseSagaHandler (loggingHandler h)) c es w = (w', rs) \<Longrightarrow> sagaInv limit w'"
  by (induction es arbitrary: w rs) (auto split: prod.splits dest: sagaInv_step)

section \<open>Several runs of the saga\<close>

text \<open>
  An event bus may run a handler for several events at once. The runs share the saga: the lookup
  and the insertion are locked, each on its own; between them the length of the map is read.
\<close>

datatype sagaRun = SagaIdle | SagaLookup UUID | SagaLen UUID | SagaInsert UUID | SagaIssue command

record sagaSys =
  ssSaga :: ResponseSaga
  ssRuns :: "sagaRun list"
  ssIssued :: "command list"

inductive sagaStep :: "sagaSys \<Rightarrow> sagaSys \<Rightarrow> bool" where
  start: "i < length (ssRuns s) \<Longrightarrow> ssRuns s ! i = SagaIdle \<Longrightarrow> eventType (e :: event) = InviteAcceptedEvent \<Longrightarrow>
    sagaStep s (s\<lparr>ssRuns := (ssRuns s)[i := SagaLookup (aggregateID e)]\<rparr>)"
| lookup_known: "i < length (ssRuns s) \<Longrightarrow> ssRuns s ! i = SagaLookup g \<Longrightarrow> g \<in> set (acceptedGuests (ssSaga s)) \<Longrightarrow>
    sagaStep s (s\<lparr>ssRuns := (ssRuns s)[i := SagaIdle]\<rparr>)"
| lookup_new: "i < length (ssRuns s) \<Longrightarrow> ssRuns s ! i = SagaLookup g \<Longrightarrow> g \<notin> set (acceptedGuests (ssSaga s)) \<Longrightarrow>
    sagaStep s (s\<lparr>ssRuns := (ssRuns s)[i := SagaLen g]\<rparr>)"
| len_full: "i < length (ssRuns s) \<Longrightarrow> ssRuns s ! i = SagaLen g \<Longrightarrow> sagaFull (ssSaga s) \<Longrightarrow>
    sagaStep s (s\<lparr>ssRuns := (ssRuns s)[i := SagaIssue (DenyInvite g)]\<rparr>)"
| len_space: "i < length (ssRuns s) \<Longrightarrow> ssRuns s ! i = SagaLen g \<Longrightarrow> \<not> sagaFull (ssSaga s) \<Longrightarrow>
    sagaStep s (s\<lparr>ssRuns := (ssRuns s)[i := SagaInsert g]\<rparr>)"
| insert_guest: "i < length (ssRuns s) \<Longrightarrow> ssRuns s ! i = SagaInsert g \<Longrightarrow>
    sagaStep s (s\<lparr>ssSaga := sagaAdmit g (ssSaga s), ssRuns := (ssRuns s)[i := SagaIssue (ConfirmInvite g)]\<rparr>)"
| issue: "i < length (ssRuns s) \<Longrightarrow> ssRuns s ! i = SagaIssue cmd \<Longrightarrow>
    sagaStep s (s\<lparr>ssIssued := ssIssued s @ [cmd], ssRuns := (ssRuns s)[i := SagaIdle]\<rparr>)"

inductive_cases sagaStep_elim: "sagaStep s s'"

definition sagaInit :: "gint \<Rightarrow> nat \<Rightarrow> sagaSys" where
  "sagaInit limit n = \<lparr>ssSaga = NewResponseSaga limit, ssRuns = replicate n SagaIdle, ssIssued = []\<rparr>"

abbreviation inserting :: "sagaRun \<Rightarrow> bool" where
  "inserting r \<equiv> (\<exists>g. r = SagaInsert g)"

text \<open>A run that found space counts against the limit only when it inserts, so each of the others may add one more.\<close>

definition sagaSysInv :: "gint \<Rightarrow> nat \<Rightarrow> sagaSys \<Rightarrow> bool" where
  "sagaSysInv limit n s \<longleftrightarrow> guestLimit (ssSaga s) = limit \<and> length (ssRuns s) = n \<and>
     int (length (acceptedGuests (ssSaga s)) + length (filter inserting (ssRuns s))) \<le> max 0 (sint limit + int n - 1) \<and>
     (\<forall>cmd. SagaIssue cmd \<in> set (ssRuns s) \<longrightarrow> set (confirmedBy [cmd]) \<subseteq> set (acceptedGuests (ssSaga s))) \<and>
     set (confirmedBy (ssIssued s)) \<subseteq> set (acceptedGuests (ssSaga s))"


lemma inserting_update:
  "i < length rs \<Longrightarrow> length (filter inserting (rs[i := r])) + (if inserting (rs ! i) then 1 else 0) =
     length (filter inserting rs) + (if inserting r then 1 else 0)"
proof (induction rs arbitrary: i)
  case (Cons x rs)
  then show ?case by (cases i) auto
qed simp

lemma inserting_same:
  "i < length rs \<Longrightarrow> \<not> inserting (rs ! i) \<Longrightarrow> \<not> inserting r \<Longrightarrow>
   length (filter inserting (rs[i := r])) = length (filter inserting rs)"
  using inserting_update [of i rs r] by simp

lemma set_update_cases: "x \<in> set (xs[i := y]) \<Longrightarrow> x = y \<or> x \<in> set xs"
  by (metis insertE set_update_subset_insert subsetD)

lemma sagaStep_inv:
  assumes "sagaStep s s'" "sagaSysInv limit n s"
  shows "sagaSysInv limit n s'"
  using assms
proof (cases rule: sagaStep.cases)
  case (len_space i g)
  have "length (filter inserting ((ssRuns s)[i := SagaInsert g])) \<le> n"
    using length_filter_le [of inserting "(ssRuns s)[i := SagaInsert g]"] assms(2) by (simp add: sagaSysInv_def)
  with len_space assms(2) show ?thesis
    by (auto simp: sagaSysInv_def sagaFull_def dest!: set_update_cases)
next
  case (insert_guest i g)
  with inserting_update [of i "ssRuns s" "SagaIssue (ConfirmInvite g)"] assms(2) show ?thesis
    by (auto simp: sagaSysInv_def sagaAdmit_def List.insert_def dest!: set_update_cases)
next
  case (issue i cmd)
  then have "SagaIssue cmd \<in> set (ssRuns s)" by (metis nth_mem)
  with issue inserting_update [of i "ssRuns s" SagaIdle] assms(2) show ?thesis
    by (auto simp: sagaSysInv_def dest!: set_update_cases)
qed (auto simp: sagaSysInv_def inserting_same dest!: set_update_cases)

section \<open>Properties\<close>

text \<open>
  The read model of an invitation refines the aggregate: over a history of the aggregate's events that
  starts with its creation, the projector gives a model with the aggregate's ID, name and age, the number of
  events as its version, and a status that the aggregate has reached.
\<close>

theorem invitation_read_model_refines:
  assumes "applyEvents us invEnv c (NewInvitationAggregate aid) (map Some (e # es)) = (a, Ret ())"
    and "eventType e = InviteCreatedEvent" "\<forall>e' \<in> set (e # es). invitationEvent e' \<and> aggregateID e' = aid"
  shows "\<exists>i. invProjectAll showData showEvent c (e # es) (invitationEntity newInvitation) = Ret (Some (invitationEntity i)) \<and>
    shows_invitation i (aggState a) \<and> imID i = aid \<and> imVersion i = of_nat (Suc (length es))"
proof -
  let ?a = "NewInvitationAggregate aid"
  obtain a1 where ap: "invApplyEvent c e ?a = (a1, Ret ())" using invApplyEvent_Ret [of c e ?a] by (metis prod.collapse)
  with assms(1) have rest: "applyEvents us invEnv c (SetAggregateVersion (version e) a1) (map Some es) = (a, Ret ())"
    by (auto split: if_splits)
  have "shows_invitation newInvitation (aggState ?a)" by (simp add: shows_invitation_def newInvitation_def NewInvitationAggregate_def)
  from invProject_sim [OF ap this, of showData showEvent] assms(2,3) obtain i1 where
    "invProject showData showEvent c e (invitationEntity newInvitation) = Ret (Some (invitationEntity i1))"
    "shows_invitation i1 (aggState a1)" "imVersion i1 = 1" "imID i1 = aid" by (auto simp: newInvitation_def)
  with invProjectAll_sim [OF rest, of i1 aid showData showEvent] assms(3) show ?thesis by auto
qed

definition inviteEvent :: "string \<Rightarrow> UUID \<Rightarrow> gint \<Rightarrow> event" where
  "inviteEvent t g v = \<lparr>eventType = t, data = (if t = InviteCreatedEvent then Some (InviteCreatedData ''Ann'' 30) else None),
     timestamp = 1, aggregateType = InvitationAggregateType, aggregateID = g, version = v, metadata = None\<rparr>"

lemma inviteEvent_sel [simp]:
  "eventType (inviteEvent t g v) = t" "aggregateID (inviteEvent t g v) = g" "version (inviteEvent t g v) = v"
  "aggregateType (inviteEvent t g v) = InvitationAggregateType"
  "data (inviteEvent InviteCreatedEvent g v) = Some (InviteCreatedData ''Ann'' 30)"
  by (simp_all add: inviteEvent_def)

theorem invitation_read_model_refines_witness:
  "\<exists>i. invProjectAll (\<lambda>_. ''d'') (\<lambda>_. ''e'') context_Background
       [inviteEvent InviteCreatedEvent 7 1, inviteEvent InviteAcceptedEvent 7 2] (invitationEntity newInvitation) =
         Ret (Some (invitationEntity i)) \<and> imName i = ''Ann'' \<and> imID i = 7 \<and> imVersion i = 2"
proof -
  let ?e = "inviteEvent InviteCreatedEvent 7 1" and ?f = "inviteEvent InviteAcceptedEvent 7 2"
  let ?r = "applyEvents (\<lambda>_. ''u'') invEnv context_Background (NewInvitationAggregate 7) (map Some [?e, ?f])"
  have r: "snd ?r = Ret ()"
    by (rule invApply_total) (simp add: NewInvitationAggregate_def NewAggregateBase_def AggregateType_def)
  have nm: "invName (aggState (fst ?r)) = ''Ann''"
    by (simp add: invApplyEvent_def NewInvitationAggregate_def NewAggregateBase_def AggregateType_def SetAggregateVersion_def
        InviteCreatedData_def stringField_def structField_def)
  have ev: "invitationEvent ?e" "invitationEvent ?f" by (simp_all add: invitationEvent_def InviteCreatedData_def)
  from r have "?r = (fst ?r, Ret ())" by (simp add: prod_eq_iff)
  from invitation_read_model_refines [OF this, of "\<lambda>_. ''d''" "\<lambda>_. ''e''"] ev obtain i where
    "invProjectAll (\<lambda>_. ''d'') (\<lambda>_. ''e'') context_Background [?e, ?f] (invitationEntity newInvitation) = Ret (Some (invitationEntity i))"
    "shows_invitation i (aggState (fst ?r))" "imID i = 7" "imVersion i = 2" by auto
  with nm show ?thesis by (auto simp only: shows_invitation_def)
qed

text \<open>
  The guest list read model counts: over the in-memory repository, delivering answers to the
  guest list projector makes every delivery succeed, and the stored list has the number of
  acceptances, refusals, confirmations and denials delivered, and their guests. Every delivery counts, an
  event that is delivered again included, because the list has no version.
\<close>

theorem guest_list_counts:
  assumes "memRepoInv env fresh s" "memView env fresh s i = None" "i \<noteq> uuid_Nil"
    and "\<forall>g. jsonStorable env fresh (guestListEntity g)" "\<forall>e \<in> set es. answerEvent e" "es \<noteq> []"
  shows "\<exists>s'. guestListAll showEvent (memRepoOps env) i c es s = (s', replicate (length es) (Ret ())) \<and>
    memView env fresh s' = (memView env fresh s)(i \<mapsto> guestListEntity
      \<lparr>glID = i, NumGuests = tally InviteAcceptedEvent es + tally InviteDeclinedEvent es,
       NumAccepted = tally InviteAcceptedEvent es, NumDeclined = tally InviteDeclinedEvent es,
       NumConfirmed = tally InviteConfirmedEvent es, NumDenied = tally InviteDeniedEvent es\<rparr>)"
  using memr.guestList_counts [of "memRepoOps env" env i fresh s es "newGuestList i" showEvent c] assms
  by (auto simp: memRepoOps_def newGuestList_def addTally_def)

text \<open>A repository encoding of guest lists for the example: the numbers in unary.\<close>

definition encNums :: "nat list \<Rightarrow> string" where
  "encNums ns = concat (map (\<lambda>n. replicate n (CHR ''1'') @ ''/'') ns)"

fun decNums :: "nat \<Rightarrow> string \<Rightarrow> nat list" where
  "decNums k [] = []"
| "decNums k (x # xs) = (if x = CHR ''/'' then k # decNums 0 xs else decNums (Suc k) xs)"

lemma decNums_replicate: "decNums k (replicate n (CHR ''1'') @ xs) = decNums (k + n) xs"
  by (induction n arbitrary: k) auto

lemma decNums_encNums [simp]: "decNums 0 (encNums ns) = ns"
  by (induction ns) (simp_all add: encNums_def decNums_replicate)

definition guestListJson :: jsonEnv where
  "guestListJson = \<lparr>
     json_Marshal = (\<lambda>e. case asGuestList e of
        Some g \<Rightarrow> Ret (encNums [unat (glID g), unat (NumGuests g), unat (NumAccepted g), unat (NumDeclined g),
          unat (NumConfirmed g), unat (NumDenied g)])
      | None \<Rightarrow> Fail (NewError ''json'')),
     json_Unmarshal = (\<lambda>b fresh. case decNums 0 b of
        [i, n1, n2, n3, n4, n5] \<Rightarrow> Ret (guestListEntity \<lparr>glID = of_nat i, NumGuests = of_nat n1, NumAccepted = of_nat n2,
          NumDeclined = of_nat n3, NumConfirmed = of_nat n4, NumDenied = of_nat n5\<rparr>)
      | _ \<Rightarrow> Fail (NewError ''json''))\<rparr>"

lemma guestListJson_storable [simp]: "jsonStorable guestListJson fresh (guestListEntity g)"
  by (cases g) (simp add: jsonStorable_def guestListJson_def)

theorem guest_list_counts_witness:
  "\<exists>s'. guestListAll (\<lambda>_. ''e'') (memRepoOps guestListJson) 9 context_Background
       [inviteEvent InviteAcceptedEvent 7 2, inviteEvent InviteDeclinedEvent 8 2, inviteEvent InviteConfirmedEvent 7 3]
       (memSetEntityFactory NewMemRepo countFresh) = (s', [Ret (), Ret (), Ret ()]) \<and>
     memView guestListJson countFresh s' 9 = Some (guestListEntity
       \<lparr>glID = 9, NumGuests = 2, NumAccepted = 1, NumDeclined = 1, NumConfirmed = 1, NumDenied = 0\<rparr>)"
proof -
  let ?es = "[inviteEvent InviteAcceptedEvent 7 2, inviteEvent InviteDeclinedEvent 8 2, inviteEvent InviteConfirmedEvent 7 3]"
  let ?s = "memSetEntityFactory NewMemRepo countFresh"
  have inv: "memRepoInv guestListJson countFresh ?s" and none: "memView guestListJson countFresh ?s 9 = None"
    by (simp_all add: memRepoInv_def memView_def memSetEntityFactory_def NewMemRepo_def)
  have "\<forall>e \<in> set ?es. answerEvent e" by (simp add: answerEvent_def)
  with guest_list_counts [OF inv none, of ?es "\<lambda>_. ''e''" context_Background] obtain s' where
    "guestListAll (\<lambda>_. ''e'') (memRepoOps guestListJson) 9 context_Background ?es ?s = (s', replicate (length ?es) (Ret ()))"
    "memView guestListJson countFresh s' 9 = Some (guestListEntity
      \<lparr>glID = 9, NumGuests = tally InviteAcceptedEvent ?es + tally InviteDeclinedEvent ?es,
       NumAccepted = tally InviteAcceptedEvent ?es, NumDeclined = tally InviteDeclinedEvent ?es,
       NumConfirmed = tally InviteConfirmedEvent ?es, NumDenied = tally InviteDeniedEvent ?es\<rparr>)" by auto
  moreover have "replicate (length ?es) (Ret () :: unit go) = [Ret (), Ret (), Ret ()]" by simp
  ultimately show ?thesis by (intro exI [of _ s']) simp
qed

text \<open>
  The response saga keeps its limit when its runs follow one another, whatever the command
  handler answers: no guest is confirmed twice, and at most as many guests are confirmed as the limit allows.
\<close>

theorem response_saga_limit:
  assumes "sagaAll (responseSagaHandler (loggingHandler h)) c es (NewResponseSaga limit, [], w) = ((s', cmds, w'), rs)"
  shows "distinct (confirmedBy cmds) \<and> int (length (confirmedBy cmds)) \<le> max 0 (sint limit)"
proof -
  have "sagaInv limit (NewResponseSaga limit, [], w)" by (simp add: sagaInv_def NewResponseSaga_def)
  from sagaAll_inv [OF this assms] have inv: "sagaInv limit (s', cmds, w')" .
  then have "length (confirmedBy cmds) = length (acceptedGuests s')"
    by (simp add: sagaInv_def) (metis distinct_card)
  with inv show ?thesis by (simp add: sagaInv_def)
qed

theorem response_saga_limit_witness:
  "\<exists>s' cmds w' rs. sagaAll (responseSagaHandler (loggingHandler (\<lambda>c cmd w. (w, Ret ())))) context_Background
       [inviteEvent InviteAcceptedEvent 7 2, inviteEvent InviteAcceptedEvent 8 2, inviteEvent InviteAcceptedEvent 7 2]
       (NewResponseSaga 1, [], ()) = ((s', cmds, w'), rs) \<and> cmds = [ConfirmInvite 7, DenyInvite 8] \<and>
     length (confirmedBy cmds) \<le> 1"
proof -
  let ?h = "responseSagaHandler (loggingHandler (\<lambda>c cmd w. (w, Ret ())))"
  let ?es = "[inviteEvent InviteAcceptedEvent 7 2, inviteEvent InviteAcceptedEvent 8 2, inviteEvent InviteAcceptedEvent 7 2]"
  have run: "sagaAll ?h context_Background ?es (NewResponseSaga 1, [], ()) =
      ((\<lparr>acceptedGuests = [7], guestLimit = 1\<rparr>, [ConfirmInvite 7, DenyInvite 8], ()), [Ret (), Ret (), Ret ()])"
    by (simp add: sagaHandleEvent_def responseSagaHandler_def responseRunSaga_def loggingHandler_def NewResponseSaga_def
        sagaFull_def sagaAdmit_def)
  from response_saga_limit [OF this] have "length (confirmedBy [ConfirmInvite 7, DenyInvite 8]) \<le> 1" by simp
  with run show ?thesis by blast
qed

text \<open>
  With several runs at the same time the response saga may confirm more guests than its limit: reading
  the number of accepted guests and adding one are not one step. With \<open>n\<close> runs at once at most
  \<open>n - 1\<close> guests more than the limit are confirmed.
\<close>

theorem response_saga_bound:
  assumes "sagaStep\<^sup>*\<^sup>* (sagaInit limit n) s" "0 \<le> sint limit" "0 < n"
  shows "int (card (set (confirmedBy (ssIssued s)))) \<le> sint limit + int n - 1"
proof -
  have "sagaSysInv limit n s" using assms(1)
  proof (induction rule: rtranclp_induct)
    case base
    have "filter inserting (replicate n SagaIdle) = []" by (simp add: filter_empty_conv)
    then show ?case by (simp add: sagaSysInv_def sagaInit_def NewResponseSaga_def)
  qed (rule sagaStep_inv)
  moreover from this have "card (set (confirmedBy (ssIssued s))) \<le> length (acceptedGuests (ssSaga s))"
    by (auto simp: sagaSysInv_def intro: le_trans [OF card_mono card_length])
  ultimately show ?thesis using assms(2,3) by (simp add: sagaSysInv_def)
qed

theorem response_saga_bound_witness:
  "\<exists>s. sagaStep\<^sup>*\<^sup>* (sagaInit 1 2) s \<and> card (set (confirmedBy (ssIssued s))) = 2"
proof -
  let ?mk = "\<lambda>acc runs issued. \<lparr>ssSaga = \<lparr>acceptedGuests = acc, guestLimit = 1\<rparr>, ssRuns = runs, ssIssued = issued\<rparr>"
  let ?pa = "?mk [] [SagaIdle, SagaIdle] []"
  let ?pb = "?mk [] [SagaLookup 7, SagaIdle] []"
  let ?pc = "?mk [] [SagaLookup 7, SagaLookup 8] []"
  let ?pd = "?mk [] [SagaLen 7, SagaLookup 8] []"
  let ?pe = "?mk [] [SagaLen 7, SagaLen 8] []"
  let ?pf = "?mk [] [SagaInsert 7, SagaLen 8] []"
  let ?pg = "?mk [] [SagaInsert 7, SagaInsert 8] []"
  let ?ph = "?mk [7] [SagaIssue (ConfirmInvite 7), SagaInsert 8] []"
  let ?pi = "?mk [8, 7] [SagaIssue (ConfirmInvite 7), SagaIssue (ConfirmInvite 8)] []"
  let ?pj = "?mk [8, 7] [SagaIdle, SagaIssue (ConfirmInvite 8)] [ConfirmInvite 7]"
  let ?pk = "?mk [8, 7] [SagaIdle, SagaIdle] [ConfirmInvite 7, ConfirmInvite 8]"
  have "sagaInit 1 2 = ?pa" by (simp add: sagaInit_def NewResponseSaga_def numeral_2_eq_2)
  moreover have "sagaStep ?pa ?pb" using sagaStep.start [of 0 ?pa "(inviteEvent InviteAcceptedEvent 7 2)"] by (simp add: sagaFull_def sagaAdmit_def)
  moreover have "sagaStep ?pb ?pc" using sagaStep.start [of 1 ?pb "(inviteEvent InviteAcceptedEvent 8 2)"] by (simp add: sagaFull_def sagaAdmit_def)
  moreover have "sagaStep ?pc ?pd" using sagaStep.lookup_new [of 0 ?pc 7] by (simp add: sagaFull_def sagaAdmit_def)
  moreover have "sagaStep ?pd ?pe" using sagaStep.lookup_new [of 1 ?pd 8] by (simp add: sagaFull_def sagaAdmit_def)
  moreover have "sagaStep ?pe ?pf" using sagaStep.len_space [of 0 ?pe 7] by (simp add: sagaFull_def sagaAdmit_def)
  moreover have "sagaStep ?pf ?pg" using sagaStep.len_space [of 1 ?pf 8] by (simp add: sagaFull_def sagaAdmit_def)
  moreover have "sagaStep ?pg ?ph" using sagaStep.insert_guest [of 0 ?pg 7] by (simp add: sagaFull_def sagaAdmit_def)
  moreover have "sagaStep ?ph ?pi" using sagaStep.insert_guest [of 1 ?ph 8] by (simp add: sagaFull_def sagaAdmit_def)
  moreover have "sagaStep ?pi ?pj" using sagaStep.issue [of 0 ?pi "ConfirmInvite 7"] by (simp add: sagaFull_def sagaAdmit_def)
  moreover have "sagaStep ?pj ?pk" using sagaStep.issue [of 1 ?pj "ConfirmInvite 8"] by (simp add: sagaFull_def sagaAdmit_def)
  ultimately have "sagaStep\<^sup>*\<^sup>* (sagaInit 1 2) ?pk" by (simp only:)
  moreover from response_saga_bound [OF this] have "card (set (confirmedBy (ssIssued ?pk))) \<le> 2" by simp
  moreover have "confirmedBy [ConfirmInvite 7, ConfirmInvite 8] = [7, 8]"
    by (simp add: confirmedBy_def isCmd_def ConfirmInvite_def inviteCommand_def)
  ultimately show ?thesis by (intro exI [of _ ?pk]) simp
qed

end
