(* ===== verification/Http.thy ===== *)
theory Http
  imports Codec CommandHandlers Repo
begin

text \<open>
  The HTTP handlers (\<^verbatim>\<open>httputils\<close>): commands by POST, queries by GET, and the event handler that
  forwards events to websocket connections. Of a request the code reads the method, the path, the body and the
  context; of a response the status, the content type and the body are kept. The text of an error
  (\<open>errStr\<close>), JSON and the UUID parser are parameters.
\<close>

section \<open>Requests and responses\<close>

record request =
  rqMethod :: string
  rqPath :: string
  rqBody :: "string go"
  rqContext :: ctx

record response =
  rsStatus :: nat
  rsContentType :: string
  rsBody :: string

text \<open>\<^verbatim>\<open>http.Error\<close>.\<close>

definition http_Error :: "string \<Rightarrow> nat \<Rightarrow> response" where
  "http_Error msg code = \<lparr>rsStatus = code, rsContentType = ''text/plain; charset=utf-8'', rsBody = msg @ [CHR 0x0A]\<rparr>"

text \<open>The file part of \<^verbatim>\<open>path.Split\<close>: what follows the last slash.\<close>

definition path_file :: "string \<Rightarrow> string" where
  "path_file p = rev (takeWhile (\<lambda>ch. ch \<noteq> CHR ''/'') (rev p))"

lemma path_file_simps [simp]:
  "CHR ''/'' \<notin> set s \<Longrightarrow> path_file (p @ CHR ''/'' # s) = s" "path_file (p @ ''/'') = ''''"
  by (auto simp: path_file_def takeWhile_append)

section \<open>Commands\<close>

text \<open>\<open>unmarshal\<close> is \<^verbatim>\<open>json.Unmarshal\<close> onto the command that the factory created.\<close>

definition CommandHandler_HTTP ::
    "(err \<Rightarrow> string) \<Rightarrow> command option typeRegistry \<Rightarrow> (string \<Rightarrow> command option \<Rightarrow> command option go) \<Rightarrow>
     'w CommandHandlerFn \<Rightarrow> string \<Rightarrow> request \<Rightarrow> 'w \<Rightarrow> 'w \<times> response go" where
  "CommandHandler_HTTP errStr commands unmarshal handler commandType rq w =
     (if rqMethod rq \<noteq> ''POST'' then (w, Ret (http_Error (''unsupported method: '' @ rqMethod rq) 405))
      else case CreateCommand commands commandType of
        Panic p \<Rightarrow> (w, Panic p)
      | Fail x \<Rightarrow> (w, Ret (http_Error (''could not create command: '' @ errStr x) 400))
      | Ret fresh \<Rightarrow>
          (case rqBody rq of
             Panic p \<Rightarrow> (w, Panic p)
           | Fail x \<Rightarrow> (w, Ret (http_Error (''could not read command: '' @ errStr x) 400))
           | Ret b \<Rightarrow>
               (case unmarshal b fresh of
                  Panic p \<Rightarrow> (w, Panic p)
                | Fail x \<Rightarrow> (w, Ret (http_Error (''could not decode command: '' @ errStr x) 400))
                | Ret cmd \<Rightarrow>
                    (case handler context_Background cmd w of
                       (w', Panic p) \<Rightarrow> (w', Panic p)
                     | (w', Fail x) \<Rightarrow> (w', Ret (http_Error (''could not handle command: '' @ errStr x) 400))
                     | (w', Ret _) \<Rightarrow> (w', Ret \<lparr>rsStatus = 200, rsContentType = '''', rsBody = ''''\<rparr>)))))"

section \<open>Queries\<close>

text \<open>What is encoded: one item or the list of all.\<close>

datatype queryData = OneItem entity | AllItems "entity list"

definition encodeResult :: "(err \<Rightarrow> string) \<Rightarrow> (queryData \<Rightarrow> string go) \<Rightarrow> queryData \<Rightarrow> response go" where
  "encodeResult errStr marshal d =
     (case marshal d of
        Panic p \<Rightarrow> Panic p
      | Fail x \<Rightarrow> Ret (http_Error (''could not encode result: '' @ errStr x) 500)
      | Ret b \<Rightarrow> Ret \<lparr>rsStatus = 200, rsContentType = ''application/json'', rsBody = b\<rparr>)"

definition QueryHandler ::
    "(err \<Rightarrow> string) \<Rightarrow> (string \<Rightarrow> UUID go) \<Rightarrow> (queryData \<Rightarrow> string go) \<Rightarrow> 's Repo \<Rightarrow> request \<Rightarrow> 's \<Rightarrow> 's \<times> response go" where
  "QueryHandler errStr parse marshal repo rq s =
     (if rqMethod rq \<noteq> ''GET'' then (s, Ret (http_Error (''unsupported method: '' @ rqMethod rq) 405))
      else let idStr = path_file (rqPath rq) in
        if idStr = '''' then
          (case rFindAll repo (rqContext rq) s of
             (s', Panic p) \<Rightarrow> (s', Panic p)
           | (s', Fail x) \<Rightarrow> (s', Ret (http_Error (''could not find items: '' @ errStr x) 500))
           | (s', Ret es) \<Rightarrow> (s', encodeResult errStr marshal (AllItems es)))
        else
          (case parse idStr of
             Panic p \<Rightarrow> (s, Panic p)
           | Fail x \<Rightarrow> (s, Ret (http_Error (''could not parse ID: '' @ errStr x) 400))
           | Ret i \<Rightarrow>
               (case rFind repo (rqContext rq) i s of
                  (s', Panic p) \<Rightarrow> (s', Panic p)
                | (s', Fail x) \<Rightarrow>
                    (s', Ret (if errors_Is x ErrEntityNotFound then http_Error ''could not find item'' 404
                              else http_Error (''could not find item: '' @ errStr x) 500))
                | (s', Ret e) \<Rightarrow> (s', encodeResult errStr marshal (OneItem e)))))"

section \<open>Events over websockets\<close>

text \<open>
  A connection: its channel with room for 10 events, whether its loop still runs, and the messages written
  to it. The handler keeps the channels of all connections ever made.
\<close>

record wsConn =
  wcQueue :: "event option list"
  wcOpen :: bool
  wcSent :: "string list"

type_synonym EventBusHandler = "wsConn list"

definition NewEventBusHandler :: EventBusHandler where
  "NewEventBusHandler = []"

definition wsHandlerType :: string where
  "wsHandlerType = ''websocket''"

definition wsOffer :: "event option \<Rightarrow> wsConn \<Rightarrow> wsConn" where
  "wsOffer ev k = (if length (wcQueue k) < 10 then k\<lparr>wcQueue := wcQueue k @ [ev]\<rparr> else k)"

definition wsHandleEvent :: "event option \<Rightarrow> EventBusHandler \<Rightarrow> EventBusHandler \<times> unit go" where
  "wsHandleEvent ev h = (map (wsOffer ev) h, Ret ())"

text \<open>\<^verbatim>\<open>ServeHTTP\<close> up to its loop; \<open>upgraded\<close> tells whether the upgrade worked.\<close>

definition wsConnect :: "bool \<Rightarrow> EventBusHandler \<Rightarrow> EventBusHandler" where
  "wsConnect upgraded h = (if upgraded then h @ [\<lparr>wcQueue = [], wcOpen = True, wcSent = []\<rparr>] else h)"

text \<open>One turn of the loop of \<^verbatim>\<open>ServeHTTP\<close>; \<open>written\<close> tells whether the write worked.\<close>

definition wsTurn :: "eventCodec \<Rightarrow> bool \<Rightarrow> wsConn \<Rightarrow> wsConn" where
  "wsTurn codec written k =
     (case wcQueue k of
        [] \<Rightarrow> k
      | ev # q \<Rightarrow>
          (case MarshalEvent codec context_Background ev of
             Ret b \<Rightarrow> if written then k\<lparr>wcQueue := q, wcSent := wcSent k @ [b]\<rparr> else k\<lparr>wcQueue := q, wcOpen := False\<rparr>
           | _ \<Rightarrow> k\<lparr>wcQueue := q, wcOpen := False\<rparr>))"

text \<open>Runs, with the events that were handled since each connection was made.\<close>

inductive wsRun :: "eventCodec \<Rightarrow> event option list list \<Rightarrow> EventBusHandler \<Rightarrow> bool" for codec where
  ws_new: "wsRun codec [] NewEventBusHandler"
| ws_handle: "wsRun codec offs h \<Longrightarrow> wsHandleEvent ev h = (h', r) \<Longrightarrow> wsRun codec (map (\<lambda>xs. xs @ [ev]) offs) h'"
| ws_connect: "wsRun codec offs h \<Longrightarrow> wsRun codec (if up then offs @ [[]] else offs) (wsConnect up h)"
| ws_turn: "wsRun codec offs h \<Longrightarrow> i < length h \<Longrightarrow> wcOpen (h ! i) \<Longrightarrow> wcQueue (h ! i) \<noteq> [] \<Longrightarrow>
    wsRun codec offs (h[i := wsTurn codec written (h ! i)])"

definition wsOk :: "eventCodec \<Rightarrow> event option list \<Rightarrow> wsConn \<Rightarrow> bool" where
  "wsOk codec xs k \<longleftrightarrow> length (wcQueue k) \<le> 10 \<and>
     (\<exists>ys. subseq (ys @ wcQueue k) xs \<and> list_all2 (\<lambda>ev b. MarshalEvent codec context_Background ev = Ret b) ys (wcSent k) \<and>
        (wcOpen k \<and> length xs \<le> 10 \<longrightarrow> ys @ wcQueue k = xs))"

lemma wsOk_offer:
  assumes "wsOk codec xs k"
  shows "wsOk codec (xs @ [ev]) (wsOffer ev k)"
proof -
  from assms obtain ys where ys: "subseq (ys @ wcQueue k) xs"
    "list_all2 (\<lambda>ev b. MarshalEvent codec context_Background ev = Ret b) ys (wcSent k)"
    "wcOpen k \<and> length xs \<le> 10 \<longrightarrow> ys @ wcQueue k = xs" and len: "length (wcQueue k) \<le> 10" by (auto simp: wsOk_def)
  show ?thesis
  proof (cases "length (wcQueue k) < 10")
    case True
    have "subseq ((ys @ wcQueue k) @ [ev]) (xs @ [ev])" using ys(1) by (intro list_emb_append_mono) simp_all
    with True ys show ?thesis by (auto simp: wsOk_def wsOffer_def intro!: exI [of _ ys])
  next
    case False
    have "length (wcQueue k) \<le> length xs" using list_emb_length [OF ys(1)] by simp
    with False have "\<not> length (xs @ [ev]) \<le> 10" by simp
    moreover have "subseq (ys @ wcQueue k) (xs @ [ev])" using ys(1) by (rule list_emb_prefix)
    ultimately show ?thesis using False ys(2) len by (auto simp: wsOk_def wsOffer_def intro!: exI [of _ ys])
  qed
qed

lemma wsOk_turn:
  assumes "wsOk codec xs k" "wcQueue k \<noteq> []"
  shows "wsOk codec xs (wsTurn codec written k)"
proof -
  from assms obtain ys ev q where ys: "subseq (ys @ wcQueue k) xs"
    "list_all2 (\<lambda>ev b. MarshalEvent codec context_Background ev = Ret b) ys (wcSent k)"
    "wcOpen k \<and> length xs \<le> 10 \<longrightarrow> ys @ wcQueue k = xs" and q: "wcQueue k = ev # q" "length q \<le> 10"
    by (cases "wcQueue k") (auto simp: wsOk_def)
  have drop: "wsOk codec xs (k\<lparr>wcQueue := q, wcOpen := False\<rparr>)"
  proof -
    have "subseq (ys @ q) (ys @ wcQueue k)" using q(1) by (auto intro!: list_emb_append_mono)
    from subseq_order.trans [OF this ys(1)] have "subseq (ys @ q) xs" .
    with ys(2) q(2) show ?thesis by (auto simp: wsOk_def)
  qed
  show ?thesis
  proof (cases "MarshalEvent codec context_Background ev")
    case (Ret b)
    have "wsOk codec xs (k\<lparr>wcQueue := q, wcSent := wcSent k @ [b]\<rparr>)"
      using ys q Ret by (auto simp: wsOk_def list_all2_appendI intro!: exI [of _ "ys @ [ev]"])
    with drop q Ret show ?thesis by (simp add: wsTurn_def)
  qed (use drop q in \<open>simp_all add: wsTurn_def\<close>)
qed

lemma wsRun_ok: "wsRun codec offs h \<Longrightarrow> list_all2 (wsOk codec) offs h"
proof (induction rule: wsRun.induct)
  case (ws_handle offs h ev h' r)
  from ws_handle.IH have "list_all2 (\<lambda>xs k. wsOk codec (xs @ [ev]) (wsOffer ev k)) offs h"
    by (rule list_all2_mono) (rule wsOk_offer)
  with ws_handle.hyps(2) show ?case by (auto simp: wsHandleEvent_def list_all2_map1 list_all2_map2)
next
  case (ws_connect offs h up)
  then show ?case by (auto simp: wsConnect_def wsOk_def intro!: list_all2_appendI)
next
  case (ws_turn offs h i written)
  then show ?case by (auto simp: list_all2_conv_all_nth nth_list_update wsOk_turn)
qed (simp add: NewEventBusHandler_def)

text \<open>The channel of a connection that has ended stays with the handler and fills up.\<close>

lemma wsRun_never_removes:
  assumes "i < length h" "\<not> wcOpen (h ! i)"
  shows "i < length (map (wsOffer ev) h) \<and> \<not> wcOpen (map (wsOffer ev) h ! i) \<and>
    length (wcQueue (map (wsOffer ev) h ! i)) = (if length (wcQueue (h ! i)) < 10 then Suc (length (wcQueue (h ! i))) else length (wcQueue (h ! i)))"
  using assms by (simp add: wsOffer_def)

section \<open>Properties\<close>

text \<open>
  A command sent over HTTP is answered with status 200 exactly when the request is a POST, the
  command type is registered, the body is read and decoded, and the command handler accepted the decoded
  command; then the state is the one the handler left. With any other status the command handler was
  not called or refused the command.
\<close>

theorem http_command_status:
  assumes "CommandHandler_HTTP errStr commands unmarshal handler t rq w = (w', Ret resp)"
  shows "(rsStatus resp = 200 \<longleftrightarrow> (\<exists>fresh b cmd. rqMethod rq = ''POST'' \<and> CreateCommand commands t = Ret fresh \<and>
      rqBody rq = Ret b \<and> unmarshal b fresh = Ret cmd \<and> handler context_Background cmd w = (w', Ret ()))) \<and>
    (rsStatus resp \<noteq> 200 \<longrightarrow> w' = w \<or> (\<exists>cmd x. handler context_Background cmd w = (w', Fail x) \<and> rsStatus resp = 400))"
  using assms
  by (auto simp: CommandHandler_HTTP_def http_Error_def split: if_splits outcome.splits prod.splits)

definition echoCommand :: command where
  "echoCommand = \<lparr>cmdAggregateID = 7, cmdAggregateType = ''T'', cmdType = ''Echo'', cmdID = None, cmdValue = gstructPtr ''Echo'' []\<rparr>"

definition echoCommands :: "command option typeRegistry" where
  "echoCommands = \<lparr>items = [''Echo'' \<mapsto> Some echoCommand], regName = ''command''\<rparr>"

theorem http_command_status_witness:
  "\<exists>resp. CommandHandler_HTTP (\<lambda>_. ''e'') echoCommands (\<lambda>b fresh. Ret fresh) (\<lambda>c cmd w. (Suc w, Ret ())) ''Echo''
       \<lparr>rqMethod = ''POST'', rqPath = ''/'', rqBody = Ret '''', rqContext = context_Background\<rparr> 0 = (1, Ret resp) \<and> rsStatus resp = 200"
proof -
  let ?rq = "\<lparr>rqMethod = ''POST'', rqPath = ''/'', rqBody = Ret '''', rqContext = context_Background\<rparr>"
  let ?r = "\<lparr>rsStatus = 200, rsContentType = '''', rsBody = ''''\<rparr>"
  have "CommandHandler_HTTP (\<lambda>_. ''e'') echoCommands (\<lambda>b fresh. Ret fresh) (\<lambda>c cmd w. (Suc w, Ret ())) ''Echo'' ?rq 0 = (1, Ret ?r)"
    by (simp add: CommandHandler_HTTP_def CreateCommand_def registry_get_def echoCommands_def)
  with http_command_status [OF this] show ?thesis by auto
qed

text \<open>
  Queries over HTTP on the in-memory repository. A GET of a path that ends in an ID answers 200 with the
  encoded item when it is stored and 404 when it is not, and a GET of a path that ends in a slash answers 200
  with the encoded list of all items in the order they were first saved; the repository does not change.
\<close>

theorem http_query_memory:
  assumes "memRepoInv env fresh s" "rqMethod rq = ''GET''" "\<And>d. \<exists>b. marshal d = Ret b"
    and "rqPath rq = p @ ''/'' @ idStr" "CHR ''/'' \<notin> set idStr" "idStr = '''' \<or> parse idStr = Ret i"
  shows "\<exists>resp. QueryHandler errStr parse marshal (memRepoOps env) rq s = (s, Ret resp) \<and>
    (if idStr = '''' then rsStatus resp = 200 \<and> marshal (AllItems (map (\<lambda>i. the (memView env fresh s i)) (rIds s))) = Ret (rsBody resp)
     else case memView env fresh s i of
       Some e \<Rightarrow> rsStatus resp = 200 \<and> marshal (OneItem e) = Ret (rsBody resp)
     | None \<Rightarrow> rsStatus resp = 404)"
proof -
  have path: "path_file (rqPath rq) = idStr" using assms(4,5) by simp
  obtain b where b: "marshal (AllItems (map (\<lambda>i. the (memView env fresh s i)) (rIds s))) = Ret b" using assms(3) by blast
  obtain o1 where f: "memFind env (rqContext rq) i s = (s, o1)" by (simp add: memFind_def)
  show ?thesis
  proof (cases "idStr = ''''")
    case True
    with assms(2) path b memFindAll_view [OF assms(1)] show ?thesis by (simp add: QueryHandler_def memRepoOps_def encodeResult_def)
  next
    case ne: False
    with assms(6) have i: "parse idStr = Ret i" by simp
    show ?thesis
    proof (cases "memView env fresh s i")
      case None
      from memr.find_none [OF assms(1) None f] ne assms(2) path i f None show ?thesis
        by (auto simp: QueryHandler_def memRepoOps_def http_Error_def)
    next
      case (Some e)
      obtain b where "marshal (OneItem e) = Ret b" using assms(3) by blast
      with memr.find_some [OF assms(1) Some f] ne assms(2) path i f Some show ?thesis
        by (simp add: QueryHandler_def memRepoOps_def encodeResult_def)
    qed
  qed
qed


text \<open>A repository of items that are encoded by their IDs in unary, for the example.\<close>

definition idEntity :: "UUID \<Rightarrow> entity" where
  "idEntity i = \<lparr>entityID = i, entityVersion = None, entityBody = GBool True\<rparr>"

definition idJson :: jsonEnv where
  "idJson = \<lparr>json_Marshal = (\<lambda>e. Ret (replicate (unat (entityID e)) (CHR ''i''))),
     json_Unmarshal = (\<lambda>b fresh. Ret (idEntity (of_nat (length b))))\<rparr>"

definition idRepo :: memRepo where
  "idRepo = fst (memRepoSave idJson context_Background (idEntity 3) (memSetEntityFactory NewMemRepo (idEntity 0)))"

lemma idRepo_view: "memRepoInv idJson (idEntity 0) idRepo" "memView idJson (idEntity 0) idRepo = [3 \<mapsto> idEntity 3]"
proof -
  let ?s = "memSetEntityFactory NewMemRepo (idEntity 0)"
  have inv: "memRepoInv idJson (idEntity 0) ?s" "memView idJson (idEntity 0) ?s = Map.empty"
    by (simp_all add: memRepoInv_def memView_def memSetEntityFactory_def NewMemRepo_def fun_eq_iff)
  have "jsonStorable idJson (idEntity 0) (idEntity 3)" by (simp add: jsonStorable_def idJson_def idEntity_def)
  from memr.save_ok [OF inv(1) this _ prod.collapse [symmetric]] inv(2)
  show "memRepoInv idJson (idEntity 0) idRepo" "memView idJson (idEntity 0) idRepo = [3 \<mapsto> idEntity 3]"
    by (simp_all add: idRepo_def idEntity_def)
qed

theorem http_query_memory_witness:
  "\<exists>resp. QueryHandler (\<lambda>_. ''e'') (\<lambda>s. Ret 3) (\<lambda>d. Ret ''{}'') (memRepoOps idJson)
       \<lparr>rqMethod = ''GET'', rqPath = ''/api/3'', rqBody = Ret '''', rqContext = context_Background\<rparr> idRepo = (idRepo, Ret resp) \<and>
     rsStatus resp = 200 \<and> rsBody resp = ''{}''"
proof -
  let ?rq = "\<lparr>rqMethod = ''GET'', rqPath = ''/api/3'', rqBody = Ret '''', rqContext = context_Background\<rparr>"
  from http_query_memory [OF idRepo_view(1), of ?rq "\<lambda>d. Ret ''{}''" "''/api''" "''3''" "\<lambda>s. Ret 3" 3 "\<lambda>_. ''e''"]
  obtain resp where "QueryHandler (\<lambda>_. ''e'') (\<lambda>s. Ret 3) (\<lambda>d. Ret ''{}'') (memRepoOps idJson) ?rq idRepo = (idRepo, Ret resp)"
    "rsStatus resp = 200" "rsBody resp = ''{}''" by (auto simp: idRepo_view(2))
  then show ?thesis by blast
qed

text \<open>
  A websocket connection gets the handled events in order: the messages written to it are the encodings of
  events that were handled after it was made, in the order they were handled, followed by the events that wait in its
  queue of at most 10; an open connection has missed none of its first 10 events.
\<close>

theorem websocket_in_order:
  assumes "wsRun codec offs h" "i < length h"
  shows "\<exists>ys. list_all2 (\<lambda>ev b. MarshalEvent codec context_Background ev = Ret b) ys (wcSent (h ! i)) \<and>
    subseq (ys @ wcQueue (h ! i)) (offs ! i) \<and> length (wcQueue (h ! i)) \<le> 10 \<and>
    (wcOpen (h ! i) \<and> length (offs ! i) \<le> 10 \<longrightarrow> ys @ wcQueue (h ! i) = offs ! i)"
  using list_all2_nthD2 [OF wsRun_ok [OF assms(1)] assms(2)] by (auto simp: wsOk_def)

theorem websocket_in_order_witness:
  "\<exists>codec offs h. wsRun codec offs h \<and> wcSent (h ! 0) = [''m''] \<and>
     (\<exists>ys. subseq (ys @ wcQueue (h ! 0)) (offs ! 0) \<and> length ys = 1)"
proof -
  let ?codec = "\<lparr>MarshalEvent = \<lambda>c ev. Ret ''m'', UnmarshalEvent = \<lambda>c b. Fail (NewError '''')\<rparr>"
  let ?h = "[wsTurn ?codec True (wsOffer None \<lparr>wcQueue = [], wcOpen = True, wcSent = []\<rparr>)]"
  have h: "?h = [\<lparr>wcQueue = [], wcOpen = True, wcSent = [''m'']\<rparr>]" by (simp add: wsOffer_def wsTurn_def)
  have "wsRun ?codec [[]] [\<lparr>wcQueue = [], wcOpen = True, wcSent = []\<rparr>]"
    using ws_connect [OF ws_new, of ?codec True] by (simp add: wsConnect_def NewEventBusHandler_def)
  from ws_handle [OF this, of None] have "wsRun ?codec [[None]] [wsOffer None \<lparr>wcQueue = [], wcOpen = True, wcSent = []\<rparr>]"
    by (simp add: wsHandleEvent_def)
  from ws_turn [OF this, of 0 True] have run: "wsRun ?codec [[None]] ?h" by (simp add: wsOffer_def)
  from websocket_in_order [OF run, of 0] obtain ys where
    "list_all2 (\<lambda>ev b. MarshalEvent ?codec context_Background ev = Ret b) ys (wcSent (?h ! 0))"
    "subseq (ys @ wcQueue (?h ! 0)) ([[None]] ! 0)" by auto
  moreover from this(1) have "length ys = 1" using h by (auto dest: list_all2_lengthD)
  ultimately show ?thesis using run h by (intro exI [of _ ?codec] exI [of _ "[[None]]"] exI [of _ ?h]) auto
qed

end
