(* ===== verification/Graceful.thy ===== *)
theory Graceful
  imports Values
begin

text \<open>
  The graceful context of the outboxes (\<^verbatim>\<open>outbox/mongodb/graceful.go\<close>, and the same file in
  \<^verbatim>\<open>outbox/memory\<close>): a context that is done some time after its parent, as long as there is activity. The
  goroutine behind it is a timed step relation: time passes while the goroutine waits, and not past
  the moment at which it has something to do. The timers follow the rules of Go 1.23 and later, where stopping a
  timer that was not received from succeeds and leaves nothing in its channel.
\<close>

section \<open>The goroutine\<close>

datatype gcPhase =
    GcWaiting \<comment> \<open>for the parent or for \<open>stopCh\<close>\<close>
  | GcDraining time time \<comment> \<open>until the idle timer or the forced end\<close>
  | GcDone \<comment> \<open>\<open>doneCh\<close> is closed\<close>

record graceful =
  gcIdle :: duration
  gcForceAfter :: duration
  gcParentDone :: bool
  gcStopClosed :: bool
  gcPhase :: gcPhase
  gcNow :: time

definition NewGracefulContext :: "bool \<Rightarrow> duration \<Rightarrow> duration \<Rightarrow> time \<Rightarrow> graceful" where
  "NewGracefulContext parentDone idle forceAfter now =
     \<lparr>gcIdle = idle, gcForceAfter = forceAfter, gcParentDone = parentDone, gcStopClosed = False, gcPhase = GcWaiting, gcNow = now\<rparr>"

text \<open>\<^verbatim>\<open>Done\<close>, as whether its channel is closed, and \<^verbatim>\<open>Err\<close>, which is the embedded parent's.\<close>

definition gcIsDone :: "graceful \<Rightarrow> bool" where
  "gcIsDone g \<longleftrightarrow> gcPhase g = GcDone"

definition gcHasErr :: "graceful \<Rightarrow> bool" where
  "gcHasErr g \<longleftrightarrow> gcParentDone g"

text \<open>\<^verbatim>\<open>keepAlive\<close>: the send succeeds when the goroutine waits in its loop and is dropped otherwise.\<close>

definition keepAlive :: "graceful \<Rightarrow> graceful" where
  "keepAlive g =
     (case gcPhase g of
        GcDraining i f \<Rightarrow> g\<lparr>gcPhase := GcDraining (gcNow g + gcIdle g) f\<rparr>
      | _ \<Rightarrow> g)"

text \<open>\<^verbatim>\<open>cancel\<close>; the second close of the channel panics.\<close>

definition gcCancel :: "graceful \<Rightarrow> ('e, graceful) outcome" where
  "gcCancel g = (if gcStopClosed g then Panic ''close of closed channel'' else Ret (g\<lparr>gcStopClosed := True\<rparr>))"

text \<open>Whether the goroutine has something to do, and when its timers fire at the latest.\<close>

definition gcUrgent :: "graceful \<Rightarrow> bool" where
  "gcUrgent g \<longleftrightarrow>
     (case gcPhase g of
        GcWaiting \<Rightarrow> gcParentDone g \<or> gcStopClosed g
      | GcDraining i f \<Rightarrow> i \<le> gcNow g \<or> f \<le> gcNow g
      | GcDone \<Rightarrow> False)"

definition gcMayPass :: "duration \<Rightarrow> graceful \<Rightarrow> bool" where
  "gcMayPass d g \<longleftrightarrow>
     (case gcPhase g of
        GcWaiting \<Rightarrow> \<not> gcParentDone g \<and> \<not> gcStopClosed g
      | GcDraining i f \<Rightarrow> gcNow g + d \<le> min i f
      | GcDone \<Rightarrow> True)"

datatype gcLabel = GcPass | GcParentDone | GcAlive | GcCancel | GcOwn

inductive gcStep :: "graceful \<Rightarrow> gcLabel \<Rightarrow> graceful \<Rightarrow> bool" where
  pass: "0 \<le> d \<Longrightarrow> gcMayPass d g \<Longrightarrow> gcStep g GcPass (g\<lparr>gcNow := gcNow g + d\<rparr>)"
| parent: "gcStep g GcParentDone (g\<lparr>gcParentDone := True\<rparr>)"
| alive: "gcStep g GcAlive (keepAlive g)"
| cancelled: "gcCancel g = (Ret g' :: (unit, graceful) outcome) \<Longrightarrow> gcStep g GcCancel g'"
| see_parent: "gcPhase g = GcWaiting \<Longrightarrow> gcParentDone g \<Longrightarrow>
    gcStep g GcOwn (g\<lparr>gcPhase := GcDraining (gcNow g + gcIdle g) (gcNow g + gcForceAfter g)\<rparr>)"
| see_stop: "gcPhase g = GcWaiting \<Longrightarrow> gcStopClosed g \<Longrightarrow> gcStep g GcOwn (g\<lparr>gcPhase := GcDone\<rparr>)"
| idle_fires: "gcPhase g = GcDraining i f \<Longrightarrow> i \<le> gcNow g \<Longrightarrow> gcStep g GcOwn (g\<lparr>gcPhase := GcDone\<rparr>)"
| force_fires: "gcPhase g = GcDraining i f \<Longrightarrow> f \<le> gcNow g \<Longrightarrow> gcStep g GcOwn (g\<lparr>gcPhase := GcDone\<rparr>)"

text \<open>
  Runs, with the times at which the parent was done and at which the context was done, and with the
  time of the last activity that reached the goroutine.
\<close>

record gcHist =
  ghParent :: "time option"
  ghDone :: "time option"
  ghAlive :: "time option"

definition gcObserve :: "gcLabel \<Rightarrow> graceful \<Rightarrow> graceful \<Rightarrow> gcHist \<Rightarrow> gcHist" where
  "gcObserve l g g' h =
     h\<lparr>ghParent := (if ghParent h = None \<and> gcParentDone g' then Some (gcNow g') else ghParent h),
       ghDone := (if ghDone h = None \<and> gcIsDone g' then Some (gcNow g') else ghDone h),
       ghAlive := (if l = GcAlive \<and> (\<exists>i f. gcPhase g = GcDraining i f) then Some (gcNow g) else ghAlive h)\<rparr>"

inductive gcRun :: "graceful \<Rightarrow> gcHist \<Rightarrow> graceful \<Rightarrow> bool" for start where
  gc_start: "gcRun start \<lparr>ghParent = (if gcParentDone start then Some (gcNow start) else None), ghDone = None, ghAlive = None\<rparr> start"
| gc_step: "gcRun start h g \<Longrightarrow> gcStep g l g' \<Longrightarrow> gcRun start (gcObserve l g g' h) g'"

text \<open>The invariant of a run.\<close>

definition gcInv :: "duration \<Rightarrow> duration \<Rightarrow> gcHist \<Rightarrow> graceful \<Rightarrow> bool" where
  "gcInv idle force h g \<longleftrightarrow> gcIdle g = idle \<and> gcForceAfter g = force \<and> (gcParentDone g \<longleftrightarrow> ghParent h \<noteq> None) \<and>
     (gcIsDone g \<longleftrightarrow> ghDone h \<noteq> None) \<and>
     (case gcPhase g of
        GcWaiting \<Rightarrow> ghAlive h = None \<and> (\<forall>t. ghParent h = Some t \<longrightarrow> gcNow g = t)
      | GcDraining i f \<Rightarrow> (\<exists>t. ghParent h = Some t \<and> f = t + force \<and> t \<le> gcNow g \<and> gcNow g \<le> min i f \<and>
          i = (case ghAlive h of Some a \<Rightarrow> a | None \<Rightarrow> t) + idle \<and> (\<forall>a. ghAlive h = Some a \<longrightarrow> t \<le> a \<and> a \<le> gcNow g))
      | GcDone \<Rightarrow> gcStopClosed g \<or> (\<exists>t d. ghParent h = Some t \<and> ghDone h = Some d \<and> d \<le> t + force \<and>
          (d = t + force \<or> d = (case ghAlive h of Some a \<Rightarrow> a | None \<Rightarrow> t) + idle) \<and> (\<forall>a. ghAlive h = Some a \<longrightarrow> t \<le> a)))"

lemma gcInv_step:
  assumes "gcStep g l g'" "gcInv idle force h g" "0 \<le> idle" "0 \<le> force"
  shows "gcInv idle force (gcObserve l g g' h) g'"
  using assms
proof (cases rule: gcStep.cases)
  case (pass d)
  with assms show ?thesis
    by (cases "gcPhase g") (auto simp: gcInv_def gcObserve_def gcMayPass_def gcIsDone_def)
next
  case parent
  with assms show ?thesis
    by (cases "gcPhase g") (auto simp: gcInv_def gcObserve_def gcIsDone_def)
next
  case alive
  with assms show ?thesis
    by (cases "gcPhase g") (auto simp: gcInv_def gcObserve_def gcIsDone_def keepAlive_def)
next
  case cancelled
  with assms show ?thesis
    by (cases "gcPhase g") (auto simp: gcInv_def gcObserve_def gcIsDone_def gcCancel_def split: if_splits)
next
  case see_parent
  with assms show ?thesis by (auto simp: gcInv_def gcObserve_def gcIsDone_def)
next
  case see_stop
  with assms show ?thesis by (auto simp: gcInv_def gcObserve_def gcIsDone_def)
next
  case (idle_fires i f)
  with assms show ?thesis by (auto simp: gcInv_def gcObserve_def gcIsDone_def)
next
  case (force_fires i f)
  with assms show ?thesis by (auto simp: gcInv_def gcObserve_def gcIsDone_def)
qed

lemma gcRun_inv:
  assumes "gcRun (NewGracefulContext pd idle force now) h g" "0 \<le> idle" "0 \<le> force"
  shows "gcInv idle force h g"
  using assms(1)
proof (induction rule: gcRun.induct)
  case gc_start
  then show ?case by (auto simp: gcInv_def NewGracefulContext_def gcIsDone_def)
next
  case (gc_step h g l g')
  with gcInv_step assms show ?case by blast
qed

text \<open>Time is never stuck: when it may not pass at all, the goroutine can take a step.\<close>

lemma gcStep_progress:
  assumes "gcUrgent g"
  shows "\<exists>g'. gcStep g GcOwn g'"
proof (cases "gcPhase g")
  case (GcDraining i f)
  with assms show ?thesis by (auto simp: gcUrgent_def intro: gcStep.idle_fires gcStep.force_fires)
qed (use assms in \<open>auto simp: gcUrgent_def intro: gcStep.see_parent gcStep.see_stop\<close>)

lemma gcMayPass_progress: "\<not> gcUrgent g \<Longrightarrow> \<exists>d>0. gcMayPass d g"
proof (cases "gcPhase g")
  case (GcDraining i f)
  assume "\<not> gcUrgent g"
  with GcDraining show ?thesis by (intro exI [of _ "min i f - gcNow g"]) (auto simp: gcUrgent_def gcMayPass_def)
qed (auto simp: gcUrgent_def gcMayPass_def intro: exI [of _ 1])

text \<open>Between the end of the parent and its own end the context has an error although it is not done.\<close>

lemma graceful_err_before_done:
  "\<exists>h g. gcRun (NewGracefulContext False 5 50 0) h g \<and> gcHasErr g \<and> \<not> gcIsDone g"
proof -
  let ?g = "NewGracefulContext False 5 50 0"
  have "gcStep ?g GcParentDone (?g\<lparr>gcParentDone := True\<rparr>)" by (rule gcStep.parent)
  from gc_step [OF gc_start this] show ?thesis
    by (intro exI conjI, assumption) (simp_all add: gcHasErr_def gcIsDone_def NewGracefulContext_def)
qed

section \<open>Properties\<close>

text \<open>
  The graceful context ends in time. With an idle time that is at most the forced time, and as long
  as \<^verbatim>\<open>cancel\<close> is not called, the context is not done before its parent has been done for the idle time,
  it is done at the latest when the parent has been done for the forced time, and it is done exactly then or when
  nothing kept it alive for the idle time.
\<close>

theorem graceful_bounds:
  assumes "gcRun (NewGracefulContext pd idle force now) h g" "0 \<le> idle" "idle \<le> force" "\<not> gcStopClosed g"
  shows "(\<forall>d. ghDone h = Some d \<longrightarrow> (\<exists>t. ghParent h = Some t \<and> t + idle \<le> d \<and> d \<le> t + force \<and>
      (d = t + force \<or> d = (case ghAlive h of Some a \<Rightarrow> a | None \<Rightarrow> t) + idle))) \<and>
    (\<forall>t. ghParent h = Some t \<and> ghDone h = None \<longrightarrow> gcNow g \<le> t + force)"
proof -
  have inv: "gcInv idle force h g" using assms by (intro gcRun_inv) auto
  show ?thesis
  proof (cases "gcPhase g")
    case GcWaiting
    with inv assms(2,3) show ?thesis by (auto simp: gcInv_def gcIsDone_def)
  next
    case (GcDraining i f)
    with inv have "ghDone h = None" "\<exists>t. ghParent h = Some t \<and> gcNow g \<le> t + force" by (auto simp: gcInv_def gcIsDone_def)
    then show ?thesis by auto
  next
    case GcDone
    with inv assms(4) obtain t d where td: "ghParent h = Some t" "ghDone h = Some d" "d \<le> t + force"
      "d = t + force \<or> d = (case ghAlive h of Some a \<Rightarrow> a | None \<Rightarrow> t) + idle" "\<forall>a. ghAlive h = Some a \<longrightarrow> t \<le> a"
      by (auto simp: gcInv_def)
    moreover from this(5) have "t \<le> (case ghAlive h of Some a \<Rightarrow> a | None \<Rightarrow> t)" by (cases "ghAlive h") auto
    ultimately show ?thesis using assms(3) by auto
  qed
qed

theorem graceful_bounds_witness:
  "\<exists>h g. gcRun (NewGracefulContext True 5 50 0) h g \<and> ghDone h = Some 5 \<and> ghParent h = Some 0"
proof -
  let ?g = "\<lambda>ph n. \<lparr>gcIdle = 5, gcForceAfter = 50, gcParentDone = True, gcStopClosed = False, gcPhase = ph, gcNow = n\<rparr>"
  let ?h = "\<lambda>d. \<lparr>ghParent = Some 0, ghDone = d, ghAlive = None\<rparr>"
  have "gcRun (NewGracefulContext True 5 50 0) (?h None) (?g GcWaiting 0)"
    using gc_start [of "NewGracefulContext True 5 50 0"] by (simp add: NewGracefulContext_def)
  from gc_step [OF this gcStep.see_parent]
  have "gcRun (NewGracefulContext True 5 50 0) (?h None) (?g (GcDraining 5 50) 0)" by (simp add: gcObserve_def gcIsDone_def)
  from gc_step [OF this gcStep.pass, of 5]
  have "gcRun (NewGracefulContext True 5 50 0) (?h None) (?g (GcDraining 5 50) 5)" by (simp add: gcObserve_def gcIsDone_def gcMayPass_def)
  from gc_step [OF this gcStep.idle_fires]
  have run: "gcRun (NewGracefulContext True 5 50 0) (?h (Some 5)) (?g GcDone 5)" by (simp add: gcObserve_def gcIsDone_def)
  from graceful_bounds [OF run] have "\<exists>t. Some 0 = Some t \<and> t + 5 \<le> (5 :: time)" by simp
  with run show ?thesis by (intro exI conjI) auto
qed

end
