(* ===== verification/Tracing.thy ===== *)
theory Tracing
  imports Context Event_Middleware EventStore_Memory AggregateStore_Events Repo
begin

text \<open>
  The tracing wrappers (\<^verbatim>\<open>tracing\<close>) of repositories, event stores, event handlers, event buses, outboxes and command
  handlers. The tracer is the Open Tracing library: the world of a wrapper has, beside the world of
  what it wraps, the calls that were made to the tracer, and \<open>spanCtx\<close> is the context that the
  library returns with a new span. The registered functions that carry spans between processes
  (\<^verbatim>\<open>tracing/context.go\<close>) call a tracer that is a record of what they use of the library.
\<close>

section \<open>Spans\<close>

datatype traceCall =
    StartSpan nat string
  | SetTag nat string gvalue
  | LogError nat err
  | FinishSpan nat

type_synonym 's traced = "'s \<times> traceCall list"

text \<open>
  A call in a span. \<open>after\<close> are the calls to the tracer that follow the wrapped call, and the
  panic that ends them, if one does. A panic of the wrapped call passes through and leaves the span open.
\<close>

definition inSpan ::
    "(ctx \<Rightarrow> nat \<Rightarrow> ctx) \<Rightarrow> string \<Rightarrow> (ctx \<Rightarrow> 's traced \<Rightarrow> 's traced \<times> 'a go) \<Rightarrow>
     (nat \<Rightarrow> 'a go \<Rightarrow> traceCall list \<times> string option) \<Rightarrow> ctx \<Rightarrow> 's traced \<Rightarrow> 's traced \<times> 'a go" where
  "inSpan spanCtx opName inner after c st =
     (let sp = length (snd st) in
      case inner (spanCtx c sp) (fst st, snd st @ [StartSpan sp opName]) of
        (st1, Panic p) \<Rightarrow> (st1, Panic p)
      | (st1, r) \<Rightarrow>
          (case after sp r of
             (calls, Some p) \<Rightarrow> ((fst st1, snd st1 @ calls), Panic p)
           | (calls, None) \<Rightarrow> ((fst st1, snd st1 @ calls @ [FinishSpan sp]), r)))"

definition logError :: "nat \<Rightarrow> 'a go \<Rightarrow> traceCall list" where
  "logError sp r = (case r of Fail x \<Rightarrow> [LogError sp x] | _ \<Rightarrow> [])"

definition eventTags :: "nat \<Rightarrow> event option \<Rightarrow> traceCall list \<times> string option" where
  "eventTags sp ev =
     (case ev of
        None \<Rightarrow> ([], Some ''nil pointer dereference'')
      | Some e \<Rightarrow> ([SetTag sp ''eh.event_type'' (GString (eventType e)), SetTag sp ''eh.aggregate_type'' (GString (aggregateType e)),
          SetTag sp ''eh.aggregate_id'' (GUUID (aggregateID e)), SetTag sp ''eh.version'' (GInt (version e))], None))"

section \<open>Repositories\<close>

definition traceFind ::
    "(ctx \<Rightarrow> nat \<Rightarrow> ctx) \<Rightarrow> (ctx \<Rightarrow> UUID \<Rightarrow> 's traced \<Rightarrow> 's traced \<times> entity go) \<Rightarrow>
     ctx \<Rightarrow> UUID \<Rightarrow> 's traced \<Rightarrow> 's traced \<times> entity go" where
  "traceFind spanCtx fnd c i = inSpan spanCtx ''Repo.Find'' (\<lambda>c. fnd c i)
     (\<lambda>sp r. (SetTag sp ''eh.aggregate_id'' (GUUID i) #
        (case r of Fail x \<Rightarrow> if errors_Is x ErrEntityNotFound then [] else [LogError sp x] | _ \<Rightarrow> []), None)) c"

definition traceFindAll ::
    "(ctx \<Rightarrow> nat \<Rightarrow> ctx) \<Rightarrow> (ctx \<Rightarrow> 's traced \<Rightarrow> 's traced \<times> entity list go) \<Rightarrow>
     ctx \<Rightarrow> 's traced \<Rightarrow> 's traced \<times> entity list go" where
  "traceFindAll spanCtx findAll c = inSpan spanCtx ''Repo.FindAll'' findAll (\<lambda>sp r. (logError sp r, None)) c"

definition traceSave ::
    "(ctx \<Rightarrow> nat \<Rightarrow> ctx) \<Rightarrow> (ctx \<Rightarrow> entity \<Rightarrow> 's traced \<Rightarrow> 's traced \<times> unit go) \<Rightarrow>
     ctx \<Rightarrow> entity \<Rightarrow> 's traced \<Rightarrow> 's traced \<times> unit go" where
  "traceSave spanCtx save c e = inSpan spanCtx ''Repo.Save'' (\<lambda>c. save c e)
     (\<lambda>sp r. (logError sp r @ [SetTag sp ''eh.aggregate_id'' (GUUID (entityID e))], None)) c"

definition traceRemove ::
    "(ctx \<Rightarrow> nat \<Rightarrow> ctx) \<Rightarrow> (ctx \<Rightarrow> UUID \<Rightarrow> 's traced \<Rightarrow> 's traced \<times> unit go) \<Rightarrow>
     ctx \<Rightarrow> UUID \<Rightarrow> 's traced \<Rightarrow> 's traced \<times> unit go" where
  "traceRemove spanCtx remove c i = inSpan spanCtx ''Repo.Remove'' (\<lambda>c. remove c i)
     (\<lambda>sp r. (logError sp r @ [SetTag sp ''eh.aggregate_id'' (GUUID i)], None)) c"

definition NewTracingRepo :: "(ctx \<Rightarrow> nat \<Rightarrow> ctx) \<Rightarrow> 's traced Repo \<Rightarrow> 's traced Repo" where
  "NewTracingRepo spanCtx repo =
     \<lparr>rFind = traceFind spanCtx (rFind repo), rFindAll = traceFindAll spanCtx (rFindAll repo),
      rSave = traceSave spanCtx (rSave repo), rRemove = traceRemove spanCtx (rRemove repo)\<rparr>"

section \<open>Event stores\<close>

text \<open>The tags of the first event of a save or a load.\<close>

definition firstTags :: "nat \<Rightarrow> event option list \<Rightarrow> traceCall list \<times> string option" where
  "firstTags sp events = (case events of [] \<Rightarrow> ([], None) | ev # _ \<Rightarrow> eventTags sp ev)"

definition traceStoreSave ::
    "(ctx \<Rightarrow> nat \<Rightarrow> ctx) \<Rightarrow> (ctx \<Rightarrow> event option list \<Rightarrow> gint \<Rightarrow> 's traced \<Rightarrow> 's traced \<times> unit go) \<Rightarrow>
     ctx \<Rightarrow> event option list \<Rightarrow> gint \<Rightarrow> 's traced \<Rightarrow> 's traced \<times> unit go" where
  "traceStoreSave spanCtx save c events ov = inSpan spanCtx ''EventStore.Save'' (\<lambda>c. save c events ov)
     (\<lambda>sp r. case firstTags sp events of (calls, p) \<Rightarrow> (logError sp r @ calls, p)) c"

definition traceStoreLoad ::
    "(ctx \<Rightarrow> nat \<Rightarrow> ctx) \<Rightarrow> (ctx \<Rightarrow> UUID \<Rightarrow> 's traced \<Rightarrow> 's traced \<times> event option list go) \<Rightarrow>
     ctx \<Rightarrow> UUID \<Rightarrow> 's traced \<Rightarrow> 's traced \<times> event option list go" where
  "traceStoreLoad spanCtx load c i = inSpan spanCtx ''EventStore.Load'' (\<lambda>c. load c i)
     (\<lambda>sp r. case firstTags sp (case r of Ret es \<Rightarrow> es | _ \<Rightarrow> []) of (calls, p) \<Rightarrow> (logError sp r @ calls, p)) c"

text \<open>
  \<^verbatim>\<open>NewEventStore\<close>. The wrapper embeds the interface \<^verbatim>\<open>eh.EventStore\<close>: \<^verbatim>\<open>LoadFrom\<close> is the wrapped store's, and
  the wrapper has no methods for snapshots, whatever the wrapped store has.
\<close>

definition NewTracingEventStore :: "(ctx \<Rightarrow> nat \<Rightarrow> ctx) \<Rightarrow> 's traced EventStore option \<Rightarrow> 's traced EventStore option" where
  "NewTracingEventStore spanCtx store =
     map_option (\<lambda>es. \<lparr>esSave = traceStoreSave spanCtx (esSave es), esLoadFrom = esLoadFrom es, esSnapshots = None\<rparr>) store"

section \<open>Handlers\<close>

definition traceHandleEvent :: "(ctx \<Rightarrow> nat \<Rightarrow> ctx) \<Rightarrow> 's traced handler \<Rightarrow> 's traced HandleEventFn" where
  "traceHandleEvent spanCtx h c ev w =
     (case ev of
        None \<Rightarrow> (w, nilDeref)
      | Some e \<Rightarrow> inSpan spanCtx (hdType h @ ''.Event('' @ eventType e @ '')'') (\<lambda>c. hdHandle h c (Some e))
          (\<lambda>sp r. (logError sp r @ fst (eventTags sp (Some e)), None)) c w)"

definition traceEventMiddleware :: "(ctx \<Rightarrow> nat \<Rightarrow> ctx) \<Rightarrow> 's traced handler \<Rightarrow> 's traced handler" where
  "traceEventMiddleware spanCtx h = Handler (hdType h) (traceHandleEvent spanCtx h) None (Some (Some h))"

definition traceCommandMiddleware :: "(ctx \<Rightarrow> nat \<Rightarrow> ctx) \<Rightarrow> 's traced CommandHandlerFn \<Rightarrow> 's traced CommandHandlerFn" where
  "traceCommandMiddleware spanCtx h c cmd w =
     (case cmd of
        None \<Rightarrow> (w, nilDeref)
      | Some cm \<Rightarrow> inSpan spanCtx (''Command('' @ cmdType cm @ '')'') (\<lambda>c. h c cmd)
          (\<lambda>sp r. ([SetTag sp ''eh.command_type'' (GString (cmdType cm)), SetTag sp ''eh.aggregate_type'' (GString (cmdAggregateType cm)),
             SetTag sp ''eh.aggregate_id'' (GUUID (cmdAggregateID cm))] @ logError sp r, None)) c w)"

text \<open>
  The wrappers of event buses and outboxes. \<open>bus\<close> is the wrapped bus as an event handler and \<open>add\<close> its
  \<^verbatim>\<open>AddHandler\<close>; the other methods are those of the wrapped bus.
\<close>

definition traceBusHandleEvent :: "(ctx \<Rightarrow> nat \<Rightarrow> ctx) \<Rightarrow> 's traced handler \<Rightarrow> 's traced HandleEventFn" where
  "traceBusHandleEvent spanCtx bus = hdHandle (UseEventHandlerMiddleware bus [traceEventMiddleware spanCtx])"

definition traceAddHandler ::
    "(ctx \<Rightarrow> nat \<Rightarrow> ctx) \<Rightarrow> (ctx \<Rightarrow> 'm option \<Rightarrow> 's traced handler option \<Rightarrow> 'b \<Rightarrow> 'b \<times> unit go) \<Rightarrow>
     ctx \<Rightarrow> 'm option \<Rightarrow> 's traced handler option \<Rightarrow> 'b \<Rightarrow> 'b \<times> unit go" where
  "traceAddHandler spanCtx add c m h b =
     (case h of
        None \<Rightarrow> (b, Fail (Sentinel ErrMissingHandler))
      | Some h' \<Rightarrow> add c m (Some (UseEventHandlerMiddleware h' [traceEventMiddleware spanCtx])) b)"

definition traceOutboxHandleEvent :: "(ctx \<Rightarrow> nat \<Rightarrow> ctx) \<Rightarrow> 's traced handler \<Rightarrow> 's traced HandleEventFn" where
  "traceOutboxHandleEvent spanCtx outbox = hdHandle (UseEventHandlerMiddleware outbox [traceEventMiddleware spanCtx])"

definition traceOutboxAddHandler ::
    "(ctx \<Rightarrow> nat \<Rightarrow> ctx) \<Rightarrow> (ctx \<Rightarrow> 'm option \<Rightarrow> 's traced handler option \<Rightarrow> 'b \<Rightarrow> 'b \<times> unit go) \<Rightarrow>
     ctx \<Rightarrow> 'm option \<Rightarrow> 's traced handler option \<Rightarrow> 'b \<Rightarrow> 'b \<times> unit go" where
  "traceOutboxAddHandler spanCtx add c m h b =
     (case h of
        None \<Rightarrow> (b, Fail (Sentinel ErrMissingHandler))
      | Some h' \<Rightarrow> add c m (Some (UseEventHandlerMiddleware h' [traceEventMiddleware spanCtx])) b)"

section \<open>Spans in contexts\<close>

text \<open>
  What \<^verbatim>\<open>RegisterContext\<close> uses of the library and of JSON: the span of a context, a context with a span, writing the span
  to a text map and reading it back (the span that is to be the parent, or none), whether an error is
  \<^verbatim>\<open>ErrSpanContextNotFound\<close>, and the span that is started below a parent.
\<close>

type_synonym carrier = "(string \<times> string) list"

record spanTracer =
  SpanFromContext :: "ctx \<Rightarrow> nat option"
  ContextWithSpan :: "ctx \<Rightarrow> nat \<Rightarrow> ctx"
  tracer_Inject :: "nat \<Rightarrow> err + carrier"
  tracer_Extract :: "carrier \<Rightarrow> err + nat"
  isSpanNotFound :: "err \<Rightarrow> bool"
  tracer_StartSpan :: "nat option \<Rightarrow> nat"
  carrier_Marshal :: "carrier \<Rightarrow> err + string"
  carrier_Unmarshal :: "string \<Rightarrow> err + carrier"

definition spanMarshal :: "spanTracer \<Rightarrow> ContextMarshalFunc" where
  "spanMarshal T c =
     (case SpanFromContext T c of
        None \<Rightarrow> []
      | Some sp \<Rightarrow>
          (case tracer_Inject T sp of
             Inl x \<Rightarrow> []
           | Inr carrier \<Rightarrow>
               (case carrier_Marshal T carrier of
                  Inl x \<Rightarrow> []
                | Inr js \<Rightarrow> [(''eh_tracing_span'', GString js)])))"

definition spanUnmarshal :: "spanTracer \<Rightarrow> ContextUnmarshalFunc" where
  "spanUnmarshal T c vals =
     (case asString (map_of vals ''eh_tracing_span'') of
        None \<Rightarrow> c
      | Some js \<Rightarrow>
          (case carrier_Unmarshal T js of
             Inl x \<Rightarrow> c
           | Inr carrier \<Rightarrow>
               (case tracer_Extract T carrier of
                  Inl x \<Rightarrow> if isSpanNotFound T x then ContextWithSpan T c (tracer_StartSpan T None) else c
                | Inr parent \<Rightarrow> ContextWithSpan T c (tracer_StartSpan T (Some parent)))))"

definition RegisterTracingContext :: "spanTracer \<Rightarrow> ctxCodecs \<Rightarrow> ctxCodecs" where
  "RegisterTracingContext T k = RegisterContextUnmarshaler (RegisterContextMarshaler k (spanMarshal T)) (spanUnmarshal T)"

text \<open>
  A copied context carries on the trace: when the tracer can write the span of a context and read it back, the copy has a
  span that was started below it. Without a span in the source, nothing is added.
\<close>

lemma tracing_context_copied:
  assumes "MarshalContext k from = Ret vals" "map_of vals ''eh_tracing_span'' = None"
    and "\<And>c sp. SpanFromContext T (ContextWithSpan T c sp) = Some sp"
    and "SpanFromContext T from = Some sp" "tracer_Inject T sp = Inr car" "tracer_Extract T car = Inr sp"
    and "carrier_Marshal T car = Inr js" "carrier_Unmarshal T js = Inr car"
  shows "\<exists>c'. CopyContext (RegisterTracingContext T k) from to = Ret c' \<and> SpanFromContext T c' = Some (tracer_StartSpan T (Some sp))"
  using assms
  by (simp add: CopyContext_def RegisterTracingContext_def RegisterContextMarshaler_def RegisterContextUnmarshaler_def
      MarshalContext_def marshalLoop_append UnmarshalContext_def unmarshalLoop_append spanMarshal_def spanUnmarshal_def)

lemma tracing_context_without_span:
  assumes "SpanFromContext T from = None"
  shows "MarshalContext (RegisterTracingContext T k) from = MarshalContext k from"
  using assms
  by (simp add: RegisterTracingContext_def RegisterContextMarshaler_def RegisterContextUnmarshaler_def
      MarshalContext_def marshalLoop_append spanMarshal_def)
    (cases "marshalLoop (contextMarshalFuncs k) from []"; simp add: spanMarshal_def)

section \<open>Transparency\<close>

text \<open>An operation that does not use the tracer.\<close>

definition untraced :: "(ctx \<Rightarrow> 's \<Rightarrow> 's \<times> 'a go) \<Rightarrow> ctx \<Rightarrow> 's traced \<Rightarrow> 's traced \<times> 'a go" where
  "untraced f c st = (case f c (fst st) of (s', r) \<Rightarrow> ((s', snd st), r))"

text \<open>Calls whose tags cannot panic are those of the wrapped operation in the context of the span.\<close>

lemma inSpan_untraced:
  assumes "inSpan spanCtx nm (untraced f) after c st = (st', r)" "\<And>sp r. snd (after sp r) = None"
  shows "f (spanCtx c (length (snd st))) (fst st) = (fst st', r)"
  using assms(1) assms(2)
  by (auto simp: inSpan_def untraced_def Let_def split: prod.splits outcome.splits option.splits) (metis option.distinct(1) snd_conv)+

text \<open>The calls to the tracer: the span is started first and finished last.\<close>

lemma inSpan_calls:
  assumes "inSpan spanCtx nm (untraced f) after c st = (st', r)" "\<And>p. r \<noteq> Panic p"
  shows "snd st' = snd st @ [StartSpan (length (snd st)) nm] @ fst (after (length (snd st)) r) @ [FinishSpan (length (snd st))]"
  using assms
  by (auto simp: inSpan_def untraced_def Let_def split: prod.splits outcome.splits option.splits)

section \<open>The contracts\<close>

definition untracedFind :: "(ctx \<Rightarrow> UUID \<Rightarrow> 's \<Rightarrow> 's \<times> 'a go) \<Rightarrow> ctx \<Rightarrow> UUID \<Rightarrow> 's traced \<Rightarrow> 's traced \<times> 'a go" where
  "untracedFind f c i = untraced (\<lambda>c. f c i) c"

definition untracedSave :: "(ctx \<Rightarrow> entity \<Rightarrow> 's \<Rightarrow> 's \<times> unit go) \<Rightarrow> ctx \<Rightarrow> entity \<Rightarrow> 's traced \<Rightarrow> 's traced \<times> unit go" where
  "untracedSave f c e = untraced (\<lambda>c. f c e) c"

definition untracedStoreSave ::
    "(ctx \<Rightarrow> event option list \<Rightarrow> gint \<Rightarrow> 's \<Rightarrow> 's \<times> unit go) \<Rightarrow> ctx \<Rightarrow> event option list \<Rightarrow> gint \<Rightarrow> 's traced \<Rightarrow> 's traced \<times> unit go" where
  "untracedStoreSave f c events ov = untraced (\<lambda>c. f c events ov) c"

definition untracedLoadFrom ::
    "(ctx \<Rightarrow> UUID \<Rightarrow> gint \<Rightarrow> 's \<Rightarrow> 's \<times> event option list go) \<Rightarrow> ctx \<Rightarrow> UUID \<Rightarrow> gint \<Rightarrow> 's traced \<Rightarrow> 's traced \<times> event option list go" where
  "untracedLoadFrom f c i v = untraced (\<lambda>c. f c i v) c"

lemma traceFind_untraced:
  "traceFind spanCtx (untracedFind f) c i st = (st', r) \<Longrightarrow> f (spanCtx c (length (snd st))) i (fst st) = (fst st', r)"
  unfolding traceFind_def untracedFind_def by (drule inSpan_untraced) simp_all

lemma traceSave_untraced:
  "traceSave spanCtx (untracedSave f) c e st = (st', r) \<Longrightarrow> f (spanCtx c (length (snd st))) e (fst st) = (fst st', r)"
  unfolding traceSave_def untracedSave_def by (drule inSpan_untraced) simp_all

lemma traceRemove_untraced:
  "traceRemove spanCtx (untracedFind f) c i st = (st', r) \<Longrightarrow> f (spanCtx c (length (snd st))) i (fst st) = (fst st', r)"
  unfolding traceRemove_def untracedFind_def by (drule inSpan_untraced) simp_all

lemma traceStoreSave_untraced:
  "traceStoreSave spanCtx (untracedStoreSave f) c (map Some es) ov st = (st', r) \<Longrightarrow>
   f (spanCtx c (length (snd st))) (map Some es) ov (fst st) = (fst st', r)"
  unfolding traceStoreSave_def untracedStoreSave_def
  by (drule inSpan_untraced) (auto simp: firstTags_def eventTags_def split: list.splits prod.splits)

context rw_repo
begin

text \<open>A traced repository is a repository.\<close>

lemma traced_repo:
  "rw_repo (traceFind spanCtx (untracedFind fnd)) (traceSave spanCtx (untracedSave save)) (traceRemove spanCtx (untracedFind remove))
     (\<lambda>st. view (fst st)) storable (\<lambda>st. invar (fst st))"
proof (unfold_locales, goal_cases)
  case (1 st c i st' o')
  from find_state [OF 1(1) traceFind_untraced [OF 1(2)]] show ?case .
next
  case (2 st i e c st' o')
  from find_some [OF 2(1,2) traceFind_untraced [OF 2(3)]] show ?case .
next
  case (3 st i c st' o')
  from find_none [OF 3(1,2) traceFind_untraced [OF 3(3)]] show ?case .
next
  case (4 st e c st' r)
  from save_ok [OF 4(1-3) traceSave_untraced [OF 4(4)]] show ?case .
next
  case (5 st i c st' r)
  from remove_some [OF 5(1,2) traceRemove_untraced [OF 5(3)]] show ?case .
next
  case (6 st i c st' r)
  from remove_none [OF 6(1,2) traceRemove_untraced [OF 6(3)]] show ?case .
qed

end

context event_store
begin

text \<open>A traced event store is an event store.\<close>

lemma traced_event_store:
  "event_store (traceStoreSave spanCtx (untracedStoreSave save)) (untracedLoadFrom loadFrom) (\<lambda>st. stream (fst st)) storable
     (\<lambda>st. invar (fst st))"
proof (unfold_locales, goal_cases)
  case (1 st i aid)
  then show ?case by (rule stream_serial)
next
  case (2 st aid c)
  from load_stream [OF 2, of c] show ?case by (simp add: untracedLoadFrom_def untraced_def)
next
  case (3 st aid c)
  from load_missing [OF 3, of c] show ?case by (auto simp: untracedLoadFrom_def untraced_def)
next
  case (4 st es agt aid c st' r)
  from save_effect [OF 4(1-5) traceStoreSave_untraced [OF 4(6)]] show ?case .
qed

end

interpretation tracedmem: event_store "traceStoreSave spanCtx (untracedStoreSave (memSave env))" "untracedLoadFrom (memLoadFrom env)"
  "\<lambda>st. memStream (esDb (fst (fst st)))" "faithful env" "\<lambda>st. memInv env (esDb (fst (fst st)))" for spanCtx env
  by (rule mem.traced_event_store)

interpretation tracedrepo: rw_repo "traceFind spanCtx (untracedFind (memFind env))" "traceSave spanCtx (untracedSave (memRepoSave env))"
  "traceRemove spanCtx (untracedFind memRepoRemove)"
  "\<lambda>st. memView env fresh (fst st)" "jsonStorable env fresh" "\<lambda>st. memRepoInv env fresh (fst st)" for spanCtx env fresh
  by (rule memr.traced_repo)

section \<open>Properties\<close>

text \<open>
  Tracing is transparent. Each method of a traced repository gives the result and the state of the
  wrapped repository, called in the context of a new span; a call that does not panic starts that span before
  anything else and finishes it last, and logs the error of a failed call, except that an
  entity that was not found is no error for \<^verbatim>\<open>Find\<close>.
\<close>

theorem traced_find_transparent:
  assumes "traceFind spanCtx (untracedFind f) c i st = (st', r)"
  shows "f (spanCtx c (length (snd st))) i (fst st) = (fst st', r) \<and>
    ((\<exists>p. r = Panic p) \<or> snd st' = snd st @ [StartSpan (length (snd st)) ''Repo.Find'',
        SetTag (length (snd st)) ''eh.aggregate_id'' (GUUID i)] @
      (case r of Fail x \<Rightarrow> if errors_Is x ErrEntityNotFound then [] else [LogError (length (snd st)) x] | _ \<Rightarrow> []) @
      [FinishSpan (length (snd st))])"
proof (cases "\<exists>p. r = Panic p")
  case False
  with inSpan_calls [OF assms [unfolded traceFind_def untracedFind_def]] traceFind_untraced [OF assms] show ?thesis by auto
qed (use traceFind_untraced [OF assms] in blast)

definition traceFresh :: entity where
  "traceFresh = \<lparr>entityID = 0, entityVersion = None, entityBody = GBool True\<rparr>"

definition traceJson :: jsonEnv where
  "traceJson = \<lparr>json_Marshal = (\<lambda>e. Ret ''{}''), json_Unmarshal = (\<lambda>b fresh. Ret fresh)\<rparr>"

theorem traced_find_transparent_witness:
  "\<exists>st'. traceFind (\<lambda>c sp. c) (untracedFind (memFind traceJson)) context_Background 7 (memSetEntityFactory NewMemRepo traceFresh, []) =
      (st', Fail (RepoError (Some (Sentinel ErrEntityNotFound)) RepoOpFind 7)) \<and>
    snd st' = [StartSpan 0 ''Repo.Find'', SetTag 0 ''eh.aggregate_id'' (GUUID 7), FinishSpan 0]"
proof -
  let ?x = "RepoError (Some (Sentinel ErrEntityNotFound)) RepoOpFind 7"
  let ?s = "memSetEntityFactory NewMemRepo traceFresh"
  obtain st' r where run: "traceFind (\<lambda>c sp. c) (untracedFind (memFind traceJson)) context_Background 7 (?s, []) = (st', r)" by fastforce
  have "memFind traceJson context_Background 7 ?s = (?s, Fail ?x)" by (simp add: memFind_def memSetEntityFactory_def NewMemRepo_def)
  with traced_find_transparent [OF run] have "r = Fail ?x" "snd st' = [StartSpan 0 ''Repo.Find'', SetTag 0 ''eh.aggregate_id'' (GUUID 7), FinishSpan 0]"
    by auto
  with run show ?thesis by blast
qed

text \<open>
  An aggregate store over a traced event store takes no snapshots: the tracing wrapper has no snapshot
  methods, so the store is set up without a snapshot store even when the wrapped event store is one.
\<close>

theorem tracing_hides_snapshots:
  assumes "NewAggregateStore (NewTracingEventStore spanCtx (Some es)) options = Ret d"
  shows "asSnapshotStore d = None"
  using assms by (auto simp: NewTracingEventStore_def NewAggregateStore_def outcome_simps)

theorem tracing_hides_snapshots_witness:
  "\<exists>es :: nat traced EventStore. \<exists>d. esSnapshots es \<noteq> None \<and>
     NewAggregateStore (NewTracingEventStore (\<lambda>c sp. c) (Some es)) [] = Ret d \<and> asSnapshotStore d = None"
proof -
  let ?es = "\<lparr>esSave = \<lambda>c es ov w. (w, Ret ()), esLoadFrom = \<lambda>c i v w. (w, Ret []),
     esSnapshots = Some \<lparr>ssLoadSnapshot = \<lambda>c i w. (w, Ret None), ssSaveSnapshot = \<lambda>c i sn w. (w, Ret ())\<rparr>\<rparr> :: nat traced EventStore"
  obtain d where "NewAggregateStore (NewTracingEventStore (\<lambda>c sp. c) (Some ?es)) [] = Ret d"
    by (simp add: NewTracingEventStore_def NewAggregateStore_def)
  from this tracing_hides_snapshots [OF this] show ?thesis by (intro exI [of _ ?es] exI [of _ d]) simp
qed

end
