(* ===== verification/Application.thy ===== *)
theory Application
  imports Dispatch EventStore_Memory Todo Guestlist_Views Http Event_Middleware Projector Repo_Mongo
begin

text \<open>
  How the examples put the library together: \<^verbatim>\<open>SetupDomain\<close> and \<^verbatim>\<open>NewHandler\<close> of the todo list
  (\<^verbatim>\<open>examples/todomvc/backend/domains/todo/setup.go\<close>, \<^verbatim>\<open>handler/handler.go\<close>) and \<^verbatim>\<open>Setup\<close> of the guest list
  (\<^verbatim>\<open>examples/guestlist/domains/guestlist/setup.go\<close>, \<^verbatim>\<open>logger.go\<close>). The \<^verbatim>\<open>HandlerAdder\<close> that a setup is given is a
  parameter, a function on a state of its own. All handlers of a setup act on one world, in which
  the stores, repositories and sagas live.
\<close>

section \<open>Sequencing\<close>

text \<open>\<^verbatim>\<open>if err := f(); err != nil { return wrap(err) }\<close> on a state.\<close>

fun andThen :: "'s \<times> 'a go \<Rightarrow> ('s \<Rightarrow> 'a \<Rightarrow> 's \<times> 'b go) \<Rightarrow> 's \<times> 'b go" where
  "andThen (s, Ret a) f = f s a"
| "andThen (s, Fail x) f = (s, Fail x)"
| "andThen (s, Panic p) f = (s, Panic p)"

lemma andThen_Ret: "andThen m f = (s', Ret b) \<longleftrightarrow> (\<exists>s a. m = (s, Ret a) \<and> f s a = (s', Ret b))"
  by (cases m rule: prod.exhaust, cases "snd m") auto

type_synonym ('w, 'b) handlerAdder = "EventMatcher \<Rightarrow> 'w handler \<Rightarrow> 'b \<Rightarrow> 'b \<times> unit go"

text \<open>The loop that sets the handler for each type of command.\<close>

fun setHandlers :: "(string \<Rightarrow> err \<Rightarrow> err) \<Rightarrow> 'w CommandHandlerFn \<Rightarrow> string list \<Rightarrow> 'w cmdBus \<Rightarrow> 'w cmdBus \<times> unit go" where
  "setHandlers wrap h [] b = (b, Ret ())"
| "setHandlers wrap h (t # ts) b =
     (case SetHandler b h t of
        (b', Ret _) \<Rightarrow> setHandlers wrap h ts b'
      | (b', Fail x) \<Rightarrow> (b', Fail (wrap t x))
      | (b', Panic p) \<Rightarrow> (b', Panic p))"

text \<open>A projector and a saga as event handlers.\<close>

definition projectorHandler :: "time \<times> time \<Rightarrow> ('w \<Rightarrow> 'w) \<Rightarrow> 'w projHandler \<Rightarrow> 'w handler" where
  "projectorHandler now slept h = Handler (projHandlerType h) (projHandleEvent now slept h) None None"

definition sagaEventHandler :: "'w sagaHandler \<Rightarrow> 'w handler" where
  "sagaEventHandler h = Handler (sagaHandlerType h) (sagaHandleEvent h) None None"

section \<open>The in-memory store\<close>

text \<open>An aggregate store over an in-memory store.\<close>

definition memAggregateStore :: "copyEnv \<Rightarrow> ('w memStore \<times> 'w) AggregateStore" where
  "memAggregateStore cenv =
     \<lparr>asStore = memEventStore cenv, asSnapshotStore = None, asSnapshotStrategy = Some NoSnapshotStrategy\<rparr>"

lemma NewAggregateStore_mem:
  "NewAggregateStore (Some (memEventStore cenv)) [] = Ret (memAggregateStore cenv)"
  by (simp add: NewAggregateStore_def memAggregateStore_def memEventStore_def)

lemma storeOver_mem: "storeOver (memSave cenv) (memLoadFrom cenv) (memAggregateStore cenv)"
  by (simp add: storeOver_def memAggregateStore_def memEventStore_def)

section \<open>The todo list\<close>

definition todoCommandTypes :: "string list" where
  "todoCommandTypes = [''todolist:create'', ''todolist:delete'', ''todolist:add_item'', ''todolist:remove_item'',
     ''todolist:remove_completed_items'', ''todolist:set_item_description'', ''todolist:check_item'', ''todolist:check_all_items'']"

definition todoEventTypes :: "string list" where
  "todoEventTypes = [TodoCreated, TodoDeleted, ItemAdded, ItemRemoved, ItemDescriptionSet, ItemChecked]"

text \<open>
  The base repositories behind \<open>repo\<close>, what \<^verbatim>\<open>memory.IntoRepo\<close> and \<^verbatim>\<open>mongodb.IntoRepo\<close> find, get their
  entity factory first; they are the third part of the state.
\<close>

definition todoSetFactories :: "memRepo option \<times> mongoRepo option \<Rightarrow> memRepo option \<times> mongoRepo option" where
  "todoSetFactories bases =
     (map_option (\<lambda>r. memSetEntityFactory r (todoEntity newTodoList)) (fst bases),
      map_option (\<lambda>r. mrSetEntityFactory r (todoEntity newTodoList)) (snd bases))"

definition SetupDomain ::
    "(UUID \<Rightarrow> string) \<Rightarrow> time \<times> time \<Rightarrow> ('w \<Rightarrow> 'w) \<Rightarrow> 'w EventStore option \<Rightarrow> ('w, 'b) handlerAdder \<Rightarrow> 'w Repo \<Rightarrow>
     'w cmdBus \<times> 'b \<times> memRepo option \<times> mongoRepo option \<Rightarrow> ('w cmdBus \<times> 'b \<times> memRepo option \<times> mongoRepo option) \<times> unit go" where
  "SetupDomain us now slept eventStore add repo st0 =
     (case st0 of (bus, b, bases) \<Rightarrow>
      case add (MatchEvents todoEventTypes) (projectorHandler now slept (todoProjectorHandler (fst now) repo)) b of (b', r) \<Rightarrow>
      andThen ((bus, b', todoSetFactories bases), mapErr (Wrapf ''could not add handler'') r) (\<lambda>st _.
      andThen (st, mapErr (Wrapf ''could not create aggregate store'') (NewAggregateStore eventStore [])) (\<lambda>st store.
      andThen (st, mapErr (Wrapf ''could not create command handler'')
        (NewAggregateCommandHandler TodoAggregateType (Some (sourcedStore us (fst now) todoEnv store)))) (\<lambda>st ch.
      case setHandlers (\<lambda>t. Wrapf ''could not set command handler'') (aggHandleCommand (todoHandleCommand (fst now)) ch)
             todoCommandTypes (fst st) of
        (bus', res) \<Rightarrow> ((bus', snd st), res)))))"

section \<open>The routes of the todo list\<close>

text \<open>
  The patterns of \<^verbatim>\<open>http.ServeMux\<close>: one that ends in a slash matches every path it is a prefix of, another matches
  itself, and the longest match wins. A path that is no pattern but becomes one with a slash at its end is
  redirected there. Paths are clean, so there is no other redirect.
\<close>

datatype route = REvents | RQuery | RCommand string | RStatic

definition muxMatches :: "string \<Rightarrow> string \<Rightarrow> bool" where
  "muxMatches pat path = (if pat \<noteq> '''' \<and> last pat = CHR ''/'' then prefix pat path else pat = path)"

fun longestMatch :: "(string \<times> 'r) list \<Rightarrow> string \<Rightarrow> (string \<times> 'r) option" where
  "longestMatch [] path = None"
| "longestMatch ((pat, r) # rs) path =
     (case longestMatch rs path of
        None \<Rightarrow> if muxMatches pat path then Some (pat, r) else None
      | Some (pat', r') \<Rightarrow> if muxMatches pat path \<and> length pat' < length pat then Some (pat, r) else Some (pat', r'))"

definition muxRedirects :: "(string \<times> 'r) list \<Rightarrow> string \<Rightarrow> bool" where
  "muxRedirects rs path \<longleftrightarrow> path \<noteq> '''' \<and> last path \<noteq> CHR ''/'' \<and> path \<notin> set (map fst rs) \<and> path @ ''/'' \<in> set (map fst rs)"

definition movedPermanently :: "string \<Rightarrow> string \<Rightarrow> response" where
  "movedPermanently httpMethod url =
     \<lparr>rsStatus = 301, rsContentType = (if httpMethod = ''GET'' \<or> httpMethod = ''HEAD'' then ''text/html; charset=utf-8'' else ''''),
      rsBody = (if httpMethod = ''GET'' then ''<a href='' @ [CHR 0x22] @ url @ [CHR 0x22] @ ''>Moved Permanently</a>.'' @ [CHR 0x0A, CHR 0x0A] else '''')\<rparr>"

definition todoRoutes :: "(string \<times> route) list" where
  "todoRoutes =
     [(''/api/events/'', REvents), (''/api/todos/'', RQuery),
      (''/api/todos/create'', RCommand ''todolist:create''), (''/api/todos/delete'', RCommand ''todolist:delete''),
      (''/api/todos/add_item'', RCommand ''todolist:add_item''), (''/api/todos/remove_item'', RCommand ''todolist:remove_item''),
      (''/api/todos/remove_completed'', RCommand ''todolist:remove_completed_items''),
      (''/api/todos/set_item_desc'', RCommand ''todolist:set_item_description''),
      (''/api/todos/check_item'', RCommand ''todolist:check_item''), (''/api/todos/check_all_items'', RCommand ''todolist:check_all_items''),
      (''/'', RStatic)]"

text \<open>
  What the handlers of the routes are given: the text of errors, the registered commands, the decoding and encoding
  of JSON, the UUID parser, the file server, and whether the upgrade to a websocket works.
\<close>

record webEnv =
  weErrStr :: "err \<Rightarrow> string"
  weRegistered :: "command option typeRegistry"
  weDecodeCommand :: "string \<Rightarrow> command option \<Rightarrow> command option go"
  weParseID :: "string \<Rightarrow> UUID go"
  weEncodeItems :: "queryData \<Rightarrow> string go"
  weServeFile :: "string \<Rightarrow> response"
  weUpgrades :: "request \<Rightarrow> bool"

text \<open>\<^verbatim>\<open>NewHandler\<close>'s handler for one request; a websocket takes over its connection, so there is no response then.\<close>

definition todoServe ::
    "webEnv \<Rightarrow> 'w CommandHandlerFn \<Rightarrow> 'r Repo \<Rightarrow> string \<Rightarrow> request \<Rightarrow> 'w \<times> 'r \<times> EventBusHandler \<Rightarrow>
     ('w \<times> 'r \<times> EventBusHandler) \<times> response option go" where
  "todoServe env commandHandler todoRepo staticFolder rq st =
     (case st of (w, r, ws) \<Rightarrow>
        if muxRedirects todoRoutes (rqPath rq) then (st, Ret (Some (movedPermanently (rqMethod rq) (rqPath rq @ ''/''))))
        else (case longestMatch todoRoutes (rqPath rq) of
           Some (_, REvents) \<Rightarrow> ((w, r, wsConnect (weUpgrades env rq) ws), Ret None)
         | Some (_, RQuery) \<Rightarrow>
             (case QueryHandler (weErrStr env) (weParseID env) (weEncodeItems env) todoRepo rq r of
                (r', o') \<Rightarrow> ((w, r', ws), obind o' (\<lambda>resp. Ret (Some resp))))
         | Some (_, RCommand t) \<Rightarrow>
             (case CommandHandler_HTTP (weErrStr env) (weRegistered env) (weDecodeCommand env) commandHandler t rq w of
                (w', o') \<Rightarrow> ((w', r, ws), obind o' (\<lambda>resp. Ret (Some resp))))
         | Some (_, RStatic) \<Rightarrow>
             (st, Ret (Some (if rqPath rq \<in> {''/'', ''/index.html'', ''/elm.js'', ''/css/base.css'', ''/css/styles.css''}
                then weServeFile env (staticFolder @ rqPath rq)
                else \<lparr>rsStatus = 404, rsContentType = '''', rsBody = ''''\<rparr>)))
         | None \<Rightarrow> (st, Ret (Some (http_Error ''404 page not found'' 404)))))"

text \<open>
  \<^verbatim>\<open>NewHandler\<close>: the websocket handler observes the event bus in the group \<^verbatim>\<open>todomvc\<close>.
\<close>

definition websocketHandler :: "('w \<times> 'r \<times> EventBusHandler) handler" where
  "websocketHandler = Handler wsHandlerType (\<lambda>c ev st. case st of (w, r, ws) \<Rightarrow>
     case wsHandleEvent ev ws of (ws', res) \<Rightarrow> ((w, r, ws'), res)) None None"

definition NewTodoHandler ::
    "webEnv \<Rightarrow> 'w CommandHandlerFn \<Rightarrow> ('w \<times> 'r \<times> EventBusHandler, 'b) handlerAdder \<Rightarrow> 'r Repo \<Rightarrow> string \<Rightarrow> 'b \<Rightarrow>
     'b \<times> (request \<Rightarrow> 'w \<times> 'r \<times> EventBusHandler \<Rightarrow> ('w \<times> 'r \<times> EventBusHandler) \<times> response option go) go" where
  "NewTodoHandler env commandHandler add todoRepo staticFolder b =
     (case add (MatchAll []) (UseEventHandlerMiddleware websocketHandler [observerMiddleware (NamedGroup ''todomvc'')]) b of (b', r) \<Rightarrow>
      andThen (b', mapErr (Wrapf ''could not add event bus handler'') r) (\<lambda>b' _.
        (b', Ret (todoServe env commandHandler todoRepo staticFolder))))"

section \<open>The guest list\<close>

definition inviteCommandTypes :: "string list" where
  "inviteCommandTypes = map cmdType [CreateInvite 0 '''' 0, AcceptInvite 0, DeclineInvite 0, ConfirmInvite 0, DenyInvite 0]"

text \<open>\<^verbatim>\<open>LoggingMiddleware\<close> and \<^verbatim>\<open>Logger\<close>; what they print is not part of the world.\<close>

definition LoggingMiddleware :: "'w CommandHandlerFn \<Rightarrow> 'w CommandHandlerFn" where
  "LoggingMiddleware h c cmd w = h c cmd w"

definition Logger :: "'w handler" where
  "Logger = Handler ''logger'' (\<lambda>c ev w. (w, Ret ())) None None"

text \<open>
  The saga lives in the first part of the world, and the last part of the state is the saga that was made. It holds
  the command bus by pointer; here, as it is after the loop.
\<close>

definition GuestlistSetup ::
    "(UUID \<Rightarrow> string) \<Rightarrow> time \<times> time \<Rightarrow> ((ResponseSaga \<times> 'w) \<Rightarrow> (ResponseSaga \<times> 'w)) \<Rightarrow> (EventData \<Rightarrow> string) \<Rightarrow> (event \<Rightarrow> string) \<Rightarrow> UUID \<Rightarrow>
     (ResponseSaga \<times> 'w) EventStore option \<Rightarrow> (ResponseSaga \<times> 'w, 'b) handlerAdder \<Rightarrow> (ResponseSaga \<times> 'w, 'g) handlerAdder \<Rightarrow>
     (ResponseSaga \<times> 'w) Repo \<Rightarrow> (ResponseSaga \<times> 'w) Repo \<Rightarrow> UUID \<Rightarrow>
     (ResponseSaga \<times> 'w) cmdBus \<times> 'b \<times> 'g \<times> ResponseSaga option \<Rightarrow>
     ((ResponseSaga \<times> 'w) cmdBus \<times> 'b \<times> 'g \<times> ResponseSaga option) \<times> unit go" where
  "GuestlistSetup us now slept showData showEvent grp eventStore locl glob invitationRepo guestListRepo eventID st =
     (let addL = (\<lambda>m h msg st. case st of (bus, l, g, sg) \<Rightarrow> case locl m h l of (l', r) \<Rightarrow> ((bus, l', g, sg), mapErr (Wrapf msg) r));
          addG = (\<lambda>m h msg st. case st of (bus, l, g, sg) \<Rightarrow> case glob m h g of (g', r) \<Rightarrow> ((bus, l, g', sg), mapErr (Wrapf msg) r))
      in andThen (st, mapErr (Wrapf ''could not create aggregate store'') (NewAggregateStore eventStore [])) (\<lambda>st store.
         andThen (st, mapErr (Wrapf ''could not create command handler'')
           (NewAggregateCommandHandler InvitationAggregateType (Some (sourcedStore us (fst now) invEnv store)))) (\<lambda>st ch.
         andThen (case setHandlers (\<lambda>t. Wrapf (''could not add command handler for '' @ [CHR 0x27] @ t @ [CHR 0x27]))
              (UseCommandHandlerMiddleware (aggHandleCommand (invHandleCommand (fst now)) ch) [LoggingMiddleware]) inviteCommandTypes (fst st) of
              (bus, r) \<Rightarrow> ((bus, snd st), r)) (\<lambda>st _.
         andThen (addL (MatchEvents [InviteCreatedEvent, InviteAcceptedEvent, InviteDeclinedEvent, InviteConfirmedEvent, InviteDeniedEvent])
              (projectorHandler now slept (invitationProjectorHandler showData showEvent invitationRepo))
              ''could not add invitation projector'' st) (\<lambda>st _.
         andThen (addL (MatchEvents [InviteAcceptedEvent, InviteDeclinedEvent, InviteConfirmedEvent, InviteDeniedEvent])
              (Handler ''projector_GuestList'' (guestListHandleEvent showEvent guestListRepo eventID) None None)
              ''could not add guest list projector'' st) (\<lambda>st _.
         andThen (addG (MatchEvents [InviteAcceptedEvent]) (sagaEventHandler (responseSagaHandler (busHandleCommand (fst st))))
              ''could not add response saga to event bus'' (case st of (bus, l, g, _) \<Rightarrow> (bus, l, g, Some (NewResponseSaga 2)))) (\<lambda>st _.
         addG (MatchAll []) (UseEventHandlerMiddleware Logger [observerMiddlewareRandom us grp])
              ''could not add logger to event bus'' st)))))))"

section \<open>Lemmas\<close>

lemma setHandlers_ok:
  assumes "distinct ts" "\<And>t. t \<in> set ts \<Longrightarrow> busHandlers b t = None"
  shows "\<exists>b'. setHandlers wrap h ts b = (b', Ret ()) \<and>
    busHandlers b' = (\<lambda>t. if t \<in> set ts then Some h else busHandlers b t)"
  using assms
proof (induction ts arbitrary: b)
  case (Cons t ts)
  let ?b = "b\<lparr>busHandlers := (busHandlers b)(t \<mapsto> h)\<rparr>"
  have "SetHandler b h t = (?b, Ret ())" using Cons.prems by (simp add: SetHandler_def)
  moreover have "busHandlers ?b u = None" if "u \<in> set ts" for u using Cons.prems that by auto
  with Cons.IH [of ?b] Cons.prems(1) obtain b' where "setHandlers wrap h ts ?b = (b', Ret ())"
    "busHandlers b' = (\<lambda>u. if u \<in> set ts then Some h else busHandlers ?b u)" by (auto simp del: fun_upd_apply)
  ultimately show ?case by auto
qed auto

lemma setHandlers_conflict:
  assumes "t \<in> set ts" "busHandlers b t \<noteq> None"
  shows "\<exists>b' u. setHandlers wrap h ts b = (b', Fail (wrap u (Sentinel ErrHandlerAlreadySet)))"
  using assms
proof (induction ts arbitrary: b)
  case (Cons u ts)
  show ?case
  proof (cases "busHandlers b u")
    case None
    then have "SetHandler b h u = (b\<lparr>busHandlers := (busHandlers b)(u \<mapsto> h)\<rparr>, Ret ())" by (simp add: SetHandler_def)
    moreover have "t \<in> set ts" using Cons.prems None by auto
    ultimately show ?thesis using Cons.IH [of "b\<lparr>busHandlers := (busHandlers b)(u \<mapsto> h)\<rparr>"] Cons.prems by auto
  next
    case (Some k)
    then have "SetHandler b h u = (b, Fail (Sentinel ErrHandlerAlreadySet))" by (simp add: SetHandler_def)
    then show ?thesis by auto
  qed
qed simp

lemma NewAggregateStore_Some: "\<exists>store. NewAggregateStore (Some es) [] = Ret store \<and> asStore store = es"
  by (simp add: NewAggregateStore_def)

text \<open>The longest match matches, and no matching pattern is longer.\<close>

lemma longestMatch_spec:
  "longestMatch rs path = None \<longleftrightarrow> (\<forall>(p, r) \<in> set rs. \<not> muxMatches p path)"
  "longestMatch rs path = Some (p, r) \<Longrightarrow> (p, r) \<in> set rs \<and> muxMatches p path \<and>
     (\<forall>(q, u) \<in> set rs. muxMatches q path \<longrightarrow> length q \<le> length p)"
proof (induction rs arbitrary: p r)
  case (Cons a rs)
  obtain q u where a: "a = (q, u)" by fastforce
  { case 1 show ?case using Cons(1) a by (auto split: option.splits) }
  { case 2 show ?case
    proof (cases "longestMatch rs path")
      case None
      with Cons(1) 2 a show ?thesis by (auto split: if_splits)
    next
      case (Some m)
      obtain q' u' where m: "m = (q', u')" by fastforce
      with Cons(2) [of q' u'] Some 2 a show ?thesis by (fastforce split: if_splits)
    qed }
qed auto

section \<open>Properties\<close>

text \<open>
  Setting up the todo list. When the handler adder accepts the projector and no handler is set for a command of the
  domain, the setup succeeds: every command of the domain is then handled by the aggregate command handler over the given
  event store, all other commands as before, the base repositories have their factories, and every command that a
  route of the web server sends has a handler. When a command already has a handler, the setup fails with
  \<^verbatim>\<open>ErrHandlerAlreadySet\<close>, and so does every second setup on one command bus.
\<close>

theorem todo_setup:
  assumes "add (MatchEvents todoEventTypes) (projectorHandler now slept (todoProjectorHandler (fst now) repo)) b = (b', Ret ())"
  shows "((\<forall>t \<in> set todoCommandTypes. busHandlers bus t = None) \<longrightarrow>
      (\<exists>bus' store h. SetupDomain us now slept (Some es) add repo (bus, b, bases) = ((bus', b', todoSetFactories bases), Ret ()) \<and>
         NewAggregateStore (Some es) [] = Ret store \<and>
         h = aggHandleCommand (todoHandleCommand (fst now)) \<lparr>chType = TodoAggregateType, chStore = sourcedStore us (fst now) todoEnv store\<rparr> \<and>
         busHandlers bus' = (\<lambda>t. if t \<in> set todoCommandTypes then Some h else busHandlers bus t) \<and>
         (\<forall>p t. (p, RCommand t) \<in> set todoRoutes \<longrightarrow> busHandlers bus' t = Some h))) \<and>
    ((\<exists>t \<in> set todoCommandTypes. busHandlers bus t \<noteq> None) \<longrightarrow>
      (\<exists>st' x. SetupDomain us now slept (Some es) add repo (bus, b, bases) = (st', Fail x) \<and> errors_Is x ErrHandlerAlreadySet))"
proof -
  obtain store where store: "NewAggregateStore (Some es) [] = Ret store" using NewAggregateStore_Some by blast
  let ?h = "aggHandleCommand (todoHandleCommand (fst now)) \<lparr>chType = TodoAggregateType, chStore = sourcedStore us (fst now) todoEnv store\<rparr>"
  have dist: "distinct todoCommandTypes" by (simp add: todoCommandTypes_def)
  have routes: "t \<in> set todoCommandTypes" if "(p, RCommand t) \<in> set todoRoutes" for p t
    using that by (auto simp: todoRoutes_def todoCommandTypes_def)
  have run: "SetupDomain us now slept (Some es) add repo (bus, b, bases) =
      (case setHandlers (\<lambda>t. Wrapf ''could not set command handler'') ?h todoCommandTypes bus of
         (bus', res) \<Rightarrow> ((bus', b', todoSetFactories bases), res))"
    by (simp add: SetupDomain_def assms store NewAggregateCommandHandler_def)
  show ?thesis
  proof (intro conjI impI)
    assume "\<forall>t \<in> set todoCommandTypes. busHandlers bus t = None"
    with setHandlers_ok [OF dist, of bus "\<lambda>t. Wrapf ''could not set command handler''" ?h] obtain bus' where
      "setHandlers (\<lambda>t. Wrapf ''could not set command handler'') ?h todoCommandTypes bus = (bus', Ret ())"
      "busHandlers bus' = (\<lambda>t. if t \<in> set todoCommandTypes then Some ?h else busHandlers bus t)" by blast
    with run routes show "\<exists>bus' store h. SetupDomain us now slept (Some es) add repo (bus, b, bases) = ((bus', b', todoSetFactories bases), Ret ()) \<and>
         NewAggregateStore (Some es) [] = Ret store \<and>
         h = aggHandleCommand (todoHandleCommand (fst now)) \<lparr>chType = TodoAggregateType, chStore = sourcedStore us (fst now) todoEnv store\<rparr> \<and>
         busHandlers bus' = (\<lambda>t. if t \<in> set todoCommandTypes then Some h else busHandlers bus t) \<and>
         (\<forall>p t. (p, RCommand t) \<in> set todoRoutes \<longrightarrow> busHandlers bus' t = Some h)"
      using store by auto
  next
    assume "\<exists>t \<in> set todoCommandTypes. busHandlers bus t \<noteq> None"
    with setHandlers_conflict [of _ todoCommandTypes bus "\<lambda>t. Wrapf ''could not set command handler''" ?h] obtain b1 u where
      "setHandlers (\<lambda>t. Wrapf ''could not set command handler'') ?h todoCommandTypes bus =
        (b1, Fail (Wrapf ''could not set command handler'' (Sentinel ErrHandlerAlreadySet)))" by blast
    with run show "\<exists>st' x. SetupDomain us now slept (Some es) add repo (bus, b, bases) = (st', Fail x) \<and> errors_Is x ErrHandlerAlreadySet"
      by simp
  qed
qed

text \<open>A repository over the world of the memory store that does nothing, for the examples of the setup.\<close>

definition noRepo :: "'w Repo" where
  "noRepo = \<lparr>rFind = (\<lambda>c i w. (w, Fail (Sentinel ErrEntityNotFound))), rFindAll = (\<lambda>c w. (w, Ret [])),
     rSave = (\<lambda>c e w. (w, Ret ())), rRemove = (\<lambda>c i w. (w, Ret ()))\<rparr>"

theorem todo_setup_witness:
  "\<exists>bus' h. SetupDomain (\<lambda>_. ''u'') (0, 0) id (Some \<lparr>esSave = (\<lambda>c es v n. (Suc n, Ret ())), esLoadFrom = (\<lambda>c i v n. (n, Ret [])), esSnapshots = None\<rparr>)
      (\<lambda>m h k. (Suc k, Ret ())) noRepo (NewBusCommandHandler, 0, None, None) = ((bus', 1, None, None), Ret ()) \<and>
     busHandlers bus' ''todolist:create'' = Some h"
  using todo_setup [of "\<lambda>m h k. (Suc k, Ret ())" "(0, 0)" id noRepo 0 1 NewBusCommandHandler "\<lambda>_. ''u''"
      "\<lparr>esSave = (\<lambda>c es v n. (Suc n, Ret ())), esLoadFrom = (\<lambda>c i v n. (n, Ret [])), esSnapshots = None\<rparr>" "(None, None)"]
  by (auto simp: NewBusCommandHandler_def todoSetFactories_def todoCommandTypes_def)

lemma command_route:
  assumes "longestMatch todoRoutes path = Some (p, RCommand t)"
  shows "p = path" "(path, RCommand t) \<in> set todoRoutes" "\<not> muxRedirects todoRoutes path"
proof -
  from longestMatch_spec(2) [OF assms] have mem: "(p, RCommand t) \<in> set todoRoutes" and "muxMatches p path" by simp_all
  from mem have "last p \<noteq> CHR ''/''" by (auto simp: todoRoutes_def)
  with \<open>muxMatches p path\<close> show eq: "p = path" by (simp add: muxMatches_def)
  from mem show "(path, RCommand t) \<in> set todoRoutes" unfolding eq .
  then have "path \<in> set (map fst todoRoutes)" by force
  then show "\<not> muxRedirects todoRoutes path" by (simp add: muxRedirects_def)
qed

text \<open>Below the path of the list, everything that is not the name of a command is a query.\<close>

lemma todo_query_route:
  assumes "\<And>t. (''/api/todos/'' @ s, RCommand t) \<notin> set todoRoutes"
  shows "longestMatch todoRoutes (''/api/todos/'' @ s) = Some (''/api/todos/'', RQuery)"
proof -
  let ?path = "''/api/todos/'' @ s"
  have q: "(''/api/todos/'', RQuery) \<in> set todoRoutes" "muxMatches ''/api/todos/'' ?path"
    by (simp_all add: todoRoutes_def muxMatches_def)
  have "longestMatch todoRoutes ?path \<noteq> None" using longestMatch_spec(1) [of todoRoutes ?path] q by blast
  then obtain p r where m: "longestMatch todoRoutes ?path = Some (p, r)" by auto
  note sp = longestMatch_spec(2) [OF m]
  from sp have "\<forall>(q, u) \<in> set todoRoutes. muxMatches q ?path \<longrightarrow> length q \<le> length p" by blast
  from bspec [OF this q(1)] q(2) have len: "length ''/api/todos/'' \<le> length p" by (simp only: prod.case)
  show ?thesis
  proof (cases r)
    case (RCommand t)
    with m command_route [of ?path p t] assms [of t] show ?thesis by simp
  next
    case REvents
    with sp have "p = ''/api/events/''" by (simp add: todoRoutes_def)
    with sp show ?thesis by (simp add: muxMatches_def)
  next
    case RQuery
    with sp have "p = ''/api/todos/''" by (simp add: todoRoutes_def)
    with m RQuery show ?thesis by simp
  next
    case RStatic
    with sp have "p = ''/''" by (simp add: todoRoutes_def)
    with len show ?thesis by simp
  qed
qed

end
