(* ===== verification/Todo_Server.thy ===== *)
theory Todo_Server
  imports Application Tracing
begin

text \<open>
  The todo list as its server runs it: the event data the package registers (\<^verbatim>\<open>examples/todomvc/backend/domains/todo/events.go\<close>),
  the middleware and the example data of \<^verbatim>\<open>examples/todomvc/backend/main.go\<close>, and what a command that is posted
  to the web server does to the event store.
\<close>

section \<open>The event data of the todo list\<close>

definition todoInitEvents :: "EventData typeRegistry \<Rightarrow> EventData typeRegistry go" where
  "todoInitEvents r0 =
     obind (RegisterEventData r0 ItemAdded (Some (ItemAddedData 0 ''''))) (\<lambda>r1.
     obind (RegisterEventData r1 ItemRemoved (Some (ItemRemovedData 0))) (\<lambda>r2.
     obind (RegisterEventData r2 ItemDescriptionSet (Some (ItemDescriptionSetData 0 ''''))) (\<lambda>r3.
     RegisterEventData r3 ItemChecked (Some (ItemCheckedData 0 False)))))"

text \<open>What the memory store relies on: \<^verbatim>\<open>copier.Copy\<close> onto a fresh value of the same struct type copies the value.\<close>

definition copiesStructs :: "copyEnv \<Rightarrow> bool" where
  "copiesStructs cenv \<longleftrightarrow>
     (\<forall>T p d. asStructPtr T p \<noteq> None \<and> asStructPtr T d \<noteq> None \<longrightarrow> copier_Copy cenv p d = Ret d)"

definition todoPayload :: "string \<Rightarrow> EventData \<Rightarrow> bool" where
  "todoPayload t d \<longleftrightarrow> d = None \<or>
     (t = ItemAdded \<and> asStructPtr ''ItemAddedData'' d \<noteq> None) \<or>
     (t = ItemRemoved \<and> asStructPtr ''ItemRemovedData'' d \<noteq> None) \<or>
     (t = ItemDescriptionSet \<and> asStructPtr ''ItemDescriptionSetData'' d \<noteq> None) \<or>
     (t = ItemChecked \<and> asStructPtr ''ItemCheckedData'' d \<noteq> None)"

lemma asStructPtr_todo [simp]:
  "asStructPtr ''ItemAddedData'' (Some (ItemAddedData i d)) \<noteq> None"
  "asStructPtr ''ItemRemovedData'' (Some (ItemRemovedData i)) \<noteq> None"
  "asStructPtr ''ItemDescriptionSetData'' (Some (ItemDescriptionSetData i d)) \<noteq> None"
  "asStructPtr ''ItemCheckedData'' (Some (ItemCheckedData i b)) \<noteq> None"
  by (simp_all add: ItemAddedData_def ItemRemovedData_def ItemDescriptionSetData_def ItemCheckedData_def)

lemma todoPayload_intros [simp]:
  "todoPayload t None"
  "todoPayload ItemAdded (Some (ItemAddedData i d))" "todoPayload ItemRemoved (Some (ItemRemovedData i))"
  "todoPayload ItemDescriptionSet (Some (ItemDescriptionSetData i d))" "todoPayload ItemChecked (Some (ItemCheckedData i b))"
  by (simp_all add: todoPayload_def del: not_None_eq)

lemma todoInitEvents_items:
  assumes "todoInitEvents (newTypeRegistry n) = Ret r"
  shows "registry_get r ItemAdded = Some (Some (ItemAddedData 0 ''''))" "registry_get r ItemRemoved = Some (Some (ItemRemovedData 0))"
    "registry_get r ItemDescriptionSet = Some (Some (ItemDescriptionSetData 0 ''''))"
    "registry_get r ItemChecked = Some (Some (ItemCheckedData 0 False))"
  using assms by (auto simp: todoInitEvents_def RegisterEventData_def register_def newTypeRegistry_def registry_get_def)

lemma todoPayload_faithful:
  assumes "todoInitEvents (newTypeRegistry n) = Ret (eventDataFactories cenv)" "copiesStructs cenv"
    and "todoPayload (eventType e) (data e)"
  shows "faithful cenv e"
proof (cases "data e")
  case (Some d)
  have cp: "copier_Copy cenv (Some p) (Some d) = Ret (Some d)"
    if "asStructPtr T (Some p) \<noteq> None" "asStructPtr T (Some d) \<noteq> None" for T p
    using assms(2) that unfolding copiesStructs_def by blast
  have "\<exists>p. registry_get (eventDataFactories cenv) (eventType e) = Some p \<and> copier_Copy cenv p (Some d) = Ret (Some d)"
    using assms(3) Some todoInitEvents_items [OF assms(1)] cp [OF asStructPtr_todo(1)] cp [OF asStructPtr_todo(2)]
      cp [OF asStructPtr_todo(3)] cp [OF asStructPtr_todo(4)] unfolding todoPayload_def
    by (elim disjE conjE) (simp_all del: not_None_eq)
  with Some show ?thesis by (auto simp: faithful_def)
qed (simp add: faithful_def)

text \<open>The aggregate's method appends events with the data that is registered for their type, and nothing else.\<close>

definition emits :: "todoList aggregate \<Rightarrow> todoList aggregate \<Rightarrow> bool" where
  "emits a b \<longleftrightarrow> (\<exists>ps. b = appendAll ps a \<and> (\<forall>(t, d, ts, os) \<in> set ps. os = [] \<and> todoPayload t d))"

lemma emits_refl [simp]: "emits a a"
  unfolding emits_def by (rule exI [of _ "[]"]) simp

lemma emits_append: "todoPayload t d \<Longrightarrow> emits (fst (AppendEvent t d ts [] a)) b \<Longrightarrow> emits a b"
  unfolding emits_def
proof (elim exE)
  fix ps assume "todoPayload t d" "b = appendAll ps (fst (AppendEvent t d ts [] a)) \<and> (\<forall>(t, d, ts, os) \<in> set ps. os = [] \<and> todoPayload t d)"
  then show "\<exists>ps. b = appendAll ps a \<and> (\<forall>(t, d, ts, os) \<in> set ps. os = [] \<and> todoPayload t d)"
    by (intro exI [of _ "(t, d, ts, []) # ps"]) simp
qed

lemmas emits_one [simp] = emits_append [OF _ emits_refl]

lemma emits_loop:
  "(\<And>it t d. f it = Some (t, d) \<Longrightarrow> todoPayload t d) \<Longrightarrow> emits a (appendLoop f now its a)"
proof (induction f now its a rule: appendLoop.induct)
  case (2 f now it its a)
  then show ?case using emits_append by (fastforce split: option.splits)
qed simp

lemma todoHandleCommand_emits: "emits a (fst (todoHandleCommand now c cmd a))"
proof -
  have "emits a (appendLoop (\<lambda>it. if tiCompleted it then Some (ItemRemoved, Some (ItemRemovedData (tiID it))) else None) now its a)"
    "emits a (appendLoop (\<lambda>it. if tiCompleted it \<noteq> b then Some (ItemChecked, Some (ItemCheckedData (tiID it) b)) else None) now its a)"
    for its b by (auto intro!: emits_loop split: if_splits)
  then show ?thesis unfolding todoHandleCommand_def Let_def by (simp split: option.split)
qed

lemma appendAll_payload:
  "\<forall>(t, d, ts, os) \<in> set ps. os = [] \<and> todoPayload t d \<Longrightarrow> e \<in> set (UncommittedEvents (appendAll ps a)) \<Longrightarrow>
   e \<in> set (UncommittedEvents a) \<or> todoPayload (eventType e) (data e)"
  by (induction ps a rule: appendAll.induct) fastforce+

lemma todoHandleCommand_appendsOnly:
  assumes "todoInitEvents (newTypeRegistry n) = Ret (eventDataFactories cenv)" "copiesStructs cenv"
  shows "appendsOnly (faithful cenv) (todoHandleCommand now)"
  unfolding appendsOnly_def
proof (intro conjI allI impI ballI)
  fix c cm a
  obtain ps where ps: "fst (todoHandleCommand now c cm a) = appendAll ps a" "\<forall>(t, d, ts, os) \<in> set ps. os = [] \<and> todoPayload t d"
    using todoHandleCommand_emits unfolding emits_def by blast
  then show "\<exists>ps. fst (todoHandleCommand now c cm a) = appendAll ps a" by blast
  fix e assume "UncommittedEvents a = []" "e \<in> set (UncommittedEvents (fst (todoHandleCommand now c cm a)))"
  with appendAll_payload [OF ps(2), of e a] ps(1) have "todoPayload (eventType e) (data e)" by simp
  then show "faithful cenv e" by (rule todoPayload_faithful [OF assms])
qed

section \<open>Commands from the web to the event store\<close>

text \<open>What the bus that a successful setup leaves does with a command.\<close>

lemma SetupDomain_bus:
  assumes "SetupDomain us now slept (Some es) add repo (NewBusCommandHandler, b, bases) = ((bus, b', bases'), Ret ())"
    and "NewAggregateStore (Some es) [] = Ret store"
  shows "busHandlers bus = (\<lambda>t. if t \<in> set todoCommandTypes
    then Some (aggHandleCommand (todoHandleCommand (fst now)) \<lparr>chType = TodoAggregateType, chStore = sourcedStore us (fst now) todoEnv store\<rparr>)
    else None)"
proof -
  have dist: "distinct todoCommandTypes" by (simp add: todoCommandTypes_def)
  have new: "busHandlers NewBusCommandHandler t = None" for t by (simp add: NewBusCommandHandler_def)
  let ?h = "aggHandleCommand (todoHandleCommand (fst now)) \<lparr>chType = TodoAggregateType, chStore = sourcedStore us (fst now) todoEnv store\<rparr>"
  from assms have "setHandlers (\<lambda>t. Wrapf ''could not set command handler'') ?h todoCommandTypes NewBusCommandHandler = (bus, Ret ())"
    by (auto simp: SetupDomain_def andThen_Ret NewAggregateCommandHandler_def split: prod.splits)
  with setHandlers_ok [OF dist new, of "\<lambda>t. Wrapf ''could not set command handler''" ?h] show ?thesis
    by (auto simp: NewBusCommandHandler_def)
qed

lemma busHandleCommand_cases:
  assumes "busHandleCommand b c cmd w = (w', res)"
  obtains cm h where "cmd = Some cm" "busHandlers b (cmdType cm) = Some h" "h c cmd w = (w', res)"
  | "w' = w" "res \<noteq> Ret ()"
  using assms by (cases "CheckCommand cmd") (auto simp: busHandleCommand_def split: option.splits, (metis outcome.distinct)+)

text \<open>What the command bus does to the in-memory event store, with or without an error.\<close>

lemma todo_bus_dispatch:
  assumes dom: "SetupDomain us now slept (Some (memEventStore cenv)) add repo (NewBusCommandHandler, b, bases) = ((bus, b', bases'), Ret ())"
    and reg: "todoInitEvents (newTypeRegistry n) = Ret (eventDataFactories cenv)" "copiesStructs cenv"
    and inv: "memInv cenv (esDb s)" "\<And>i. length (memStream (esDb s) i) < 2 ^ 63"
    and run: "busHandleCommand bus c cmd (s, w) = ((s', w'), res)"
  shows "\<exists>i es. memInv cenv (esDb s') \<and> memStream (esDb s') = (memStream (esDb s))(i := memStream (esDb s) i @ es) \<and>
    (res = Ret () \<or> es \<noteq> [] \<longrightarrow> (\<exists>cm a. cmd = Some cm \<and> i = cmdAggregateID cm \<and> cmdType cm \<in> set todoCommandTypes \<and>
       replay us todoEnv c TodoAggregateType i (memStream (esDb s) i) = Ret a \<and>
       snd (todoHandleCommand (fst now) c cm a) = Ret () \<and> es = UncommittedEvents (fst (todoHandleCommand (fst now) c cm a))))"
  using run
proof (cases rule: busHandleCommand_cases)
  case (1 cm h)
  note bus = SetupDomain_bus [OF dom NewAggregateStore_mem]
  let ?h = "\<lparr>chType = TodoAggregateType, chStore = sourcedStore us (fst now) todoEnv (memAggregateStore cenv)\<rparr>"
  from 1(2) bus have t: "cmdType cm \<in> set todoCommandTypes" "h = aggHandleCommand (todoHandleCommand (fst now)) ?h"
    by (auto split: if_splits)
  with 1 have "aggHandleCommand (todoHandleCommand (fst now)) ?h c (Some cm) (s, w) = ((s', w'), res)" by simp
  from mem.dispatch [where s = "(s, w)", unfolded fst_conv, OF _ storeOver_mem _ inv(1) inv(2)
      todoHandleCommand_appendsOnly [OF reg] this] todo.event_sourced_aggregate_axioms t(1) 1(1)
  show ?thesis by (auto intro: exI [of _ "cmdAggregateID cm"])
next
  case 2
  with inv(1) show ?thesis by (intro exI [of _ 0] exI [of _ "[]"]) auto
qed

text \<open>
  A command that is posted to the todo list's server, from the request to the event store. The domain has been set up on
  a new command bus over the in-memory event store, and the web handler serves a request whose path is that
  of a command. Whatever the answer, the store's invariant is kept, at most one list's history grows, by
  some events, and neither the read model nor the websockets are touched. The answer 200 means that the body was
  decoded to a command, that the aggregate which the stored history replays to accepted it, and that the history
  grew by exactly the events that it appended; any other answer that leaves the store changed comes after the events
  of an accepted command were stored.
\<close>

theorem todo_post:
  assumes "SetupDomain us now slept (Some (memEventStore cenv)) add repo (NewBusCommandHandler, b, bases) = ((bus, b', bases'), Ret ())"
    and "todoInitEvents (newTypeRegistry n) = Ret (eventDataFactories cenv)" and "copiesStructs cenv"
    and "memInv cenv (esDb s)" and "\<And>i. length (memStream (esDb s) i) < 2 ^ 63"
    and "longestMatch todoRoutes (rqPath rq) = Some (p, RCommand t)"
    and "todoServe env (busHandleCommand bus) todoRepo folder rq ((s, w), r, ws) = (((s', w'), r', ws'), Ret (Some resp))"
  shows "\<exists>i es. memInv cenv (esDb s') \<and> memStream (esDb s') = (memStream (esDb s))(i := memStream (esDb s) i @ es) \<and>
    r' = r \<and> ws' = ws \<and> (rsStatus resp = 200 \<longrightarrow> rqMethod rq = ''POST'') \<and>
    (rsStatus resp = 200 \<or> es \<noteq> [] \<longrightarrow> (\<exists>fresh body cm a.
       CreateCommand (weRegistered env) t = Ret fresh \<and> rqBody rq = Ret body \<and> weDecodeCommand env body fresh = Ret (Some cm) \<and>
       i = cmdAggregateID cm \<and> cmdType cm \<in> set todoCommandTypes \<and>
       replay us todoEnv context_Background TodoAggregateType i (memStream (esDb s) i) = Ret a \<and>
       snd (todoHandleCommand (fst now) context_Background cm a) = Ret () \<and>
       es = UncommittedEvents (fst (todoHandleCommand (fst now) context_Background cm a))))"
proof -
  let ?run = "CommandHandler_HTTP (weErrStr env) (weRegistered env) (weDecodeCommand env) (busHandleCommand bus) t rq (s, w)"
  from assms(6,7) have http: "?run = ((s', w'), Ret resp)" and same: "r' = r" "ws' = ws"
    by (auto simp: todoServe_def command_route(3) outcome_simps split: prod.splits)
  show ?thesis
  proof (cases "\<exists>fresh body. rqMethod rq = ''POST'' \<and> CreateCommand (weRegistered env) t = Ret fresh \<and> rqBody rq = Ret body \<and>
      (\<exists>cmd. weDecodeCommand env body fresh = Ret cmd)")
    case True
    then obtain fresh body cmd where ok: "rqMethod rq = ''POST''" "CreateCommand (weRegistered env) t = Ret fresh"
      "rqBody rq = Ret body" "weDecodeCommand env body fresh = Ret cmd" by blast
    obtain res where run: "busHandleCommand bus context_Background cmd (s, w) = ((s', w'), res)" and
      "rsStatus resp = 200 \<Longrightarrow> res = Ret ()"
      using http ok by (auto simp: CommandHandler_HTTP_def http_Error_def split: prod.splits outcome.splits)
    with todo_bus_dispatch [OF assms(1-5) run] ok same show ?thesis by (metis (no_types, lifting))
  next
    case False
    then have "s' = s \<and> rsStatus resp \<noteq> 200"
      using http by (auto simp: CommandHandler_HTTP_def http_Error_def split: if_splits outcome.splits)
    with same assms(4) show ?thesis by (intro exI [of _ 0] exI [of _ "[]"]) auto
  qed
qed

section \<open>The example data\<close>

text \<open>\<^verbatim>\<open>CommandLogger\<close> and \<^verbatim>\<open>EventLogger\<close> of the server; what they print is not part of the world.\<close>

definition CommandLogger :: "'w CommandHandlerFn \<Rightarrow> 'w CommandHandlerFn" where
  "CommandLogger h c cmd w = h c cmd w"

definition EventLogger :: "'w handler" where
  "EventLogger = Handler ''logger'' (\<lambda>c ev w. (w, Ret ())) None None"

text \<open>
  \<^verbatim>\<open>seedExample\<close>; \<open>i\<close> is what \<^verbatim>\<open>uuid.New\<close> returns, and the commands and the read model each have their part of the
  world. \<^verbatim>\<open>log.Fatal\<close> ends the process.
\<close>

definition log_Fatal :: "string \<Rightarrow> 'a go" where
  "log_Fatal msg = Panic msg"

definition seedCommand :: "'w CommandHandlerFn \<Rightarrow> command \<Rightarrow> 'w \<times> 'r \<Rightarrow> ('w \<times> 'r) \<times> unit go" where
  "seedCommand h cmd st =
     (case h context_Background (Some cmd) (fst st) of
        (w', Ret _) \<Rightarrow> ((w', snd st), Ret ())
      | (w', Fail x) \<Rightarrow> ((w', snd st), log_Fatal ''there should be no error: '')
      | (w', Panic p) \<Rightarrow> ((w', snd st), Panic p))"

definition seedExample :: "time \<Rightarrow> UUID \<Rightarrow> 'w CommandHandlerFn \<Rightarrow> 'r Repo \<Rightarrow> 'w \<times> 'r \<Rightarrow> ('w \<times> 'r) \<times> unit go" where
  "seedExample now i h todoRepo st0 =
     andThen (seedCommand h (Create i) st0) (\<lambda>st _.
     andThen (seedCommand h (AddItem i ''Build the TodoMVC example'') st) (\<lambda>st _.
     andThen (seedCommand h (AddItem i ''Run the TodoMVC example'') st) (\<lambda>st _.
     andThen (case rFind todoRepo (NewContextWithMinVersionWait context_Background 3 now) i (snd st) of
                (r', Ret _) \<Rightarrow> ((fst st, r'), Ret ())
              | (r', Fail x) \<Rightarrow> ((fst st, r'), log_Fatal ''could not find created todo list: '')
              | (r', Panic p) \<Rightarrow> ((fst st, r'), Panic p)) (\<lambda>st _.
     andThen (seedCommand h (CheckAllItems i False) st) (\<lambda>st _.
     andThen (seedCommand h (AddItem i ''Learn Go'') st) (\<lambda>st _.
     andThen (seedCommand h (AddItem i ''Read the Event Horizon source'') st) (\<lambda>st _.
     seedCommand h (AddItem i ''Create a PR'') st)))))))"

text \<open>A todo list in a store without an event handler: what its history replays to, and how long it is.\<close>

definition todoAt :: "(UUID \<Rightarrow> string) \<Rightarrow> copyEnv \<Rightarrow> UUID \<Rightarrow> todoList \<Rightarrow> nat \<Rightarrow> 'w memStore \<Rightarrow> bool" where
  "todoAt us cenv i l k s \<longleftrightarrow> memInv cenv (esDb s) \<and> esEventHandler s = None \<and> length (memStream (esDb s) i) = k \<and>
     (\<exists>a. replay us todoEnv context_Background TodoAggregateType i (memStream (esDb s) i) = Ret a \<and> aggState a = l)"

lemma memSave_quiet:
  assumes "memInv cenv (esDb s)" "length (memStream (esDb s) i) < 2 ^ 63" "esEventHandler s = None"
  shows "\<exists>sw'. (esEventHandler (fst sw') = None \<and> snd sw' = w) \<and>
    (es \<noteq> [] \<longrightarrow> serialFrom agt i (of_nat (length (memStream (esDb s) i))) es \<longrightarrow> (\<forall>e \<in> set es. faithful cenv e) \<longrightarrow>
     memSave cenv c (map Some es) (of_nat (length (memStream (esDb s) i))) (s, w) = (sw', Ret ()))"
proof (cases "es \<noteq> [] \<and> serialFrom agt i (of_nat (length (memStream (esDb s) i))) es \<and> (\<forall>e \<in> set es. faithful cenv e)")
  case True
  then obtain db' where "memSaveDb cenv (map Some es) (of_nat (length (memStream (esDb s) i))) (esDb s) = (db', Ret ())"
    using memSaveDb_appends [OF assms(1) _ refl _ assms(2), of es agt] by metis
  with assms(3) show ?thesis by (intro exI [of _ "(s\<lparr>esDb := db'\<rparr>, w)"]) (simp add: memSave_def)
next
  case False
  with assms(3) show ?thesis by (intro exI [of _ "(s, w)"]) auto
qed

text \<open>What a command does to a list: the number of events and the list they lead to.\<close>

definition todoStep :: "(UUID \<Rightarrow> string) \<Rightarrow> time \<Rightarrow> command \<Rightarrow> todoList \<Rightarrow> nat \<Rightarrow> todoList \<Rightarrow> bool" where
  "todoStep us now cm l m l' \<longleftrightarrow>
     (\<forall>a. aggState a = l \<and> AggregateType a = TodoAggregateType \<and> UncommittedEvents a = [] \<longrightarrow>
        (\<exists>a1 a'. todoHandleCommand now context_Background cm a = (a1, Ret ()) \<and> length (UncommittedEvents a1) = m \<and>
           applyEvents us todoEnv context_Background a (map Some (UncommittedEvents a1)) = (a', Ret ()) \<and> aggState a' = l'))"

lemma todo_bus_ok:
  assumes dom: "SetupDomain us now slept (Some (memEventStore cenv)) add repo (NewBusCommandHandler, b, bases) = ((bus, b', bases'), Ret ())"
    and reg: "todoInitEvents (newTypeRegistry n) = Ret (eventDataFactories cenv)" "copiesStructs cenv"
    and s: "todoAt us cenv i l k s" "k < 2 ^ 63" "cmdAggregateID cm = i"
    and cm: "CheckCommand (Some cm) = Ret ()" "cmdType cm \<in> set todoCommandTypes"
    and run: "todoStep us (fst now) cm l m l'"
  shows "\<exists>s'. busHandleCommand bus context_Background (Some cm) (s, w) = ((s', w), Ret ()) \<and> todoAt us cenv i l' (k + m) s' \<and>
    (\<forall>j. j \<noteq> i \<longrightarrow> memStream (esDb s') j = memStream (esDb s) j)"
proof -
  let ?c = context_Background and ?h = "\<lparr>chType = TodoAggregateType, chStore = sourcedStore us (fst now) todoEnv (memAggregateStore cenv)\<rparr>"
  from s(1) obtain a where inv: "memInv cenv (esDb s)" "esEventHandler s = None" "length (memStream (esDb s) i) = k"
    and a: "replay us todoEnv ?c TodoAggregateType i (memStream (esDb s) i) = Ret a" "aggState a = l"
    unfolding todoAt_def by blast
  from mem.replay_base [where s = "(s, w)", unfolded fst_conv, OF todo.event_sourced_aggregate_axioms inv(1) a(1)]
  have base: "AggregateType a = TodoAggregateType" "UncommittedEvents a = []" by simp_all
  from run a(2) base obtain a1 a' where r: "todoHandleCommand (fst now) ?c cm a = (a1, Ret ())" "length (UncommittedEvents a1) = m"
    "applyEvents us todoEnv ?c a (map Some (UncommittedEvents a1)) = (a', Ret ())" "aggState a' = l'" unfolding todoStep_def by blast
  from todoHandleCommand_appendsOnly [OF reg, of "fst now"] obtain ps where ps: "a1 = appendAll ps a"
    and st: "\<And>e. e \<in> set (UncommittedEvents a1) \<Longrightarrow> faithful cenv e"
    unfolding appendsOnly_def using base(2) r(1) by (metis fst_conv)
  have len: "length (memStream (esDb s) (cmdAggregateID cm)) < 2 ^ 63" using inv(3) s(2,3) by simp
  have "\<exists>sw'. (esEventHandler (fst sw') = None \<and> snd sw' = w) \<and>
      aggHandleCommand (todoHandleCommand (fst now)) ?h ?c (Some cm) (s, w) = (sw', Ret ()) \<and> memInv cenv (esDb (fst sw')) \<and>
      memStream (esDb (fst sw')) = (memStream (esDb s))(i := memStream (esDb s) i @ UncommittedEvents a1) \<and>
      replay us todoEnv ?c TodoAggregateType i (memStream (esDb (fst sw')) i) = Ret a'"
    using mem.dispatch_ok [where s = "(s, w)" and h = ?h and P = "\<lambda>sw'. esEventHandler (fst sw') = None \<and> snd sw' = w",
        unfolded fst_conv snd_conv, OF _ storeOver_mem _ inv(1) len _ cm(1) _ _ _ _ _ memSave_quiet [OF inv(1) len inv(2)]]
      todo.event_sourced_aggregate_axioms a(1) r ps st s(3) inv(2) by (simp add: context_Background_def)
  then obtain sw' where sw: "esEventHandler (fst sw') = None" "snd sw' = w"
    "aggHandleCommand (todoHandleCommand (fst now)) ?h ?c (Some cm) (s, w) = (sw', Ret ())" "memInv cenv (esDb (fst sw'))"
    "memStream (esDb (fst sw')) = (memStream (esDb s))(i := memStream (esDb s) i @ UncommittedEvents a1)"
    "replay us todoEnv ?c TodoAggregateType i (memStream (esDb (fst sw')) i) = Ret a'" by blast
  have "busHandleCommand bus ?c (Some cm) (s, w) = (sw', Ret ())"
    using SetupDomain_bus [OF dom NewAggregateStore_mem] cm sw(3) by (simp add: busHandleCommand_def context_Background_def)
  with sw r(2,4) inv(3) show ?thesis by (cases sw') (auto simp: todoAt_def)
qed

text \<open>The three commands of the example data on a list without checked items.\<close>

lemmas field_defs = stringField_def intField_def boolField_def structField_def

lemma todo_add:
  assumes "tdCreated l"
  shows "todoStep us now (AddItem i d) l 1
    (l\<lparr>tdItems := tdItems l @ [\<lparr>tiID = tdNextItemID l, tiDescription = d, tiCompleted = False\<rparr>], tdNextItemID := tdNextItemID l + 1\<rparr>)"
  unfolding todoStep_def
proof (intro allI impI)
  fix a :: "todoList aggregate"
  assume a: "aggState a = l \<and> AggregateType a = TodoAggregateType \<and> UncommittedEvents a = []"
  let ?c = context_Background and ?a1 = "fst (AppendEvent ItemAdded (Some (ItemAddedData (tdNextItemID l) d)) now [] a)"
  have "todoHandleCommand now ?c (AddItem i d) a = (?a1, Ret ())"
    using assms a by (simp add: todoHandleCommand_def AddItem_def todoCommand_def isCmd_def field_defs)
  moreover have "\<exists>a'. applyEvents us todoEnv ?c a (map Some (UncommittedEvents ?a1)) = (a', Ret ()) \<and> aggState a' =
      l\<lparr>tdItems := tdItems l @ [\<lparr>tiID = tdNextItemID l, tiDescription = d, tiCompleted = False\<rparr>], tdNextItemID := tdNextItemID l + 1\<rparr>"
    using assms a by (simp add: AppendEvent_event event_simps NewEventForAggregate_def NewEvent_def ForAggregate_def
        todoApplyEvent_def field_defs newItem_def ItemAddedData_def)
  ultimately show "\<exists>a1 a'. todoHandleCommand now ?c (AddItem i d) a = (a1, Ret ()) \<and> length (UncommittedEvents a1) = 1 \<and>
      applyEvents us todoEnv ?c a (map Some (UncommittedEvents a1)) = (a', Ret ()) \<and> aggState a' =
      l\<lparr>tdItems := tdItems l @ [\<lparr>tiID = tdNextItemID l, tiDescription = d, tiCompleted = False\<rparr>], tdNextItemID := tdNextItemID l + 1\<rparr>"
    using a by auto
qed

lemma todo_create: "\<not> tdCreated l \<Longrightarrow> todoStep us now (Create i) l 1 (l\<lparr>tdCreated := True\<rparr>)"
  unfolding todoStep_def
proof (intro allI impI)
  fix a :: "todoList aggregate"
  assume a: "aggState a = l \<and> AggregateType a = TodoAggregateType \<and> UncommittedEvents a = []" and l: "\<not> tdCreated l"
  let ?c = context_Background and ?a1 = "fst (AppendEvent TodoCreated None now [] a)"
  have "todoHandleCommand now ?c (Create i) a = (?a1, Ret ())"
    using a l by (simp add: todoHandleCommand_def Create_def todoCommand_def isCmd_def)
  moreover have "\<exists>a'. applyEvents us todoEnv ?c a (map Some (UncommittedEvents ?a1)) = (a', Ret ()) \<and> aggState a' = l\<lparr>tdCreated := True\<rparr>"
    using a by (simp add: AppendEvent_event event_simps NewEventForAggregate_def NewEvent_def ForAggregate_def todoApplyEvent_def)
  ultimately show "\<exists>a1 a'. todoHandleCommand now ?c (Create i) a = (a1, Ret ()) \<and> length (UncommittedEvents a1) = 1 \<and>
      applyEvents us todoEnv ?c a (map Some (UncommittedEvents a1)) = (a', Ret ()) \<and> aggState a' = l\<lparr>tdCreated := True\<rparr>"
    using a by auto
qed

lemma appendLoop_none: "(\<And>it. it \<in> set its \<Longrightarrow> f it = None) \<Longrightarrow> appendLoop f now its a = a"
  by (induction its) auto

lemma todo_check_none:
  assumes "tdCreated l" "\<forall>it \<in> set (tdItems l). tiCompleted it = b"
  shows "todoStep us now (CheckAllItems i b) l 0 l"
  using assms by (simp add: todoStep_def todoHandleCommand_def CheckAllItems_def todoCommand_def isCmd_def appendLoop_none field_defs)

definition uncheckedList :: "string list \<Rightarrow> todoList" where
  "uncheckedList ds = \<lparr>tdCreated = True, tdNextItemID = of_nat (length ds),
     tdItems = map (\<lambda>(n, d). \<lparr>tiID = of_nat n, tiDescription = d, tiCompleted = False\<rparr>) (enumerate 0 ds)\<rparr>"

lemma uncheckedList_sel [simp]: "tdCreated (uncheckedList ds)" "\<forall>it \<in> set (tdItems (uncheckedList ds)). tiCompleted it = False"
  by (auto simp: uncheckedList_def)

lemma todoStep_unchecked:
  "todoStep us now (Create i) \<lparr>tdCreated = False, tdNextItemID = 0, tdItems = []\<rparr> 1 (uncheckedList [])"
  "todoStep us now (AddItem i d) (uncheckedList ds) 1 (uncheckedList (ds @ [d]))"
  "todoStep us now (CheckAllItems i False) (uncheckedList ds) 0 (uncheckedList ds)"
  using todo_create [of "\<lparr>tdCreated = False, tdNextItemID = 0, tdItems = []\<rparr>" us now i] todo_add [of "uncheckedList ds" us now i d]
  by (simp_all add: todo_check_none) (simp_all add: uncheckedList_def enumerate_append_eq add.commute)

text \<open>A sequence of calls that returns without an error in a state with a property.\<close>

definition achieves :: "'s \<times> 'a go \<Rightarrow> ('s \<Rightarrow> bool) \<Rightarrow> bool" where
  "achieves m P \<longleftrightarrow> (\<exists>s a. m = (s, Ret a) \<and> P s)"

lemma achieves_andThen: "achieves m P \<Longrightarrow> (\<And>s a. P s \<Longrightarrow> achieves (f s a) Q) \<Longrightarrow> achieves (andThen m f) Q"
  by (auto simp: achieves_def)

definition seeded ::
    "(UUID \<Rightarrow> string) \<Rightarrow> copyEnv \<Rightarrow> UUID \<Rightarrow> 'w memStore \<Rightarrow> 'w \<Rightarrow> 'r \<Rightarrow> todoList \<Rightarrow> nat \<Rightarrow> ('w memStore \<times> 'w) \<times> 'r \<Rightarrow> bool" where
  "seeded us cenv i s0 w r l k st \<longleftrightarrow>
     (\<exists>s. st = ((s, w), r) \<and> todoAt us cenv i l k s \<and> (\<forall>j. j \<noteq> i \<longrightarrow> memStream (esDb s) j = memStream (esDb s0) j))"

lemma seedCommand_achieves:
  assumes "SetupDomain us now slept (Some (memEventStore cenv)) add repo (NewBusCommandHandler, b, bases) = ((bus, b', bases'), Ret ())"
    and "todoInitEvents (newTypeRegistry n) = Ret (eventDataFactories cenv)" and "copiesStructs cenv"
    and "CheckCommand (Some cm) = Ret ()" "cmdType cm \<in> set todoCommandTypes" "cmdAggregateID cm = i"
    and "todoStep us (fst now) cm l m l'" and "k < 2 ^ 63" and "seeded us cenv i s0 w r l k st" and "k' = k + m"
  shows "achieves (seedCommand (CommandLogger (busHandleCommand bus)) cm st) (seeded us cenv i s0 w r l' k')"
proof -
  from assms(9) obtain s where s: "st = ((s, w), r)" "todoAt us cenv i l k s"
    "\<forall>j. j \<noteq> i \<longrightarrow> memStream (esDb s) j = memStream (esDb s0) j" unfolding seeded_def by blast
  from todo_bus_ok [OF assms(1-3) s(2) assms(8,6,4,5,7)] obtain s' where
    "busHandleCommand bus context_Background (Some cm) (s, w) = ((s', w), Ret ())" "todoAt us cenv i l' (k + m) s'"
    "\<forall>j. j \<noteq> i \<longrightarrow> memStream (esDb s') j = memStream (esDb s) j" by blast
  with s assms(10) show ?thesis by (auto simp: achieves_def seeded_def seedCommand_def CommandLogger_def)
qed

text \<open>
  Seeding the server with its example data, on the command bus that the setup leaves over an in-memory store without an
  event handler, for a new list whose read model can be found at version 3: all commands succeed, and the history of the
  list has six events, which replay to a created list with the five items of the program under the IDs 0 to 4. None of
  them is checked: the command that is to check the first two off leaves its flag at false and emits no event. No other
  history changes.
\<close>

theorem seed_example:
  assumes dom: "SetupDomain us now slept (Some (memEventStore cenv)) add repo (NewBusCommandHandler, b, bases) = ((bus, b', bases'), Ret ())"
    and reg: "todoInitEvents (newTypeRegistry n) = Ret (eventDataFactories cenv)" "copiesStructs cenv"
    and s: "memInv cenv (esDb s)" "esEventHandler s = None" "memStream (esDb s) i = []" and i: "i \<noteq> uuid_Nil"
    and find: "rFind todoRepo (NewContextWithMinVersionWait context_Background 3 now') i r = (r', Ret e)"
  shows "\<exists>s'. seedExample now' i (CommandLogger (busHandleCommand bus)) todoRepo ((s, w), r) = (((s', w), r'), Ret ()) \<and>
    todoAt us cenv i (uncheckedList [''Build the TodoMVC example'', ''Run the TodoMVC example'', ''Learn Go'',
      ''Read the Event Horizon source'', ''Create a PR'']) 6 s' \<and>
    (\<forall>j. j \<noteq> i \<longrightarrow> memStream (esDb s') j = memStream (esDb s) j)"
proof -
  have chk: "CheckCommand (Some (Create i)) = Ret ()" "CheckCommand (Some (CheckAllItems i False)) = Ret ()"
    "CheckCommand (Some (AddItem i (x # d))) = Ret ()" for x d
    using i by (simp_all add: CheckCommand_def Create_def CheckAllItems_def AddItem_def todoCommand_def missingField_def)
  have ids: "cmdAggregateID (Create i) = i" "cmdAggregateID (CheckAllItems i False) = i" "cmdAggregateID (AddItem i d) = i"
    "cmdType (Create i) \<in> set todoCommandTypes" "cmdType (CheckAllItems i False) \<in> set todoCommandTypes"
    "cmdType (AddItem i d) \<in> set todoCommandTypes" for d
    by (simp_all add: Create_def CheckAllItems_def AddItem_def todoCommand_def todoCommandTypes_def)
  have start: "seeded us cenv i s w r \<lparr>tdCreated = False, tdNextItemID = 0, tdItems = []\<rparr> 0 ((s, w), r)"
    using s by (simp add: seeded_def todoAt_def replay_Ret_iff NewTodoAggregate_def)
  note step = seedCommand_achieves [OF dom reg]
  note create = step [OF chk(1) ids(4,1) todoStep_unchecked(1)]
    and add = step [OF chk(3) ids(6,3) todoStep_unchecked(2)] and check = step [OF chk(2) ids(5,2) todoStep_unchecked(3)]
  have found: "achieves (case rFind todoRepo (NewContextWithMinVersionWait context_Background 3 now') i (snd st) of
      (r', Ret _) \<Rightarrow> ((fst st, r'), Ret ()) | (r', Fail x) \<Rightarrow> ((fst st, r'), log_Fatal ''could not find created todo list: '')
    | (r', Panic p) \<Rightarrow> ((fst st, r'), Panic p)) (seeded us cenv i s w r' l k)" if "seeded us cenv i s w r l k st" for st l k
    using that find by (auto simp: seeded_def achieves_def)
  have "achieves (seedExample now' i (CommandLogger (busHandleCommand bus)) todoRepo ((s, w), r))
      (seeded us cenv i s w r' (uncheckedList ((((([] @ [''Build the TodoMVC example'']) @ [''Run the TodoMVC example'']) @ [''Learn Go'']) @
        [''Read the Event Horizon source'']) @ [''Create a PR''])) 6)"
    unfolding seedExample_def
    by (rule achieves_andThen, rule create [where k = 0 and k' = 1], simp, rule start, simp,
        rule achieves_andThen, rule add [where k = 1 and k' = 2], simp, assumption, simp,
        rule achieves_andThen, rule add [where k = 2 and k' = 3], simp, assumption, simp,
        rule achieves_andThen, rule found, assumption,
        rule achieves_andThen, rule check [where k = 3 and k' = 3], simp, assumption, simp,
        rule achieves_andThen, rule add [where k = 3 and k' = 4], simp, assumption, simp,
        rule achieves_andThen, rule add [where k = 4 and k' = 5], simp, assumption, simp,
        rule add [where k = 5 and k' = 6], simp, assumption, simp)
  then show ?thesis by (auto simp: achieves_def seeded_def)
qed

section \<open>A concrete server\<close>

text \<open>The registered event data with a copier that copies whole values, and the setup with a handler adder that accepts everything.\<close>

definition todoCopyEnv :: copyEnv where
  "todoCopyEnv = \<lparr>eventDataFactories = (case todoInitEvents (newTypeRegistry ''event'') of Ret r \<Rightarrow> r | _ \<Rightarrow> newTypeRegistry ''event''),
     copier_Copy = (\<lambda>to from. Ret from)\<rparr>"

definition acceptAll :: "('w, nat) handlerAdder" where
  "acceptAll m h k = (Suc k, Ret ())"

lemma todoCopyEnv_ok: "todoInitEvents (newTypeRegistry ''event'') = Ret (eventDataFactories todoCopyEnv)" "copiesStructs todoCopyEnv"
  by (simp_all add: todoCopyEnv_def copiesStructs_def todoInitEvents_def RegisterEventData_def register_def newTypeRegistry_def)

lemma demo_setup:
  "\<exists>bus. SetupDomain (\<lambda>_. ''u'') (0, 0) id (Some (memEventStore todoCopyEnv)) acceptAll (noRepo :: (unit memStore \<times> unit) Repo) (NewBusCommandHandler, 0, None, None) =
     ((bus, 1, todoSetFactories (None, None)), Ret ())"
proof -
  let ?h = "aggHandleCommand (todoHandleCommand 0) \<lparr>chType = TodoAggregateType,
    chStore = sourcedStore (\<lambda>_. ''u'') 0 todoEnv (memAggregateStore todoCopyEnv :: (unit memStore \<times> unit) AggregateStore)\<rparr>"
  have "\<exists>b'. setHandlers (\<lambda>t. Wrapf ''could not set command handler'') ?h todoCommandTypes NewBusCommandHandler = (b', Ret ())"
    using setHandlers_ok [of todoCommandTypes NewBusCommandHandler "\<lambda>t. Wrapf ''could not set command handler''" ?h]
    by (auto simp: todoCommandTypes_def NewBusCommandHandler_def)
  then show ?thesis
    by (auto simp: SetupDomain_def acceptAll_def NewAggregateStore_mem NewAggregateCommandHandler_def)
qed

theorem seed_example_witness:
  "\<exists>bus s'. seedExample 0 7 (CommandLogger (busHandleCommand bus)) \<lparr>rFind = (\<lambda>c i r. (Suc r, Ret (todoEntity newTodoList))), rFindAll = (\<lambda>c w. (w, Ret [])),
       rSave = (\<lambda>c e w. (w, Ret ())), rRemove = (\<lambda>c i w. (w, Ret ()))\<rparr> ((\<lparr>esDb = [], esEventHandler = None\<rparr> :: unit memStore, ()), 0) = (((s', ()), 1), Ret ()) \<and>
     todoAt (\<lambda>_. ''u'') todoCopyEnv 7 (uncheckedList [''Build the TodoMVC example'', ''Run the TodoMVC example'', ''Learn Go'',
      ''Read the Event Horizon source'', ''Create a PR'']) 6 s'"
proof -
  obtain bus where dom: "SetupDomain (\<lambda>_. ''u'') (0, 0) id (Some (memEventStore todoCopyEnv)) acceptAll (noRepo :: (unit memStore \<times> unit) Repo) (NewBusCommandHandler, 0, None, None) =
     ((bus, 1, todoSetFactories (None, None)), Ret ())" using demo_setup by blast
  show ?thesis
    using seed_example [OF dom [unfolded prod.collapse] todoCopyEnv_ok, of "\<lparr>esDb = [], esEventHandler = None\<rparr>" 7
      "\<lparr>rFind = (\<lambda>c i r. (Suc r, Ret (todoEntity newTodoList))), rFindAll = (\<lambda>c w. (w, Ret [])), rSave = (\<lambda>c e w. (w, Ret ())), rRemove = (\<lambda>c i w. (w, Ret ()))\<rparr>"
      0 0 1 "todoEntity newTodoList" "()"]
    by (intro exI [of _ bus]) auto
qed

definition demoWeb :: webEnv where
  "demoWeb = \<lparr>weErrStr = (\<lambda>_. ''e''), weRegistered = \<lparr>items = [''todolist:create'' \<mapsto> Some (Create 0)], regName = ''command''\<rparr>,
     weDecodeCommand = (\<lambda>body fresh. Ret (Some (Create 7))), weParseID = (\<lambda>_. Ret 7), weEncodeItems = (\<lambda>_. Ret ''''),
     weServeFile = (\<lambda>_. http_Error '''' 404), weUpgrades = (\<lambda>_. False)\<rparr>"

definition demoPost :: request where
  "demoPost = \<lparr>rqMethod = ''POST'', rqPath = ''/api/todos/create'', rqBody = Ret ''{}'', rqContext = context_Background\<rparr>"

lemma demoPost_route: "longestMatch todoRoutes (rqPath demoPost) = Some (''/api/todos/create'', RCommand ''todolist:create'')"
  by (simp add: demoPost_def todoRoutes_def muxMatches_def)

theorem todo_post_witness:
  "\<exists>bus s' resp. todoServe demoWeb (busHandleCommand bus) noRepo '''' demoPost
      ((\<lparr>esDb = [], esEventHandler = None\<rparr> :: unit memStore, ()), (), NewEventBusHandler) = (((s', ()), (), NewEventBusHandler), Ret (Some resp)) \<and>
     rsStatus resp = 200 \<and> memInv todoCopyEnv (esDb s') \<and> length (memStream (esDb s') 7) = 1"
proof -
  let ?s = "\<lparr>esDb = [], esEventHandler = None\<rparr> :: unit memStore"
  obtain bus where dom: "SetupDomain (\<lambda>_. ''u'') (0, 0) id (Some (memEventStore todoCopyEnv)) acceptAll (noRepo :: (unit memStore \<times> unit) Repo)
     (NewBusCommandHandler, 0, None, None) = ((bus, 1, todoSetFactories (None, None)), Ret ())" using demo_setup by blast
  have "todoAt (\<lambda>_. ''u'') todoCopyEnv 7 \<lparr>tdCreated = False, tdNextItemID = 0, tdItems = []\<rparr> 0 ?s"
    by (simp add: todoAt_def replay_Ret_iff NewTodoAggregate_def)
  moreover have "cmdAggregateID (Create 7) = 7" "CheckCommand (Some (Create 7)) = Ret ()" "cmdType (Create 7) \<in> set todoCommandTypes"
    by (simp_all add: Create_def todoCommand_def todoCommandTypes_def CheckCommand_def missingField_def)
  ultimately obtain s' where run: "busHandleCommand bus context_Background (Some (Create 7)) (?s, ()) = ((s', ()), Ret ())"
    and at: "todoAt (\<lambda>_. ''u'') todoCopyEnv 7 (uncheckedList []) 1 s'"
    using todo_bus_ok [OF dom todoCopyEnv_ok, of 7 "\<lparr>tdCreated = False, tdNextItemID = 0, tdItems = []\<rparr>" 0 ?s "Create 7" 1 "uncheckedList []" "()"]
      todoStep_unchecked(1) [of "\<lambda>_. ''u''" 0 7] by auto
  have serve: "todoServe demoWeb (busHandleCommand bus) noRepo '''' demoPost ((?s, ()), (), NewEventBusHandler) =
      (((s', ()), (), NewEventBusHandler), Ret (Some \<lparr>rsStatus = 200, rsContentType = '''', rsBody = ''''\<rparr>))"
    using run by (simp add: todoServe_def demoPost_route command_route(3) [OF demoPost_route]) (simp add: CommandHandler_HTTP_def CreateCommand_def registry_get_def demoWeb_def demoPost_def)
  from todo_post [OF dom todoCopyEnv_ok _ _ demoPost_route serve] have "memInv todoCopyEnv (esDb s')" by auto
  with serve at show ?thesis by (intro exI [of _ bus] exI [of _ s']) (simp add: todoAt_def)
qed

end
