(* ===== verification/Acceptance.thy ===== *)
theory Acceptance
  imports EventStore_Memory EventStore_Recorder Repo_Middleware Tracing
begin

text \<open>
  The acceptance tests that the packages export for the implementations of their interfaces
  (\<^verbatim>\<open>eventstore/acceptance_testing.go\<close>, \<^verbatim>\<open>eventstore/maintenance_testing.go\<close>,
  \<^verbatim>\<open>repo/acceptance_testing.go\<close>), as functions of the implementation under test. A test is a
  list of steps; a step calls the implementation and checks the result. The contracts that an
  implementation has to fulfil to pass are locales, and the tests are proved to pass from
  them, for the implementations in memory and the wrappers around them. New UUIDs are arguments.
\<close>

section \<open>Tests\<close>

text \<open>
  How a step ends: the test goes on (after \<^verbatim>\<open>t.Error\<close> too), \<^verbatim>\<open>t.Fatal\<close> ended it, or it
  panicked. The messages of \<^verbatim>\<open>t.Error\<close> are collected without the values they print.
\<close>

datatype flow = Continue | FailNow | Crash string

type_synonym 's testStep = "'s \<Rightarrow> 's \<times> string list \<times> flow"

fun runSteps :: "'s testStep list \<Rightarrow> 's testStep" where
  "runSteps [] s = (s, [], Continue)"
| "runSteps (t # ts) s =
     (case t s of
        (s', ms, Continue) \<Rightarrow> (case runSteps ts s' of (s'', ms', f) \<Rightarrow> (s'', ms @ ms', f))
      | r \<Rightarrow> r)"

definition afterCall :: "('s \<Rightarrow> 's \<times> 'a go) \<Rightarrow> ('a go \<Rightarrow> string list \<times> flow) \<Rightarrow> 's testStep" where
  "afterCall op chk s =
     (case op s of
        (s', Panic p) \<Rightarrow> (s', [], Crash p)
      | (s', r) \<Rightarrow> (case chk r of (ms, f) \<Rightarrow> (s', ms, f)))"

definition tErrorIf :: "bool \<Rightarrow> string \<Rightarrow> string list" where
  "tErrorIf bad m = (if bad then [m] else [])"

text \<open>What a Go function returns beside a non-nil error: the nil slice.\<close>

definition valueOrNil :: "'a list go \<Rightarrow> 'a list" where
  "valueOrNil r = (case r of Ret xs \<Rightarrow> xs | _ \<Rightarrow> [])"

definition expectOk :: "('s \<Rightarrow> 's \<times> 'a go) \<Rightarrow> 's testStep" where
  "expectOk op = afterCall op (\<lambda>r. (tErrorIf (\<not> is_Ret r) ''there should be no error:'', Continue))"

text \<open>\<^verbatim>\<open>errors.As\<close> with a target of type \<^verbatim>\<open>*eh.EventStoreError\<close>.\<close>

fun errors_AsEventStoreError :: "err \<Rightarrow> bool" where
  "errors_AsEventStoreError (EventStoreError _ _ _ _ _ _) = True"
| "errors_AsEventStoreError e = (case unwrap e of None \<Rightarrow> False | Some e' \<Rightarrow> errors_AsEventStoreError e')"

definition isStoreError :: "sentinel \<Rightarrow> 'a go \<Rightarrow> bool" where
  "isStoreError target r = (case r of Fail x \<Rightarrow> errors_AsEventStoreError x \<and> errors_Is x target | _ \<Rightarrow> False)"

definition expectStoreError :: "sentinel \<Rightarrow> ('s \<Rightarrow> 's \<times> 'a go) \<Rightarrow> 's testStep" where
  "expectStoreError target op =
     afterCall op (\<lambda>r. (tErrorIf (\<not> isStoreError target r) ''there should be a event store error:'', Continue))"

text \<open>The comparison of the loaded events with the expected ones; an event or index that is missing panics.\<close>

fun checkEvents :: "event list \<Rightarrow> nat \<Rightarrow> event option list \<Rightarrow> string list \<times> flow" where
  "checkEvents expected i [] = ([], Continue)"
| "checkEvents expected i (ev # evs) =
     (if length expected \<le> i then ([], Crash ''index out of range'')
      else case ev of
        None \<Rightarrow> ([], Crash ''nil pointer dereference'')
      | Some e \<Rightarrow>
          (case checkEvents expected (Suc i) evs of (ms, f) \<Rightarrow>
             (tErrorIf (CompareEvents e (expected ! i) [IgnoreVersion, IgnorePositionMetadata] \<noteq> Ret ())
                ''the event was incorrect:'' @
              tErrorIf (version e \<noteq> of_nat i + 1) ''the event version should be correct:'' @ ms, f)))"

section \<open>The acceptance test of event stores\<close>

text \<open>The constants and data of the package \<^verbatim>\<open>mocks\<close> that the tests use.\<close>

abbreviation mocks_AggregateType :: string where "mocks_AggregateType \<equiv> ''Aggregate''"
abbreviation mocks_EventType :: string where "mocks_EventType \<equiv> ''Event''"
abbreviation mocks_EventOtherType :: string where "mocks_EventOtherType \<equiv> ''EventOther''"

definition mocks_EventData :: "string \<Rightarrow> EventData" where
  "mocks_EventData content = Some (gstructPtr ''EventData'' [pubField ''Content'' (GString content)])"

text \<open>\<^verbatim>\<open>time.Date(2009, time.November, 10, 23, 0, 0, 0, time.UTC)\<close>.\<close>

definition testTime :: time where
  "testTime = 63393490800 * 10 ^ 9"

definition dataEvent :: "string \<Rightarrow> UUID \<Rightarrow> gint \<Rightarrow> event" where
  "dataEvent content i v = NewEvent mocks_EventType (mocks_EventData content) testTime [ForAggregate mocks_AggregateType i v]"

definition plainEvent :: "UUID \<Rightarrow> gint \<Rightarrow> event" where
  "plainEvent i v = NewEvent mocks_EventOtherType None testTime [ForAggregate mocks_AggregateType i v]"

definition metaEvent :: "string \<Rightarrow> UUID \<Rightarrow> gint \<Rightarrow> event" where
  "metaEvent content i v = NewEvent mocks_EventType (mocks_EventData content) testTime
     [ForAggregate mocks_AggregateType i v, WithMetadata (Some [''meta'' \<mapsto> GString ''data'', ''num'' \<mapsto> GFloat 42])]"

definition testCtx :: "ctx \<Rightarrow> ctx" where
  "testCtx c = context_WithValue c (OtherKey ''testkey'') (GString ''testval'')"

text \<open>The events of the first aggregate, in the order they are saved.\<close>

definition savedBatch :: "UUID \<Rightarrow> event list" where
  "savedBatch i = [dataEvent ''event1'' i 1, metaEvent ''event2'' i 2, plainEvent i 3,
     plainEvent i 4, plainEvent i 5, plainEvent i 6]"

definition loadStep ::
    "(ctx \<Rightarrow> UUID \<Rightarrow> 's \<Rightarrow> 's \<times> event option list go) \<Rightarrow> ctx \<Rightarrow> UUID \<Rightarrow> event list \<Rightarrow> 's testStep" where
  "loadStep load c i expected = afterCall (load c i) (\<lambda>r.
     case checkEvents expected 0 (valueOrNil r) of (ms, f) \<Rightarrow>
       (tErrorIf (\<not> is_Ret r) ''there should be no error:'' @
        tErrorIf (length (valueOrNil r) \<noteq> length expected) ''incorrect number of loaded events'' @ ms, f))"

definition EventStoreAcceptanceTest ::
    "(ctx \<Rightarrow> event option list \<Rightarrow> gint \<Rightarrow> 's \<Rightarrow> 's \<times> unit go) \<Rightarrow> (ctx \<Rightarrow> UUID \<Rightarrow> 's \<Rightarrow> 's \<times> event option list go) \<Rightarrow>
     ctx \<Rightarrow> UUID \<Rightarrow> UUID \<Rightarrow> UUID \<Rightarrow> UUID \<Rightarrow> 's \<Rightarrow> 's \<times> string list \<times> flow \<times> event list" where
  "EventStoreAcceptanceTest save load ctx i otherID id2 missing s =
     (let c = testCtx ctx;
          event1 = dataEvent ''event1'' i 1;
          event2 = metaEvent ''event2'' i 2;
          event3 = plainEvent i 3; event4 = plainEvent i 4; event5 = plainEvent i 5; event6 = plainEvent i 6;
          eventOtherAggID = plainEvent otherID 8;
          eventOtherAggType = NewEvent mocks_EventOtherType None testTime [ForAggregate ''OtherAggregate'' i 8];
          event7 = dataEvent ''event7'' id2 1
      in case runSteps
          [expectStoreError ErrMissingEvents (save c [] 0),
           expectOk (save c [Some event1] 0),
           expectStoreError ErrIncorrectEventVersion (save c [Some event1] 1),
           expectOk (save c [Some event2] 1),
           expectOk (save c [Some event3] 2),
           expectOk (save c [Some event4, Some event5, Some event6] 3),
           expectStoreError ErrMismatchedEventAggregateIDs (save c [Some (plainEvent i 7), Some eventOtherAggID] 6),
           expectStoreError ErrMismatchedEventAggregateTypes (save c [Some (plainEvent i 7), Some eventOtherAggType] 6),
           expectOk (save c [Some event7] 0),
           afterCall (load c missing) (\<lambda>r.
             (tErrorIf (\<not> isStoreError ErrAggregateNotFound r) ''there should be a not found error:'' @
              tErrorIf (length (valueOrNil r) \<noteq> 0) ''there should be no loaded events:'', Continue)),
           loadStep load c i [event1, event2, event3, event4, event5, event6],
           loadStep load c id2 [event7]] s
        of (s', ms, f) \<Rightarrow> (s', ms, f, [event1, event2, event3, event4, event5, event6, event7]))"

section \<open>Steps that pass\<close>

text \<open>From every state with \<open>P\<close> the step finds nothing wrong and leaves a state with \<open>Q\<close>.\<close>

definition passes :: "('s \<Rightarrow> bool) \<Rightarrow> 's testStep \<Rightarrow> ('s \<Rightarrow> bool) \<Rightarrow> bool" where
  "passes P t Q \<longleftrightarrow> (\<forall>s. P s \<longrightarrow> (\<exists>s'. t s = (s', [], Continue) \<and> Q s'))"

lemma passesD: "passes P t Q \<Longrightarrow> P s \<Longrightarrow> \<exists>s'. t s = (s', [], Continue) \<and> Q s'"
  by (simp add: passes_def)

lemma passes_Nil: "(\<And>s. P s \<Longrightarrow> Q s) \<Longrightarrow> passes P (runSteps []) Q"
  by (simp add: passes_def)

lemma passes_Cons: "passes P t Q \<Longrightarrow> passes Q (runSteps ts) R \<Longrightarrow> passes P (runSteps (t # ts)) R"
  unfolding passes_def by fastforce

lemma passes_call:
  assumes "\<And>s s' r. P s \<Longrightarrow> op s = (s', r) \<Longrightarrow> Q s' \<and> (\<forall>p. r \<noteq> Panic p) \<and> chk r = ([], Continue)"
  shows "passes P (afterCall op chk) Q"
  unfolding passes_def
proof (intro allI impI)
  fix s assume "P s"
  obtain s' r where "op s = (s', r)" by fastforce
  with assms [OF \<open>P s\<close> this] show "\<exists>s'. afterCall op chk s = (s', [], Continue) \<and> Q s'"
    by (cases r) (auto simp: afterCall_def)
qed

lemma passes_ok: "(\<And>s s' r. P s \<Longrightarrow> op s = (s', r) \<Longrightarrow> Q s' \<and> is_Ret r) \<Longrightarrow> passes P (expectOk op) Q"
  unfolding expectOk_def by (rule passes_call) (fastforce simp: tErrorIf_def is_Ret_iff)

lemma passes_store_error:
  "(\<And>s s' r. P s \<Longrightarrow> op s = (s', r) \<Longrightarrow> Q s' \<and> isStoreError d r) \<Longrightarrow> passes P (expectStoreError d op) Q"
  unfolding expectStoreError_def
  by (rule passes_call) (fastforce simp: tErrorIf_def isStoreError_def)

lemma CompareEvents_refl [simp]: "CompareEvents e e os = Ret ()"
  by (simp add: CompareEvents_def Let_def)

lemma checkEvents_serial:
  assumes "\<And>k. k < length es \<Longrightarrow> i + k < length expected \<and> expected ! (i + k) = es ! k \<and> version (es ! k) = of_nat (i + k) + 1"
  shows "checkEvents expected i (map Some es) = ([], Continue)"
  using assms
proof (induction es arbitrary: i)
  case (Cons e es)
  have "checkEvents expected (Suc i) (map Some es) = ([], Continue)"
    by (rule Cons.IH) (use Cons.prems [of "Suc _"] in auto)
  with Cons.prems [of 0] show ?case by (simp add: tErrorIf_def)
qed simp

section \<open>Event stores that pass\<close>

text \<open>The first rule of the validation that the events of a save break.\<close>

fun firstDefect :: "string \<Rightarrow> UUID \<Rightarrow> gint \<Rightarrow> event list \<Rightarrow> sentinel option" where
  "firstDefect agt aid ov [] = None"
| "firstDefect agt aid ov (e # es) =
     (if aggregateID e \<noteq> aid then Some ErrMismatchedEventAggregateIDs
      else if aggregateType e \<noteq> agt then Some ErrMismatchedEventAggregateTypes
      else if version e \<noteq> ov + 1 then Some ErrIncorrectEventVersion
      else firstDefect agt aid (ov + 1) es)"

lemma buildRecords_defect:
  "firstDefect agt aid ov es = Some d \<Longrightarrow> (\<And>e. e \<in> set es \<Longrightarrow> \<exists>r. mk e = Ret r) \<Longrightarrow>
   buildRecords mk fail agt aid ov 0 (map Some es) = Fail (fail (Sentinel d))"
proof (induction es arbitrary: ov)
  case (Cons e es)
  have shift: "buildRecords mk fail agt aid ov (Suc 0) (map Some es) = buildRecords mk fail agt aid (ov + 1) 0 (map Some es)"
    using buildRecords_shift [of mk fail agt aid ov 1 0] by simp
  from Cons.prems(2) [of e] obtain r where "mk e = Ret r" by auto
  with Cons.prems Cons.IH [of "ov + 1"] shift show ?case by (auto split: if_splits)
qed simp

text \<open>
  What the test asks of a store beyond the contract: the sentinel errors of invalid saves,
  inside an event store error, and that valid saves succeed, so that no event handler fails.
\<close>

locale strict_event_store = event_store save loadFrom stream storable invar
  for save :: "ctx \<Rightarrow> event option list \<Rightarrow> gint \<Rightarrow> 's \<Rightarrow> 's \<times> unit go"
    and loadFrom :: "ctx \<Rightarrow> UUID \<Rightarrow> gint \<Rightarrow> 's \<Rightarrow> 's \<times> event option list go"
    and stream :: "'s \<Rightarrow> UUID \<Rightarrow> event list"
    and storable :: "event \<Rightarrow> bool"
    and invar :: "'s \<Rightarrow> bool" +
  fixes load :: "ctx \<Rightarrow> UUID \<Rightarrow> 's \<Rightarrow> 's \<times> event option list go"
  assumes load_some: "invar s \<Longrightarrow> stream s aid \<noteq> [] \<Longrightarrow> length (stream s aid) < 2 ^ 63 \<Longrightarrow> load c aid s = (s', r) \<Longrightarrow>
      invar s' \<and> stream s' = stream s \<and> r = Ret (map Some (stream s aid))"
    and load_none: "invar s \<Longrightarrow> stream s aid = [] \<Longrightarrow> load c aid s = (s', r) \<Longrightarrow>
      invar s' \<and> stream s' = stream s \<and> isStoreError ErrAggregateNotFound r"
    and save_none: "invar s \<Longrightarrow> save c [] ov s = (s', u) \<Longrightarrow>
      invar s' \<and> stream s' = stream s \<and> isStoreError ErrMissingEvents u"
    and save_defect: "invar s \<Longrightarrow> (\<And>e. e \<in> set es \<Longrightarrow> storable e) \<Longrightarrow>
      firstDefect (aggregateType (hd es)) (aggregateID (hd es)) ov es = Some d \<Longrightarrow>
      save c (map Some es) ov s = (s', u) \<Longrightarrow> invar s' \<and> stream s' = stream s \<and> isStoreError d u"
    and save_valid: "invar s \<Longrightarrow> es \<noteq> [] \<Longrightarrow> serialFrom agt aid (of_nat (length (stream s aid))) es \<Longrightarrow>
      length (stream s aid) < 2 ^ 63 \<Longrightarrow> (\<And>e. e \<in> set es \<Longrightarrow> storable e) \<Longrightarrow>
      save c (map Some es) (of_nat (length (stream s aid))) s = (s', u) \<Longrightarrow> u = Ret ()"
begin

abbreviation holds :: "(UUID \<Rightarrow> event list) \<Rightarrow> 's \<Rightarrow> bool" where
  "holds f s \<equiv> invar s \<and> stream s = f"

lemma passes_save:
  assumes "es \<noteq> []" "serialFrom agt aid ov es" "ov = of_nat (length (f aid))" "length (f aid) < 2 ^ 63"
    and "\<And>e. e \<in> set es \<Longrightarrow> storable e" "evs = map Some es"
  shows "passes (holds f) (expectOk (save c evs ov)) (holds (f(aid := f aid @ es)))"
proof (rule passes_ok)
  fix s s' r assume s: "holds f s" and run: "save c evs ov s = (s', r)"
  have *: "serialFrom agt aid (of_nat (length (stream s aid))) es" "length (stream s aid) < 2 ^ 63"
    "save c (map Some es) (of_nat (length (stream s aid))) s = (s', r)" "invar s"
    using assms s run by auto
  from save_valid [OF *(4) assms(1) *(1,2) assms(5) *(3)] have "r = Ret ()" .
  with save_effect [OF *(4) assms(1) *(1,2) assms(5) *(3)] s
  show "holds (f(aid := f aid @ es)) s' \<and> is_Ret r" by auto
qed

lemma passes_defect:
  assumes "firstDefect (aggregateType (hd es)) (aggregateID (hd es)) ov es = Some d"
    and "\<And>e. e \<in> set es \<Longrightarrow> storable e" "evs = map Some es"
  shows "passes (holds f) (expectStoreError d (save c evs ov)) (holds f)"
  by (rule passes_store_error) (use save_defect [OF _ assms(2,1)] assms(3) in blast)

lemma passes_none: "passes (holds f) (expectStoreError ErrMissingEvents (save c [] ov)) (holds f)"
  by (rule passes_store_error) (use save_none in blast)

lemma passes_load:
  assumes "f aid = expected" "expected \<noteq> []" "length expected < 2 ^ 63"
    and "\<And>k. k < length expected \<Longrightarrow> version (expected ! k) = of_nat k + 1"
  shows "passes (holds f) (loadStep load c aid expected) (holds f)"
  unfolding loadStep_def
proof (rule passes_call)
  fix s s' r assume s: "holds f s" and "load c aid s = (s', r)"
  with load_some [of s aid c s' r] assms have "holds f s'" "r = Ret (map Some expected)" by auto
  moreover have "checkEvents expected 0 (map Some expected) = ([], Continue)"
    by (rule checkEvents_serial) (use assms(4) in simp)
  ultimately show "holds f s' \<and> (\<forall>p. r \<noteq> Panic p) \<and>
    (case checkEvents expected 0 (valueOrNil r) of (ms, g) \<Rightarrow>
       (tErrorIf (\<not> is_Ret r) ''there should be no error:'' @
        tErrorIf (length (valueOrNil r) \<noteq> length expected) ''incorrect number of loaded events'' @ ms, g)) = ([], Continue)"
    by (simp add: valueOrNil_def tErrorIf_def)
qed

lemma passes_missing:
  assumes "f aid = []"
  shows "passes (holds f) (afterCall (load c aid) (\<lambda>r.
    (tErrorIf (\<not> isStoreError ErrAggregateNotFound r) ''there should be a not found error:'' @
     tErrorIf (length (valueOrNil r) \<noteq> 0) ''there should be no loaded events:'', Continue))) (holds f)"
proof (rule passes_call)
  fix s s' r assume s: "holds f s" and "load c aid s = (s', r)"
  with load_none [of s aid c s' r] assms have "holds f s'" "isStoreError ErrAggregateNotFound r" by auto
  then show "holds f s' \<and> (\<forall>p. r \<noteq> Panic p) \<and>
    (tErrorIf (\<not> isStoreError ErrAggregateNotFound r) ''there should be a not found error:'' @
     tErrorIf (length (valueOrNil r) \<noteq> 0) ''there should be no loaded events:'', Continue) = ([], Continue)"
    by (cases r) (auto simp: isStoreError_def valueOrNil_def tErrorIf_def)
qed

end

lemma testEvent_fields [simp]:
  "aggregateType (dataEvent t i v) = mocks_AggregateType" "aggregateID (dataEvent t i v) = i" "version (dataEvent t i v) = v"
  "aggregateType (metaEvent t i v) = mocks_AggregateType" "aggregateID (metaEvent t i v) = i" "version (metaEvent t i v) = v"
  "aggregateType (plainEvent i v) = mocks_AggregateType" "aggregateID (plainEvent i v) = i" "version (plainEvent i v) = v"
  by (simp_all add: dataEvent_def metaEvent_def plainEvent_def NewEvent_def ForAggregate_def WithMetadata_def)

text \<open>Events the tests store: those without data and those with the data of the mocks package.\<close>

definition testable :: "event \<Rightarrow> bool" where
  "testable e \<longleftrightarrow> data e = None \<or> (eventType e = mocks_EventType \<and> (\<exists>t. data e = mocks_EventData t))"

lemma testable_events [simp]:
  "testable (dataEvent t i v)" "testable (metaEvent t i v)" "testable (plainEvent i v)"
  "testable (NewEvent et None ts [ForAggregate agt i v])"
  by (auto simp: testable_def dataEvent_def metaEvent_def plainEvent_def NewEvent_def ForAggregate_def WithMetadata_def)

text \<open>Appending to the history of one aggregate.\<close>

definition appendTo :: "UUID \<Rightarrow> event list \<Rightarrow> (UUID \<Rightarrow> event list) \<Rightarrow> UUID \<Rightarrow> event list" where
  "appendTo aid es f = f(aid := f aid @ es)"

lemma appendTo_simps [simp]:
  "appendTo aid es f aid = f aid @ es" "j \<noteq> aid \<Longrightarrow> appendTo aid es f j = f j"
  "appendTo aid es (appendTo aid es' f) = appendTo aid (es' @ es) f"
  by (simp_all add: appendTo_def)

context strict_event_store
begin

lemma passes_append:
  assumes "evs = map Some es" "es \<noteq> []" "serialFrom agt aid ov es" "ov = of_nat (length (f aid))" "length (f aid) < 2 ^ 63"
    and "list_all storable es"
  shows "passes (holds f) (expectOk (save c evs ov)) (holds (appendTo aid es f))"
  unfolding appendTo_def by (rule passes_save [where agt = agt]) (use assms in \<open>auto simp: list_all_iff\<close>)

lemma saves_pass:
  assumes "f i = []" "f id2 = []" "i \<noteq> otherID" "i \<noteq> id2" and st: "list_all storable (savedBatch i)"
    "storable (plainEvent i 7)" "storable (plainEvent otherID 8)" "storable (dataEvent ''event7'' id2 1)"
    "storable other" "aggregateID other = i" "aggregateType other = ''OtherAggregate''"
    and rest: "passes (holds (appendTo id2 [dataEvent ''event7'' id2 1] (appendTo i (savedBatch i) f))) (runSteps ts) Q"
  shows "passes (holds f) (runSteps
    (expectStoreError ErrMissingEvents (save c [] 0) #
     expectOk (save c [Some (dataEvent ''event1'' i 1)] 0) #
     expectStoreError ErrIncorrectEventVersion (save c [Some (dataEvent ''event1'' i 1)] 1) #
     expectOk (save c [Some (metaEvent ''event2'' i 2)] 1) #
     expectOk (save c [Some (plainEvent i 3)] 2) #
     expectOk (save c [Some (plainEvent i 4), Some (plainEvent i 5), Some (plainEvent i 6)] 3) #
     expectStoreError ErrMismatchedEventAggregateIDs (save c [Some (plainEvent i 7), Some (plainEvent otherID 8)] 6) #
     expectStoreError ErrMismatchedEventAggregateTypes (save c [Some (plainEvent i 7), Some other] 6) #
     expectOk (save c [Some (dataEvent ''event7'' id2 1)] 0) # ts)) Q"
proof -
  let ?f1 = "appendTo i [dataEvent ''event1'' i 1] f"
  let ?f2 = "appendTo i [metaEvent ''event2'' i 2] ?f1"
  let ?f3 = "appendTo i [plainEvent i 3] ?f2"
  let ?f6 = "appendTo i [plainEvent i 4, plainEvent i 5, plainEvent i 6] ?f3"
  have f6: "?f6 = appendTo i (savedBatch i) f" by (simp add: savedBatch_def)
  note facts = serialFrom_Cons st [unfolded savedBatch_def, simplified] assms(1-4) assms(3,4) [THEN not_sym]
  show ?thesis
  proof (intro passes_Cons)
    show "passes (holds f) (expectStoreError ErrMissingEvents (save c [] 0)) (holds f)" by (rule passes_none)
    show "passes (holds f) (expectOk (save c [Some (dataEvent ''event1'' i 1)] 0)) (holds ?f1)"
      by (rule passes_append) (simp_all add: facts)
    show "passes (holds ?f1) (expectStoreError ErrIncorrectEventVersion (save c [Some (dataEvent ''event1'' i 1)] 1)) (holds ?f1)"
      by (rule passes_defect [of "[dataEvent ''event1'' i 1]"]) (simp_all add: facts)
    show "passes (holds ?f1) (expectOk (save c [Some (metaEvent ''event2'' i 2)] 1)) (holds ?f2)"
      by (rule passes_append) (simp_all add: facts)
    show "passes (holds ?f2) (expectOk (save c [Some (plainEvent i 3)] 2)) (holds ?f3)"
      by (rule passes_append) (simp_all add: facts)
    show "passes (holds ?f3) (expectOk (save c [Some (plainEvent i 4), Some (plainEvent i 5), Some (plainEvent i 6)] 3)) (holds ?f6)"
      by (rule passes_append) (simp_all add: facts)
    show "passes (holds ?f6) (expectStoreError ErrMismatchedEventAggregateIDs
        (save c [Some (plainEvent i 7), Some (plainEvent otherID 8)] 6)) (holds ?f6)"
      by (rule passes_defect [of "[plainEvent i 7, plainEvent otherID 8]"]) (auto simp: facts)
    show "passes (holds ?f6) (expectStoreError ErrMismatchedEventAggregateTypes
        (save c [Some (plainEvent i 7), Some other] 6)) (holds ?f6)"
      by (rule passes_defect [of "[plainEvent i 7, other]"]) (auto simp: facts)
    show "passes (holds ?f6) (expectOk (save c [Some (dataEvent ''event7'' id2 1)] 0))
        (holds (appendTo id2 [dataEvent ''event7'' id2 1] ?f6))"
      by (rule passes_append) (simp_all add: facts)
    show "passes (holds (appendTo id2 [dataEvent ''event7'' id2 1] ?f6)) (runSteps ts) Q"
      unfolding f6 by (rule rest)
  qed
qed

text \<open>The whole test, from a store that does not know the new IDs.\<close>

lemma acceptance_passes:
  assumes s: "invar s" "stream s i = []" "stream s id2 = []" "stream s missing = []"
    and ids: "i \<noteq> otherID" "i \<noteq> id2" "missing \<noteq> i" "missing \<noteq> id2"
    and ev: "\<And>e. testable e \<Longrightarrow> storable e"
  shows "\<exists>s'. EventStoreAcceptanceTest save load ctx i otherID id2 missing s =
      (s', [], Continue, savedBatch i @ [dataEvent ''event7'' id2 1]) \<and> invar s' \<and>
    stream s' = (stream s)(i := savedBatch i, id2 := [dataEvent ''event7'' id2 1])"
proof -
  let ?g = "appendTo id2 [dataEvent ''event7'' id2 1] (appendTo i (savedBatch i) (stream s))"
  let ?other = "NewEvent mocks_EventOtherType None testTime [ForAggregate ''OtherAggregate'' i 8]"
  have loads: "passes (holds ?g) (runSteps
      [afterCall (load (testCtx ctx) missing) (\<lambda>r.
         (tErrorIf (\<not> isStoreError ErrAggregateNotFound r) ''there should be a not found error:'' @
          tErrorIf (length (valueOrNil r) \<noteq> 0) ''there should be no loaded events:'', Continue)),
       loadStep load (testCtx ctx) i (savedBatch i), loadStep load (testCtx ctx) id2 [dataEvent ''event7'' id2 1]]) (holds ?g)"
  proof (intro passes_Cons)
    show "passes (holds ?g) (loadStep load (testCtx ctx) i (savedBatch i)) (holds ?g)"
      by (rule passes_load) (use s ids in \<open>auto simp: savedBatch_def nth_Cons' less_Suc_eq\<close>)
    show "passes (holds ?g) (loadStep load (testCtx ctx) id2 [dataEvent ''event7'' id2 1]) (holds ?g)"
      by (rule passes_load) (use s ids in auto)
    show "passes (holds ?g) (runSteps []) (holds ?g)" by (rule passes_Nil)
  qed (rule passes_missing, use s ids in simp)
  have "list_all storable (savedBatch i)" by (simp add: savedBatch_def ev)
  moreover have "aggregateID ?other = i" "aggregateType ?other = ''OtherAggregate''"
    by (simp_all add: NewEvent_def ForAggregate_def)
  ultimately obtain s' where "EventStoreAcceptanceTest save load ctx i otherID id2 missing s =
      (s', [], Continue, savedBatch i @ [dataEvent ''event7'' id2 1])" "holds ?g s'"
    using saves_pass [OF s(2,3) ids(1,2) _ ev ev ev ev _ _ loads, of ?other "testCtx ctx", THEN passesD, of s] s(1)
    by (auto simp: EventStoreAcceptanceTest_def savedBatch_def Let_def simp del: runSteps.simps)
  then show ?thesis using s ids by (auto simp: appendTo_def)
qed

end

text \<open>The memory store without an event handler, and the wrappers around it.\<close>

lemma memSaveDb_defect:
  assumes "\<And>e. e \<in> set es \<Longrightarrow> faithful env e"
    and "firstDefect (aggregateType (hd es)) (aggregateID (hd es)) ov es = Some d"
  shows "memSaveDb env (map Some es) ov db = (db, Fail (saveError (Sentinel d) (aggregateType (hd es)) (aggregateID (hd es)) ov (map Some es)))"
proof -
  from assms(2) have "es \<noteq> []" by auto
  moreover from this have "hd (map Some es) = Some (hd es)" by (simp add: hd_map)
  ultimately show ?thesis
    using buildRecords_defect [OF assms(2), of "\<lambda>e. mapErr f (copyEvent env e)" for f] assms(1)
    by (simp add: memSaveDb_def Let_def copyEvent_faithful)
qed

interpretation strictmem: strict_event_store "memSave env" "memLoadFrom env" "\<lambda>sw. memStream (esDb (fst sw))" "faithful env"
  "\<lambda>sw. memInv env (esDb (fst sw)) \<and> esEventHandler (fst sw) = None" "memLoad env" for env
proof (unfold_locales, goal_cases)
  case (1 sw i aid)
  then show ?case using mem.stream_serial [of env sw i aid] by simp
next
  case (2 sw aid c)
  then show ?case using mem.load_stream [of env sw aid c] by simp
next
  case (3 sw aid c)
  then show ?case using mem.load_missing [of env sw aid c] by simp
next
  case (4 sw es agt aid c sw' r)
  then show ?case using mem.save_effect [of env sw es agt aid c sw' r]
    by (auto simp: memSave_def split: prod.splits outcome.splits option.splits)
next
  case (5 sw aid c sw' r)
  then show ?case using mem.load_stream [of env sw aid c] by (auto simp: memLoad_def)
next
  case (6 sw aid c sw' r)
  then show ?case using memStream_empty_iff [of env "esDb (fst sw)" aid]
    by (auto simp: memLoad_def memLoadFrom_def isStoreError_def)
next
  case (7 sw c ov sw' r)
  then show ?case by (auto simp: memSave_def memSaveDb_def isStoreError_def split: prod.splits)
next
  case (8 sw es ov d c sw' r)
  then show ?case using memSaveDb_defect [of es env ov d "esDb (fst sw)"]
    by (auto simp: memSave_def isStoreError_def saveError_def split: prod.splits)
next
  case (9 sw es agt aid c sw' r)
  obtain s w where sw: "sw = (s, w)" by fastforce
  from 9 sw memSaveDb_appends [of env "esDb s" es _ aid agt] obtain db' where
    "memSaveDb env (map Some es) (of_nat (length (memStream (esDb s) aid))) (esDb s) = (db', Ret ())" by auto
  with 9 sw show ?case by (auto simp: memSave_def)
qed

lemma traceStoreSave_tags:
  assumes "traceStoreSave spanCtx (untracedStoreSave f) c [] ov st = (st', r)"
  shows "f (spanCtx c (length (snd st))) [] ov (fst st) = (fst st', r)"
  using traceStoreSave_untraced [of spanCtx f c "[]"] assms by simp

lemma traceStoreLoad_untraced:
  assumes "traceStoreLoad spanCtx (untracedFind f) c aid st = (st', r)"
  shows "\<exists>r0. f (spanCtx c (length (snd st))) aid (fst st) = (fst st', r0) \<and> (r = r0 \<or> r0 \<noteq> r \<and> (\<exists>es. r0 = Ret (None # es)))"
  using assms
  by (auto simp: traceStoreLoad_def untracedFind_def untraced_def inSpan_def Let_def firstTags_def eventTags_def
      split: prod.splits outcome.splits option.splits list.splits)

context strict_event_store
begin

text \<open>A traced store and a recorder around a store that passes pass too.\<close>

lemma traced_strict:
  "strict_event_store (traceStoreSave spanCtx (untracedStoreSave save)) (untracedLoadFrom loadFrom) (\<lambda>st. stream (fst st)) storable
     (\<lambda>st. invar (fst st)) (traceStoreLoad spanCtx (untracedFind load))"
proof (intro strict_event_store.intro traced_event_store strict_event_store_axioms.intro, goal_cases)
  case (1 st aid c st' r)
  from traceStoreLoad_untraced [OF 1(4)] load_some [OF 1(1-3)] show ?case by (auto simp: map_eq_Cons_conv)
next
  case (2 st aid c st' r)
  from traceStoreLoad_untraced [OF 2(3)] load_none [OF 2(1-2)] show ?case by (fastforce simp: isStoreError_def)
next
  case (3 st c ov st' r)
  from save_none [OF 3(1) traceStoreSave_tags [OF 3(2)]] show ?case .
next
  case (4 st es ov d c st' r)
  from save_defect [OF 4(1-3) traceStoreSave_untraced [OF 4(4)]] show ?case .
next
  case (5 st es agt aid c st' r)
  from save_valid [OF 5(1-5) traceStoreSave_untraced [OF 5(6)]] show ?case .
qed

lemma recorder_strict:
  "strict_event_store (recSave (liftSave save)) (recLoadFrom loadFrom) (\<lambda>s. stream (recStore s)) storable
     (\<lambda>s. invar (recStore s)) (\<lambda>c aid s. case load c aid (recStore s) of (st, r) \<Rightarrow> (s\<lparr>recStore := st\<rparr>, r))"
proof (intro strict_event_store.intro recorder_event_store strict_event_store_axioms.intro, goal_cases)
  case (1 s aid c s' r)
  then show ?case using load_some [OF 1(1-3), of c] by (auto split: prod.splits)
next
  case (2 s aid c s' r)
  then show ?case using load_none [OF 2(1-2), of c] by (auto split: prod.splits)
next
  case (3 s c ov s' r)
  then show ?case using recSave_transparent [of save c "[]" ov s] save_none [of "recStore s" c ov "recStore s'" r]
    by (simp add: prod_eq_iff)
next
  case (4 s es ov d c s' r)
  then show ?case using recSave_transparent [of save c "map Some es" ov s] save_defect [OF 4(1-3), of c "recStore s'" r]
    by (simp add: prod_eq_iff)
next
  case (5 s es agt aid c s' r)
  then show ?case
    using recSave_transparent [of save c "map Some es" "of_nat (length (stream (recStore s) aid))" s] save_valid [OF 5(1-5), of c "recStore s'" r]
    by (simp add: prod_eq_iff)
qed

end

interpretation tracedstrict: strict_event_store "traceStoreSave spanCtx (untracedStoreSave (memSave env))" "untracedLoadFrom (memLoadFrom env)"
  "\<lambda>st. memStream (esDb (fst (fst st)))" "faithful env"
  "\<lambda>st. memInv env (esDb (fst (fst st))) \<and> esEventHandler (fst (fst st)) = None"
  "traceStoreLoad spanCtx (untracedFind (memLoad env))" for spanCtx env
  by (rule strictmem.traced_strict)

interpretation recstrict: strict_event_store "recSave (liftSave (memSave env))" "recLoadFrom (memLoadFrom env)"
  "\<lambda>s. memStream (esDb (fst (recStore s)))" "faithful env"
  "\<lambda>s. memInv env (esDb (fst (recStore s))) \<and> esEventHandler (fst (recStore s)) = None"
  "\<lambda>c aid s. case memLoad env c aid (recStore s) of (st, r) \<Rightarrow> (s\<lparr>recStore := st\<rparr>, r)" for env
  by (rule strictmem.recorder_strict)

section \<open>Properties of the event stores\<close>

definition mockEnv :: copyEnv where
  "mockEnv = \<lparr>eventDataFactories = \<lparr>items = [mocks_EventType \<mapsto> mocks_EventData ''''], regName = ''event data''\<rparr>,
     copier_Copy = (\<lambda>to from. Ret from)\<rparr>"

lemma mockEnv_faithful: "testable e \<Longrightarrow> faithful mockEnv e"
  by (auto simp: testable_def faithful_def mockEnv_def registry_get_def mocks_EventData_def split: option.split)

text \<open>
  The in-memory event store passes its acceptance test from every valid state: with four new, distinct
  IDs, no check fails, nothing panics, and afterwards the store holds exactly the events the test
  saved beside those it had.
\<close>

theorem memory_store_acceptance:
  assumes "memInv env (esDb s)" "esEventHandler s = None" "\<And>e. testable e \<Longrightarrow> faithful env e"
    and "\<And>j. j \<in> {i, id2, missing} \<Longrightarrow> memStream (esDb s) j = []" "distinct [i, otherID, id2, missing]"
  shows "\<exists>s' w'. EventStoreAcceptanceTest (memSave env) (memLoad env) ctx i otherID id2 missing (s, w) =
      ((s', w'), [], Continue, savedBatch i @ [dataEvent ''event7'' id2 1]) \<and> memInv env (esDb s') \<and>
    memStream (esDb s') = (memStream (esDb s))(i := savedBatch i, id2 := [dataEvent ''event7'' id2 1])"
  using strictmem.acceptance_passes [of env "(s, w)" i id2 missing otherID ctx] assms by auto

theorem memory_store_acceptance_witness:
  "\<exists>s' w'. EventStoreAcceptanceTest (memSave mockEnv) (memLoad mockEnv) context_Background 1 2 3 4
      (\<lparr>esDb = [], esEventHandler = None\<rparr>, ()) = ((s', w'), [], Continue, savedBatch 1 @ [dataEvent ''event7'' 3 1]) \<and>
     memStream (esDb s') 1 = savedBatch 1"
  using memory_store_acceptance [of mockEnv "\<lparr>esDb = [], esEventHandler = None\<rparr>" 1 3 4 2 context_Background "()"]
    mockEnv_faithful by auto

text \<open>The same test on the traced store and on the recorder around the store.\<close>

lemma wrapped_stores_acceptance:
  assumes "memInv env (esDb s)" "esEventHandler s = None" "\<And>e. testable e \<Longrightarrow> faithful env e"
    and "\<And>j. j \<in> {i, id2, missing} \<Longrightarrow> memStream (esDb s) j = []" "distinct [i, otherID, id2, missing]"
  shows "\<exists>st'. EventStoreAcceptanceTest (traceStoreSave spanCtx (untracedStoreSave (memSave env)))
      (traceStoreLoad spanCtx (untracedFind (memLoad env))) ctx i otherID id2 missing ((s, w), calls) =
      (st', [], Continue, savedBatch i @ [dataEvent ''event7'' id2 1])"
    and "recStore rec = (s, w) \<Longrightarrow> \<exists>rec'. EventStoreAcceptanceTest (recSave (liftSave (memSave env)))
      (\<lambda>c aid s. case memLoad env c aid (recStore s) of (st, r) \<Rightarrow> (s\<lparr>recStore := st\<rparr>, r)) ctx i otherID id2 missing rec =
      (rec', [], Continue, savedBatch i @ [dataEvent ''event7'' id2 1])"
  using tracedstrict.acceptance_passes [of env "((s, w), calls)" i id2 missing otherID spanCtx ctx]
    recstrict.acceptance_passes [of env rec i id2 missing otherID ctx] assms by auto

section \<open>The maintenance test\<close>

definition expectIs :: "sentinel \<Rightarrow> string \<Rightarrow> ('s \<Rightarrow> 's \<times> 'a go) \<Rightarrow> 's testStep" where
  "expectIs target m op = afterCall op (\<lambda>r.
     (tErrorIf (case r of Fail x \<Rightarrow> \<not> errors_Is x target | _ \<Rightarrow> True) m, Continue))"

text \<open>The load that follows a replacement compares what came back, without a check of its length.\<close>

definition compareStep ::
    "(ctx \<Rightarrow> UUID \<Rightarrow> 's \<Rightarrow> 's \<times> event option list go) \<Rightarrow> ctx \<Rightarrow> UUID \<Rightarrow> event list \<Rightarrow> 's testStep" where
  "compareStep load c i expected = afterCall (load c i) (\<lambda>r.
     case checkEvents expected 0 (valueOrNil r) of (ms, f) \<Rightarrow>
       (tErrorIf (\<not> is_Ret r) ''there should be no error:'' @ ms, f))"

definition renamedStep ::
    "(ctx \<Rightarrow> UUID \<Rightarrow> 's \<Rightarrow> 's \<times> event option list go) \<Rightarrow> ctx \<Rightarrow> UUID \<Rightarrow> event \<Rightarrow> 's testStep" where
  "renamedStep load c i newEvent = afterCall (load c i) (\<lambda>r.
     case valueOrNil r of
       [ev] \<Rightarrow> (case ev of
           None \<Rightarrow> (tErrorIf (\<not> is_Ret r) ''there should be no error:'', Crash ''nil pointer dereference'')
         | Some e \<Rightarrow> (tErrorIf (\<not> is_Ret r) ''there should be no error:'' @
             tErrorIf (CompareEvents e newEvent [IgnorePositionMetadata] \<noteq> Ret ()) ''the event was incorrect:'', Continue))
     | _ \<Rightarrow> (tErrorIf (\<not> is_Ret r) ''there should be no error:'' @ [''there should be one event''], FailNow))"

definition typedEvent :: "string \<Rightarrow> UUID \<Rightarrow> event" where
  "typedEvent et i = NewEvent et None testTime [ForAggregate mocks_AggregateType i 1]"

definition MaintenanceAcceptanceTest ::
    "(ctx \<Rightarrow> event option list \<Rightarrow> gint \<Rightarrow> 's \<Rightarrow> 's \<times> unit go) \<Rightarrow> (ctx \<Rightarrow> UUID \<Rightarrow> 's \<Rightarrow> 's \<times> event option list go) \<Rightarrow>
     (ctx \<Rightarrow> event option \<Rightarrow> 's \<Rightarrow> 's \<times> unit go) \<Rightarrow> (ctx \<Rightarrow> string \<Rightarrow> string \<Rightarrow> 's \<Rightarrow> 's \<times> unit go) \<Rightarrow>
     ctx \<Rightarrow> UUID \<Rightarrow> UUID \<Rightarrow> UUID \<Rightarrow> UUID \<Rightarrow> 's testStep" where
  "MaintenanceAcceptanceTest save load replace rename ctx i missing id1 id2 =
     (let c = testCtx ctx;
          event1 = dataEvent ''event1'' i 1; event2 = dataEvent ''event1'' i 2; event3 = dataEvent ''event1'' i 3;
          event2Mod = dataEvent ''event2_mod'' i 2
      in runSteps
          [expectOk (save c [Some event1, Some event2, Some event3] 0),
           expectIs ErrAggregateNotFound ''there should be an aggregate not found error:''
             (replace c (Some (dataEvent ''event'' missing 1))),
           expectStoreError ErrEventNotFound (replace c (Some (dataEvent ''event20'' i 20))),
           expectOk (replace c (Some event2Mod)),
           compareStep load c i [event1, event2Mod, event3],
           expectOk (save c [Some (typedEvent ''old_event_type'' id1)] 0),
           expectOk (save c [Some (typedEvent ''old_event_type'' id2)] 0),
           expectOk (rename c ''old_event_type'' ''new_event_type''),
           renamedStep load c id1 (typedEvent ''new_event_type'' id1),
           renamedStep load c id2 (typedEvent ''new_event_type'' id2)])"

text \<open>The maintenance operations of the memory store on the store as a whole.\<close>

definition onDb :: "((UUID \<times> aggregateRecord) list \<Rightarrow> (UUID \<times> aggregateRecord) list \<times> unit go) \<Rightarrow>
    'w memStore \<times> 'w \<Rightarrow> ('w memStore \<times> 'w) \<times> unit go" where
  "onDb op sw = (case op (esDb (fst sw)) of (db, r) \<Rightarrow> (((fst sw)\<lparr>esDb := db\<rparr>, snd sw), r))"

lemma passes_is:
  "(\<And>s s' r. P s \<Longrightarrow> op s = (s', r) \<Longrightarrow> Q s' \<and> (\<exists>x. r = Fail x \<and> errors_Is x d)) \<Longrightarrow> passes P (expectIs d m op) Q"
  unfolding expectIs_def by (rule passes_call) (fastforce simp: tErrorIf_def)

abbreviation memHolds :: "copyEnv \<Rightarrow> (UUID \<Rightarrow> event list) \<Rightarrow> 'w memStore \<times> 'w \<Rightarrow> bool" where
  "memHolds env f sw \<equiv> (memInv env (esDb (fst sw)) \<and> esEventHandler (fst sw) = None) \<and> memStream (esDb (fst sw)) = f"

lemma replace_missing_passes:
  assumes "f (aggregateID e) = []"
  shows "passes (memHolds env f) (expectIs ErrAggregateNotFound m (onDb (memReplace env (Some e)))) (memHolds env f)"
  by (rule passes_is) (use assms memStream_empty_iff in
    \<open>fastforce simp: onDb_def memReplace_def replaceError_def split: prod.splits\<close>)

lemma findVersion_None: "(\<And>e. e \<in> set es \<Longrightarrow> version e \<noteq> v) \<Longrightarrow> findVersion v i (map Some es) = Ret None"
  by (induction es arbitrary: i) auto

lemma replace_version_passes:
  assumes "f (aggregateID e) \<noteq> []" "\<And>x. x \<in> set (f (aggregateID e)) \<Longrightarrow> version x \<noteq> version e" "faithful env e"
  shows "passes (memHolds env f) (expectStoreError ErrEventNotFound (onDb (memReplace env (Some e)))) (memHolds env f)"
proof (rule passes_store_error)
  fix sw sw' r assume sw: "memHolds env f sw" and run: "onDb (memReplace env (Some e)) sw = (sw', r)"
  with assms(1) obtain a where a: "map_of (esDb (fst sw)) (aggregateID e) = Some a" by (auto simp: memStream_def split: option.splits)
  with sw recordInv_stream(1) [of env "esDb (fst sw)" "aggregateID e" a] findVersion_None [of _ "version e" 0, OF assms(2)]
  have "findVersion (version e) 0 (arEvents a) = Ret None" by auto
  with a run assms(3) have "sw' = sw" "r = Fail (replaceError (Sentinel ErrEventNotFound) e)"
    by (auto simp: onDb_def memReplace_def copyEvent_faithful)
  with sw show "memHolds env f sw' \<and> isStoreError ErrEventNotFound r" by (simp add: isStoreError_def replaceError_def)
qed

lemma replace_passes:
  assumes "k < length (f (aggregateID e))" "k < 2 ^ 63" "version e = of_nat (Suc k)" "faithful env e"
  shows "passes (memHolds env f) (expectOk (onDb (memReplace env (Some e)))) (memHolds env (f(aggregateID e := (f (aggregateID e))[k := e])))"
proof (rule passes_ok)
  fix sw sw' r assume sw: "memHolds env f sw" and run: "onDb (memReplace env (Some e)) sw = (sw', r)"
  from sw assms memReplace_effect [of env "esDb (fst sw)" k "aggregateID e" e] obtain db' where
    "memReplace env (Some e) (esDb (fst sw)) = (db', Ret ())"
    "memStream db' = f(aggregateID e := (f (aggregateID e))[k := e])" by auto
  with sw run memReplace_inv [of env "esDb (fst sw)" "Some e" db' "Ret ()"] assms(4)
  show "memHolds env (f(aggregateID e := (f (aggregateID e))[k := e])) sw' \<and> is_Ret r"
    by (auto simp: onDb_def)
qed

lemma compare_passes:
  assumes "f aid = expected" "expected \<noteq> []" "length expected < 2 ^ 63"
    and "\<And>k. k < length expected \<Longrightarrow> version (expected ! k) = of_nat k + 1"
  shows "passes (memHolds env f) (compareStep (memLoad env) c aid expected) (memHolds env f)"
  unfolding compareStep_def
proof (rule passes_call)
  fix sw :: "'a memStore \<times> 'a" and sw' r assume "memHolds env f sw" and "memLoad env c aid sw = (sw', r)"
  with strictmem.load_some [of env sw aid c sw' r] assms have "memHolds env f sw'" "r = Ret (map Some expected)" by auto
  moreover have "checkEvents expected 0 (map Some expected) = ([], Continue)"
    by (rule checkEvents_serial) (use assms(4) in simp)
  ultimately show "memHolds env f sw' \<and> (\<forall>p. r \<noteq> Panic p) \<and>
    (case checkEvents expected 0 (valueOrNil r) of (ms, g) \<Rightarrow>
       (tErrorIf (\<not> is_Ret r) ''there should be no error:'' @ ms, g)) = ([], Continue)"
    by (simp add: valueOrNil_def tErrorIf_def)
qed

text \<open>The histories of one event each that the renaming reaches.\<close>

definition loadsOne :: "copyEnv \<Rightarrow> (UUID \<Rightarrow> event option) \<Rightarrow> 'w memStore \<times> 'w \<Rightarrow> bool" where
  "loadsOne env g sw \<longleftrightarrow> (\<forall>c j e. g j = Some e \<longrightarrow> memLoad env c j sw = (sw, Ret [Some e]))"

lemma rename_passes:
  assumes "\<And>j e. g j = Some e \<Longrightarrow> f j = [e\<lparr>eventType := from\<rparr>] \<and> eventType e = to \<and> data e = None \<and> version e = 1"
  shows "passes (memHolds env f) (expectOk (onDb (memRenameEvent from to))) (loadsOne env g)"
proof (rule passes_ok)
  fix sw :: "'w memStore \<times> 'w" and sw' r
  assume sw: "memHolds env f sw" and run: "onDb (memRenameEvent from to) sw = (sw', r)"
  let ?db = "map (map_prod id (renamedRecord from to)) (esDb (fst sw))"
  from run sw memRenameEvent_effect [of env "esDb (fst sw)" "from" to]
  have sw': "sw' = ((fst sw)\<lparr>esDb := ?db\<rparr>, snd sw)" "r = Ret ()" by (auto simp: onDb_def)
  have "memLoad env c j sw' = (sw', Ret [Some e])" if g: "g j = Some e" for c j e
  proof -
    from assms [OF g] sw have st: "memStream (esDb (fst sw)) j = [e\<lparr>eventType := from\<rparr>]" by simp
    then obtain a where a: "map_of (esDb (fst sw)) j = Some a" by (auto simp: memStream_def split: option.splits)
    with st sw recordInv_stream(1) [of env "esDb (fst sw)" j a] have "arEvents a = [Some (e\<lparr>eventType := from\<rparr>)]" by simp
    moreover have "e\<lparr>eventType := to\<rparr> = e" using assms [OF g] by (cases e) simp
    ultimately have "arEvents (renamedRecord from to a) = [Some e]" by (simp add: renamedRecord_def)
    moreover have "loadSlot env 1 (Some e) = Ret (Some e)"
      using assms [OF g] by (intro loadSlot_stored) (simp_all add: faithful_def)
    ultimately show ?thesis using a by (simp add: sw' memLoad_def memLoadFrom_def map_of_renamed)
  qed
  then show "loadsOne env g sw' \<and> is_Ret r" using sw' by (simp add: loadsOne_def)
qed

lemma renamed_passes:
  "g j = Some e \<Longrightarrow> passes (loadsOne env g) (renamedStep (memLoad env) c j e) (loadsOne env g)"
  unfolding renamedStep_def by (rule passes_call) (fastforce simp: loadsOne_def valueOrNil_def tErrorIf_def)

lemma maintenance_passes:
  assumes faith: "\<And>e. testable e \<Longrightarrow> faithful env e"
    and fresh [simp]: "f i = []" "f missing = []" "f id1 = []" "f id2 = []" and ids: "distinct [i, missing, id1, id2]"
  shows "passes (memHolds env f) (MaintenanceAcceptanceTest (memSave env) (memLoad env) (\<lambda>c ev. onDb (memReplace env ev))
      (\<lambda>c from to. onDb (memRenameEvent from to)) ctx i missing id1 id2)
    (loadsOne env [id1 \<mapsto> typedEvent ''new_event_type'' id1, id2 \<mapsto> typedEvent ''new_event_type'' id2])"
proof -
  let ?d = "\<lambda>t v. dataEvent t i v" and ?t = "typedEvent"
  let ?f1 = "appendTo i [?d ''event1'' 1, ?d ''event1'' 2, ?d ''event1'' 3] f"
  let ?f2 = "?f1(i := [?d ''event1'' 1, ?d ''event2_mod'' 2, ?d ''event1'' 3])"
  let ?f3 = "appendTo id1 [?t ''old_event_type'' id1] ?f2"
  let ?f4 = "appendTo id2 [?t ''old_event_type'' id2] ?f3"
  let ?g = "[id1 \<mapsto> ?t ''new_event_type'' id1, id2 \<mapsto> ?t ''new_event_type'' id2]"
  have [simp]: "faithful env (dataEvent t j v)" "faithful env (?t et j)" for t j v et
    by (intro faith; simp add: typedEvent_def)+
  have [simp]: "aggregateID (?t et j) = j" "aggregateType (?t et j) = mocks_AggregateType" "version (?t et j) = 1" for et j
    by (simp_all add: typedEvent_def NewEvent_def ForAggregate_def)
  have [simp]: "i \<noteq> missing" "i \<noteq> id1" "i \<noteq> id2" "missing \<noteq> id1" "missing \<noteq> id2" "id1 \<noteq> id2"
    "missing \<noteq> i" "id1 \<noteq> i" "id2 \<noteq> i" "id1 \<noteq> missing" "id2 \<noteq> missing" "id2 \<noteq> id1" using ids by auto
  show ?thesis
    unfolding MaintenanceAcceptanceTest_def Let_def
  proof (intro passes_Cons)
    show "passes (memHolds env f) (expectOk (memSave env (testCtx ctx)
        [Some (?d ''event1'' 1), Some (?d ''event1'' 2), Some (?d ''event1'' 3)] 0)) (memHolds env ?f1)"
      by (rule strictmem.passes_append) (simp_all add: serialFrom_Cons)
    show "passes (memHolds env ?f1) (expectOk (onDb (memReplace env (Some (?d ''event2_mod'' 2))))) (memHolds env ?f2)"
      using replace_passes [of 1 ?f1 "?d ''event2_mod'' 2" env] by simp
    show "passes (memHolds env ?f1) (expectStoreError ErrEventNotFound (onDb (memReplace env (Some (dataEvent ''event20'' i 20))))) (memHolds env ?f1)"
      by (rule replace_version_passes) auto
    show "passes (memHolds env ?f2) (compareStep (memLoad env) (testCtx ctx) i [?d ''event1'' 1, ?d ''event2_mod'' 2, ?d ''event1'' 3]) (memHolds env ?f2)"
      by (rule compare_passes) (auto simp: nth_Cons' less_Suc_eq)
    show "passes (memHolds env ?f2) (expectOk (memSave env (testCtx ctx) [Some (?t ''old_event_type'' id1)] 0)) (memHolds env ?f3)"
      by (rule strictmem.passes_append) (simp_all add: serialFrom_Cons)
    show "passes (memHolds env ?f3) (expectOk (memSave env (testCtx ctx) [Some (?t ''old_event_type'' id2)] 0)) (memHolds env ?f4)"
      by (rule strictmem.passes_append) (simp_all add: serialFrom_Cons)
    show "passes (memHolds env ?f4) (expectOk (onDb (memRenameEvent ''old_event_type'' ''new_event_type''))) (loadsOne env ?g)"
      by (rule rename_passes) (auto simp: typedEvent_def NewEvent_def ForAggregate_def split: if_splits)
    show "passes (memHolds env ?f1) (expectIs ErrAggregateNotFound ''there should be an aggregate not found error:''
        (onDb (memReplace env (Some (dataEvent ''event'' missing 1))))) (memHolds env ?f1)"
      by (rule replace_missing_passes) simp
  qed (auto intro: renamed_passes passes_Nil)
qed

text \<open>
  The in-memory event store passes the maintenance test from every valid state. The test does not
  load an aggregate with events of other types after the renaming, so it does not see that the renaming loses them.
\<close>

theorem memory_maintenance_acceptance:
  assumes "memInv env (esDb s)" "esEventHandler s = None" "\<And>e. testable e \<Longrightarrow> faithful env e"
    and "\<And>j. j \<in> {i, missing, id1, id2} \<Longrightarrow> memStream (esDb s) j = []" "distinct [i, missing, id1, id2]"
  shows "\<exists>s' w'. MaintenanceAcceptanceTest (memSave env) (memLoad env) (\<lambda>c ev. onDb (memReplace env ev))
      (\<lambda>c from to. onDb (memRenameEvent from to)) ctx i missing id1 id2 (s, w) = ((s', w'), [], Continue)"
proof -
  have "passes (memHolds env (memStream (esDb s))) (MaintenanceAcceptanceTest (memSave env) (memLoad env) (\<lambda>c ev. onDb (memReplace env ev))
      (\<lambda>c from to. onDb (memRenameEvent from to)) ctx i missing id1 id2)
    (loadsOne env [id1 \<mapsto> typedEvent ''new_event_type'' id1, id2 \<mapsto> typedEvent ''new_event_type'' id2])"
    by (rule maintenance_passes) (use assms in simp_all)
  from passesD [OF this, of "(s, w)"] assms(1,2) show ?thesis by auto
qed

theorem memory_maintenance_acceptance_witness:
  "\<exists>s' w'. MaintenanceAcceptanceTest (memSave mockEnv) (memLoad mockEnv) (\<lambda>c ev. onDb (memReplace mockEnv ev))
      (\<lambda>c from to. onDb (memRenameEvent from to)) context_Background 1 2 3 4 (\<lparr>esDb = [], esEventHandler = None\<rparr>, ()) =
      ((s', w'), [], Continue)"
  using memory_maintenance_acceptance [of mockEnv "\<lparr>esDb = [], esEventHandler = None\<rparr>" 1 2 3 4 context_Background "()"]
    mockEnv_faithful by auto

end
