(* ===== verification/Acceptance_Repo.thy ===== *)
theory Acceptance_Repo
  imports Acceptance
begin

text \<open>
  The acceptance test of read/write repositories (\<^verbatim>\<open>repo/acceptance_testing.go\<close>), the contract
  under which a repository passes it, and the repositories that do: the one in memory, the
  cache over it and the traced one.
\<close>

section \<open>The test\<close>

definition mocks_Model :: "UUID \<Rightarrow> string \<Rightarrow> entity" where
  "mocks_Model i content = \<lparr>entityID = i, entityVersion = Some 0,
     entityBody = gstructPtr ''Model'' [pubField ''ID'' (GUUID i), pubField ''Version'' (GInt 0),
       pubField ''Content'' (GString content), pubField ''CreatedAt'' (GTime testTime)]\<rparr>"

text \<open>\<^verbatim>\<open>errors.As\<close> with a target of type \<^verbatim>\<open>*eh.RepoError\<close>: the error that the found one wraps.\<close>

fun errors_AsRepoError :: "err \<Rightarrow> err option option" where
  "errors_AsRepoError (RepoError eo _ _) = Some eo"
| "errors_AsRepoError e = (case unwrap e of None \<Rightarrow> None | Some e' \<Rightarrow> errors_AsRepoError e')"

definition expectMissingID :: "(UUID \<Rightarrow> string) \<Rightarrow> ('s \<Rightarrow> 's \<times> unit go) \<Rightarrow> 's testStep" where
  "expectMissingID us op = afterCall op (\<lambda>r.
     case (case r of Fail x \<Rightarrow> errors_AsRepoError x | _ \<Rightarrow> None) of
       None \<Rightarrow> ([''there should be a repo error:''], Continue)
     | Some None \<Rightarrow> ([], Crash ''nil pointer dereference'')
     | Some (Some e) \<Rightarrow> (tErrorIf (error_string us e \<noteq> ''missing entity ID'') ''there should be a repo error:'', Continue))"

definition expectNoEntity :: "('s \<Rightarrow> 's \<times> entity go) \<Rightarrow> 's testStep" where
  "expectNoEntity op = afterCall op (\<lambda>r.
     (tErrorIf (case r of Fail x \<Rightarrow> \<not> errors_Is x ErrEntityNotFound | _ \<Rightarrow> True) ''there should be a ErrEntityNotFound error:'' @
      tErrorIf (is_Ret r) ''there should be no entity:'', Continue))"

definition expectEntity :: "entity \<Rightarrow> ('s \<Rightarrow> 's \<times> entity go) \<Rightarrow> 's testStep" where
  "expectEntity e op = afterCall op (\<lambda>r.
     (tErrorIf (\<not> is_Ret r) ''there should be no error:'' @ tErrorIf (r \<noteq> Ret e) ''the item should be correct:'', Continue))"

text \<open>\<^verbatim>\<open>FindAll\<close>: the number of items, then the items themselves in one of the accepted orders.\<close>

definition expectAll :: "nat \<Rightarrow> string \<Rightarrow> entity list list \<Rightarrow> string \<Rightarrow> ('s \<Rightarrow> 's \<times> entity list go) \<Rightarrow> 's testStep" where
  "expectAll n msg accepted msg' op = afterCall op (\<lambda>r.
     (tErrorIf (\<not> is_Ret r) ''there should be no error:'' @
      tErrorIf (length (valueOrNil r) \<noteq> n) msg @
      tErrorIf (accepted \<noteq> [] \<and> valueOrNil r \<notin> set accepted) msg', Continue))"

definition RepoAcceptanceTest ::
    "(UUID \<Rightarrow> string) \<Rightarrow> 's Repo \<Rightarrow> ctx \<Rightarrow> UUID \<Rightarrow> UUID \<Rightarrow> UUID \<Rightarrow> 's testStep" where
  "RepoAcceptanceTest us repo c missing id1 id2 =
     (let entity1 = mocks_Model id1 ''entity1'';
          entity1Alt = mocks_Model id1 ''entity1Alt'';
          entity2 = mocks_Model id2 ''entity2''
      in runSteps
          [expectNoEntity (rFind repo c missing),
           expectAll 0 ''there should be no items:'' [] '''' (rFindAll repo c),
           expectMissingID us (rSave repo c (mocks_Model uuid_Nil ''entity1'')),
           expectOk (rSave repo c entity1),
           expectEntity entity1 (rFind repo c id1),
           expectAll 1 ''there should be one item:'' [[entity1]] ''the item should be correct:'' (rFindAll repo c),
           expectOk (rSave repo c entity1Alt),
           expectEntity entity1Alt (rFind repo c id1),
           expectOk (rSave repo c entity2),
           expectEntity entity2 (rFind repo c id2),
           expectAll 2 ''there should be two items:'' [[entity1Alt, entity2], [entity2, entity1Alt]]
             ''the items should be correct:'' (rFindAll repo c),
           expectOk (rRemove repo c id1),
           expectNoEntity (rFind repo c id1),
           expectIs ErrEntityNotFound ''there should be a ErrEntityNotFound error:'' (rRemove repo c id1)])"

section \<open>Repositories that pass\<close>

text \<open>
  Beyond the contract: \<^verbatim>\<open>FindAll\<close> lists each entity once, in any order, and an entity without
  an ID is refused.
\<close>

locale listing_repo = rw_repo fnd save remove view storable invar
  for fnd :: "ctx \<Rightarrow> UUID \<Rightarrow> 's \<Rightarrow> 's \<times> entity go"
    and save :: "ctx \<Rightarrow> entity \<Rightarrow> 's \<Rightarrow> 's \<times> unit go"
    and remove :: "ctx \<Rightarrow> UUID \<Rightarrow> 's \<Rightarrow> 's \<times> unit go"
    and view :: "'s \<Rightarrow> UUID \<Rightarrow> entity option"
    and storable :: "entity \<Rightarrow> bool"
    and invar :: "'s \<Rightarrow> bool" +
  fixes findAll :: "ctx \<Rightarrow> 's \<Rightarrow> 's \<times> entity list go"
  assumes findAll_lists: "invar s \<Longrightarrow> findAll c s = (s', r) \<Longrightarrow>
      invar s' \<and> view s' = view s \<and> (\<exists>es. r = Ret es \<and> distinct es \<and> set es = ran (view s))"
    and save_nil: "invar s \<Longrightarrow> entityID e = uuid_Nil \<Longrightarrow> save c e s = (s', u) \<Longrightarrow>
      invar s' \<and> view s' = view s \<and> (\<exists>x. u = Fail x \<and> errors_AsRepoError x = Some (Some (NewError ''missing entity ID'')))"
begin

abbreviation holds :: "(UUID \<rightharpoonup> entity) \<Rightarrow> 's \<Rightarrow> bool" where
  "holds m s \<equiv> invar s \<and> view s = m"

lemma passes_find_none: "m i = None \<Longrightarrow> passes (holds m) (expectNoEntity (fnd c i)) (holds m)"
  unfolding expectNoEntity_def
proof (rule passes_call)
  fix s s' r assume "m i = None" "holds m s" "fnd c i s = (s', r)"
  with find_none [of s i c s' r] find_state [of s c i s' r]
  show "holds m s' \<and> (\<forall>p. r \<noteq> Panic p) \<and>
      (tErrorIf (case r of Fail x \<Rightarrow> \<not> errors_Is x ErrEntityNotFound | _ \<Rightarrow> True) ''there should be a ErrEntityNotFound error:'' @
       tErrorIf (is_Ret r) ''there should be no entity:'', Continue) = ([], Continue)"
    by (auto simp: tErrorIf_def)
qed

lemma passes_find: "m i = Some e \<Longrightarrow> passes (holds m) (expectEntity e (fnd c i)) (holds m)"
  unfolding expectEntity_def
proof (rule passes_call)
  fix s s' r assume "m i = Some e" "holds m s" "fnd c i s = (s', r)"
  with find_some [of s i e c s' r] find_state [of s c i s' r]
  show "holds m s' \<and> (\<forall>p. r \<noteq> Panic p) \<and>
      (tErrorIf (\<not> is_Ret r) ''there should be no error:'' @ tErrorIf (r \<noteq> Ret e) ''the item should be correct:'', Continue) = ([], Continue)"
    by (auto simp: tErrorIf_def)
qed

lemma passes_find_all:
  assumes "\<And>es. distinct es \<Longrightarrow> set es = ran m \<Longrightarrow> length es = n \<and> (accepted = [] \<or> es \<in> set accepted)"
  shows "passes (holds m) (expectAll n t accepted t' (findAll c)) (holds m)"
  unfolding expectAll_def
proof (rule passes_call)
  fix s s' r assume "holds m s" "findAll c s = (s', r)"
  with findAll_lists [of s c s' r] obtain es where "holds m s'" "r = Ret es" "distinct es" "set es = ran m" by auto
  with assms [of es] show "holds m s' \<and> (\<forall>p. r \<noteq> Panic p) \<and>
      (tErrorIf (\<not> is_Ret r) ''there should be no error:'' @ tErrorIf (length (valueOrNil r) \<noteq> n) t @
       tErrorIf (accepted \<noteq> [] \<and> valueOrNil r \<notin> set accepted) t', Continue) = ([], Continue)"
    by (auto simp: valueOrNil_def tErrorIf_def)
qed

lemma passes_save_nil: "entityID e = uuid_Nil \<Longrightarrow> passes (holds m) (expectMissingID us (save c e)) (holds m)"
  unfolding expectMissingID_def
proof (rule passes_call)
  fix s s' r assume "entityID e = uuid_Nil" "holds m s" "save c e s = (s', r)"
  with save_nil [of s e c s' r]
  show "holds m s' \<and> (\<forall>p. r \<noteq> Panic p) \<and>
      (case case r of Fail x \<Rightarrow> errors_AsRepoError x | _ \<Rightarrow> None of
         None \<Rightarrow> ([''there should be a repo error:''], Continue)
       | Some None \<Rightarrow> ([], Crash ''nil pointer dereference'')
       | Some (Some e) \<Rightarrow> (tErrorIf (error_string us e \<noteq> ''missing entity ID'') ''there should be a repo error:'', Continue)) =
      ([], Continue)"
    by (auto simp: tErrorIf_def)
qed

lemma passes_save_entity:
  "storable e \<Longrightarrow> entityID e \<noteq> uuid_Nil \<Longrightarrow> passes (holds m) (expectOk (save c e)) (holds (m(entityID e \<mapsto> e)))"
proof (rule passes_ok)
  fix s s' r assume "storable e" "entityID e \<noteq> uuid_Nil" "holds m s" "save c e s = (s', r)"
  with save_ok [of s e c s' r] show "holds (m(entityID e \<mapsto> e)) s' \<and> is_Ret r" by simp
qed

lemma passes_remove: "m i \<noteq> None \<Longrightarrow> passes (holds m) (expectOk (remove c i)) (holds (m(i := None)))"
proof (rule passes_ok)
  fix s s' r assume "m i \<noteq> None" "holds m s" "remove c i s = (s', r)"
  with remove_some [of s i c s' r] show "holds (m(i := None)) s' \<and> is_Ret r" by simp
qed

lemma passes_remove_none: "m i = None \<Longrightarrow> passes (holds m) (expectIs ErrEntityNotFound t (remove c i)) (holds m)"
  by (rule passes_is) (use remove_none in blast)

end

lemma mocks_Model_id [simp]: "entityID (mocks_Model i t) = i"
  by (simp add: mocks_Model_def)

lemma distinct_set_two:
  assumes "distinct es" "set es = {a, b}" "a \<noteq> b"
  shows "length es = 2 \<and> (es = [a, b] \<or> es = [b, a])"
proof -
  from assms distinct_card [of es] have "length es = 2" by simp
  then obtain x y where "es = [x, y]" by (auto simp: length_Suc_conv numeral_2_eq_2)
  with assms show ?thesis by (auto simp: doubleton_eq_iff)
qed

lemma distinct_set_one:
  assumes "distinct es" "set es = {a}"
  shows "es = [a]"
proof -
  from assms distinct_card [of es] have "length es = 1" by simp
  then obtain x where "es = [x]" by (auto simp: length_Suc_conv)
  with assms(2) show ?thesis by simp
qed

context listing_repo
begin

lemma repo_acceptance_passes:
  assumes "\<And>t. storable (mocks_Model id1 t)" "\<And>t. storable (mocks_Model id2 t)"
    and ids [simp]: "id1 \<noteq> uuid_Nil" "id2 \<noteq> uuid_Nil" "id1 \<noteq> id2" "id2 \<noteq> id1"
    and repo [simp]: "rFind repo = fnd" "rFindAll repo = findAll" "rSave repo = save" "rRemove repo = remove"
  shows "passes (holds Map.empty) (RepoAcceptanceTest us repo c missing id1 id2) (holds [id2 \<mapsto> mocks_Model id2 ''entity2''])"
proof -
  let ?e1 = "mocks_Model id1 ''entity1''" and ?a1 = "mocks_Model id1 ''entity1Alt''" and ?e2 = "mocks_Model id2 ''entity2''"
  have ne: "?a1 \<noteq> ?e2" by (metis ids(3) mocks_Model_id)
  have rans: "ran [id1 \<mapsto> ?e1] = {?e1}" "ran [id1 \<mapsto> ?a1, id2 \<mapsto> ?e2] = {?a1, ?e2}" by (simp_all add: insert_commute)
  show ?thesis
    unfolding RepoAcceptanceTest_def Let_def repo
  proof (intro passes_Cons)
    show "passes (holds Map.empty) (expectOk (save c ?e1)) (holds [id1 \<mapsto> ?e1])"
      using passes_save_entity [of ?e1 Map.empty c] assms(1) by simp
    show "passes (holds [id1 \<mapsto> ?e1]) (expectOk (save c ?a1)) (holds [id1 \<mapsto> ?a1])"
      using passes_save_entity [of ?a1 "[id1 \<mapsto> ?e1]" c] assms(1) by simp
    show "passes (holds [id1 \<mapsto> ?a1]) (expectOk (save c ?e2)) (holds [id1 \<mapsto> ?a1, id2 \<mapsto> ?e2])"
      using passes_save_entity [of ?e2 "[id1 \<mapsto> ?a1]" c] assms(2) by simp
    show "passes (holds [id1 \<mapsto> ?a1, id2 \<mapsto> ?e2]) (expectOk (remove c id1)) (holds [id2 \<mapsto> ?e2])"
      using passes_remove [of "[id1 \<mapsto> ?a1, id2 \<mapsto> ?e2]" id1 c] by (simp add: fun_upd_twist)
    show "passes (holds Map.empty) (expectAll 0 ''there should be no items:'' [] '''' (findAll c)) (holds Map.empty)"
      by (rule passes_find_all) simp
    show "passes (holds [id1 \<mapsto> ?e1]) (expectAll 1 ''there should be one item:'' [[?e1]] ''the item should be correct:'' (findAll c))
        (holds [id1 \<mapsto> ?e1])"
      by (rule passes_find_all) (use distinct_set_one in \<open>fastforce simp: rans\<close>)
    show "passes (holds [id1 \<mapsto> ?a1, id2 \<mapsto> ?e2]) (expectAll 2 ''there should be two items:'' [[?a1, ?e2], [?e2, ?a1]]
        ''the items should be correct:'' (findAll c)) (holds [id1 \<mapsto> ?a1, id2 \<mapsto> ?e2])"
      by (rule passes_find_all) (use distinct_set_two [OF _ _ ne] in \<open>simp add: rans\<close>)
    show "passes (holds [id2 \<mapsto> ?e2]) (expectNoEntity (fnd c id1)) (holds [id2 \<mapsto> ?e2])"
      by (rule passes_find_none) simp
    show "passes (holds [id2 \<mapsto> ?e2]) (expectIs ErrEntityNotFound ''there should be a ErrEntityNotFound error:'' (remove c id1))
        (holds [id2 \<mapsto> ?e2])"
      by (rule passes_remove_none) simp
  qed (simp_all add: passes_find_none passes_find passes_save_nil passes_Nil)
qed

end

section \<open>The repositories\<close>

lemma memFindAll_lists:
  assumes "memRepoInv env fresh r"
  shows "\<exists>es. memFindAll env c r = (r, Ret es) \<and> distinct es \<and> set es = ran (memView env fresh r)"
proof -
  let ?v = "memView env fresh r"
  have v: "\<exists>e. ?v i = Some e \<and> entityID e = i" if "i \<in> set (rIds r)" for i
    using that assms memView_None_iff [OF assms, of i] memView_Some [OF assms, of i]
    by (cases "?v i") (auto simp: memRepoInv_def)
  have "inj_on (\<lambda>i. the (?v i)) (set (rIds r))"
    by (rule inj_on_inverseI [of _ entityID]) (use v in fastforce)
  then have "distinct (map (\<lambda>i. the (?v i)) (rIds r))"
    using assms by (simp add: distinct_map memRepoInv_def)
  moreover have "dom ?v = set (rIds r)"
    using assms memView_None_iff [OF assms] by (simp add: memRepoInv_def dom_def)
  then have "set (map (\<lambda>i. the (?v i)) (rIds r)) = ran ?v"
    by (force simp: ran_def dom_def image_iff)
  ultimately show ?thesis using memFindAll_view [OF assms, of c] by blast
qed

interpretation meml: listing_repo "memFind env" "memRepoSave env" memRepoRemove "memView env fresh" "jsonStorable env fresh"
  "memRepoInv env fresh" "memFindAll env" for env fresh
proof (unfold_locales, goal_cases)
  case (1 r c r' res)
  with memFindAll_lists [of env fresh r c] show ?case by auto
next
  case (2 r e c r' res)
  then show ?case by (auto simp: memRepoSave_def memRepoInv_def Let_def)
qed

context listing_repo
begin

lemma cache_fold:
  assumes "\<And>e. e \<in> set es \<Longrightarrow> view s (entityID e) = Some e" "coherent view (s, ca)"
  shows "\<exists>ca'. fold (\<lambda>e. cachePut (entityID e) e) es (s, ca) = (s, ca') \<and> coherent view (s, ca')"
  using assms
proof (induction es arbitrary: ca)
  case (Cons e es)
  then have "coherent view (s, ca(entityID e \<mapsto> e))" by (auto simp: coherent_def)
  with Cons show ?case by (simp add: cachePut_def)
qed simp

text \<open>The view holds each entity under its own ID, which a cache relies on.\<close>

lemma cache_listing_repo:
  assumes keyed: "\<And>s i e. invar s \<Longrightarrow> view s i = Some e \<Longrightarrow> entityID e = i"
  shows "listing_repo (cacheFind fnd) (cacheSave save) (cacheRemove remove) (\<lambda>sc. view (fst sc)) storable cinv (cacheFindAll findAll)"
proof (intro listing_repo.intro cache_rw_repo listing_repo_axioms.intro, goal_cases)
  case (1 sc c sc' r)
  obtain s1 r1 where f: "findAll c (fst sc) = (s1, r1)" by fastforce
  with findAll_lists [OF _ f] 1(1) obtain es where es: "invar s1" "view s1 = view (fst sc)" "r1 = Ret es" "distinct es" "set es = ran (view (fst sc))"
    by auto
  have "view s1 (entityID e) = Some e" if "e \<in> set es" for e
    using that es keyed [OF es(1)] by (auto simp: ran_def)
  moreover have "coherent view (s1, snd sc)" using 1(1) es(2) by (simp add: coherent_def)
  ultimately obtain ca' where "fold (\<lambda>e. cachePut (entityID e) e) es (s1, snd sc) = (s1, ca')" "coherent view (s1, ca')"
    using cache_fold by blast
  moreover from this(1) 1(2) f es(3) have "sc' = (s1, ca')" "r = Ret es" by (simp_all add: cacheFindAll_def)
  ultimately show ?case using es by auto
next
  case (2 sc e c sc' r)
  obtain s1 r1 where f: "save c e (fst sc) = (s1, r1)" by fastforce
  note ok = save_nil [OF _ 2(2) f]
  from 2(1) ok have "coherent view (s1, (snd sc)(entityID e := None))" by (intro coherent_bust [of view "fst sc"]) auto
  with 2 ok f show ?case by (auto simp: cacheSave_def cacheBust_def)
qed

lemma traced_listing_repo:
  "listing_repo (traceFind spanCtx (untracedFind fnd)) (traceSave spanCtx (untracedSave save)) (traceRemove spanCtx (untracedFind remove))
     (\<lambda>st. view (fst st)) storable (\<lambda>st. invar (fst st)) (traceFindAll spanCtx (untraced findAll))"
proof (intro listing_repo.intro traced_repo listing_repo_axioms.intro, goal_cases)
  case (1 st c st' r)
  then have "findAll (spanCtx c (length (snd st))) (fst st) = (fst st', r)"
    unfolding traceFindAll_def by - (drule inSpan_untraced, simp_all)
  from findAll_lists [OF 1(1) this] show ?case .
next
  case (2 st e c st' r)
  from save_nil [OF 2(1,2) traceSave_untraced [OF 2(3)]] show ?case .
qed

end

interpretation memcl: listing_repo "cacheFind (memFind env)" "cacheSave (memRepoSave env)" "cacheRemove memRepoRemove"
  "\<lambda>sc. memView env fresh (fst sc)" "jsonStorable env fresh"
  "\<lambda>sc. memRepoInv env fresh (fst sc) \<and> coherent (memView env fresh) sc" "cacheFindAll (memFindAll env)" for env fresh
  by (rule meml.cache_listing_repo) (use memView_Some in blast)

interpretation tracedl: listing_repo "traceFind spanCtx (untracedFind (memFind env))" "traceSave spanCtx (untracedSave (memRepoSave env))"
  "traceRemove spanCtx (untracedFind memRepoRemove)"
  "\<lambda>st. memView env fresh (fst st)" "jsonStorable env fresh" "\<lambda>st. memRepoInv env fresh (fst st)"
  "traceFindAll spanCtx (untraced (memFindAll env))" for spanCtx env fresh
  by (rule meml.traced_listing_repo)

section \<open>Properties\<close>

definition cacheRepoOps :: "'s Repo \<Rightarrow> 's cached Repo" where
  "cacheRepoOps repo = \<lparr>rFind = cacheFind (rFind repo), rFindAll = cacheFindAll (rFindAll repo),
     rSave = cacheSave (rSave repo), rRemove = cacheRemove (rRemove repo)\<rparr>"

definition untracedRepo :: "'s Repo \<Rightarrow> 's traced Repo" where
  "untracedRepo repo = \<lparr>rFind = untracedFind (rFind repo), rFindAll = untraced (rFindAll repo),
     rSave = untracedSave (rSave repo), rRemove = untracedFind (rRemove repo)\<rparr>"

lemma newRepo_holds:
  "memRepoInv env fresh (memSetEntityFactory NewMemRepo fresh)" "memView env fresh (memSetEntityFactory NewMemRepo fresh) = Map.empty"
  by (simp_all add: memRepoInv_def memSetEntityFactory_def NewMemRepo_def memView_def fun_eq_iff)

text \<open>
  The acceptance test of repositories. A new in-memory repository passes it, and so does the cache over one and the
  traced one: for new IDs, no check fails and nothing panics, and the second entity is all that
  is left in the repository.
\<close>

theorem repo_acceptance:
  assumes "\<And>t. jsonStorable env fresh (mocks_Model id1 t)" "\<And>t. jsonStorable env fresh (mocks_Model id2 t)"
    and "id1 \<noteq> uuid_Nil" "id2 \<noteq> uuid_Nil" "id1 \<noteq> id2"
  shows "(\<exists>r'. RepoAcceptanceTest us (memRepoOps env) c missing id1 id2 (memSetEntityFactory NewMemRepo fresh) = (r', [], Continue) \<and>
      memView env fresh r' = [id2 \<mapsto> mocks_Model id2 ''entity2'']) \<and>
    (\<exists>r'. RepoAcceptanceTest us (cacheRepoOps (memRepoOps env)) c missing id1 id2
        (NewCacheRepo (memSetEntityFactory NewMemRepo fresh)) = (r', [], Continue) \<and>
      memView env fresh (fst r') = [id2 \<mapsto> mocks_Model id2 ''entity2'']) \<and>
    (\<exists>r'. RepoAcceptanceTest us (NewTracingRepo spanCtx (untracedRepo (memRepoOps env))) c missing id1 id2
        (memSetEntityFactory NewMemRepo fresh, calls) = (r', [], Continue) \<and>
      memView env fresh (fst r') = [id2 \<mapsto> mocks_Model id2 ''entity2''])"
proof (intro conjI)
  note ids = assms(3-5) assms(5) [THEN not_sym]
  show "\<exists>r'. RepoAcceptanceTest us (memRepoOps env) c missing id1 id2 (memSetEntityFactory NewMemRepo fresh) = (r', [], Continue) \<and>
      memView env fresh r' = [id2 \<mapsto> mocks_Model id2 ''entity2'']"
    using meml.repo_acceptance_passes [OF assms(1,2) ids, where repo = "memRepoOps env" and us = us and c = c and missing = missing, THEN passesD,
        of "memSetEntityFactory NewMemRepo fresh"] newRepo_holds by (auto simp: memRepoOps_def)
  show "\<exists>r'. RepoAcceptanceTest us (cacheRepoOps (memRepoOps env)) c missing id1 id2
        (NewCacheRepo (memSetEntityFactory NewMemRepo fresh)) = (r', [], Continue) \<and>
      memView env fresh (fst r') = [id2 \<mapsto> mocks_Model id2 ''entity2'']"
    using memcl.repo_acceptance_passes [OF assms(1,2) ids, where repo = "cacheRepoOps (memRepoOps env)" and us = us and c = c and missing = missing, THEN passesD,
        of "NewCacheRepo (memSetEntityFactory NewMemRepo fresh)"] newRepo_holds
    by (auto simp: memRepoOps_def cacheRepoOps_def NewCacheRepo_def coherent_def)
  show "\<exists>r'. RepoAcceptanceTest us (NewTracingRepo spanCtx (untracedRepo (memRepoOps env))) c missing id1 id2
        (memSetEntityFactory NewMemRepo fresh, calls) = (r', [], Continue) \<and>
      memView env fresh (fst r') = [id2 \<mapsto> mocks_Model id2 ''entity2'']"
    using tracedl.repo_acceptance_passes [OF assms(1,2) ids, where repo = "NewTracingRepo spanCtx (untracedRepo (memRepoOps env))" and spanCtx = spanCtx and us = us and c = c and missing = missing,
        THEN passesD, of "(memSetEntityFactory NewMemRepo fresh, calls)"] newRepo_holds
    by (auto simp: memRepoOps_def NewTracingRepo_def untracedRepo_def)
qed

text \<open>A format for the models of the test: the ID in unary, a bar, and the content.\<close>

definition modelContent :: "entity \<Rightarrow> string" where
  "modelContent e = (case asStructPtr ''Model'' (Some (entityBody e)) of Some fs \<Rightarrow> stringField ''Content'' fs | None \<Rightarrow> '''')"

definition modelJson :: jsonEnv where
  "modelJson = \<lparr>json_Marshal = (\<lambda>e. Ret (replicate (unat (entityID e)) (CHR ''i'') @ CHR ''|'' # modelContent e)),
     json_Unmarshal = (\<lambda>b fresh. Ret (mocks_Model (of_nat (length (takeWhile (\<lambda>ch. ch \<noteq> CHR ''|'') b)))
       (tl (dropWhile (\<lambda>ch. ch \<noteq> CHR ''|'') b))))\<rparr>"

lemma modelJson_storable: "jsonStorable modelJson fresh (mocks_Model i t)"
  by (simp add: jsonStorable_def modelJson_def modelContent_def mocks_Model_def stringField_def structField_def
      takeWhile_append dropWhile_append)

theorem repo_acceptance_witness:
  "\<exists>r'. RepoAcceptanceTest (\<lambda>_. ''id'') (memRepoOps modelJson) context_Background 5 1 2
      (memSetEntityFactory NewMemRepo (mocks_Model 0 '''')) = (r', [], Continue)"
  using repo_acceptance [of modelJson "mocks_Model 0 ''''" 1 2 "\<lambda>_. ''id''" context_Background 5 "\<lambda>c _. c" "[]"] modelJson_storable
  by auto

end
