(* ===== verification/Acceptance_Handlers.thy ===== *)
theory Acceptance_Handlers
  imports Acceptance EventBus_Local EventBus_Kafka EventBus_Gcp EventBus_Nats EventBus_Redis Outbox_Memory Outbox_Mongo
begin

text \<open>
  The tests of \<^verbatim>\<open>AddHandler\<close> for event buses and outboxes (\<^verbatim>\<open>eventbus/acceptance_testing.go\<close>,
  \<^verbatim>\<open>outbox/acceptance_testing.go\<close>), the contract of adding handlers that all five buses and
  both outboxes share, and that each of them passes its test.
\<close>

section \<open>The tests\<close>

definition expectAdded :: "('s \<Rightarrow> 's \<times> unit go) \<Rightarrow> 's testStep" where
  "expectAdded op = afterCall op (\<lambda>r. if is_Ret r then ([], Continue) else ([''there should be no error:''], FailNow))"

text \<open>\<open>noMatcher\<close> and \<open>multi\<close> are the two mocked handlers, \<open>matchAll\<close> is \<^verbatim>\<open>eh.MatchAll{}\<close>.\<close>

definition busTestAddHandler ::
    "('m option \<Rightarrow> 'h option \<Rightarrow> 's \<Rightarrow> 's \<times> unit go) \<Rightarrow> 'm \<Rightarrow> 'h \<Rightarrow> 'h \<Rightarrow> 's testStep" where
  "busTestAddHandler add matchAll noMatcher multi = runSteps
     [expectIs ErrMissingMatcher ''the error should be correct:'' (add None (Some noMatcher)),
      expectIs ErrMissingHandler ''the error should be correct:'' (add (Some matchAll) None),
      expectAdded (add (Some matchAll) (Some multi)),
      expectIs ErrHandlerAlreadyAdded ''the error should be correct:'' (add (Some matchAll) (Some multi))]"

definition outboxTestAddHandler ::
    "('m option \<Rightarrow> 'h option \<Rightarrow> 's \<Rightarrow> 's \<times> unit go) \<Rightarrow> 'm \<Rightarrow> 'h \<Rightarrow> 'h \<Rightarrow> 's testStep" where
  "outboxTestAddHandler add matchAll noMatcher multi = runSteps
     [expectIs ErrMissingMatcher ''the error should be correct:'' (add None (Some noMatcher)),
      expectIs ErrMissingHandler ''the error should be correct:'' (add (Some matchAll) None),
      expectAdded (add (Some matchAll) (Some multi)),
      expectIs ErrHandlerAlreadyAdded ''the error should be correct:'' (add (Some matchAll) (Some multi))]"

section \<open>The contract\<close>

text \<open>
  \<open>types s\<close> are the types of the handlers that were added. \<open>ready\<close> says that the service behind
  the bus lets a handler be added: its subscription, group or channel can be made.
\<close>

locale handler_adding =
  fixes add :: "'m option \<Rightarrow> 'h option \<Rightarrow> 's \<Rightarrow> 's \<times> unit go"
    and types :: "'s \<Rightarrow> string set"
    and typeOf :: "'h \<Rightarrow> string"
    and ready :: "'m \<Rightarrow> 'h \<Rightarrow> 's \<Rightarrow> bool"
  assumes no_matcher: "add None h s = (s, Fail (Sentinel ErrMissingMatcher))"
    and no_handler: "add (Some m) None s = (s, Fail (Sentinel ErrMissingHandler))"
    and added_twice: "typeOf k \<in> types s \<Longrightarrow> add (Some m) (Some k) s = (s, Fail (Sentinel ErrHandlerAlreadyAdded))"
    and added: "typeOf k \<notin> types s \<Longrightarrow> ready m k s \<Longrightarrow> add (Some m) (Some k) s = (s', r) \<Longrightarrow>
      r = Ret () \<and> types s' = insert (typeOf k) (types s)"
begin

lemma test_passes:
  assumes "typeOf multi \<notin> types s" "ready matchAll multi s"
  shows "\<exists>s'. busTestAddHandler add matchAll noMatcher multi s = (s', [], Continue) \<and>
    outboxTestAddHandler add matchAll noMatcher multi s = (s', [], Continue) \<and> types s' = insert (typeOf multi) (types s)"
proof -
  obtain s' where s': "add (Some matchAll) (Some multi) s = (s', Ret ())" "types s' = insert (typeOf multi) (types s)"
    using added [OF assms] by (metis surj_pair)
  have "add (Some matchAll) (Some multi) s' = (s', Fail (Sentinel ErrHandlerAlreadyAdded))"
    by (rule added_twice) (simp add: s'(2))
  with s' show ?thesis
    by (simp add: busTestAddHandler_def outboxTestAddHandler_def expectIs_def expectAdded_def afterCall_def tErrorIf_def
        no_matcher no_handler)
qed

lemma bus_test_passes:
  "typeOf multi \<notin> types s \<Longrightarrow> ready matchAll multi s \<Longrightarrow> \<exists>s'. busTestAddHandler add matchAll noMatcher multi s = (s', [], Continue)"
  using test_passes by blast

lemma outbox_test_passes:
  "typeOf multi \<notin> types s \<Longrightarrow> ready matchAll multi s \<Longrightarrow> \<exists>s'. outboxTestAddHandler add matchAll noMatcher multi s = (s', [], Continue)"
  using test_passes by blast

end

lemma handlerFor_types: "handlerFor hs t = None \<longleftrightarrow> t \<notin> (HandlerType \<circ> mhHandler) ` set hs"
  by (auto simp: handlerFor_def find_None_iff)

interpretation localadd: handler_adding AddHandler "\<lambda>bg. set (registered (fst bg))" HandlerType "\<lambda>m h bg. \<not> groupNil (snd bg)"
  by unfold_locales (auto simp: AddHandler_def groupChannel_def split: prod.splits option.splits)

interpretation outboxadd: handler_adding outboxAddHandler "\<lambda>ob. (HandlerType \<circ> mhHandler) ` set (obHandlers ob)" HandlerType "\<lambda>m h ob. True"
  by unfold_locales (simp_all add: outboxAddHandler_def handlerFor_types split: if_splits, auto)

interpretation mongoadd: handler_adding moAddHandler "\<lambda>ob. (HandlerType \<circ> mhHandler) ` set (moHandlers ob)" HandlerType "\<lambda>m h ob. True"
  by unfold_locales (simp_all add: moAddHandler_def handlerFor_types split: if_splits, auto)

interpretation kafkaadd: handler_adding "kafkaAddHandler replies" "\<lambda>b. set (nbRegistered b)" hdType
  "\<lambda>m h b. joinLoop (nbAppID b @ ''_'' @ hdType h) replies = Ret ()" for replies
  by unfold_locales (auto simp: kafkaAddHandler_def addGuard_def registerHandler_def)

interpretation gcpadd: handler_adding "gcpAddHandler getSub create" "\<lambda>b. set (nbRegistered b)" hdType
  "\<lambda>m h b. length (createFilter m) < 256 \<and> (getSub = NotFound \<and> create = Ret () \<or> getSub = Found (createFilter m, True))"
  for getSub create
  by unfold_locales (auto simp: gcpAddHandler_def addGuard_def registerHandler_def Let_def)

interpretation natsadd: handler_adding "natsAddHandler subscribe" "\<lambda>b. set (nbRegistered b)" hdType
  "\<lambda>m h b. subscribe (createConsumerSubject (nbStream b) m) (nbAppID b @ ''_'' @ hdType h) = Ret ()" for subscribe
  by unfold_locales (auto simp: natsAddHandler_def addGuard_def registerHandler_def Let_def split: if_splits)

interpretation redisadd: handler_adding "redisAddHandler us create" "\<lambda>b. set (nbRegistered b)" hdType
  "\<lambda>m h b. create = Ret ''OK''" for us create
  by unfold_locales (auto simp: redisAddHandler_def addGuard_def registerHandler_def)

section \<open>Properties\<close>

text \<open>
  Adding handlers. Every event bus and outbox passes the test of its package, whatever handlers it has,
  as long as the type of the test's handler is new and the service behind the bus accepts it: a
  nil matcher, a nil handler and a second handler of one type are refused with their own
  errors and change nothing, and the first handler of the type is added.
\<close>

theorem add_handler_acceptance:
  assumes "HandlerType h \<notin> set (registered b)" "\<not> groupNil g"
    and "HandlerType h \<notin> (HandlerType \<circ> mhHandler) ` set (obHandlers ob)"
    and "HandlerType h \<notin> (HandlerType \<circ> mhHandler) ` set (moHandlers mo)"
    and "hdType k \<notin> set (nbRegistered kb)" "joinLoop (nbAppID kb @ ''_'' @ hdType k) replies = Ret ()"
    and "hdType k \<notin> set (nbRegistered gb)" "getSub = NotFound" "create = Ret ()"
    and "hdType k \<notin> set (nbRegistered nb)"
      "subscribe (createConsumerSubject (nbStream nb) (MatchAll [])) (nbAppID nb @ ''_'' @ hdType k) = Ret ()"
    and "hdType k \<notin> set (nbRegistered rb)" "xgroup = Ret ''OK''"
  shows "(\<exists>bg'. busTestAddHandler AddHandler (\<lambda>e. True) h0 h (b, g) = (bg', [], Continue)) \<and>
    (\<exists>ob'. outboxTestAddHandler outboxAddHandler (\<lambda>e. True) h0 h ob = (ob', [], Continue)) \<and>
    (\<exists>mo'. outboxTestAddHandler moAddHandler (\<lambda>e. True) h0 h mo = (mo', [], Continue)) \<and>
    (\<exists>kb'. busTestAddHandler (kafkaAddHandler replies) (MatchAll []) k0 k kb = (kb', [], Continue)) \<and>
    (\<exists>gb'. busTestAddHandler (gcpAddHandler getSub create) (MatchAll []) k0 k gb = (gb', [], Continue)) \<and>
    (\<exists>nb'. busTestAddHandler (natsAddHandler subscribe) (MatchAll []) k0 k nb = (nb', [], Continue)) \<and>
    (\<exists>rb'. busTestAddHandler (redisAddHandler us xgroup) (MatchAll []) k0 k rb = (rb', [], Continue))"
  by (intro conjI localadd.bus_test_passes outboxadd.outbox_test_passes mongoadd.outbox_test_passes kafkaadd.bus_test_passes
      gcpadd.bus_test_passes natsadd.bus_test_passes redisadd.bus_test_passes)
    (use assms in simp_all)

theorem add_handler_acceptance_witness:
  "\<exists>bg'. busTestAddHandler AddHandler (\<lambda>e. True) \<lparr>HandlerType = ''no-matcher'', HandleEvent = (\<lambda>c ev n. (Suc n, Ret ()))\<rparr>
      \<lparr>HandlerType = ''multi'', HandleEvent = (\<lambda>c ev n. (Suc n, Ret ()))\<rparr> (NewEventBus, NewGroup) = (bg', [], Continue) \<and>
    (\<exists>kb'. busTestAddHandler (kafkaAddHandler [Groups [], Groups [''app_counter'']]) (MatchAll []) countingHandler countingHandler demoKafka =
      (kb', [], Continue))"
  using add_handler_acceptance [where h = "\<lparr>HandlerType = ''multi'', HandleEvent = (\<lambda>c ev n. (Suc n, Ret ()))\<rparr>"
      and h0 = "\<lparr>HandlerType = ''no-matcher'', HandleEvent = (\<lambda>c ev n. (Suc n, Ret ()))\<rparr>" and b = NewEventBus and g = NewGroup
      and ob = NewOutbox and mo = demoHost and k = countingHandler and k0 = countingHandler and kb = demoKafka
      and replies = "[Groups [], Groups [''app_counter'']]" and gb = demoGcp and getSub = NotFound and create = "Ret ()"
      and nb = demoNats and subscribe = "\<lambda>_ _. Ret ()" and rb = demoRedis and xgroup = "Ret ''OK''" and us = "\<lambda>_. ''id''"]
  by (simp add: NewEventBus_def NewGroup_def NewOutbox_def demoKafka_def demoGcp_def demoNats_def newNetBus_def netBus.defs kafkaBus.defs
      gcpBus.defs natsBus.defs countingHandler_def demoRedis_def redisBus.defs demoHost_def demoMh_def)

end
