(* ===== verification/Acceptance_Codec.thy ===== *)
theory Acceptance_Codec
  imports Acceptance Codec EventStore_Mongo2
begin

text \<open>
  The acceptance tests of event and command codecs (\<^verbatim>\<open>codec/acceptance_testing.go\<close>) and of snapshot
  stores (\<^verbatim>\<open>eventstore/acceptance_testing.go\<close>). The JSON and BSON codecs pass the first two for
  every encoder that keeps what those formats document, and the MongoDB event store passes the
  third for every database that inserts and finds snapshots as documented.
\<close>

section \<open>The context of the mocks package\<close>

definition WithContextOne :: "ctx \<Rightarrow> string \<Rightarrow> ctx" where
  "WithContextOne c val = context_WithValue c (OtherKey ''contextKeyOne'') (GString val)"

definition ContextOne :: "ctx \<Rightarrow> string option" where
  "ContextOne c = asString (ctxValue c (OtherKey ''contextKeyOne''))"

definition oneMarshal :: ContextMarshalFunc where
  "oneMarshal c = entry ''context_one'' GString (ContextOne c)"

definition oneUnmarshal :: ContextUnmarshalFunc where
  "oneUnmarshal c vals = (case asString (map_of vals ''context_one'') of Some s \<Rightarrow> WithContextOne c s | None \<Rightarrow> c)"

text \<open>The \<^verbatim>\<open>init\<close> function of the package.\<close>

definition mocksContexts :: "ctxCodecs \<Rightarrow> ctxCodecs" where
  "mocksContexts k = RegisterContextUnmarshaler (RegisterContextMarshaler k oneMarshal) oneUnmarshal"

section \<open>The codec tests\<close>

definition codecNested :: gvalue where
  "codecNested = GStruct ''Nested'' [pubField ''Bool'' (GBool True), pubField ''String'' (GString ''string''), pubField ''Number'' (GFloat 42)]"

text \<open>The fields that the test's event data and its command share.\<close>

definition codecFields :: "gfield list" where
  "codecFields =
     [pubField ''Bool'' (GBool True), pubField ''String'' (GString ''string''), pubField ''Number'' (GFloat 42),
      pubField ''Slice'' (GSlice (Some [GString ''a'', GString ''b''])),
      pubField ''Map'' (GMap (Some [(''key'', GString ''value'')])),
      pubField ''Time'' (GTime testTime), pubField ''TimeRef'' (GPtr (Some (GTime testTime))), pubField ''NullTime'' (GPtr None),
      pubField ''Struct'' codecNested, pubField ''StructRef'' (GPtr (Some codecNested)), pubField ''NullStruct'' (GPtr None)]"

definition codecID :: UUID where
  "codecID = 0x10a7ec0f7f2b46f5bca1877b6e33c9fd"

definition codecEventData :: gvalue where
  "codecEventData = gstructPtr ''EventData'' codecFields"

definition codecEvent :: event where
  "codecEvent = NewEvent ''CodecEvent'' (Some codecEventData) testTime
     [ForAggregate mocks_AggregateType codecID 1, WithMetadata (Some [''num'' \<mapsto> GFloat 42])]"

definition codecCommand :: command where
  "codecCommand = \<lparr>cmdAggregateID = codecID, cmdAggregateType = ''CodecAggregate'', cmdType = ''CodecCommand'', cmdID = None,
     cmdValue = gstructPtr ''Command'' (pubField ''ID'' (GUUID codecID) # codecFields)\<rparr>"

definition EventCodecAcceptanceTest :: "eventCodec \<Rightarrow> string \<Rightarrow> string list \<times> flow" where
  "EventCodecAcceptanceTest codec expectedBytes =
     (let ctx = WithContextOne context_Background ''testval'' in
      case MarshalEvent codec ctx (Some codecEvent) of
        Panic p \<Rightarrow> ([], Crash p)
      | r \<Rightarrow>
          (let b = (case r of Ret b \<Rightarrow> b | _ \<Rightarrow> '''');
               ms = tErrorIf (\<not> is_Ret r) ''there should be no error:'' @
                    tErrorIf (b \<noteq> expectedBytes) ''the encoded bytes should be correct:''
           in case UnmarshalEvent codec context_Background b of
                Panic p \<Rightarrow> (ms, Crash p)
              | Fail x \<Rightarrow> (ms @ [''there should be no error:''], Crash ''nil pointer dereference'')
              | Ret (e, c) \<Rightarrow>
                  (ms @ tErrorIf (CompareEvents e codecEvent [] \<noteq> Ret ()) ''the decoded event was incorrect:'' @
                   tErrorIf (ContextOne c \<noteq> Some ''testval'') ''the decoded context was incorrect:'', Continue)))"

text \<open>The decoded command can be nil; without an error \<^verbatim>\<open>reflect.DeepEqual\<close> tells it from the command.\<close>

definition CommandCodecAcceptanceTest ::
    "(ctx \<Rightarrow> command option \<Rightarrow> string go) \<Rightarrow> (ctx \<Rightarrow> string \<Rightarrow> (command option \<times> ctx) go) \<Rightarrow> string \<Rightarrow> string list \<times> flow" where
  "CommandCodecAcceptanceTest marshal unmarshal expectedBytes =
     (let ctx = WithContextOne context_Background ''testval'' in
      case marshal ctx (Some codecCommand) of
        Panic p \<Rightarrow> ([], Crash p)
      | r \<Rightarrow>
          (let b = (case r of Ret b \<Rightarrow> b | _ \<Rightarrow> '''');
               ms = tErrorIf (\<not> is_Ret r) ''there should be no error:'' @
                    tErrorIf (b \<noteq> expectedBytes) ''the encoded bytes should be correct:''
           in case unmarshal context_Background b of
                Panic p \<Rightarrow> (ms, Crash p)
              | Fail x \<Rightarrow> (ms @ [''there should be no error:'', ''the decoded command was incorrect:''], Crash ''nil pointer dereference'')
              | Ret (cmd, c) \<Rightarrow>
                  (ms @ tErrorIf (cmd \<noteq> Some codecCommand) ''the decoded command was incorrect:'' @
                   tErrorIf (ContextOne c \<noteq> Some ''testval'') ''the decoded context was incorrect:'', Continue)))"

section \<open>Codecs that pass\<close>

lemma MarshalContext_mocks:
  "MarshalContext (mocksContexts (ehCodecs us up)) (WithContextOne context_Background ''testval'') =
     Ret [(''context_one'', GString ''testval'')]"
  by (simp add: MarshalContext_def mocksContexts_def RegisterContextMarshaler_def RegisterContextUnmarshaler_def ehCodecs_funcs
      ctx_codec_defs ctx_access_defs oneMarshal_def ContextOne_def WithContextOne_def entry_def context_WithValue_def context_Background_def)

lemma UnmarshalContext_mocks:
  "ContextOne (UnmarshalContext (mocksContexts (ehCodecs us up)) c (Some [(''context_one'', GString ''testval'')])) = Some ''testval''"
  by (simp add: UnmarshalContext_def mocksContexts_def RegisterContextMarshaler_def RegisterContextUnmarshaler_def unmarshalLoop_append
      oneUnmarshal_def ContextOne_def WithContextOne_def)

text \<open>
  What the tests ask of an encoder, with \<open>ts\<close> and \<open>num\<close> what it does to times and to dynamic values:
  it encodes the event and the command of the tests as expected, and what it decodes is what the format keeps of them.
\<close>

definition encodesTestEvent :: "wireEnv \<Rightarrow> (time \<Rightarrow> time) \<Rightarrow> (gvalue \<Rightarrow> gvalue) \<Rightarrow> string \<Rightarrow> bool" where
  "encodesTestEvent env ts num b \<longleftrightarrow> (\<exists>raw. dc_Marshal (weData env) codecEventData = Ret raw \<and>
     representable (weData env) ''CodecEvent'' (Some codecEventData) \<and>
     (let w = evtOf env codecEvent [(''context_one'', GString ''testval'')] raw in
      weEncode env w = Ret b \<and> representsEvt env ts num w))"

definition encodesTestCommand :: "wireEnv \<Rightarrow> (gvalue \<Rightarrow> gvalue) \<Rightarrow> string \<Rightarrow> bool" where
  "encodesTestCommand env num b \<longleftrightarrow> (\<exists>raw fresh. weMarshalCmd env codecCommand = Ret raw \<and>
     CreateCommand (weCommands env) ''CodecCommand'' = Ret fresh \<and> weUnmarshalCmd env raw fresh = Ret (Some codecCommand) \<and>
     (let w = \<lparr>wCommandType = ''CodecCommand'', wCommand = raw, wCmdContext = Some [(''context_one'', GString ''testval'')]\<rparr> in
      weEncodeCmd env w = Ret b \<and> representsCmd env num w))"

definition testFormat :: "wireEnv \<Rightarrow> (gvalue \<Rightarrow> gvalue) \<Rightarrow> bool" where
  "testFormat env num \<longleftrightarrow> weContexts env = mocksContexts (ehCodecs (weUUIDString env) (weUUIDParse env)) \<and>
     weUUIDParse env (weUUIDString env codecID) = Some codecID \<and> num (GFloat 42) = GFloat 42 \<and>
     num (GString ''testval'') = GString ''testval''"

lemma codecEvent_fields [simp]:
  "eventType codecEvent = ''CodecEvent''" "data codecEvent = Some codecEventData" "timestamp codecEvent = testTime"
  "aggregateID codecEvent = codecID" "metadata codecEvent = Some [''num'' \<mapsto> GFloat 42]"
  by (simp_all add: codecEvent_def NewEvent_def ForAggregate_def WithMetadata_def)

lemma event_test_passes:
  assumes "testFormat env num" "encodesTestEvent env ts num b" "ts testTime = testTime"
    and "MarshalEvent codec = marshalEvent env" "UnmarshalEvent codec = unmarshalEvent env"
  shows "EventCodecAcceptanceTest codec b = ([], Continue)"
proof -
  let ?w = "evtOf env codecEvent [(''context_one'', GString ''testval'')]"
  from assms(2) obtain raw where raw: "dc_Marshal (weData env) codecEventData = Ret raw"
    and rep: "representable (weData env) ''CodecEvent'' (Some codecEventData)"
    and enc: "weEncode env (?w raw) = Ret b" and dec: "representsEvt env ts num (?w raw)"
    by (auto simp: encodesTestEvent_def Let_def)
  have md: "marshalData (weData env) (Some codecEventData) = Ret raw" using raw by (simp add: marshalData_def)
  have k: "weContexts env = mocksContexts (ehCodecs (weUUIDString env) (weUUIDParse env))"
    and num: "num (GFloat 42) = GFloat 42" "num (GString ''testval'') = GString ''testval''"
    using assms(1) by (simp_all add: testFormat_def)
  have m: "marshalEvent env (WithContextOne context_Background ''testval'') (Some codecEvent) = Ret b"
    using enc md by (simp add: marshalEvent_def k MarshalContext_mocks)
  have mt: "(\<lambda>x. map_option num ((if x = ''num'' then Some (GFloat 42) else None))) = [''num'' \<mapsto> GFloat 42]"
    by (auto simp: num)
  from dec enc have "weDecode env b = Ret (wireBack ts num (?w raw))" by (simp add: representsEvt_def)
  then have "unmarshalEvent env context_Background b = Ret (codecEvent,
      UnmarshalContext (mocksContexts (ehCodecs (weUUIDString env) (weUUIDParse env))) context_Background (Some [(''context_one'', GString ''testval'')]))"
    using assms(1,3) unmarshalData_marshalData [OF rep md] num(2)
    by (simp add: unmarshalEvent_def wireBack_def evtOf_def testFormat_def k mt Let_def)
      (simp add: codecEvent_def NewEvent_def ForAggregate_def WithMetadata_def)
  with m show ?thesis
    by (simp add: EventCodecAcceptanceTest_def assms(4,5) tErrorIf_def UnmarshalContext_mocks)
qed

lemma command_test_passes:
  assumes "testFormat env num" "encodesTestCommand env num b"
  shows "CommandCodecAcceptanceTest (marshalCommand env) (unmarshalCommand env) b = ([], Continue)"
proof -
  let ?w = "\<lambda>raw. \<lparr>wCommandType = ''CodecCommand'', wCommand = raw, wCmdContext = Some [(''context_one'', GString ''testval'')]\<rparr>"
  from assms(2) obtain raw fresh where raw: "weMarshalCmd env codecCommand = Ret raw"
    and fresh: "CreateCommand (weCommands env) ''CodecCommand'' = Ret fresh" "weUnmarshalCmd env raw fresh = Ret (Some codecCommand)"
    and enc: "weEncodeCmd env (?w raw) = Ret b" and dec: "representsCmd env num (?w raw)"
    by (auto simp: encodesTestCommand_def Let_def)
  have k: "weContexts env = mocksContexts (ehCodecs (weUUIDString env) (weUUIDParse env))"
    and num: "num (GString ''testval'') = GString ''testval''" using assms(1) by (simp_all add: testFormat_def)
  have ty: "cmdType codecCommand = ''CodecCommand''" by (simp add: codecCommand_def)
  have m: "marshalCommand env (WithContextOne context_Background ''testval'') (Some codecCommand) = Ret b"
    using enc raw by (simp add: marshalCommand_def k MarshalContext_mocks ty)
  from dec enc have "weDecodeCmd env b = Ret (?w raw)" by (simp add: representsCmd_def num)
  then have "unmarshalCommand env context_Background b = Ret (Some codecCommand,
      UnmarshalContext (mocksContexts (ehCodecs (weUUIDString env) (weUUIDParse env))) context_Background (Some [(''context_one'', GString ''testval'')]))"
    using fresh by (simp add: unmarshalCommand_def k)
  with m show ?thesis by (simp add: CommandCodecAcceptanceTest_def tErrorIf_def UnmarshalContext_mocks)
qed

section \<open>The snapshot test\<close>

text \<open>
  The test of a store that may have snapshots. \<open>now1\<close> and \<open>now2\<close> are the timestamps of the two
  snapshots. \<^verbatim>\<open>assert.Equal\<close> reads the fields of the loaded snapshot, which panics when it is nil.
\<close>

definition snapshotOf :: "gint \<Rightarrow> time \<Rightarrow> string \<Rightarrow> Snapshot" where
  "snapshotOf v now t = \<lparr>snapVersion = v, snapAggregateType = ''test'', snapTimestamp = now,
     snapState = Some (gstructPtr ''TestData'' [pubField ''Data'' (GString t)])\<rparr>"

definition expectStoreErr :: "('s \<Rightarrow> 's \<times> unit go) \<Rightarrow> 's testStep" where
  "expectStoreErr op = afterCall op (\<lambda>r.
     (tErrorIf (case r of Fail x \<Rightarrow> \<not> errors_AsEventStoreError x | _ \<Rightarrow> True) ''there should be a event store error:'', Continue))"

definition expectSnapshot :: "Snapshot \<Rightarrow> ('s \<Rightarrow> 's \<times> Snapshot option go) \<Rightarrow> 's testStep" where
  "expectSnapshot sn op = afterCall op (\<lambda>r.
     case r of
       Ret (Some l) \<Rightarrow> (tErrorIf (snapVersion sn \<noteq> snapVersion l) ''Not equal: Version'' @
         tErrorIf (snapAggregateType sn \<noteq> snapAggregateType l) ''Not equal: AggregateType'' @
         tErrorIf (snapState sn \<noteq> snapState l) ''Not equal: State'', Continue)
     | _ \<Rightarrow> (tErrorIf (\<not> is_Ret r) ''there should  be an error'', Crash ''nil pointer dereference''))"

definition expectNoSnapshot :: "('s \<Rightarrow> 's \<times> Snapshot option go) \<Rightarrow> 's testStep" where
  "expectNoSnapshot op = afterCall op (\<lambda>r.
     (tErrorIf (case r of Ret (Some _) \<Rightarrow> True | _ \<Rightarrow> False) ''snapshot should be nil, it doesnt exists'' @
      tErrorIf (\<not> is_Ret r) ''there should not be an error:'', Continue))"

definition SnapshotAcceptanceTest ::
    "'s SnapshotStore option \<Rightarrow> ctx \<Rightarrow> UUID \<Rightarrow> UUID \<Rightarrow> time \<Rightarrow> time \<Rightarrow> 's testStep" where
  "SnapshotAcceptanceTest store c i missing now1 now2 =
     (case store of
        None \<Rightarrow> runSteps []
      | Some ss \<Rightarrow>
          (let snapshot1 = snapshotOf 1 now1 ''this is incredible data'';
               snapshot2 = snapshotOf 2 now2 ''this is new incredible data''
           in runSteps
               [expectStoreErr (ssSaveSnapshot ss c i \<lparr>snapVersion = 0, snapAggregateType = '''', snapTimestamp = 0, snapState = None\<rparr>),
                expectStoreErr (ssSaveSnapshot ss c i \<lparr>snapVersion = 0, snapAggregateType = ''test'', snapTimestamp = 0, snapState = None\<rparr>),
                expectOk (ssSaveSnapshot ss c i snapshot1),
                expectNoSnapshot (ssLoadSnapshot ss c missing),
                expectSnapshot snapshot1 (ssLoadSnapshot ss c i),
                expectOk (ssSaveSnapshot ss c i snapshot2),
                expectSnapshot snapshot2 (ssLoadSnapshot ss c i)]))"

text \<open>
  What the snapshot collection does: an insert succeeds and adds the document, and a search finds
  the document of the aggregate with the highest version or reports that there is none.
\<close>

definition snapshotLaws :: "'d esColls \<Rightarrow> ('d \<Rightarrow> SnapshotRecord list) \<Rightarrow> bool" where
  "snapshotLaws C snaps \<longleftrightarrow>
     (\<forall>c rec d. \<exists>d'. InsertSnapshot C c rec d = (d', Ret ()) \<and> snaps d' = rec # snaps d) \<and>
     (\<forall>c aid d. (\<forall>x \<in> set (snaps d). srAggregateID x \<noteq> aid) \<longrightarrow> FindSnapshot C c aid d = Fail (Sentinel MongoErrNoDocuments)) \<and>
     (\<forall>c aid d rec. rec \<in> set (snaps d) \<and> srAggregateID rec = aid \<and>
        (\<forall>x \<in> set (snaps d). srAggregateID x = aid \<and> x \<noteq> rec \<longrightarrow> srVersion x <s srVersion rec) \<longrightarrow>
        FindSnapshot C c aid d = Ret (Ret rec))"

text \<open>The coding of the test's snapshots: the factory is registered and what was encoded is decoded.\<close>

definition snapshotCoding :: "snapEnv \<Rightarrow> UUID \<Rightarrow> Snapshot \<Rightarrow> bool" where
  "snapshotCoding env aid sn \<longleftrightarrow> (\<exists>f raw z. registry_get (snapFactories env) (snapAggregateType sn) = Some f \<and>
     snap_Marshal env sn = Ret raw \<and> gzip_compress env raw = Ret z \<and> gzip_decompress env z = Ret raw \<and>
     snap_Unmarshal env raw (f aid) = Ret sn)"

lemma snapshotLaws_find:
  "snapshotLaws C snaps \<Longrightarrow> rec \<in> set (snaps d) \<Longrightarrow> srAggregateID rec = aid \<Longrightarrow>
   (\<And>x. x \<in> set (snaps d) \<Longrightarrow> srAggregateID x = aid \<Longrightarrow> x \<noteq> rec \<Longrightarrow> srVersion x <s srVersion rec) \<Longrightarrow>
   FindSnapshot C c aid d = Ret (Ret rec)"
  unfolding snapshotLaws_def by blast

lemma mongo2_snapshot_save:
  assumes "snapshotLaws C snaps" "snapshotCoding env aid sn" "snapAggregateType sn \<noteq> ''''" "snapState sn \<noteq> None"
  shows "\<exists>d' rec. mongo2SaveSnapshot env C now c aid sn d = (d', Ret ()) \<and> snaps d' = rec # snaps d \<and>
    srAggregateID rec = aid \<and> srVersion rec = snapVersion sn \<and>
    ((\<forall>x \<in> set (snaps d). srAggregateID x = aid \<longrightarrow> srVersion x <s snapVersion sn) \<longrightarrow>
       mongo2LoadSnapshot env C c' aid d' = (d', Ret (Some sn)))"
proof -
  from assms(2) obtain f raw z where cod: "registry_get (snapFactories env) (snapAggregateType sn) = Some f"
    "snap_Marshal env sn = Ret raw" "gzip_compress env raw = Ret z" "gzip_decompress env z = Ret raw"
    "snap_Unmarshal env raw (f aid) = Ret sn" by (auto simp: snapshotCoding_def)
  let ?rec = "\<lparr>srAggregateID = aid, srRawData = z, srTimestamp = now, srVersion = snapVersion sn, srAggregateType = snapAggregateType sn\<rparr>"
  from assms(1) obtain d' where ins: "InsertSnapshot C c ?rec d = (d', Ret ())" "snaps d' = ?rec # snaps d"
    unfolding snapshotLaws_def by meson
  have "FindSnapshot C c' aid d' = Ret (Ret ?rec)" if "\<forall>x \<in> set (snaps d). srAggregateID x = aid \<longrightarrow> srVersion x <s snapVersion sn"
    by (rule snapshotLaws_find [OF assms(1)]) (use that ins(2) in auto)
  with cod have "mongo2LoadSnapshot env C c' aid d' = (d', Ret (Some sn))"
    if "\<forall>x \<in> set (snaps d). srAggregateID x = aid \<longrightarrow> srVersion x <s snapVersion sn"
    using that by (simp add: mongo2LoadSnapshot_def CreateSnapshotData_def Let_def)
  with assms(3,4) cod ins show ?thesis by (auto simp: mongo2SaveSnapshot_def)
qed

section \<open>Properties\<close>

text \<open>
  The MongoDB event store passes the snapshot test: snapshots without a type or state are refused with
  an event store error, an unknown aggregate has no snapshot, and after each of the two saves the
  latest snapshot is the one that is loaded.
\<close>

theorem mongo2_snapshot_acceptance:
  assumes "snapshotLaws C snaps" "snapshotCoding env i (snapshotOf 1 now1 ''this is incredible data'')"
    and "snapshotCoding env i (snapshotOf 2 now2 ''this is new incredible data'')"
    and "\<forall>x \<in> set (snaps d). srAggregateID x \<noteq> i \<and> srAggregateID x \<noteq> missing" "missing \<noteq> i"
  shows "\<exists>d'. SnapshotAcceptanceTest (Some \<lparr>ssLoadSnapshot = mongo2LoadSnapshot env C, ssSaveSnapshot = mongo2SaveSnapshot env C now\<rparr>)
    c i missing now1 now2 d = (d', [], Continue)"
proof -
  let ?s1 = "snapshotOf 1 now1 ''this is incredible data''" and ?s2 = "snapshotOf 2 now2 ''this is new incredible data''"
  have flds: "snapAggregateType (snapshotOf v t x) \<noteq> ''''" "snapState (snapshotOf v t x) \<noteq> None" "snapVersion (snapshotOf v t x) = v" for v t x
    by (simp_all add: snapshotOf_def)
  from mongo2_snapshot_save [OF assms(1,2) flds(1,2), where now = now and c = c and c' = c and d = d] assms(4)
  obtain d1 r1 where d1: "mongo2SaveSnapshot env C now c i ?s1 d = (d1, Ret ())" "snaps d1 = r1 # snaps d"
    "srAggregateID r1 = i" "srVersion r1 = 1" "mongo2LoadSnapshot env C c i d1 = (d1, Ret (Some ?s1))"
    by (auto simp: flds)
  have "\<forall>x \<in> set (snaps d1). srAggregateID x = i \<longrightarrow> srVersion x <s 2" using d1 assms(4) by (auto simp: word_sless_alt)
  with mongo2_snapshot_save [OF assms(1,3) flds(1,2), where now = now and c = c and c' = c and d = d1]
  obtain d2 where d2: "mongo2SaveSnapshot env C now c i ?s2 d1 = (d2, Ret ())" "mongo2LoadSnapshot env C c i d2 = (d2, Ret (Some ?s2))"
    by (auto simp: flds)
  have "\<forall>x \<in> set (snaps d1). srAggregateID x \<noteq> missing" using d1 assms(4,5) by auto
  with assms(1) have "FindSnapshot C c missing d1 = Fail (Sentinel MongoErrNoDocuments)" by (simp add: snapshotLaws_def)
  then have none: "mongo2LoadSnapshot env C c missing d1 = (d1, Ret None)" by (simp add: mongo2LoadSnapshot_def)
  have bad: "mongo2SaveSnapshot env C now c i \<lparr>snapVersion = 0, snapAggregateType = '''', snapTimestamp = 0, snapState = None\<rparr> d =
      (d, Fail (EventStoreError (Some (NewError ''aggregate type is empty'')) EventStoreOpSaveSnapshot '''' i 0 []))"
    "mongo2SaveSnapshot env C now c i \<lparr>snapVersion = 0, snapAggregateType = ''test'', snapTimestamp = 0, snapState = None\<rparr> d =
      (d, Fail (EventStoreError (Some (NewError ''snapshots state is nil'')) EventStoreOpSaveSnapshot ''test'' i 0 []))"
    by (simp_all add: mongo2SaveSnapshot_def)
  show ?thesis
    by (simp add: SnapshotAcceptanceTest_def Let_def expectStoreErr_def expectOk_def expectNoSnapshot_def expectSnapshot_def
        afterCall_def tErrorIf_def bad d1 d2 none)
qed

definition testSnapEnv :: snapEnv where
  "testSnapEnv = \<lparr>snapFactories = \<lparr>items = [''test'' \<mapsto> (\<lambda>_. None)], regName = ''snapshot data''\<rparr>,
     snap_Marshal = (\<lambda>sn. Ret (if snapVersion sn = 1 then ''1'' else ''2'')),
     snap_Unmarshal = (\<lambda>b _. Ret (if b = ''1'' then snapshotOf 1 5 ''this is incredible data'' else snapshotOf 2 6 ''this is new incredible data'')),
     gzip_compress = (\<lambda>s. Ret (s @ ''.gz'')), gzip_decompress = (\<lambda>s. Ret (take (length s - 3) s))\<rparr>"

lemma demoColls_snapshots: "snapshotLaws demoColls vSnapshots"
proof -
  have "FindSnapshot demoColls c aid d = Ret (Ret rec)"
    if rec: "rec \<in> set (vSnapshots d)" "srAggregateID rec = aid"
      and top: "\<forall>x \<in> set (vSnapshots d). srAggregateID x = aid \<and> x \<noteq> rec \<longrightarrow> srVersion x <s srVersion rec" for c aid d rec
  proof -
    let ?k = "\<lambda>r. - sint (srVersion r)" and ?rs = "filter (\<lambda>r. srAggregateID r = aid) (vSnapshots d)"
    have mem: "rec \<in> set (sort_key ?k ?rs)" using rec by simp
    then obtain r rs where srt: "sort_key ?k ?rs = r # rs" by (cases "sort_key ?k ?rs") auto
    have "sorted (map ?k (r # rs))" using sorted_sort_key [of ?k ?rs] srt by simp
    moreover have "r \<in> set ?rs" using srt set_sort [of ?k ?rs] by (metis list.set_intros(1))
    ultimately have "sint (srVersion rec) \<le> sint (srVersion r)" "srAggregateID r = aid" "r \<in> set (vSnapshots d)" using mem srt by auto
    with top have "r = rec" by (auto simp: word_sless_alt)
    with srt show ?thesis by (simp add: demoColls_def)
  qed
  moreover have "FindSnapshot demoColls c aid d = Fail (Sentinel MongoErrNoDocuments)"
    if "\<forall>x \<in> set (vSnapshots d). srAggregateID x \<noteq> aid" for c aid d
  proof -
    from that have "filter (\<lambda>r. srAggregateID r = aid) (vSnapshots d) = []" by (simp add: filter_empty_conv)
    then show ?thesis by (simp add: demoColls_def)
  qed
  moreover have "\<exists>d'. InsertSnapshot demoColls c rec d = (d', Ret ()) \<and> vSnapshots d' = rec # vSnapshots d" for c rec d
    by (simp add: demoColls_def)
  ultimately show ?thesis unfolding snapshotLaws_def by blast
qed

theorem mongo2_snapshot_acceptance_witness:
  "\<exists>d'. SnapshotAcceptanceTest (Some \<lparr>ssLoadSnapshot = mongo2LoadSnapshot testSnapEnv demoColls,
      ssSaveSnapshot = mongo2SaveSnapshot testSnapEnv demoColls 0\<rparr>) context_Background 1 2 5 6 demo2View = (d', [], Continue)"
  by (rule mongo2_snapshot_acceptance [OF demoColls_snapshots])
    (simp_all add: snapshotCoding_def testSnapEnv_def snapshotOf_def registry_get_def demo2View_def)

text \<open>
  The JSON and BSON codecs pass the acceptance tests of event and command codecs, for every encoder
  that encodes the values of the tests to the expected bytes and keeps what the format documents of
  them: the decoded event, command and context are those that were encoded.
\<close>

theorem codec_acceptance:
  assumes "testFormat json jnum" "encodesTestEvent json id jnum jb" "encodesTestCommand json jnum jc"
    and "testFormat bson bnum" "encodesTestEvent bson bsonTime bnum bb" "encodesTestCommand bson bnum bc"
  shows "EventCodecAcceptanceTest (jsonEventCodec json) jb = ([], Continue) \<and>
    CommandCodecAcceptanceTest (jsonMarshalCommand json) (jsonUnmarshalCommand json) jc = ([], Continue) \<and>
    EventCodecAcceptanceTest (bsonEventCodec bson) bb = ([], Continue) \<and>
    CommandCodecAcceptanceTest (bsonMarshalCommand bson) (bsonUnmarshalCommand bson) bc = ([], Continue)"
proof (intro conjI)
  show "EventCodecAcceptanceTest (jsonEventCodec json) jb = ([], Continue)"
    by (rule event_test_passes [OF assms(1,2)]) (simp_all add: jsonEventCodec_def jsonMarshalEvent_def jsonUnmarshalEvent_def)
  show "EventCodecAcceptanceTest (bsonEventCodec bson) bb = ([], Continue)"
    by (rule event_test_passes [OF assms(4,5)])
      (simp_all add: bsonEventCodec_def bsonMarshalEvent_def bsonUnmarshalEvent_def bsonTime_def testTime_def)
qed (use command_test_passes [OF assms(1,3)] command_test_passes [OF assms(4,6)] in
    \<open>simp_all add: jsonMarshalCommand_def jsonUnmarshalCommand_def bsonMarshalCommand_def bsonUnmarshalCommand_def\<close>)

text \<open>A format whose encoder knows the event and the command of the tests only.\<close>

definition testWire :: wireEnv where
  "testWire =
     (let vals = [(''context_one'', GString ''testval'')];
          w = \<lparr>wEventType = ''CodecEvent'', wRawData = ''data'', wTimestamp = testTime, wAggregateType = mocks_AggregateType,
            wAggregateID = unaryID codecID, wVersion = 1, wMetadata = Some [''num'' \<mapsto> GFloat 42], wContext = Some vals\<rparr>
      in \<lparr>weData = \<lparr>dcFactories = \<lparr>items = [''CodecEvent'' \<mapsto> Some codecEventData], regName = ''event data''\<rparr>,
            dc_Marshal = (\<lambda>v. Ret ''data''), dc_Unmarshal = (\<lambda>b d. Ret d)\<rparr>,
          weEncode = (\<lambda>_. Ret ''event''), weDecode = (\<lambda>b. Ret w),
          weCommands = \<lparr>items = [''CodecCommand'' \<mapsto> Some codecCommand], regName = ''command''\<rparr>,
          weMarshalCmd = (\<lambda>cmd. Ret ''{}''), weUnmarshalCmd = (\<lambda>b fresh. Ret fresh),
          weEncodeCmd = (\<lambda>w. Ret ''command''),
          weDecodeCmd = (\<lambda>b. Ret \<lparr>wCommandType = ''CodecCommand'', wCommand = ''{}'', wCmdContext = Some vals\<rparr>),
          weContexts = mocksContexts (ehCodecs unaryID unaryParseOpt), weUUIDString = unaryID, weUUIDParse = unaryParseOpt\<rparr>)"

lemma testWire_format:
  "testFormat testWire id" "encodesTestCommand testWire id ''command''"
  "ts testTime = testTime \<Longrightarrow> encodesTestEvent testWire ts id ''event''"
  by (auto simp: testFormat_def testWire_def Let_def encodesTestCommand_def CreateCommand_def registry_get_def representsCmd_def
      encodesTestEvent_def representable_def CreateEventData_def representsEvt_def wireBack_def evtOf_def
      option.map_id map_option_idI codecEvent_def NewEvent_def ForAggregate_def WithMetadata_def)

theorem codec_acceptance_witness:
  "EventCodecAcceptanceTest (jsonEventCodec testWire) ''event'' = ([], Continue) \<and>
   EventCodecAcceptanceTest (bsonEventCodec testWire) ''event'' = ([], Continue)"
  using codec_acceptance [of testWire id "''event''" "''command''" testWire id "''event''" "''command''"]
    testWire_format(1,2) testWire_format(3) [of id] testWire_format(3) [of bsonTime]
  by (simp add: bsonTime_def testTime_def)

end
