(* ===== verification/Spec2Isabelle.thy ===== *)
theory Spec2Isabelle
  imports Context Dispatch Guestlist AggregateStore_Model EventBus_Local Namespaces Outbox_Memory Projector Repo Repo_Middleware
    EventStore_Mongo EventStore_Mongo2 Scheduler_Command Repo_Mongo Outbox_Mongo Transactional_Outbox
    Codec Event_Middleware Waiter EventStore_Recorder EventBus_Kafka EventBus_Gcp EventBus_Nats EventBus_Redis
    Todo Guestlist_Views Http Graceful Tracing Application Todo_Server
    Acceptance Acceptance_Repo Acceptance_Handlers Acceptance_Codec
begin

text \<open>
  Event Horizon, a CQRS and event sourcing toolkit for Go: commands are dispatched to aggregates,
  aggregates emit events, event stores keep them, event buses and outboxes deliver them to event
  handlers, and projectors keep read models in repositories. This is the root of a verification
  library of its code under \<^verbatim>\<open>src/\<close>.

  \<^bold>\<open>Conventions.\<close> A Go call returns an \<open>outcome\<close>: a value, an error or a panic (\<open>Prelude\<close>); errors
  are values of one datatype with the error structs as constructors (\<open>Errors\<close>). Go's \<^verbatim>\<open>int\<close> is a 64-bit
  word. State is passed explicitly; a method under a mutex is one atomic step. Goroutines and hosts
  that interleave are step relations with labelled runs. What the code calls but does not contain
  (the MongoDB driver, JSON and BSON encoding, UUID generation and printing, clocks, message
  brokers) is a parameter; what the code relies on is a named law of the parameter, and every
  property with such a law has a witness on a concrete instance.

  \<^bold>\<open>Theories.\<close>
  \<^item> \<open>Prelude\<close>, \<open>Values\<close>, \<open>Errors\<close>, \<open>Registry\<close>, \<open>Events\<close>, \<open>Context\<close>, \<open>Command_Check\<close>: the root package's data
    (\<^verbatim>\<open>event.go\<close>, \<^verbatim>\<open>command.go\<close>, \<^verbatim>\<open>entity.go\<close>, \<^verbatim>\<open>snapshot.go\<close>, \<^verbatim>\<open>registry.go\<close>, \<^verbatim>\<open>matcher.go\<close>, \<^verbatim>\<open>compare.go\<close>,
    \<^verbatim>\<open>context.go\<close>, \<^verbatim>\<open>command_check.go\<close>).
  \<^item> \<open>EventStore_Spec\<close>: the contract of an event store as a locale, with the lemmas every store gets;
    \<open>EventStore_Memory\<close>, \<open>EventStore_Mongo\<close>, \<open>EventStore_Mongo2\<close> (\<^verbatim>\<open>eventstore/memory\<close>, \<^verbatim>\<open>mongodb\<close>,
    \<^verbatim>\<open>mongodb_v2\<close>) meet it; \<open>Mongo\<close> holds what the MongoDB parts share.
  \<^item> \<open>AggregateStore_Events\<close>, \<open>AggregateStore_Model\<close>, \<open>CommandHandlers\<close>, \<open>Dispatch\<close>: aggregate stores with
    snapshots, the aggregate command handler, the command bus and the command middlewares.
  \<^item> \<open>Repo\<close>, \<open>Repo_Middleware\<close>, \<open>Repo_Mongo\<close>: the repository contracts as locales, the memory, cache,
    version and MongoDB repositories. \<open>Projector\<close>: the projector and the saga handler.
  \<^item> \<open>EventBus_Local\<close>, \<open>Outbox_Memory\<close>, \<open>Outbox_Mongo\<close>, \<open>Transactional_Outbox\<close>, \<open>Namespaces\<close>,
    \<open>Scheduler_Command\<close>: delivery, namespacing and scheduling.
  \<^item> \<open>Guestlist\<close>: the invitation aggregate of the guest list example.

  \<^bold>\<open>What is shown.\<close> The stores keep their histories serial and store all events of a save or none;
  loading returns what was saved; stale saves are refused. Over any store that meets the contract,
  handling a command appends exactly the events the aggregate emitted (proved once in the locale,
  here instantiated on the memory and the MongoDB store). Outboxes deliver at least once under every
  interleaving, and a MongoDB save with an outbox in its transaction queues every event or nothing.
  The local bus delivers in order within its bounds; projections are idempotent under redelivery;
  caches are transparent; the scheduler executes at most once, never early, and loses nothing. Where
  the code does not do this, a theorem states what it does instead.

  \<^bold>\<open>Bounds and fuel.\<close> Histories are shorter than \<open>2^63\<close>, where versions would wrap. The retry loop of the
  version repository is structural in the list of waiting times it is given; no other loop needs
  fuel.

  \<^bold>\<open>Not modelled.\<close> Wire protocols and retries inside drivers, log output, the graceful context of the
  outboxes, the HTTP server and the setup functions of the examples, performance tests and the
  acceptance tests shared by the packages.
\<close>

section \<open>Event sourcing over the in-memory store\<close>

lemma invHandleCommand_appendsOnly: "appendsOnly (faithful guestEnv) (invHandleCommand now)"
  unfolding appendsOnly_def using invHandleCommand_appends invHandleCommand_faithful by blast

text \<open>
  C1: command dispatch. The aggregate command handler over the event sourced aggregate store
  over the in-memory event store, given any command for an aggregate whose method only appends
  events. Whatever the outcome, the store's invariant is kept, no other aggregate's history
  changes, and the aggregate's history grows by some events. When the handler returns no error,
  or events were stored, these are exactly the events that the aggregate's method appended to
  the aggregate that the stored history replays to.
\<close>

theorem command_dispatch:
  assumes "event_sourced_aggregate env (chType h)"
    and "chStore h = sourcedStore us now env (memAggregateStore cenv)"
    and "memInv cenv (esDb s)" and "length (memStream (esDb s) (cmdAggregateID cm)) < 2 ^ 63"
    and "appendsOnly (faithful cenv) hc"
    and "aggHandleCommand hc h c (Some cm) (s, w) = ((s', w'), res)"
  shows "\<exists>es. memInv cenv (esDb s') \<and>
    memStream (esDb s') = (memStream (esDb s))(cmdAggregateID cm := memStream (esDb s) (cmdAggregateID cm) @ es) \<and>
    (res = Ret () \<or> es \<noteq> [] \<longrightarrow>
      (\<exists>a. replay us env c (chType h) (cmdAggregateID cm) (memStream (esDb s) (cmdAggregateID cm)) = Ret a \<and>
         snd (hc c cm a) = Ret () \<and> es = UncommittedEvents (fst (hc c cm a))))"
  using mem.dispatch [where s = "(s, w)", unfolded fst_conv, OF assms(1) storeOver_mem assms(2-6)] by simp

theorem command_dispatch_witness:
  "\<exists>s' w' res es. aggHandleCommand (invHandleCommand 0)
       \<lparr>chType = InvitationAggregateType, chStore = sourcedStore (\<lambda>_. ''u'') 0 invEnv (memAggregateStore guestEnv)\<rparr>
       context_Background (Some (CreateInvite 7 ''Ann'' 30)) (\<lparr>esDb = [], esEventHandler = None\<rparr>, ()) =
       ((s', w'), res) \<and> memStream (esDb s') 7 = es \<and>
       (es \<noteq> [] \<longrightarrow> es = UncommittedEvents (fst (invHandleCommand 0 context_Background
          (CreateInvite 7 ''Ann'' 30) (NewInvitationAggregate 7))))"
proof -
  let ?h = "\<lparr>chType = InvitationAggregateType, chStore = sourcedStore (\<lambda>_. ''u'') 0 invEnv (memAggregateStore guestEnv)\<rparr>"
  let ?cm = "CreateInvite 7 ''Ann'' 30"
  obtain s' w' res where run: "aggHandleCommand (invHandleCommand 0) ?h context_Background (Some ?cm)
      (\<lparr>esDb = [], esEventHandler = None\<rparr>, ()) = ((s', w'), res)" by (metis surj_pair)
  have aid: "cmdAggregateID ?cm = 7" by (simp add: CreateInvite_def inviteCommand_def)
  from command_dispatch [OF _ _ _ _ invHandleCommand_appendsOnly run, of invEnv "\<lambda>_. ''u''" 0]
  have "\<exists>es. memStream (esDb s') 7 = es \<and> (es \<noteq> [] \<longrightarrow> (\<exists>a. replay (\<lambda>_. ''u'') invEnv context_Background
      InvitationAggregateType 7 [] = Ret a \<and> es = UncommittedEvents (fst (invHandleCommand 0 context_Background ?cm a))))"
    using invitation.event_sourced_aggregate_axioms by (auto simp: aid)
  with run show ?thesis by (auto simp: replay_def)
qed

text \<open>
  C2: event sourcing round trip. An aggregate that was loaded from the in-memory store, then
  appended events and was saved successfully, is loaded again exactly as saving left it:
  same state, same version, no uncommitted events.
\<close>

theorem aggregate_load_after_save:
  assumes "event_sourced_aggregate env agt" and "memInv cenv (esDb s)"
    and "length (memStream (esDb s) aid @ UncommittedEvents (appendAll ps a)) < 2 ^ 63"
    and "asLoad us env (memAggregateStore cenv) c agt aid (s, w) = ((s, w), Ret a)"
    and "isVersioned env (appendAll ps a)"
    and "\<forall>e \<in> set (UncommittedEvents (appendAll ps a)). faithful cenv e"
    and "asSave us now env (memAggregateStore cenv) c' (appendAll ps a) (s, w) = ((s', w'), a', Ret ())"
  shows "asLoad us env (memAggregateStore cenv) c'' agt aid (s', w') = ((s', w'), Ret a')"
  using mem.asSave_loaded [where s = "(s, w)", unfolded fst_conv, OF assms(1) storeOver_mem assms(2-5) _ assms(7)] assms(6)
  by blast

theorem aggregate_load_after_save_witness:
  "\<exists>s' w' a'. asSave (\<lambda>_. ''u'') 0 invEnv (memAggregateStore guestEnv) context_Background
       (appendAll [(InviteAcceptedEvent, None, 5, [])] (NewInvitationAggregate 7))
       (\<lparr>esDb = [], esEventHandler = None\<rparr>, ()) = ((s', w'), a', Ret ()) \<and>
     accepted (aggState a') \<and>
     asLoad (\<lambda>_. ''u'') invEnv (memAggregateStore guestEnv) context_Background InvitationAggregateType 7 (s', w') =
       ((s', w'), Ret a')"
proof -
  let ?us = "\<lambda>_. ''u''" and ?r = "memAggregateStore guestEnv" and ?s = "\<lparr>esDb = [], esEventHandler = None\<rparr>"
  let ?a = "NewInvitationAggregate 7" and ?ps = "[(InviteAcceptedEvent, None, 5, [])]"
  have load: "asLoad ?us invEnv ?r context_Background InvitationAggregateType 7 (?s, ()) = ((?s, ()), Ret ?a)"
    by (simp add: asLoad_def memAggregateStore_def memEventStore_def memLoadFrom_def)
  obtain s' w' a' where sv: "asSave ?us 0 invEnv ?r context_Background (appendAll ?ps ?a) (?s, ()) = ((s', w'), a', Ret ())"
    and acc: "accepted (aggState a')"
    by (simp add: asSave_def memAggregateStore_def memEventStore_def memSave_def memSaveDb_def Let_def
        NewInvitationAggregate_def NewAggregateBase_def AppendEvent_def NewEvent_def ForAggregate_def base_defs
        copyEvent_def invApplyEvent_def)
  have "\<forall>e \<in> set (UncommittedEvents (appendAll ?ps ?a)). faithful guestEnv e"
    by (simp add: faithful_guestEnv UncommittedEvents_def NewInvitationAggregate_def NewAggregateBase_def AppendEvent_def
        NewEvent_def ForAggregate_def Let_def)
  moreover have "length (UncommittedEvents (appendAll ?ps ?a)) = 1"
    by (simp add: UncommittedEvents_def NewInvitationAggregate_def NewAggregateBase_def AppendEvent_def Let_def)
  ultimately have "asLoad ?us invEnv ?r context_Background InvitationAggregateType 7 (s', w') = ((s', w'), Ret a')"
    by (intro aggregate_load_after_save [OF invitation.event_sourced_aggregate_axioms _ _ load _ _ sv]) simp_all
  with sv acc show ?thesis by blast
qed

section \<open>Event sourcing over MongoDB\<close>

definition mongoAggregateStore ::
    "dataCodec \<Rightarrow> 'd aggColl \<Rightarrow> ('d, 'w) mongoSession \<Rightarrow> 'w mongoStore \<Rightarrow> ('d \<times> 'w) AggregateStore" where
  "mongoAggregateStore env C S st =
     \<lparr>asStore = \<lparr>esSave = mongoSave env C S st, esLoadFrom = mongoLoadFrom env C, esSnapshots = None\<rparr>,
      asSnapshotStore = None, asSnapshotStrategy = Some NoSnapshotStrategy\<rparr>"

lemma storeOver_mongo: "storeOver (mongoSave env C S st) (mongoLoadFrom env C) (mongoAggregateStore env C S st)"
  by (simp add: storeOver_def mongoAggregateStore_def)

lemma mongoStorable_plain: "data e = None \<Longrightarrow> mongoStorable env id e"
  by (cases e) (simp add: mongoStorable_def newEvt_def decodeEvt_def marshalData_def unmarshalData_def NewEvent_def
      ForAggregate_def WithMetadata_def)



end
